(* ===== verification/Prelude.thy ===== *)
theory Prelude
  imports Main "HOL-Library.List_Lexorder" "HOL-Library.Char_ord"
begin

text \<open>
  Shared vocabulary of the development: Python strings, dictionaries, sorted sets and the
  result type of fallible pure code.

  A Python \<open>str\<close> is modelled by a HOL \<open>string\<close> whose characters are its code points
  U+0000 to U+00FF. Kubernetes names are ASCII, and every other text that is rewritten
  (rather than passed through) is validated against an ASCII pattern, so the bound loses
  nothing but the rewriting of exotic letters. \<open>utf8\<close> is \<open>str.encode()\<close> on that range.
  Dictionaries are association lists in insertion order with distinct keys.
\<close>

named_theorems text_simps \<open>evaluation of the string helpers\<close>
named_theorems set_facts \<open>what a list-valued helper contains\<close>

section \<open>Characters\<close>

definition code :: "char \<Rightarrow> nat" where
  "code c = of_char c"

definition is_lower_letter :: "char \<Rightarrow> bool" where
  "is_lower_letter c \<longleftrightarrow> 97 \<le> code c \<and> code c \<le> 122"

definition is_digit :: "char \<Rightarrow> bool" where
  "is_digit c \<longleftrightarrow> 48 \<le> code c \<and> code c \<le> 57"

definition is_underscore :: "char \<Rightarrow> bool" where
  "is_underscore c \<longleftrightarrow> code c = 95"

definition is_dollar :: "char \<Rightarrow> bool" where
  "is_dollar c \<longleftrightarrow> code c = 36"

text \<open>\<open>str.isspace\<close> on the modelled range.\<close>

definition is_space :: "char \<Rightarrow> bool" where
  "is_space c \<longleftrightarrow> (let n = code c in (9 \<le> n \<and> n \<le> 13) \<or> (28 \<le> n \<and> n \<le> 32) \<or> n = 133 \<or> n = 160)"

text \<open>\<open>str.lower\<close> on the modelled range: the ASCII and the Latin-1 capitals move by 32.\<close>

definition lower_char :: "char \<Rightarrow> char" where
  "lower_char c = (let n = code c in
     if (65 \<le> n \<and> n \<le> 90) \<or> (192 \<le> n \<and> n \<le> 222 \<and> n \<noteq> 215) then char_of (n + 32) else c)"

definition upper_char :: "char \<Rightarrow> char" where
  "upper_char c = (if is_lower_letter c then char_of (code c - 32) else c)"

lemmas char_class_defs =
  is_lower_letter_def is_digit_def is_underscore_def is_dollar_def is_space_def code_def Let_def

lemma code_less [simp]: "code c < 256"
  using of_char_Char by (cases c) (simp add: code_def)

lemma char_of_code [simp]: "char_of (code c) = c"
  by (simp add: code_def)

lemma code_char_of: "n < 256 \<Longrightarrow> code (char_of n) = n"
  by (simp add: code_def)

lemma code_inject: "code c = code d \<longleftrightarrow> c = d"
  by (simp add: code_def)

lemma is_underscore_iff: "is_underscore c \<longleftrightarrow> c = CHR ''_''"
proof -
  have "code CHR ''_'' = 95" by (simp add: code_def)
  then show ?thesis unfolding is_underscore_def by (metis code_inject)
qed

section \<open>Strings\<close>

definition py_lower :: "string \<Rightarrow> string" where
  "py_lower s = map lower_char s"

definition lstrip_if :: "(char \<Rightarrow> bool) \<Rightarrow> string \<Rightarrow> string" where
  "lstrip_if p s = dropWhile p s"

definition rstrip_if :: "(char \<Rightarrow> bool) \<Rightarrow> string \<Rightarrow> string" where
  "rstrip_if p s = rev (dropWhile p (rev s))"

definition strip_if :: "(char \<Rightarrow> bool) \<Rightarrow> string \<Rightarrow> string" where
  "strip_if p s = rstrip_if p (lstrip_if p s)"

definition py_strip :: "string \<Rightarrow> string" where
  "py_strip s = strip_if is_space s"

fun starts_with :: "string \<Rightarrow> string \<Rightarrow> bool" where
  "starts_with [] s = True"
| "starts_with (c # cs) [] = False"
| "starts_with (c # cs) (d # ds) = (c = d \<and> starts_with cs ds)"

fun contains_text :: "string \<Rightarrow> string \<Rightarrow> bool" where
  "contains_text pat [] = (pat = [])"
| "contains_text pat (c # cs) = (starts_with pat (c # cs) \<or> contains_text pat cs)"

fun join_with :: "string \<Rightarrow> string list \<Rightarrow> string" where
  "join_with sep [] = []"
| "join_with sep [x] = x"
| "join_with sep (x # y # zs) = x @ sep @ join_with sep (y # zs)"

text \<open>\<open>s[:n]\<close>, where a negative bound counts from the end.\<close>

definition py_prefix :: "int \<Rightarrow> 'a list \<Rightarrow> 'a list" where
  "py_prefix n s = (if n < 0 then take (nat (int (length s) + n)) s else take (nat n) s)"

text \<open>\<open>str.partition\<close> on a one-character separator: the text before it and, when it occurs,
  the text after it.\<close>

fun partition_at :: "char \<Rightarrow> string \<Rightarrow> string \<times> string option" where
  "partition_at d [] = ([], None)"
| "partition_at d (c # cs) =
     (if c = d then ([], Some cs)
      else (case partition_at d cs of (a, b) \<Rightarrow> (c # a, b)))"

text \<open>\<open>str.split\<close> on a one-character separator.\<close>

fun split_at :: "char \<Rightarrow> string \<Rightarrow> string list" where
  "split_at d [] = [[]]"
| "split_at d (c # cs) =
     (if c = d then [] # split_at d cs
      else (case split_at d cs of [] \<Rightarrow> [[c]] | w # ws \<Rightarrow> (c # w) # ws))"

text \<open>\<open>str.splitlines()[0]\<close> of a non-empty text, cut at the line breaks of the modelled range.\<close>

definition is_line_break :: "char \<Rightarrow> bool" where
  "is_line_break c \<longleftrightarrow> (let n = code c in (10 \<le> n \<and> n \<le> 13) \<or> (28 \<le> n \<and> n \<le> 30) \<or> n = 133)"

definition first_line :: "string \<Rightarrow> string" where
  "first_line s = takeWhile (\<lambda>c. \<not> is_line_break c) s"

text \<open>\<open>str.encode()\<close>: one byte below U+0080, two up to U+00FF.\<close>

fun utf8 :: "string \<Rightarrow> nat list" where
  "utf8 [] = []"
| "utf8 (c # cs) =
     (if code c < 128 then code c # utf8 cs
      else (192 + code c div 64) # (128 + code c mod 64) # utf8 cs)"

text \<open>\<open>bytes.decode(errors="ignore")\<close> of a prefix of such an encoding.\<close>

fun utf8_decode_ignore :: "nat list \<Rightarrow> string" where
  "utf8_decode_ignore [] = []"
| "utf8_decode_ignore [b] = (if b < 128 then [char_of b] else [])"
| "utf8_decode_ignore (b # d # bs) =
     (if b < 128 then char_of b # utf8_decode_ignore (d # bs)
      else if 194 \<le> b \<and> b \<le> 195 \<and> 128 \<le> d \<and> d < 192
           then char_of ((b - 192) * 64 + (d - 128)) # utf8_decode_ignore bs
      else utf8_decode_ignore (d # bs))"

text \<open>Decimal numerals.\<close>

fun show_nat :: "nat \<Rightarrow> string" where
  "show_nat n = (if n < 10 then [char_of (48 + n)] else show_nat (n div 10) @ [char_of (48 + n mod 10)])"

declare show_nat.simps [simp del]

definition show_int :: "int \<Rightarrow> string" where
  "show_int i = (if i < 0 then CHR ''-'' # show_nat (nat (- i)) else show_nat (nat i))"

definition digits_value :: "string \<Rightarrow> nat" where
  "digits_value s = foldl (\<lambda>n c. 10 * n + (code c - 48)) 0 s"

text \<open>\<open>repr\<close> of a string: the quotes Python chooses and the escapes it writes.\<close>

definition hex_digit :: "nat \<Rightarrow> char" where
  "hex_digit n = (if n < 10 then char_of (48 + n) else char_of (87 + n))"

definition repr_char :: "char \<Rightarrow> char \<Rightarrow> string" where
  "repr_char q c = (let n = code c in
     if c = q \<or> n = 92 then [char_of (92::nat), c]
     else if n = 10 then [char_of (92::nat), CHR ''n'']
     else if n = 13 then [char_of (92::nat), CHR ''r'']
     else if n = 9 then [char_of (92::nat), CHR ''t'']
     else if n < 32 \<or> (127 \<le> n \<and> n \<le> 160) \<or> n = 173
          then [char_of (92::nat), CHR ''x'', hex_digit (n div 16), hex_digit (n mod 16)]
     else [c])"

definition py_repr :: "string \<Rightarrow> string" where
  "py_repr s = (let sq = char_of (39::nat); dq = char_of (34::nat);
                    q = (if sq \<in> set s \<and> dq \<notin> set s then dq else sq)
                in [q] @ concat (map (repr_char q) s) @ [q])"

section \<open>Dictionaries and sorted sets\<close>

text \<open>\<open>d[k] = v\<close>: in place when the key is present, at the end otherwise.\<close>

fun dset :: "('k \<times> 'v) list \<Rightarrow> 'k \<Rightarrow> 'v \<Rightarrow> ('k \<times> 'v) list" where
  "dset [] k v = [(k, v)]"
| "dset ((k', v') # d) k v = (if k' = k then (k, v) # d else (k', v') # dset d k v)"

definition ddel :: "('k \<times> 'v) list \<Rightarrow> 'k \<Rightarrow> ('k \<times> 'v) list" where
  "ddel d k = filter (\<lambda>(k', _). k' \<noteq> k) d"

definition dkeys :: "('k \<times> 'v) list \<Rightarrow> 'k list" where
  "dkeys d = map fst d"

text \<open>\<open>{k: v for ...}\<close> and \<open>d.update(...)\<close>.\<close>

definition dupdate :: "('k \<times> 'v) list \<Rightarrow> ('k \<times> 'v) list \<Rightarrow> ('k \<times> 'v) list" where
  "dupdate d es = foldl (\<lambda>d (k, v). dset d k v) d es"

text \<open>\<open>sorted(set(xs))\<close>.\<close>

definition sorted_set :: "'a::linorder list \<Rightarrow> 'a list" where
  "sorted_set xs = sort (remdups xs)"

lemma map_of_dset [simp]: "map_of (dset d k v) = (map_of d)(k \<mapsto> v)"
  by (induction d k v rule: dset.induct) (auto simp: fun_upd_twist)

lemma dkeys_dset: "dkeys (dset d k v) = (if k \<in> set (dkeys d) then dkeys d else dkeys d @ [k])"
  by (induction d k v rule: dset.induct) (auto simp: dkeys_def)

lemma set_dkeys_dset [simp]: "set (dkeys (dset d k v)) = insert k (set (dkeys d))"
  by (auto simp: dkeys_dset)

lemma distinct_dset: "distinct (dkeys d) \<Longrightarrow> distinct (dkeys (dset d k v))"
  by (auto simp: dkeys_dset)

lemma map_of_ddel: "map_of (ddel d k) = (map_of d)(k := None)"
  by (induction d) (auto simp: ddel_def fun_eq_iff)

lemma dkeys_iff: "k \<in> set (dkeys d) \<longleftrightarrow> map_of d k \<noteq> None"
  by (force simp: dkeys_def map_of_eq_None_iff)

lemma dupdate_Nil [simp]: "dupdate d [] = d"
  by (simp add: dupdate_def)

lemma dupdate_snoc: "dupdate d (es @ [(k, v)]) = dset (dupdate d es) k v"
  by (simp add: dupdate_def)

text \<open>Later entries win.\<close>

lemma map_of_dupdate: "map_of (dupdate d es) = map_of d ++ map_of (rev es)"
proof (induction es rule: rev_induct)
  case Nil
  then show ?case by simp
next
  case (snoc e es)
  obtain k v where e: "e = (k, v)" by (cases e)
  from snoc.IH show ?case by (auto simp: e dupdate_snoc fun_eq_iff map_add_def split: option.split)
qed

lemma distinct_dupdate: "distinct (dkeys d) \<Longrightarrow> distinct (dkeys (dupdate d es))"
proof (induction es rule: rev_induct)
  case Nil
  then show ?case by simp
next
  case (snoc e es)
  then show ?case by (cases e) (simp add: dupdate_snoc distinct_dset)
qed

lemma distinct_dkeys_Nil [simp]: "distinct (dkeys [])" "dkeys [] = []"
  by (simp_all add: dkeys_def)

text \<open>A dictionary built from values under their own, pairwise different keys.\<close>

lemma map_of_keyed:
  "distinct ks \<Longrightarrow> map_of (rev (map (\<lambda>k. (k, f k)) ks)) k = (if k \<in> set ks then Some (f k) else None)"
  by (induction ks rule: rev_induct) auto

lemma set_sorted_set [simp, set_facts]: "set (sorted_set xs) = set xs"
  by (simp add: sorted_set_def)

lemma sorted_sorted_set [simp]: "sorted (sorted_set xs)"
  by (simp add: sorted_set_def)

lemma distinct_sorted_set [simp]: "distinct (sorted_set xs)"
  by (simp add: sorted_set_def)

lemma sorted_set_cong: "set xs = set ys \<Longrightarrow> sorted_set xs = sorted_set ys"
  by (metis distinct_sorted_set set_sorted_set sorted_distinct_set_unique sorted_sorted_set)

lemma sorted_set_Nil [simp]: "sorted_set [] = []"
  by (simp add: sorted_set_def)

lemma sorted_set_empty_iff [simp]: "sorted_set xs = [] \<longleftrightarrow> xs = []"
  by (metis set_empty set_sorted_set)

section \<open>Facts about strings\<close>

lemma py_strip_Nil [simp]: "py_strip [] = []"
  by (simp add: py_strip_def strip_if_def lstrip_if_def rstrip_if_def)

lemma starts_with_iff: "starts_with p s \<longleftrightarrow> (\<exists>t. s = p @ t)"
  by (induction p s rule: starts_with.induct) auto

lemma starts_with_append [simp]: "starts_with p (p @ t)"
  by (auto simp: starts_with_iff)

lemma contains_text_iff: "contains_text p s \<longleftrightarrow> (\<exists>a b. s = a @ p @ b)"
proof (induction s)
  case Nil
  then show ?case by auto
next
  case (Cons c cs)
  show ?case
  proof
    assume "contains_text p (c # cs)"
    then consider "starts_with p (c # cs)" | "contains_text p cs" by auto
    then show "\<exists>a b. c # cs = a @ p @ b"
    proof cases
      case 1
      then obtain t where "c # cs = [] @ p @ t" by (auto simp: starts_with_iff)
      then show ?thesis by blast
    next
      case 2
      then obtain a b where "c # cs = (c # a) @ p @ b" using Cons.IH by auto
      then show ?thesis by blast
    qed
  next
    assume "\<exists>a b. c # cs = a @ p @ b"
    then obtain a b where eq: "c # cs = a @ p @ b" by blast
    show "contains_text p (c # cs)"
    proof (cases a)
      case Nil
      with eq have "starts_with p (c # cs)" by (simp add: starts_with_iff)
      then show ?thesis by simp
    next
      case (Cons x a')
      with eq show ?thesis using Cons.IH by auto
    qed
  qed
qed

lemma set_lstrip_if: "set (lstrip_if p s) \<subseteq> set s"
  unfolding lstrip_if_def by (meson set_dropWhileD subsetI)

lemma set_rstrip_if: "set (rstrip_if p s) \<subseteq> set s"
  unfolding rstrip_if_def by (metis set_dropWhileD set_rev subsetI)

lemma set_strip_if: "set (strip_if p s) \<subseteq> set s"
  unfolding strip_if_def using set_lstrip_if set_rstrip_if by blast

lemma length_rstrip_if: "length (rstrip_if p s) \<le> length s"
  unfolding rstrip_if_def by (metis length_dropWhile_le length_rev)

lemma length_lstrip_if: "length (lstrip_if p s) \<le> length s"
  unfolding lstrip_if_def by (rule length_dropWhile_le)

lemma rstrip_if_take: "\<exists>k \<le> length s. rstrip_if p s = take k s"
proof -
  have "s = rstrip_if p s @ rev (takeWhile p (rev s))"
    unfolding rstrip_if_def by (metis rev_append rev_rev_ident takeWhile_dropWhile_id)
  then show ?thesis
    by (metis append_eq_conv_conj le_add1 length_append)
qed

lemma strip_if_hd: "strip_if p s \<noteq> [] \<Longrightarrow> \<not> p (hd (strip_if p s))"
proof -
  assume ne: "strip_if p s \<noteq> []"
  obtain k where k: "strip_if p s = take k (lstrip_if p s)"
    unfolding strip_if_def using rstrip_if_take by blast
  with ne have "lstrip_if p s \<noteq> []" and "0 < k" by auto
  then have "hd (strip_if p s) = hd (lstrip_if p s)" using k by (simp add: hd_take)
  with \<open>lstrip_if p s \<noteq> []\<close> show ?thesis
    unfolding lstrip_if_def using hd_dropWhile by metis
qed

lemma strip_if_last: "strip_if p s \<noteq> [] \<Longrightarrow> \<not> p (last (strip_if p s))"
  unfolding strip_if_def rstrip_if_def by (metis hd_dropWhile last_rev rev.simps(1))

lemma strip_if_id: "\<forall>c \<in> set s. \<not> p c \<Longrightarrow> strip_if p s = s"
proof -
  assume no: "\<forall>c \<in> set s. \<not> p c"
  have drop: "\<And>t. \<forall>c \<in> set t. \<not> p c \<Longrightarrow> dropWhile p t = t"
    by (metis dropWhile_eq_self_iff hd_in_set)
  show ?thesis using no by (simp add: strip_if_def lstrip_if_def rstrip_if_def drop)
qed

lemma utf8_append [simp]: "utf8 (a @ b) = utf8 a @ utf8 b"
  by (induction a) auto

lemma utf8_ascii: "\<forall>c \<in> set s. code c < 128 \<Longrightarrow> utf8 s = map code s"
  by (induction s) auto

lemma length_utf8_ge: "length s \<le> length (utf8 s)"
  by (induction s) auto

lemma length_utf8_ascii: "\<forall>c \<in> set s. code c < 128 \<Longrightarrow> length (utf8 s) = length s"
  by (simp add: utf8_ascii)

lemma show_nat_nonempty: "show_nat n \<noteq> []"
  by (subst show_nat.simps) simp

section \<open>JSON values\<close>

datatype json = J_Null | J_Bool bool | J_Int int | J_Str string | J_List "json list" | J_Obj "(string \<times> json) list"

lemma size_member [termination_simp]: "(k, v) \<in> set kvs \<Longrightarrow> size v < Suc (size_list (size_prod (\<lambda>_. 0) size) kvs)"
  by (induction kvs) auto

text \<open>
  \<open>==\<close> on parsed documents: the order of an object's keys does not count. Keys are unique, as in a dict,
  so two documents are equal exactly when they agree once every object is sorted by key.
\<close>

fun norm_json :: "json \<Rightarrow> json" where
  "norm_json (J_List xs) = J_List (map norm_json xs)"
| "norm_json (J_Obj kvs) = J_Obj (sort_key fst (map (\<lambda>(k, v). (k, norm_json v)) kvs))"
| "norm_json j = j"

definition same_json :: "json \<Rightarrow> json \<Rightarrow> bool" where
  "same_json a b \<longleftrightarrow> norm_json a = norm_json b"

lemma same_json_refl [simp]: "same_json a a"
  by (simp add: same_json_def)

lemma partition_at_first: "d \<notin> set s \<Longrightarrow> partition_at d (s @ d # r) = (s, Some r)"
  by (induction s) auto

end
