(* ===== verification/ApiCache.thy ===== *)
theory ApiCache
  imports Prelude
begin

text \<open>
  \<open>StateStore._cached\<close> of \<open>api/store.py\<close>, with any number of requests under way at once. A request runs without
  suspension from one \<open>await\<close> to the next, so the steps below are the pieces between them: the first look at the
  cache, what follows once the lock of the key is held, and what follows the loader. A waiting or loading request
  may be cancelled. That an \<open>asyncio.Lock\<close> is acquired only while it is free is the one fact taken from the library;
  the clock is \<open>time.monotonic()\<close>, an arbitrary unit that never runs backwards. The history of the steps is kept
  beside the state, newest first, to state what was loaded and served when.
\<close>

section \<open>State\<close>

datatype ('k, 'v) cache_event =
    Load_Started 'k int
  | Load_Stored 'k int 'v
  | Load_Failed 'k int
  | Served 'k int 'v
  | Invalidated int

record ('k, 'v) cache =
  ca_now :: int
  ca_entries :: "'k \<rightharpoonup> int \<times> 'v"             \<comment> \<open>\<open>_cache\<close>\<close>
  ca_locks :: "'k set"                       \<comment> \<open>the keys of \<open>_locks\<close>\<close>
  ca_holder :: "'k \<rightharpoonup> nat"                    \<comment> \<open>the request that holds the lock of a key\<close>
  ca_tasks :: "nat \<rightharpoonup> 'k"                     \<comment> \<open>the requests that wait for a lock or hold it\<close>
  ca_log :: "('k, 'v) cache_event list"

definition empty_cache :: "('k, 'v) cache" where
  "empty_cache = \<lparr>ca_now = 0, ca_entries = Map.empty, ca_locks = {}, ca_holder = Map.empty, ca_tasks = Map.empty, ca_log = []\<rparr>"

text \<open>\<open>if entry is not None and time.monotonic() - entry[0] < ttl\<close>\<close>

definition fresh_entry :: "int \<Rightarrow> 'k \<Rightarrow> ('k, 'v) cache \<Rightarrow> 'v option" where
  "fresh_entry ttl k s = (case ca_entries s k of
      Some (stamp, v) \<Rightarrow> if ca_now s - stamp < ttl then Some v else None
    | None \<Rightarrow> None)"

definition serve :: "'k \<Rightarrow> 'v \<Rightarrow> ('k, 'v) cache \<Rightarrow> ('k, 'v) cache" where
  "serve k v s = s\<lparr>ca_log := Served k (ca_now s) v # ca_log s\<rparr>"

text \<open>The request looks at the cache, and else waits for the lock of the key.\<close>

definition request :: "int \<Rightarrow> nat \<Rightarrow> 'k \<Rightarrow> ('k, 'v) cache \<Rightarrow> ('k, 'v) cache" where
  "request ttl t k s = (case fresh_entry ttl k s of
      Some v \<Rightarrow> serve k v s
    | None \<Rightarrow> s\<lparr>ca_locks := insert k (ca_locks s), ca_tasks := (ca_tasks s)(t \<mapsto> k)\<rparr>)"

text \<open>With the lock it looks again; what another request has loaded meanwhile is returned and the lock released.\<close>

definition proceed :: "int \<Rightarrow> nat \<Rightarrow> 'k \<Rightarrow> ('k, 'v) cache \<Rightarrow> ('k, 'v) cache" where
  "proceed ttl t k s = (case fresh_entry ttl k s of
      Some v \<Rightarrow> serve k v (s\<lparr>ca_tasks := (ca_tasks s)(t := None)\<rparr>)
    | None \<Rightarrow> s\<lparr>ca_holder := (ca_holder s)(k \<mapsto> t), ca_log := Load_Started k (ca_now s) # ca_log s\<rparr>)"

definition release :: "nat \<Rightarrow> 'k \<Rightarrow> ('k, 'v) cache \<Rightarrow> ('k, 'v) cache" where
  "release t k s = s\<lparr>ca_holder := (ca_holder s)(k := None), ca_tasks := (ca_tasks s)(t := None)\<rparr>"

definition loaded :: "nat \<Rightarrow> 'k \<Rightarrow> 'v \<Rightarrow> ('k, 'v) cache \<Rightarrow> ('k, 'v) cache" where
  "loaded t k v s = serve k v (release t k
     (s\<lparr>ca_entries := (ca_entries s)(k \<mapsto> (ca_now s, v)), ca_log := Load_Stored k (ca_now s) v # ca_log s\<rparr>))"

definition load_failed :: "nat \<Rightarrow> 'k \<Rightarrow> ('k, 'v) cache \<Rightarrow> ('k, 'v) cache" where
  "load_failed t k s = release t k (s\<lparr>ca_log := Load_Failed k (ca_now s) # ca_log s\<rparr>)"

definition invalidate_cache :: "('k, 'v) cache \<Rightarrow> ('k, 'v) cache" where
  "invalidate_cache s = s\<lparr>ca_entries := Map.empty, ca_log := Invalidated (ca_now s) # ca_log s\<rparr>"

inductive cache_step :: "int \<Rightarrow> ('k, 'v) cache \<Rightarrow> ('k, 'v) cache \<Rightarrow> bool" for ttl where
  step_time: "0 \<le> d \<Longrightarrow> cache_step ttl s (s\<lparr>ca_now := ca_now s + d\<rparr>)"
| step_request: "ca_tasks s t = None \<Longrightarrow> cache_step ttl s (request ttl t k s)"
| step_proceed: "ca_tasks s t = Some k \<Longrightarrow> ca_holder s k = None \<Longrightarrow> cache_step ttl s (proceed ttl t k s)"
| step_cancel: "ca_tasks s t = Some k \<Longrightarrow> ca_holder s k \<noteq> Some t \<Longrightarrow> cache_step ttl s (s\<lparr>ca_tasks := (ca_tasks s)(t := None)\<rparr>)"
| step_loaded: "ca_holder s k = Some t \<Longrightarrow> cache_step ttl s (loaded t k v s)"
| step_failed: "ca_holder s k = Some t \<Longrightarrow> cache_step ttl s (load_failed t k s)"
| step_invalidate: "cache_step ttl s (invalidate_cache s)"

inductive_cases cache_stepE: "cache_step ttl s s'"

inductive reachable_cache :: "int \<Rightarrow> ('k, 'v) cache \<Rightarrow> bool" for ttl where
  cache_start: "reachable_cache ttl empty_cache"
| cache_next: "reachable_cache ttl s \<Longrightarrow> cache_step ttl s s' \<Longrightarrow> reachable_cache ttl s'"

section \<open>What the history says\<close>

text \<open>When a key was stored last, unless the cache was emptied since; whether a load of it is under way.\<close>

fun last_stored :: "('k, 'v) cache_event list \<Rightarrow> 'k \<Rightarrow> (int \<times> 'v) option" where
  "last_stored [] k = None"
| "last_stored (e # log) k = (case e of
      Load_Stored k' t v \<Rightarrow> if k' = k then Some (t, v) else last_stored log k
    | Invalidated t \<Rightarrow> None
    | _ \<Rightarrow> last_stored log k)"

fun under_way :: "('k, 'v) cache_event list \<Rightarrow> 'k \<Rightarrow> bool" where
  "under_way [] k = False"
| "under_way (e # log) k = (case e of
      Load_Started k' t \<Rightarrow> k' = k \<or> under_way log k
    | Load_Stored k' t v \<Rightarrow> k' \<noteq> k \<and> under_way log k
    | Load_Failed k' t \<Rightarrow> k' \<noteq> k \<and> under_way log k
    | _ \<Rightarrow> under_way log k)"

text \<open>
  What is due of each event, given those before it: a load starts only when none of that key is under way and
  nothing stored is fresh; a value is stored by a load under way; a value served was stored less than \<open>ttl\<close> ago, or
  this very moment.
\<close>

definition due :: "int \<Rightarrow> ('k, 'v) cache_event \<Rightarrow> ('k, 'v) cache_event list \<Rightarrow> bool" where
  "due ttl e log = (case e of
      Load_Started k t \<Rightarrow> \<not> under_way log k \<and>
        (case last_stored log k of None \<Rightarrow> True | Some (stamp, _) \<Rightarrow> ttl \<le> t - stamp)
    | Load_Stored k t v \<Rightarrow> under_way log k
    | Load_Failed k t \<Rightarrow> under_way log k
    | Served k t v \<Rightarrow> (case last_stored log k of None \<Rightarrow> False | Some (stamp, x) \<Rightarrow> x = v \<and> (t - stamp < ttl \<or> t = stamp))
    | Invalidated t \<Rightarrow> True)"

fun event_time :: "('k, 'v) cache_event \<Rightarrow> int" where
  "event_time (Load_Started k t) = t"
| "event_time (Load_Stored k t v) = t"
| "event_time (Load_Failed k t) = t"
| "event_time (Served k t v) = t"
| "event_time (Invalidated t) = t"

fun history_ok :: "int \<Rightarrow> ('k, 'v) cache_event list \<Rightarrow> bool" where
  "history_ok ttl [] \<longleftrightarrow> True"
| "history_ok ttl (e # log) \<longleftrightarrow> due ttl e log \<and> (\<forall>x \<in> set log. event_time x \<le> event_time e) \<and> history_ok ttl log"

definition cache_inv :: "int \<Rightarrow> ('k, 'v) cache \<Rightarrow> bool" where
  "cache_inv ttl s \<longleftrightarrow>
     (\<forall>k t. ca_holder s k = Some t \<longrightarrow> ca_tasks s t = Some k) \<and>
     ca_entries s = last_stored (ca_log s) \<and>
     (\<forall>k. under_way (ca_log s) k \<longleftrightarrow> ca_holder s k \<noteq> None) \<and>
     (\<forall>e \<in> set (ca_log s). event_time e \<le> ca_now s) \<and>
     history_ok ttl (ca_log s) \<and>
     (\<forall>k. ca_entries s k \<noteq> None \<longrightarrow> k \<in> ca_locks s) \<and> (\<forall>t k. ca_tasks s t = Some k \<longrightarrow> k \<in> ca_locks s)"

lemma fresh_stored:
  assumes "cache_inv ttl s" "fresh_entry ttl k s = Some v"
  obtains stamp where "last_stored (ca_log s) k = Some (stamp, v)" "ca_now s - stamp < ttl"
  using assms by (auto simp: cache_inv_def fresh_entry_def split: option.splits if_splits)

lemma stale_stored:
  assumes "cache_inv ttl s" "fresh_entry ttl k s = None"
  shows "case last_stored (ca_log s) k of None \<Rightarrow> True | Some (stamp, _) \<Rightarrow> ttl \<le> ca_now s - stamp"
  using assms by (auto simp: cache_inv_def fresh_entry_def split: option.splits if_splits)

lemma inv_serve:
  assumes "cache_inv ttl s" "last_stored (ca_log s) k = Some (stamp, v)" "ca_now s - stamp < ttl \<or> ca_now s = stamp"
  shows "cache_inv ttl (serve k v s)"
  using assms by (auto simp: cache_inv_def serve_def due_def fun_eq_iff)

lemma inv_request:
  assumes "cache_inv ttl s" "ca_tasks s t = None"
  shows "cache_inv ttl (request ttl t k s)"
proof (cases "fresh_entry ttl k s")
  case None
  then show ?thesis using assms by (auto simp: request_def cache_inv_def)
next
  case (Some v)
  then obtain stamp where "last_stored (ca_log s) k = Some (stamp, v)" "ca_now s - stamp < ttl"
    using fresh_stored [OF assms(1)] by blast
  then have "cache_inv ttl (serve k v s)" using inv_serve [OF assms(1)] by blast
  then show ?thesis using Some by (simp add: request_def)
qed

lemma inv_forget_task:
  assumes "cache_inv ttl s" "ca_tasks s t = Some k" "ca_holder s k \<noteq> Some t"
  shows "cache_inv ttl (s\<lparr>ca_tasks := (ca_tasks s)(t := None)\<rparr>)"
  using assms by (auto simp: cache_inv_def)

lemma inv_proceed:
  assumes "cache_inv ttl s" "ca_tasks s t = Some k" "ca_holder s k = None"
  shows "cache_inv ttl (proceed ttl t k s)"
proof (cases "fresh_entry ttl k s")
  case None
  have "due ttl (Load_Started k (ca_now s)) (ca_log s)"
    using stale_stored [OF assms(1) None] assms(1,3) by (simp add: due_def cache_inv_def)
  then show ?thesis using None assms by (auto simp: proceed_def cache_inv_def)
next
  case (Some v)
  then obtain stamp where st: "last_stored (ca_log s) k = Some (stamp, v)" "ca_now s - stamp < ttl"
    using fresh_stored [OF assms(1)] by blast
  have "cache_inv ttl (s\<lparr>ca_tasks := (ca_tasks s)(t := None)\<rparr>)" by (rule inv_forget_task [OF assms(1,2)]) (simp add: assms(3))
  from inv_serve [OF this, of k stamp v] st have "cache_inv ttl (serve k v (s\<lparr>ca_tasks := (ca_tasks s)(t := None)\<rparr>))" by simp
  then show ?thesis using Some by (simp add: proceed_def)
qed

lemma inv_loaded:
  assumes "cache_inv ttl s" "ca_holder s k = Some t"
  shows "cache_inv ttl (loaded t k v s)"
proof -
  let ?s = "release t k (s\<lparr>ca_entries := (ca_entries s)(k \<mapsto> (ca_now s, v)), ca_log := Load_Stored k (ca_now s) v # ca_log s\<rparr>)"
  have t: "ca_tasks s t = Some k" using assms by (auto simp: cache_inv_def)
  have only: "ca_holder s k' = Some t \<Longrightarrow> k' = k" for k' using assms(1) t by (auto simp: cache_inv_def)
  have "k \<in> ca_locks s" using assms(1) t by (auto simp: cache_inv_def)
  then have "cache_inv ttl ?s"
    using assms t by (auto simp: cache_inv_def release_def due_def fun_eq_iff dest: only)
  from inv_serve [OF this, of k "ca_now s" v] show ?thesis by (simp add: loaded_def release_def)
qed

lemma inv_failed:
  assumes "cache_inv ttl s" "ca_holder s k = Some t"
  shows "cache_inv ttl (load_failed t k s)"
proof -
  have t: "ca_tasks s t = Some k" using assms by (auto simp: cache_inv_def)
  have only: "ca_holder s k' = Some t \<Longrightarrow> k' = k" for k' using assms(1) t by (auto simp: cache_inv_def)
  show ?thesis
    using assms t by (auto simp: load_failed_def cache_inv_def release_def due_def fun_eq_iff dest: only)
qed

lemma cache_step_inv: "cache_step ttl s s' \<Longrightarrow> cache_inv ttl s \<Longrightarrow> cache_inv ttl s'"
proof (induction rule: cache_step.induct)
  case (step_time d s)
  then show ?case by (force simp: cache_inv_def)
next
  case (step_invalidate s)
  then show ?case by (auto simp: cache_inv_def invalidate_cache_def due_def fun_eq_iff)
qed (simp_all add: inv_request inv_proceed inv_forget_task inv_loaded inv_failed)

lemma cache_inv_start: "cache_inv ttl empty_cache"
  by (auto simp: cache_inv_def empty_cache_def fun_eq_iff)

lemma reachable_cache_inv: "reachable_cache ttl s \<Longrightarrow> cache_inv ttl s"
  by (induction rule: reachable_cache.induct) (auto intro: cache_step_inv cache_inv_start)

section \<open>Laws\<close>

lemma history_at: "history_ok ttl (later @ e # earlier) \<Longrightarrow> due ttl e earlier"
  by (induction later) auto

text \<open>
  However many requests arrive and however they interleave, the Kubernetes API is asked for one listing at most
  once at a time, and never while an answer younger than the configured seconds is at hand; and whatever a
  request returns was loaded for that very key by the last load that succeeded, less than that many seconds
  before, or just then by the request itself. Emptying the cache, failed loads and cancelled requests included.
\<close>

theorem cache_fresh_and_coalescing:
  assumes "reachable_cache ttl s" "ca_log s = later @ e # earlier"
  shows "case e of
      Load_Started k t \<Rightarrow> \<not> under_way earlier k \<and>
        (case last_stored earlier k of None \<Rightarrow> True | Some (stamp, _) \<Rightarrow> ttl \<le> t - stamp)
    | Served k t v \<Rightarrow> (case last_stored earlier k of
        None \<Rightarrow> False
      | Some (stamp, x) \<Rightarrow> x = v \<and> (t - stamp < ttl \<or> t = stamp))
    | Load_Stored k t v \<Rightarrow> under_way earlier k
    | Load_Failed k t \<Rightarrow> under_way earlier k
    | Invalidated t \<Rightarrow> True"
proof -
  have "history_ok ttl (later @ e # earlier)" using reachable_cache_inv [OF assms(1)] assms(2) by (simp add: cache_inv_def)
  from history_at [OF this] show ?thesis by (cases e) (simp_all add: due_def)
qed

text \<open>How often a key was stored within a stretch of time.\<close>

definition stored_between :: "'k \<Rightarrow> int \<Rightarrow> int \<Rightarrow> ('k, 'v) cache_event list \<Rightarrow> nat" where
  "stored_between k a b log = length (filter (\<lambda>e. case e of
      Load_Stored k' t v \<Rightarrow> k' = k \<and> a \<le> t \<and> t < b
    | _ \<Rightarrow> False) log)"

definition never_emptied :: "('k, 'v) cache_event list \<Rightarrow> bool" where
  "never_emptied log \<longleftrightarrow> list_all (\<lambda>e. case e of Invalidated t \<Rightarrow> False | _ \<Rightarrow> True) log"

lemma started_late:
  "history_ok ttl log \<Longrightarrow> never_emptied log \<Longrightarrow> under_way log k \<Longrightarrow> last_stored log k = Some (stamp, v) \<Longrightarrow>
   \<exists>e \<in> set log. stamp + ttl \<le> event_time e"
proof (induction log)
  case (Cons e log)
  then show ?case
    by (cases e) (auto simp: due_def never_emptied_def split: if_splits)
qed simp

lemma last_stored_latest:
  "history_ok ttl log \<Longrightarrow> never_emptied log \<Longrightarrow> Load_Stored k t v \<in> set log \<Longrightarrow> \<exists>stamp x. last_stored log k = Some (stamp, x) \<and> t \<le> stamp"
proof (induction log)
  case (Cons e log)
  then show ?case
    by (cases e) (fastforce simp: never_emptied_def split: if_splits)+
qed simp

lemma stored_before:
  assumes "history_ok ttl (Load_Stored k t v # log)" "never_emptied log" "Load_Stored k u x \<in> set log"
  shows "u + ttl \<le> t"
proof -
  obtain stamp y where last: "last_stored log k = Some (stamp, y)" "u \<le> stamp"
    using last_stored_latest [of ttl log k u x] assms by auto
  have "under_way log k" using assms(1) by (simp add: due_def)
  then obtain e where "e \<in> set log" "stamp + ttl \<le> event_time e"
    using started_late [of ttl log k stamp y] assms(1,2) last(1) by auto
  moreover have "event_time e \<le> t" using assms(1) \<open>e \<in> set log\<close> by simp
  ultimately show ?thesis using last(2) by simp
qed

lemma stored_between_Cons:
  "stored_between k a b (e # log) =
     (case e of Load_Stored k' t v \<Rightarrow> if k' = k \<and> a \<le> t \<and> t < b then Suc (stored_between k a b log) else stored_between k a b log
      | _ \<Rightarrow> stored_between k a b log)"
  by (cases e) (simp_all add: stored_between_def)

lemma stored_between_cut:
  assumes "\<And>u x. Load_Stored k u x \<in> set log \<Longrightarrow> u < c" "c \<le> b"
  shows "stored_between k a b log = stored_between k a c log"
  using assms unfolding stored_between_def
  by (intro arg_cong [where f = length] filter_cong) (fastforce split: cache_event.splits)+

lemma stored_between_bound:
  "history_ok ttl log \<Longrightarrow> never_emptied log \<Longrightarrow> 0 < ttl \<Longrightarrow> a < b \<Longrightarrow> int (stored_between k a b log) * ttl < b - a + ttl"
proof (induction log arbitrary: b)
  case Nil
  then show ?case by (simp add: stored_between_def)
next
  case (Cons e log)
  have rest: "history_ok ttl log" "never_emptied log" using Cons.prems by (simp_all add: never_emptied_def)
  show ?case
  proof (cases "\<exists>t v. e = Load_Stored k t v \<and> a \<le> t \<and> t < b")
    case False
    then show ?thesis using Cons.IH [OF rest Cons.prems(3,4)] by (auto simp: stored_between_Cons split: cache_event.splits)
  next
    case True
    then obtain t v where e: "e = Load_Stored k t v" "a \<le> t" "t < b" by blast
    have before: "u < t - ttl + 1" if "Load_Stored k u x \<in> set log" for u x
      using stored_before [of ttl k t v log u x] Cons.prems(1) e(1) rest(2) that by simp
    have n: "stored_between k a b (e # log) = Suc (stored_between k a (t - ttl + 1) log)"
      using e stored_between_cut [where k = k and log = log and c = "t - ttl + 1" and b = b and a = a] before Cons.prems(3)
      by (simp add: stored_between_Cons)
    show ?thesis
    proof (cases "a < t - ttl + 1")
      case True
      have "(1 + int (stored_between k a (t - ttl + 1) log)) * ttl < b - a + ttl"
        using Cons.IH [OF rest Cons.prems(3) True] e by (simp add: distrib_right)
      then show ?thesis by (simp add: n)
    next
      case False
      then have "stored_between k a (t - ttl + 1) log = 0" by (auto simp: stored_between_def filter_empty_conv split: cache_event.splits)
      then show ?thesis using Cons.prems(4) by (simp add: n)
    qed
  qed
qed

text \<open>
  The dashboard's polling costs the Kubernetes API a bounded number of answers, whatever its rate: within any
  stretch of time a key is loaded with success at most once per \<open>ttl\<close>, rounded up, until the cache is emptied.
\<close>

theorem loads_bounded:
  assumes "reachable_cache ttl s" "never_emptied (ca_log s)" "0 < ttl" "a < b"
  shows "int (stored_between k a b (ca_log s)) * ttl < (b - a) + ttl"
  using stored_between_bound [OF _ assms(2-4), of k] reachable_cache_inv [OF assms(1)] by (simp add: cache_inv_def)

text \<open>Two requests for one key: the second waits for the first one's load and returns its value.\<close>

definition sample_cache :: "(string, nat) cache" where
  "sample_cache = proceed 5 2 ''users/*'' (loaded 1 ''users/*'' 7
     (proceed 5 1 ''users/*'' (request 5 2 ''users/*'' (request 5 1 ''users/*'' empty_cache))))"

lemmas cache_defs = request_def proceed_def loaded_def release_def serve_def fresh_entry_def empty_cache_def

lemma sample_cache_log:
  "ca_log sample_cache = [Served ''users/*'' 0 7, Served ''users/*'' 0 7, Load_Stored ''users/*'' 0 7, Load_Started ''users/*'' 0]"
  by (simp add: sample_cache_def cache_defs)

lemma sample_cache_reachable: "reachable_cache 5 sample_cache"
proof -
  let ?k = "''users/*''" let ?a = "request 5 1 ?k empty_cache :: (string, nat) cache" let ?b = "request 5 2 ?k ?a"
  let ?c = "proceed 5 1 ?k ?b" let ?d = "loaded 1 ?k 7 ?c"
  have "reachable_cache 5 ?a" by (rule cache_next [OF cache_start step_request]) (simp add: cache_defs)
  then have "reachable_cache 5 ?b" by (rule cache_next [OF _ step_request]) (simp add: cache_defs)
  then have "reachable_cache 5 ?c" by (rule cache_next [OF _ step_proceed]) (simp_all add: cache_defs)
  then have "reachable_cache 5 ?d" by (rule cache_next [OF _ step_loaded]) (simp add: cache_defs)
  then show ?thesis unfolding sample_cache_def by (rule cache_next [OF _ step_proceed]) (simp_all add: cache_defs)
qed

theorem cache_fresh_and_coalescing_witness:
  "last_stored [Load_Stored ''users/*'' 0 (7 :: nat), Load_Started ''users/*'' 0] ''users/*'' = Some (0, 7)"
  using cache_fresh_and_coalescing [OF sample_cache_reachable, of "[Served ''users/*'' 0 7]" "Served ''users/*'' 0 7"]
  by (simp add: sample_cache_log)

theorem loads_bounded_witness: "int (stored_between ''users/*'' 0 10 (ca_log sample_cache)) * 5 < 15"
  using loads_bounded [OF sample_cache_reachable, of 0 10 "''users/*''"] by (simp add: sample_cache_log never_emptied_def)

text \<open>What was once asked for is remembered for good: neither a lock nor, but for \<open>invalidate\<close>, an entry is ever given up.\<close>

lemma cache_only_grows:
  assumes "cache_step ttl s s'"
  shows "ca_locks s \<subseteq> ca_locks s' \<and> (ca_entries s' = Map.empty \<or> dom (ca_entries s) \<subseteq> dom (ca_entries s'))"
  using assms
  by (cases rule: cache_step.cases) (auto simp: cache_defs load_failed_def invalidate_cache_def split: option.splits)

end
