(* ===== verification/Errors.thy ===== *)
theory Errors
  imports Prelude
begin

text \<open>
  The error hierarchy of \<open>errors.py\<close> (with the built-in and third-party classes the code
  catches) and the result type of fallible pure code: \<open>Inl\<close> an exception, \<open>Inr\<close> a value.
  \<open>mro\<close> lists a class with its bases, so \<open>isinstance\<close> and \<open>except\<close> clauses read as in the code.
\<close>

datatype err_class =
    Base_Exception
  | OperatorError
  | ConfigurationError
  | ReferenceNotFound
  | InstanceNotFound
  | ConnectionFailure
  | ReconcileFailure
  | ObjectMissing
  | InsufficientPrivilege
  | SourceUnreachableFromTarget
  | ReplicationRefused
  | InsufficientCapacity
  | Value_Error
  | InvalidIdentifier
  | Api_Exception nat
  | Other_Exception string
  | Temporary_Error int   \<comment> \<open>\<open>kopf.TemporaryError\<close>, with its delay\<close>
  | Permanent_Error

datatype err = Err (err_cls: err_class) (err_text: string)

fun mro :: "err_class \<Rightarrow> err_class list" where
  "mro Base_Exception = [Base_Exception]"
| "mro OperatorError = [OperatorError, Base_Exception]"
| "mro ConfigurationError = [ConfigurationError, OperatorError, Base_Exception]"
| "mro ReferenceNotFound = [ReferenceNotFound, ConfigurationError, OperatorError, Base_Exception]"
| "mro InstanceNotFound =
     [InstanceNotFound, ReferenceNotFound, ConfigurationError, OperatorError, Base_Exception]"
| "mro ConnectionFailure = [ConnectionFailure, OperatorError, Base_Exception]"
| "mro ReconcileFailure = [ReconcileFailure, OperatorError, Base_Exception]"
| "mro ObjectMissing = [ObjectMissing, ReconcileFailure, OperatorError, Base_Exception]"
| "mro InsufficientPrivilege =
     [InsufficientPrivilege, ReconcileFailure, OperatorError, Base_Exception]"
| "mro SourceUnreachableFromTarget =
     [SourceUnreachableFromTarget, ReconcileFailure, OperatorError, Base_Exception]"
| "mro ReplicationRefused = [ReplicationRefused, ReconcileFailure, OperatorError, Base_Exception]"
| "mro InsufficientCapacity =
     [InsufficientCapacity, ReconcileFailure, OperatorError, Base_Exception]"
| "mro Value_Error = [Value_Error, Base_Exception]"
| "mro InvalidIdentifier = [InvalidIdentifier, Value_Error, Base_Exception]"
| "mro (Api_Exception n) = [Api_Exception n, Base_Exception]"
| "mro (Other_Exception n) = [Other_Exception n, Base_Exception]"
| "mro (Temporary_Error d) = [Temporary_Error d, Base_Exception]"
| "mro Permanent_Error = [Permanent_Error, Base_Exception]"

text \<open>\<open>type(exc).__name__\<close>\<close>

fun class_name :: "err_class \<Rightarrow> string" where
  "class_name Base_Exception = ''Exception''"
| "class_name OperatorError = ''OperatorError''"
| "class_name ConfigurationError = ''ConfigurationError''"
| "class_name ReferenceNotFound = ''ReferenceNotFound''"
| "class_name InstanceNotFound = ''InstanceNotFound''"
| "class_name ConnectionFailure = ''ConnectionFailure''"
| "class_name ReconcileFailure = ''ReconcileFailure''"
| "class_name ObjectMissing = ''ObjectMissing''"
| "class_name InsufficientPrivilege = ''InsufficientPrivilege''"
| "class_name SourceUnreachableFromTarget = ''SourceUnreachableFromTarget''"
| "class_name ReplicationRefused = ''ReplicationRefused''"
| "class_name InsufficientCapacity = ''InsufficientCapacity''"
| "class_name Value_Error = ''ValueError''"
| "class_name InvalidIdentifier = ''InvalidIdentifier''"
| "class_name (Api_Exception n) = ''ApiException''"
| "class_name (Other_Exception n) = n"
| "class_name (Temporary_Error d) = ''TemporaryError''"
| "class_name Permanent_Error = ''PermanentError''"

definition instance_of :: "err \<Rightarrow> err_class \<Rightarrow> bool" where
  "instance_of e c \<longleftrightarrow> c \<in> set (mro (err_cls e))"

lemma mro_self [simp]: "c \<in> set (mro c)"
  by (cases c) simp_all

lemma mro_base [simp]: "Base_Exception \<in> set (mro c)"
  by (cases c) simp_all

text \<open>Subclassing is transitive: a base's bases are among the class's own.\<close>

lemma mro_trans: "d \<in> set (mro c) \<Longrightarrow> set (mro d) \<subseteq> set (mro c)"
  by (cases c) auto

lemma instance_of_trans:
  "instance_of e c \<Longrightarrow> d \<in> set (mro c) \<Longrightarrow> instance_of e d"
  unfolding instance_of_def using mro_trans by blast

section \<open>Results of pure code\<close>

type_synonym 'a res = "err + 'a"

definition raise_r :: "err_class \<Rightarrow> string \<Rightarrow> 'a res" where
  "raise_r c msg = Inl (Err c msg)"

definition bind_r :: "'a res \<Rightarrow> ('a \<Rightarrow> 'b res) \<Rightarrow> 'b res" where
  "bind_r m f = (case m of Inl e \<Rightarrow> Inl e | Inr x \<Rightarrow> f x)"

text \<open>\<open>if cond: raise\<close>, as a step of a validator.\<close>

definition guard_r :: "bool \<Rightarrow> err_class \<Rightarrow> string \<Rightarrow> unit res" where
  "guard_r bad c msg = (if bad then raise_r c msg else Inr ())"

definition is_ok :: "'a res \<Rightarrow> bool" where
  "is_ok r \<longleftrightarrow> (case r of Inl _ \<Rightarrow> False | Inr _ \<Rightarrow> True)"

text \<open>A validator over every element of a list, stopping at the first failure.\<close>

fun all_r :: "('a \<Rightarrow> unit res) \<Rightarrow> 'a list \<Rightarrow> unit res" where
  "all_r f [] = Inr ()"
| "all_r f (x # xs) = bind_r (f x) (\<lambda>_. all_r f xs)"

lemma bind_r_Inr [simp]: "bind_r (Inr x) f = f x"
  by (simp add: bind_r_def)

lemma bind_r_Inl [simp]: "bind_r (Inl e) f = Inl e"
  by (simp add: bind_r_def)

lemma bind_r_eq_Inr: "bind_r m f = Inr y \<longleftrightarrow> (\<exists>x. m = Inr x \<and> f x = Inr y)"
  by (cases m) (auto simp: bind_r_def)

lemma guard_r_ok [simp]: "guard_r b c msg = Inr () \<longleftrightarrow> \<not> b"
  by (simp add: guard_r_def raise_r_def)

lemma guard_r_Inr [simp]: "guard_r b c msg = Inr u \<longleftrightarrow> \<not> b"
  by (simp add: guard_r_def raise_r_def)

lemma guard_r_simps [simp]: "guard_r False c msg = Inr ()" "guard_r True c msg = raise_r c msg"
  by (simp_all add: guard_r_def)

lemma raise_r_not_ok [simp]: "raise_r c msg \<noteq> Inr x"
  by (simp add: raise_r_def)

lemma is_ok_simps [simp]: "is_ok (Inr x)" "\<not> is_ok (Inl e)" "\<not> is_ok (raise_r c msg)"
  by (simp_all add: is_ok_def raise_r_def)

lemma is_ok_iff: "is_ok r \<longleftrightarrow> (\<exists>x. r = Inr x)"
  by (cases r) simp_all

lemma is_ok_bind [simp]: "is_ok (bind_r m f) \<longleftrightarrow> (\<exists>x. m = Inr x \<and> is_ok (f x))"
  by (cases m) simp_all

lemma is_ok_guard [simp]: "is_ok (guard_r b c msg) \<longleftrightarrow> \<not> b"
  by (simp add: guard_r_def)

lemma all_r_ok: "all_r f xs = Inr () \<longleftrightarrow> (\<forall>x \<in> set xs. f x = Inr ())"
  by (induction xs) (auto simp: bind_r_eq_Inr)

end
