(* ===== verification/Naming.thy ===== *)
theory Naming
  imports Errors
begin

text \<open>
  \<open>naming.py\<close>: the translation between Kubernetes names and PostgreSQL identifiers.
  \<open>hashlib.sha256(...).hexdigest()\<close> is the parameter \<open>sha\<close> of the definitions that use it,
  applied to the text that is hashed; the theorems that need more of it than its type say so
  (\<open>hex_digests\<close>: 64 lowercase hexadecimal characters).
\<close>

definition MAX_IDENTIFIER_LENGTH :: nat where
  "MAX_IDENTIFIER_LENGTH = 63"

section \<open>The three character classes of the module\<close>

text \<open>\<open>[a-z0-9_]\<close>, the complement of \<open>_INVALID_CHARS\<close>.\<close>

definition valid_char :: "char \<Rightarrow> bool" where
  "valid_char c \<longleftrightarrow> is_lower_letter c \<or> is_digit c \<or> is_underscore c"

text \<open>\<open>[a-z_]\<close>, the complement of \<open>_LEADING_INVALID\<close>.\<close>

definition leading_char :: "char \<Rightarrow> bool" where
  "leading_char c \<longleftrightarrow> is_lower_letter c \<or> is_underscore c"

definition identifier_char :: "char \<Rightarrow> bool" where
  "identifier_char c \<longleftrightarrow> is_lower_letter c \<or> is_digit c \<or> is_underscore c \<or> is_dollar c"

text \<open>\<open>re.fullmatch(r"[a-z_][a-z0-9_$]*", s)\<close>.\<close>

fun identifier_pattern :: "string \<Rightarrow> bool" where
  "identifier_pattern [] = False"
| "identifier_pattern (c # cs) = (leading_char c \<and> (\<forall>d \<in> set cs. identifier_char d))"

text \<open>\<open>_INVALID_CHARS.sub("_", s)\<close>: every maximal run of other characters becomes one underscore.
  The flag says that the previous character was already part of a run.\<close>

fun sub_invalid :: "bool \<Rightarrow> string \<Rightarrow> string" where
  "sub_invalid inrun [] = []"
| "sub_invalid inrun (c # cs) =
     (if valid_char c then c # sub_invalid False cs
      else if inrun then sub_invalid True cs
      else CHR ''_'' # sub_invalid True cs)"

definition sub_invalid_chars :: "string \<Rightarrow> string" where
  "sub_invalid_chars s = sub_invalid False s"

definition drop_leading_invalid :: "string \<Rightarrow> string" where
  "drop_leading_invalid s = lstrip_if (\<lambda>c. \<not> leading_char c) s"

section \<open>Truncation\<close>

definition truncate_bytes :: "string \<Rightarrow> nat \<Rightarrow> string" where
  "truncate_bytes value limit =
     (if length (utf8 value) \<le> limit then value
      else rstrip_if is_underscore (utf8_decode_ignore (take limit (utf8 value))))"

definition with_digest :: "string \<Rightarrow> string \<Rightarrow> string" where
  "with_digest base digest =
     (let keep = MAX_IDENTIFIER_LENGTH - length digest - 1
      in truncate_bytes base keep @ ''_'' @ digest)"

definition truncate_for_suffix :: "(string \<Rightarrow> string) \<Rightarrow> string \<Rightarrow> nat \<Rightarrow> string" where
  "truncate_for_suffix sha value suffix_length =
     (let keep = MAX_IDENTIFIER_LENGTH - suffix_length in
      if length (utf8 value) \<le> keep then value
      else let digest = take 6 (sha value)
           in truncate_bytes value (keep - length digest - 1) @ ''_'' @ digest)"

section \<open>Identifiers\<close>

definition sanitize_identifier :: "(string \<Rightarrow> string) \<Rightarrow> string \<Rightarrow> string \<Rightarrow> string res" where
  "sanitize_identifier sha value kind =
     (if value = [] \<or> py_strip value = [] then raise_r InvalidIdentifier (''empty '' @ kind)
      else
        let candidate = strip_if is_underscore
              (drop_leading_invalid (sub_invalid_chars (py_lower (py_strip value))))
        in if candidate = []
           then raise_r InvalidIdentifier (kind @ '' '' @ py_repr value @ '' contains no usable characters'')
           else if length (utf8 candidate) > MAX_IDENTIFIER_LENGTH
           then let digest = take 8 (sha value);
                    keep = MAX_IDENTIFIER_LENGTH - length digest - 1
                in Inr (truncate_bytes candidate keep @ ''_'' @ digest)
           else Inr candidate)"

definition validate_identifier :: "string \<Rightarrow> string \<Rightarrow> string res" where
  "validate_identifier value kind =
     (if value = [] \<or> py_strip value = [] then raise_r InvalidIdentifier (''empty '' @ kind)
      else
        let candidate = py_strip value
        in if length (utf8 candidate) > MAX_IDENTIFIER_LENGTH
           then raise_r InvalidIdentifier
                  (kind @ '' '' @ py_repr candidate @ '' exceeds '' @ show_nat MAX_IDENTIFIER_LENGTH @ '' bytes'')
           else if \<not> identifier_pattern candidate
           then raise_r InvalidIdentifier
                  (kind @ '' '' @ py_repr candidate @ '' must match [a-z_][a-z0-9_$]* '' @
                   ''(lowercase, starting with a letter or underscore)'')
           else Inr candidate)"

definition reject_reserved_role_prefix :: "string \<Rightarrow> string \<Rightarrow> string res" where
  "reject_reserved_role_prefix candidate kind =
     (if starts_with ''pg_'' candidate
      then raise_r InvalidIdentifier
             (kind @ '' '' @ py_repr candidate @ '' uses the reserved '' @ py_repr ''pg_'' @ '' prefix'')
      else Inr candidate)"

definition validate_role_name :: "string \<Rightarrow> string \<Rightarrow> string res" where
  "validate_role_name value kind =
     bind_r (validate_identifier value kind) (\<lambda>v. reject_reserved_role_prefix v kind)"

text \<open>The dictionary with the keys \<open>owner\<close>, \<open>readWrite\<close> and \<open>readOnly\<close>.\<close>

record role_names =
  rn_owner :: string
  rn_read_write :: string
  rn_read_only :: string

definition group_role_names :: "(string \<Rightarrow> string) \<Rightarrow> string \<Rightarrow> string \<Rightarrow> role_names" where
  "group_role_names sha database prefix =
     (let base = (if prefix \<noteq> [] then prefix @ database else database);
          base = truncate_for_suffix sha base (length ''_owner'')
      in \<lparr>rn_owner = base @ ''_owner'', rn_read_write = base @ ''_rw'', rn_read_only = base @ ''_ro''\<rparr>)"

section \<open>The objects of a replication\<close>

record replication_names_t =
  rp_publication :: string
  rp_subscription :: string
  rp_login :: string
  rp_secret :: string

definition readable :: "string \<Rightarrow> string" where
  "readable value =
     strip_if is_underscore (drop_leading_invalid (sub_invalid_chars (py_lower (py_strip value))))"

definition replication_secret_name :: "(string \<Rightarrow> string) \<Rightarrow> string \<Rightarrow> string \<Rightarrow> string" where
  "replication_secret_name sha namespace name =
     (let candidate = ''pgop-repl.'' @ namespace @ ''.'' @ name in
      if length candidate \<le> 253 then candidate
      else let digest = take 8 (sha (namespace @ ''/'' @ name))
           in rstrip_if (\<lambda>c. c = CHR ''.'' \<or> c = CHR ''-'')
                (py_prefix (253 - int (length digest) - 1) candidate) @ ''-'' @ digest)"

definition replication_names ::
  "(string \<Rightarrow> string) \<Rightarrow> string \<Rightarrow> string \<Rightarrow> string \<Rightarrow> replication_names_t res" where
  "replication_names sha namespace name role_prefix =
     (let nul = [char_of (0::nat)];
          digest = take 8 (sha (role_prefix @ nul @ namespace @ nul @ name));
          r = readable (namespace @ ''_'' @ name);
          subscription = with_digest (''pgop_'' @ role_prefix @ r) digest
      in bind_r (reject_reserved_role_prefix
                  (with_digest (role_prefix @ ''pgop_repl_'' @ r) digest) ''replication login'')
           (\<lambda>login. Inr \<lparr>rp_publication = subscription, rp_subscription = subscription,
                         rp_login = login, rp_secret = replication_secret_name sha namespace name\<rparr>))"

definition secret_name :: "(string \<Rightarrow> string) \<Rightarrow> string \<Rightarrow> string \<Rightarrow> string" where
  "secret_name sha resource_name suffix =
     (let name = resource_name @ ''-'' @ suffix in
      if length name \<le> 253 then name
      else let digest = take 8 (sha resource_name)
           in py_prefix (253 - int (length suffix) - int (length digest) - 2) resource_name
              @ ''-'' @ digest @ ''-'' @ suffix)"

section \<open>Truncation keeps names short\<close>

text \<open>What the code relies on from \<open>sha256(...).hexdigest()\<close>: 64 lowercase hexadecimal digits.\<close>

definition hex_char :: "char \<Rightarrow> bool" where
  "hex_char c \<longleftrightarrow> is_digit c \<or> (97 \<le> code c \<and> code c \<le> 102)"

definition hex_digests :: "(string \<Rightarrow> string) \<Rightarrow> bool" where
  "hex_digests sha \<longleftrightarrow> (\<forall>x. length (sha x) = 64 \<and> (\<forall>c \<in> set (sha x). hex_char c))"

lemma hex_char_valid: "hex_char c \<Longrightarrow> valid_char c"
  by (auto simp: hex_char_def valid_char_def is_lower_letter_def)

lemma valid_char_ascii: "valid_char c \<Longrightarrow> code c < 128"
  by (auto simp: valid_char_def is_lower_letter_def is_digit_def is_underscore_def)

lemma valid_char_identifier: "valid_char c \<Longrightarrow> identifier_char c"
  by (auto simp: valid_char_def identifier_char_def)

lemma leading_char_valid: "leading_char c \<Longrightarrow> valid_char c"
  by (auto simp: valid_char_def leading_char_def)

lemma underscore_valid [simp]: "valid_char CHR ''_''"
  by (simp add: valid_char_def is_underscore_def code_def)

lemma code_underscore [simp]: "code CHR ''_'' = 95"
  by (simp add: code_def)

lemma take_sha_length: "hex_digests sha \<Longrightarrow> n \<le> 64 \<Longrightarrow> length (take n (sha x)) = n"
  by (simp add: hex_digests_def)

lemma take_sha_chars: "hex_digests sha \<Longrightarrow> c \<in> set (take n (sha x)) \<Longrightarrow> valid_char c"
  unfolding hex_digests_def using hex_char_valid in_set_takeD by metis

lemma take_sha_bytes: "hex_digests sha \<Longrightarrow> n \<le> 64 \<Longrightarrow> length (utf8 (take n (sha x))) = n"
  using take_sha_length take_sha_chars length_utf8_ascii valid_char_ascii by metis

lemma decode_ascii: "b < 128 \<Longrightarrow> utf8_decode_ignore (b # bs) = char_of b # utf8_decode_ignore bs"
  by (cases bs) simp_all

text \<open>Decoding a cut encoding gives the longest whole prefix that fits.\<close>

lemma decode_take:
  "\<exists>k. utf8_decode_ignore (take n (utf8 v)) = take k v \<and> length (utf8 (take k v)) \<le> n"
proof (induction v arbitrary: n)
  case Nil
  then show ?case by simp
next
  case (Cons c cs)
  show ?case
  proof (cases "code c < 128")
    case True
    show ?thesis
    proof (cases n)
      case 0
      then show ?thesis by (intro exI [of _ 0]) simp
    next
      case (Suc m)
      obtain k where "utf8_decode_ignore (take m (utf8 cs)) = take k cs"
        and "length (utf8 (take k cs)) \<le> m" using Cons.IH by blast
      with True Suc show ?thesis by (intro exI [of _ "Suc k"]) (simp add: decode_ascii)
    qed
  next
    case False
    have bounds: "194 \<le> 192 + code c div 64" "192 + code c div 64 \<le> 195"
      using False code_less [of c] by linarith+
    have whole: "(code c div 64) * 64 + code c mod 64 = code c" by simp
    show ?thesis
    proof (cases "n < 2")
      case True
      then have "n = 0 \<or> n = 1" by linarith
      with False show ?thesis by (intro exI [of _ 0]) auto
    next
      case n2: False
      then obtain m where m: "n = Suc (Suc m)"
        by (metis One_nat_def Suc_1 less_Suc0 less_Suc_eq not0_implies_Suc not_less_eq)
      obtain k where "utf8_decode_ignore (take m (utf8 cs)) = take k cs"
        and "length (utf8 (take k cs)) \<le> m" using Cons.IH by blast
      with False m bounds show ?thesis
        by (intro exI [of _ "Suc k"]) (simp add: whole)
    qed
  qed
qed

lemma rstrip_take_take: "\<exists>k. rstrip_if p (take n v) = take k v"
  by (metis rstrip_if_take take_take)

lemma length_utf8_take: "length (utf8 (take k v)) \<le> length (utf8 v)"
  by (metis append_take_drop_id le_add1 length_append utf8_append)

lemma truncate_bytes_props:
  "\<exists>k. truncate_bytes v n = take k v \<and> length (utf8 (take k v)) \<le> n"
proof (cases "length (utf8 v) \<le> n")
  case True
  then show ?thesis by (intro exI [of _ "length v"]) (simp add: truncate_bytes_def)
next
  case False
  obtain k where k: "utf8_decode_ignore (take n (utf8 v)) = take k v" "length (utf8 (take k v)) \<le> n"
    using decode_take by blast
  obtain j where j: "rstrip_if is_underscore (take k v) = take j (take k v)"
    using rstrip_if_take by blast
  have "length (utf8 (take j (take k v))) \<le> n"
    using k(2) length_utf8_take order_trans by blast
  with False k j show ?thesis
    by (intro exI [of _ "min j k"]) (simp add: truncate_bytes_def take_take)
qed

lemma truncate_bytes_length: "length (utf8 (truncate_bytes v n)) \<le> n"
  using truncate_bytes_props [of v n] by force

lemma truncate_bytes_subset: "c \<in> set (truncate_bytes v n) \<Longrightarrow> c \<in> set v"
  using truncate_bytes_props [of v n] by (metis in_set_takeD)

lemma truncate_bytes_fits: "length (utf8 v) \<le> n \<Longrightarrow> truncate_bytes v n = v"
  by (simp add: truncate_bytes_def)

lemma with_digest_bytes:
  assumes "hex_digests sha"
  shows "length (utf8 (with_digest base (take 8 (sha x)))) \<le> 63"
  using truncate_bytes_length [of base 54] take_sha_bytes [OF assms, of 8 x]
    take_sha_length [OF assms, of 8 x]
  by (simp add: with_digest_def MAX_IDENTIFIER_LENGTH_def Let_def)

lemma truncate_for_suffix_bytes:
  assumes "hex_digests sha" "n \<le> 56"
  shows "length (utf8 (truncate_for_suffix sha v n)) \<le> 63 - n"
  using truncate_bytes_length [of v "63 - n - 7"] take_sha_bytes [OF assms(1), of 6 v]
    take_sha_length [OF assms(1), of 6 v] assms(2)
  by (auto simp: truncate_for_suffix_def MAX_IDENTIFIER_LENGTH_def Let_def)

section \<open>What the sanitiser produces\<close>

lemma sub_invalid_valid: "c \<in> set (sub_invalid b s) \<Longrightarrow> valid_char c"
  by (induction b s rule: sub_invalid.induct) (auto split: if_splits)

lemma core_valid:
  "c \<in> set (strip_if is_underscore (drop_leading_invalid (sub_invalid_chars s))) \<Longrightarrow> valid_char c"
  unfolding drop_leading_invalid_def sub_invalid_chars_def
  using set_strip_if set_lstrip_if sub_invalid_valid by (meson subsetD)

lemma sanitize_cases:
  assumes "sanitize_identifier sha value kind = Inr c"
  obtains (short) "c = strip_if is_underscore (drop_leading_invalid (sub_invalid_chars (py_lower (py_strip value))))"
      "c \<noteq> []" "length (utf8 c) \<le> 63"
    | (long) cand where
        "cand = strip_if is_underscore (drop_leading_invalid (sub_invalid_chars (py_lower (py_strip value))))"
        "63 < length (utf8 cand)" "c = with_digest cand (take 8 (sha value))"
  using assms
  by (auto simp: sanitize_identifier_def with_digest_def Let_def MAX_IDENTIFIER_LENGTH_def
        split: if_splits)

lemma with_digest_chars:
  assumes "hex_digests sha" "\<forall>c \<in> set base. valid_char c" "c \<in> set (with_digest base (take n (sha x)))"
  shows "valid_char c"
  using assms(2,3) take_sha_chars [OF assms(1)] truncate_bytes_subset
  by (auto simp: with_digest_def Let_def)

lemma sanitize_result:
  assumes "hex_digests sha" "sanitize_identifier sha value kind = Inr c"
  shows "c \<noteq> [] \<and> length (utf8 c) \<le> MAX_IDENTIFIER_LENGTH \<and> (\<forall>ch \<in> set c. valid_char ch)"
  using assms(2)
proof (cases rule: sanitize_cases)
  case short
  then show ?thesis using core_valid by (auto simp: MAX_IDENTIFIER_LENGTH_def)
next
  case (long cand)
  then have "\<forall>ch \<in> set cand. valid_char ch" using core_valid by blast
  then have "\<forall>ch \<in> set c. valid_char ch" using with_digest_chars [OF assms(1)] long(3) by blast
  moreover have "length (utf8 c) \<le> 63" using with_digest_bytes [OF assms(1)] long(3) by simp
  moreover have "c \<noteq> []" using long(3) by (simp add: with_digest_def Let_def)
  ultimately show ?thesis by (simp add: MAX_IDENTIFIER_LENGTH_def)
qed

text \<open>
  A derived identifier is usable whatever the resource is called: it is not empty, fits
  PostgreSQL's 63 bytes and contains only \<open>[a-z0-9_]\<close>, so nothing that reaches SQL carries a
  quote, a space or a NUL byte.
\<close>

theorem sanitize_identifier_safe:
  assumes "hex_digests sha" "sanitize_identifier sha value kind = Inr c"
  shows "c \<noteq> [] \<and> length (utf8 c) \<le> MAX_IDENTIFIER_LENGTH \<and> (\<forall>ch \<in> set c. valid_char ch)"
  using assms by (rule sanitize_result)

definition sample_sha :: "string \<Rightarrow> string" where
  "sample_sha x = replicate 64 CHR ''a''"

lemma sample_sha_hex: "hex_digests sample_sha"
  by (simp add: hex_digests_def sample_sha_def hex_char_def is_digit_def code_def)

theorem sanitize_identifier_safe_witness:
  "\<exists>c. sanitize_identifier sample_sha ''My-App.db'' ''databaseName'' = Inr c \<and> c \<noteq> [] \<and>
     length (utf8 c) \<le> MAX_IDENTIFIER_LENGTH \<and> list_all valid_char c"
proof -
  have c: "sanitize_identifier sample_sha ''My-App.db'' ''databaseName'' = Inr ''my_app_db''" by code_simp
  from sanitize_identifier_safe [OF sample_sha_hex c] c show ?thesis by (auto simp: list_all_iff)
qed

section \<open>Derived names against validated names\<close>

lemma rstrip_if_Cons: "\<not> p c \<Longrightarrow> rstrip_if p (c # s) = c # rstrip_if p s"
  by (simp add: rstrip_if_def dropWhile_append3)

lemma lstrip_if_Cons: "\<not> p c \<Longrightarrow> lstrip_if p (c # s) = c # s"
  by (simp add: lstrip_if_def)

lemma strip_if_Cons: "\<not> p c \<Longrightarrow> strip_if p (c # s) = c # rstrip_if p s"
  by (simp add: strip_if_def lstrip_if_Cons rstrip_if_Cons)

lemma lower_letter_not_underscore: "is_lower_letter c \<Longrightarrow> \<not> is_underscore c"
  by (simp add: is_lower_letter_def is_underscore_def)

lemma truncate_bytes_Cons:
  assumes "is_lower_letter c" "0 < n"
  shows "\<exists>t. truncate_bytes (c # s) n = c # t"
proof -
  obtain m where m: "n = Suc m" using assms(2) gr0_implies_Suc by blast
  have ascii: "code c < 128" using assms(1) by (simp add: is_lower_letter_def)
  show ?thesis
    using m ascii lower_letter_not_underscore [OF assms(1)]
    by (auto simp: truncate_bytes_def decode_ascii rstrip_if_Cons)
qed

lemma valid_char_not_space: "valid_char c \<Longrightarrow> \<not> is_space c"
  by (auto simp: valid_char_def is_space_def is_lower_letter_def is_digit_def is_underscore_def Let_def)

lemma validate_valid_chars:
  assumes "\<forall>d \<in> set c. valid_char d" "c \<noteq> []" "leading_char (hd c)" "length (utf8 c) \<le> 63"
  shows "validate_identifier c kind = Inr c"
proof -
  have strip: "py_strip c = c"
    unfolding py_strip_def using assms(1) valid_char_not_space by (intro strip_if_id) blast
  have pattern: "identifier_pattern c"
    using assms(1-3) valid_char_identifier by (cases c) auto
  show ?thesis
    using assms(2,4) strip pattern by (simp add: validate_identifier_def MAX_IDENTIFIER_LENGTH_def)
qed

lemma core_starts_with_letter:
  assumes "py_strip value = c # cs" "is_lower_letter (lower_char c)"
  shows "\<exists>t. strip_if is_underscore (drop_leading_invalid (sub_invalid_chars (py_lower (py_strip value))))
      = lower_char c # t"
proof -
  have "valid_char (lower_char c)" "leading_char (lower_char c)"
    using assms(2) by (auto simp: valid_char_def leading_char_def)
  then show ?thesis
    using lower_letter_not_underscore [OF assms(2)]
    by (simp add: assms(1) py_lower_def sub_invalid_chars_def drop_leading_invalid_def
        lstrip_if_Cons strip_if_Cons)
qed

text \<open>
  For a resource name that starts with a letter the two ways of naming agree: the sanitiser
  succeeds, and what it derives is an identifier the validator accepts unchanged.
\<close>

theorem sanitized_name_is_valid:
  assumes "hex_digests sha" "py_strip value = c # cs" "is_lower_letter (lower_char c)"
  shows "\<exists>i. sanitize_identifier sha value kind = Inr i \<and> validate_identifier i kind' = Inr i"
proof -
  let ?core = "strip_if is_underscore (drop_leading_invalid (sub_invalid_chars (py_lower (py_strip value))))"
  obtain t where core: "?core = lower_char c # t"
    using core_starts_with_letter [OF assms(2,3)] by blast
  have ne: "value \<noteq> []" using assms(2) by auto
  then have "is_ok (sanitize_identifier sha value kind)"
    using core assms(2) by (simp add: sanitize_identifier_def Let_def)
  then obtain i where i: "sanitize_identifier sha value kind = Inr i" by (auto simp: is_ok_iff)
  have len: "length (take 8 (sha value)) = 8" by (rule take_sha_length [OF assms(1)]) simp
  from i have "\<exists>u. i = lower_char c # u"
  proof (cases rule: sanitize_cases)
    case short
    then show ?thesis using core by simp
  next
    case (long cand)
    obtain u where u: "truncate_bytes cand 54 = lower_char c # u"
      using truncate_bytes_Cons [OF assms(3), of 54 t] core long(1) by auto
    then show ?thesis
      using long(3) len by (simp add: with_digest_def MAX_IDENTIFIER_LENGTH_def)
  qed
  then have "leading_char (hd i)" using assms(3) by (auto simp: leading_char_def)
  then have "validate_identifier i kind' = Inr i"
    using sanitize_result [OF assms(1) i]
    by (intro validate_valid_chars) (auto simp: MAX_IDENTIFIER_LENGTH_def)
  with i show ?thesis by blast
qed

theorem sanitized_name_is_valid_witness:
  "\<exists>i. sanitize_identifier sample_sha ''orders-db'' ''a'' = Inr i \<and> validate_identifier i ''b'' = Inr i"
  by (rule sanitized_name_is_valid [OF sample_sha_hex, where c = "CHR ''o''" and cs = "''rders-db''"])
    code_simp+

text \<open>
  For a resource name that starts with a digit they need not agree: the resource name
  \<open>1-2a\<close> is a legal Kubernetes name, the sanitiser turns it into \<open>2a\<close>, and the validator refuses
  \<open>2a\<close> as an identifier (the leading-character rule is applied before the underscores are stripped).
\<close>

theorem sanitized_name_may_be_invalid:
  "sanitize_identifier sha ''1-2a'' kind = Inr ''2a'' \<and> \<not> is_ok (validate_identifier ''2a'' kind')"
proof
  have "strip_if is_underscore (drop_leading_invalid (sub_invalid_chars (py_lower (py_strip ''1-2a'')))) = ''2a''"
    and "py_strip ''1-2a'' \<noteq> []" and "length (utf8 ''2a'') = 2"
    by code_simp+
  then show "sanitize_identifier sha ''1-2a'' kind = Inr ''2a''"
    by (simp add: sanitize_identifier_def MAX_IDENTIFIER_LENGTH_def)
  have "py_strip ''2a'' = ''2a''" and "\<not> identifier_pattern ''2a''" and "length (utf8 ''2a'') = 2"
    by code_simp+
  then show "\<not> is_ok (validate_identifier ''2a'' kind')"
    by (simp add: validate_identifier_def MAX_IDENTIFIER_LENGTH_def)
qed

lemma validate_identifier_ok:
  "validate_identifier value kind = Inr c \<longleftrightarrow>
     c = py_strip value \<and> identifier_pattern c \<and> length (utf8 c) \<le> MAX_IDENTIFIER_LENGTH"
  by (cases "py_strip value = []") (auto simp: validate_identifier_def Let_def)

lemma reject_reserved_ok:
  "reject_reserved_role_prefix c kind = Inr d \<longleftrightarrow> d = c \<and> \<not> starts_with ''pg_'' c"
  by (auto simp: reject_reserved_role_prefix_def)

text \<open>
  A validated role name is exactly the stripped input, matches \<open>[a-z_][a-z0-9_$]*\<close>, fits 63
  bytes and does not use the \<open>pg_\<close> prefix PostgreSQL reserves; nothing else is accepted.
\<close>

theorem validate_role_name_accepts:
  "validate_role_name value kind = Inr c \<longleftrightarrow>
     c = py_strip value \<and> identifier_pattern c \<and> length (utf8 c) \<le> MAX_IDENTIFIER_LENGTH \<and>
     \<not> starts_with ''pg_'' c"
  by (auto simp: validate_role_name_def bind_r_eq_Inr validate_identifier_ok reject_reserved_ok)

section \<open>Group roles\<close>

text \<open>
  C40. The three group roles of a database always have three different names, and with the
  database name and prefix truncated together none exceeds 63 bytes, so PostgreSQL never
  truncates two of them into one.
\<close>

theorem group_role_names_distinct_and_bounded:
  assumes "hex_digests sha"
  shows "distinct [rn_owner (group_role_names sha db prefix), rn_read_write (group_role_names sha db prefix),
                   rn_read_only (group_role_names sha db prefix)] \<and>
     (\<forall>r \<in> {rn_owner (group_role_names sha db prefix), rn_read_write (group_role_names sha db prefix),
            rn_read_only (group_role_names sha db prefix)}. length (utf8 r) \<le> MAX_IDENTIFIER_LENGTH)"
proof -
  have six: "length ''_owner'' = 6" by simp
  obtain b where b: "group_role_names sha db prefix =
      \<lparr>rn_owner = b @ ''_owner'', rn_read_write = b @ ''_rw'', rn_read_only = b @ ''_ro''\<rparr>"
    and len: "length (utf8 b) \<le> 57"
    using truncate_for_suffix_bytes [OF assms, of 6]
    unfolding group_role_names_def Let_def six by auto
  show ?thesis using len by (simp add: b MAX_IDENTIFIER_LENGTH_def code_def)
qed

theorem group_role_names_distinct_and_bounded_witness:
  "distinct [rn_owner (group_role_names sample_sha ''orders'' ''stg_''), rn_read_write (group_role_names sample_sha ''orders'' ''stg_''),
                   rn_read_only (group_role_names sample_sha ''orders'' ''stg_'')] \<and>
     length (utf8 (rn_read_write (group_role_names sample_sha ''orders'' ''stg_''))) \<le> MAX_IDENTIFIER_LENGTH"
  using group_role_names_distinct_and_bounded [OF sample_sha_hex, of "''orders''" "''stg_''"] by blast

lemma owner_is_not_reader: "a @ ''_owner'' \<noteq> b @ ''_rw''" "a @ ''_owner'' \<noteq> b @ ''_ro''"
  using arg_cong [where f = rev, of "a @ ''_owner''" "b @ ''_rw''"]
    arg_cong [where f = rev, of "a @ ''_owner''" "b @ ''_ro''"] by auto

definition role_set :: "role_names \<Rightarrow> string set" where
  "role_set r = {rn_owner r, rn_read_write r, rn_read_only r}"

text \<open>
  Two databases never share a group role by accident: on one instance (one prefix), as long as
  prefix and name fit 57 bytes, different database names give disjoint sets of group roles.
\<close>

theorem group_roles_of_databases_disjoint:
  assumes "db1 \<noteq> db2" "length (utf8 (prefix @ db1)) \<le> 57" "length (utf8 (prefix @ db2)) \<le> 57"
  shows "role_set (group_role_names sha db1 prefix) \<inter> role_set (group_role_names sha db2 prefix) = {}"
proof -
  have names: "group_role_names sha db prefix = \<lparr>rn_owner = prefix @ db @ ''_owner'',
      rn_read_write = prefix @ db @ ''_rw'', rn_read_only = prefix @ db @ ''_ro''\<rparr>"
    if "length (utf8 (prefix @ db)) \<le> 57" for db
    using that by (auto simp: group_role_names_def truncate_for_suffix_def MAX_IDENTIFIER_LENGTH_def Let_def)
  show ?thesis
    using assms(1) owner_is_not_reader [of db1 db2] owner_is_not_reader [of db2 db1]
    by (auto simp: role_set_def names [OF assms(2)] names [OF assms(3)] dest: sym)
qed

theorem group_roles_of_databases_disjoint_witness:
  "role_set (group_role_names sample_sha ''orders'' ''stg_'') \<inter> role_set (group_role_names sample_sha ''orders_owner'' ''stg_'') = {}"
  by (rule group_roles_of_databases_disjoint) code_simp+

section \<open>Names of a replication\<close>

lemma with_digest_inject:
  assumes "hex_digests sha" "with_digest a (take 8 (sha x)) = with_digest b (take 8 (sha y))"
  shows "take 8 (sha x) = take 8 (sha y)"
proof -
  have "length (take 8 (sha x)) = length (take 8 (sha y))"
    using take_sha_length [OF assms(1)] by simp
  then show ?thesis using assms(2) by (simp add: with_digest_def Let_def)
qed

lemma length_py_prefix: "0 \<le> n \<Longrightarrow> length (py_prefix n s) \<le> nat n"
  by (simp add: py_prefix_def)

lemma replication_secret_name_length:
  assumes "hex_digests sha"
  shows "length (replication_secret_name sha ns nm) \<le> 253"
proof -
  let ?c = "''pgop-repl.'' @ ns @ ''.'' @ nm"
  let ?p = "\<lambda>c. c = CHR ''.'' \<or> c = CHR ''-''"
  have len: "\<And>x. length (take 8 (sha x)) = 8" by (rule take_sha_length [OF assms]) simp
  have "length (rstrip_if ?p (py_prefix 244 ?c)) \<le> 244"
    using length_rstrip_if [of ?p "py_prefix 244 ?c"] length_py_prefix [of 244 ?c] by simp
  then show ?thesis unfolding replication_secret_name_def Let_def len by (simp add: len del: length_take)
qed

definition replication_identity :: "string \<Rightarrow> string \<Rightarrow> string \<Rightarrow> string" where
  "replication_identity role_prefix ns nm = role_prefix @ [char_of (0::nat)] @ ns @ [char_of (0::nat)] @ nm"

lemma replication_names_ok:
  assumes "replication_names sha ns nm p = Inr n"
  shows "rp_publication n = rp_subscription n"
    "\<exists>b. rp_subscription n = with_digest b (take 8 (sha (replication_identity p ns nm)))"
    "\<exists>b. rp_login n = with_digest b (take 8 (sha (replication_identity p ns nm)))"
    "rp_secret n = replication_secret_name sha ns nm"
    "\<not> starts_with ''pg_'' (rp_login n)"
  using assms
  by (auto simp: replication_names_def Let_def bind_r_eq_Inr reject_reserved_ok replication_identity_def)

text \<open>
  Every object of a replication has a usable name: publication, subscription (and slot) and
  login fit 63 bytes, the login is not a reserved \<open>pg_\<close> role, and the Secret's name fits 253
  characters.
\<close>

theorem replication_names_bounded:
  assumes "hex_digests sha" "replication_names sha ns nm p = Inr n"
  shows "length (utf8 (rp_publication n)) \<le> MAX_IDENTIFIER_LENGTH \<and>
     length (utf8 (rp_subscription n)) \<le> MAX_IDENTIFIER_LENGTH \<and>
     length (utf8 (rp_login n)) \<le> MAX_IDENTIFIER_LENGTH \<and>
     \<not> starts_with ''pg_'' (rp_login n) \<and> length (rp_secret n) \<le> 253"
  using replication_names_ok [OF assms(2)] with_digest_bytes [OF assms(1)]
    replication_secret_name_length [OF assms(1)]
  by (auto simp: MAX_IDENTIFIER_LENGTH_def)

theorem replication_names_bounded_witness:
  "\<exists>n. replication_names sample_sha ''team-a'' ''x'' [] = Inr n \<and>
     length (utf8 (rp_publication n)) \<le> MAX_IDENTIFIER_LENGTH \<and>
     length (utf8 (rp_subscription n)) \<le> MAX_IDENTIFIER_LENGTH \<and>
     length (utf8 (rp_login n)) \<le> MAX_IDENTIFIER_LENGTH \<and>
     \<not> starts_with ''pg_'' (rp_login n) \<and> length (rp_secret n) \<le> 253"
proof -
  have "is_ok (replication_names sample_sha ''team-a'' ''x'' [])" by code_simp
  then obtain n where n: "replication_names sample_sha ''team-a'' ''x'' [] = Inr n"
    by (auto simp: is_ok_iff)
  from replication_names_bounded [OF sample_sha_hex n] n show ?thesis by blast
qed

text \<open>
  Two replications never share a slot, a publication or a login while the digests of their
  identities differ, even when their readable parts sanitise alike (\<open>team-a/x\<close> and \<open>team/a-x\<close>).
\<close>

theorem replication_names_separate:
  assumes "hex_digests sha"
    and "replication_names sha ns1 nm1 p = Inr n1" "replication_names sha ns2 nm2 p = Inr n2"
    and "take 8 (sha (replication_identity p ns1 nm1)) \<noteq> take 8 (sha (replication_identity p ns2 nm2))"
  shows "rp_subscription n1 \<noteq> rp_subscription n2 \<and> rp_publication n1 \<noteq> rp_publication n2 \<and>
     rp_login n1 \<noteq> rp_login n2"
  using replication_names_ok [OF assms(2)] replication_names_ok [OF assms(3)]
    with_digest_inject [OF assms(1)] assms(4) by metis

text \<open>A digest that tells \<open>team-a/x\<close> from \<open>team/a-x\<close>, for the witness.\<close>

definition length_sha :: "string \<Rightarrow> string" where
  "length_sha x =
     replicate 64 (if length (takeWhile (\<lambda>c. code c \<noteq> 0) (tl x)) = 6 then CHR ''b'' else CHR ''a'')"

lemma length_sha_hex: "hex_digests length_sha"
  by (simp add: hex_digests_def length_sha_def hex_char_def is_digit_def code_def)

theorem replication_names_separate_witness:
  "\<exists>n1 n2. replication_names length_sha ''team-a'' ''x'' [] = Inr n1 \<and>
     replication_names length_sha ''team'' ''a-x'' [] = Inr n2 \<and>
     rp_subscription n1 \<noteq> rp_subscription n2 \<and> rp_publication n1 \<noteq> rp_publication n2 \<and>
     rp_login n1 \<noteq> rp_login n2"
proof -
  have "is_ok (replication_names length_sha ''team-a'' ''x'' [])"
    and "is_ok (replication_names length_sha ''team'' ''a-x'' [])" by code_simp+
  then obtain n1 n2 where n: "replication_names length_sha ''team-a'' ''x'' [] = Inr n1"
      "replication_names length_sha ''team'' ''a-x'' [] = Inr n2"
    by (auto simp: is_ok_iff)
  have "take 8 (length_sha (replication_identity [] ''team-a'' ''x'')) \<noteq>
      take 8 (length_sha (replication_identity [] ''team'' ''a-x''))" by code_simp
  from replication_names_separate [OF length_sha_hex n this] n show ?thesis by blast
qed

text \<open>The name of a generated credentials Secret fits Kubernetes' limit for both suffixes in use.\<close>

lemma secret_name_length:
  assumes "hex_digests sha" "length suffix \<le> 240"
  shows "length (secret_name sha r suffix) \<le> 253"
proof -
  have len: "length (take 8 (sha r)) = 8" by (rule take_sha_length [OF assms(1)]) simp
  have "length (py_prefix (253 - int (length suffix) - 8 - 2) r) \<le> nat (253 - int (length suffix) - 8 - 2)"
    using assms(2) by (intro length_py_prefix) simp
  then show ?thesis
    using assms(2) unfolding secret_name_def Let_def len by (auto simp: len simp del: length_take)
qed

end
