(* ===== verification/Units.thy ===== *)
theory Units
  imports Errors
begin

text \<open>
  \<open>units.py\<close>: Kubernetes-style quantities and durations. \<open>Decimal\<close> arithmetic is the standard
  library's: construction is exact, a product is rounded half-even to the context's 28 significant
  digits. Python's \<open>$\<close> also matches before a final line feed, which the two patterns inherit.
  \<open>format_bytes\<close> computes with IEEE doubles; the conversion rounds to 53 bits, every division by
  1024 is exact, and \<open>.1f\<close> rounds the exact value half-even, which the model does over integers.
\<close>

section \<open>Digits\<close>

lemma code_digit_char: "n < (10::nat) \<Longrightarrow> code (char_of (48 + n)) = 48 + n"
  by (simp add: code_char_of)

lemma is_digit_char: "n < (10::nat) \<Longrightarrow> is_digit (char_of (48 + n))"
  by (simp add: is_digit_def code_digit_char)

lemma show_nat_digits: "\<forall>c \<in> set (show_nat n). is_digit c"
proof (induction n rule: show_nat.induct)
  case (1 n)
  show ?case
    using 1 is_digit_char [of n] is_digit_char [of "n mod 10"]
    by (subst show_nat.simps) auto
qed

lemma digits_value_snoc: "digits_value (s @ [c]) = 10 * digits_value s + (code c - 48)"
  by (simp add: digits_value_def)

lemma digits_value_show [simp]: "digits_value (show_nat n) = n"
proof (induction n rule: show_nat.induct)
  case (1 n)
  show ?case
  proof (cases "n < 10")
    case True
    then show ?thesis
      by (subst show_nat.simps) (simp add: digits_value_def code_digit_char)
  next
    case False
    with 1 have "digits_value (show_nat (n div 10)) = n div 10" by simp
    with False show ?thesis
      by (subst show_nat.simps) (simp add: digits_value_snoc code_digit_char del: digits_value_def)
  qed
qed

lemma takeWhile_show: "\<not> is_digit c \<Longrightarrow> takeWhile is_digit (show_nat n @ c # s) = show_nat n"
  using show_nat_digits by (simp add: takeWhile_tail takeWhile_append2)

lemma dropWhile_show: "\<not> is_digit c \<Longrightarrow> dropWhile is_digit (show_nat n @ c # s) = c # s"
  using show_nat_digits by (simp add: dropWhile_append2)

lemma takeWhile_show_end: "takeWhile is_digit (show_nat n) = show_nat n"
  using show_nat_digits by (simp add: takeWhile_eq_all_conv)

lemma dropWhile_show_end: "dropWhile is_digit (show_nat n) = []"
  using show_nat_digits by (simp add: dropWhile_eq_Nil_conv)

section \<open>Quantities\<close>

datatype quantity = Q_Int int | Q_Str string

definition QUANTITY_SUFFIXES :: "(string \<times> nat) list" where
  "QUANTITY_SUFFIXES =
     [([], 1), (''Ki'', 1024), (''Mi'', 1024 ^ 2), (''Gi'', 1024 ^ 3), (''Ti'', 1024 ^ 4),
      (''Pi'', 1024 ^ 5), (''k'', 1000), (''M'', 1000 ^ 2), (''G'', 1000 ^ 3), (''T'', 1000 ^ 4),
      (''P'', 1000 ^ 5)]"

text \<open>The end of a pattern: the end of the text, or a final line feed.\<close>

definition at_end :: "string \<Rightarrow> bool" where
  "at_end s \<longleftrightarrow> s = [] \<or> s = [char_of (10::nat)]"

text \<open>\<open>(\.[0-9]+)?\<close>: what remains after an optional fraction.\<close>

definition skip_fraction :: "string \<Rightarrow> string" where
  "skip_fraction s = (case s of
      c # cs \<Rightarrow> (if c = CHR ''.'' \<and> takeWhile is_digit cs \<noteq> [] then dropWhile is_digit cs else s)
    | [] \<Rightarrow> [])"

text \<open>The suffix the pattern captures, or \<open>None\<close> when it does not match.\<close>

definition suffix_at_end :: "string \<Rightarrow> string option" where
  "suffix_at_end rest =
     find (\<lambda>s. starts_with s rest \<and> at_end (drop (length s) rest)) (map fst QUANTITY_SUFFIXES)"

definition quantity_suffix :: "string \<Rightarrow> string option" where
  "quantity_suffix value =
     (if takeWhile is_digit value = [] then None
      else suffix_at_end (skip_fraction (dropWhile is_digit value)))"

text \<open>\<open>Decimal(text)\<close> on texts of digits with an optional fraction: coefficient and number of
  fraction digits. Any other text is an \<open>InvalidOperation\<close>.\<close>

definition decimal_of :: "string \<Rightarrow> (nat \<times> nat) option" where
  "decimal_of text =
     (let t = py_strip text; whole = takeWhile is_digit t; rest = dropWhile is_digit t in
      if whole = [] then None
      else case rest of
          [] \<Rightarrow> Some (digits_value whole, 0)
        | c # frac \<Rightarrow>
            (if c = CHR ''.'' \<and> frac \<noteq> [] \<and> dropWhile is_digit frac = []
             then Some (digits_value (whole @ frac), length frac) else None))"

text \<open>Rounding a coefficient to 28 significant digits, half to even.\<close>

definition round_significant :: "nat \<Rightarrow> nat" where
  "round_significant n =
     (if n < 10 ^ 28 then n
      else let p = 10 ^ (length (show_nat n) - 28); q = n div p; r = n mod p
           in (if 2 * r > p \<or> (2 * r = p \<and> odd q) then q + 1 else q) * p)"

definition parse_quantity :: "quantity \<Rightarrow> int res" where
  "parse_quantity value = (case value of
      Q_Int n \<Rightarrow>
        (if n < 0 then raise_r Value_Error (''quantity '' @ show_int n @ '' is negative'') else Inr n)
    | Q_Str s \<Rightarrow>
        (case quantity_suffix s of
           None \<Rightarrow> raise_r Value_Error (''quantity '' @ py_repr s @
             '' is not a number with an optional suffix (Ki, Mi, Gi, Ti, Pi, k, M, G, T, P)'')
         | Some suffix \<Rightarrow>
             let number = take (length s - length suffix) s in
             (case decimal_of number of
                None \<Rightarrow> raise_r Value_Error (''quantity '' @ py_repr s @ '' is not a number'')
              | Some (coeff, scale) \<Rightarrow>
                  let amount = round_significant (coeff * the (map_of QUANTITY_SUFFIXES suffix))
                  in Inr (int (amount div 10 ^ scale)))))"

section \<open>Durations\<close>

text \<open>\<open>([0-9]+u)?\<close>: the digits before the unit when the group matches, and the rest.\<close>

definition duration_group :: "char \<Rightarrow> string \<Rightarrow> string option \<times> string" where
  "duration_group u s =
     (let ds = takeWhile is_digit s in
      case dropWhile is_digit s of
        c # rest \<Rightarrow> (if ds \<noteq> [] \<and> c = u then (Some ds, rest) else (None, s))
      | [] \<Rightarrow> (None, s))"

text \<open>\<open>int(part[:-1]) if part else 0\<close>, with the interpreter's limit of 4300 digits.\<close>

definition duration_part :: "string option \<Rightarrow> nat res" where
  "duration_part p = (case p of
      None \<Rightarrow> Inr 0
    | Some ds \<Rightarrow>
        (if 4300 < length ds
         then raise_r Value_Error ''Exceeds the limit (4300 digits) for integer string conversion''
         else Inr (digits_value ds)))"

definition parse_duration :: "string \<Rightarrow> int res" where
  "parse_duration value =
     (case duration_group CHR ''h'' value of (h, r1) \<Rightarrow>
      case duration_group CHR ''m'' r1 of (m, r2) \<Rightarrow>
      case duration_group CHR ''s'' r2 of (s, r3) \<Rightarrow>
        (if value = [] \<or> \<not> at_end r3
         then raise_r Value_Error (''duration '' @ py_repr value @
                '' must be hours, minutes and/or seconds, e.g. 10m or 1h30m'')
         else bind_r (duration_part h) (\<lambda>hours.
              bind_r (duration_part m) (\<lambda>minutes.
              bind_r (duration_part s) (\<lambda>seconds.
                Inr (int (hours * 3600 + minutes * 60 + seconds)))))))"

section \<open>Formatting\<close>

text \<open>\<open>n / d\<close> rounded half to even.\<close>

definition div_half_even :: "nat \<Rightarrow> nat \<Rightarrow> nat" where
  "div_half_even n d =
     (let q = n div d; r = n mod d in if 2 * r > d \<or> (2 * r = d \<and> odd q) then q + 1 else q)"

text \<open>\<open>float(n)\<close>: the nearest multiple of \<open>2 ^ e\<close> that 53 bits can hold.\<close>

fun float_exponent :: "nat \<Rightarrow> nat" where
  "float_exponent n = (if n < 2 ^ 53 then 0 else Suc (float_exponent (n div 2)))"

declare float_exponent.simps [simp del]

definition to_double :: "nat \<Rightarrow> nat" where
  "to_double n = div_half_even n (2 ^ float_exponent n) * 2 ^ float_exponent n"

definition BINARY_UNITS :: "string list" where
  "BINARY_UNITS = [''B'', ''KiB'', ''MiB'', ''GiB'', ''TiB'', ''PiB'']"

text \<open>The loop over the units: \<open>k\<close> divisions by 1024 so far, \<open>a\<close> the absolute amount.\<close>

fun format_loop :: "string \<Rightarrow> nat \<Rightarrow> nat \<Rightarrow> string list \<Rightarrow> string" where
  "format_loop sign a k [] = []"
| "format_loop sign a k (unit # units) =
     (if a < 1024 * 1024 ^ k \<or> units = [] then
        (if unit = ''B'' then sign @ show_nat a @ '' B''
         else let tenths = div_half_even (10 * a) (1024 ^ k) in
           (if tenths mod 10 = 0 then sign @ show_nat (tenths div 10) @ '' '' @ unit
            else sign @ show_nat (tenths div 10) @ ''.'' @ show_nat (tenths mod 10) @ '' '' @ unit))
      else format_loop sign a (Suc k) units)"

definition format_bytes :: "int \<Rightarrow> string" where
  "format_bytes value =
     format_loop (if value < 0 then ''-'' else []) (to_double (nat \<bar>value\<bar>)) 0 BINARY_UNITS"

section \<open>What the parsers compute\<close>

text \<open>The suffixes, in the order the pattern tries them.\<close>

definition suffix_names :: "string list" where
  "suffix_names = [[], ''Ki'', ''Mi'', ''Gi'', ''Ti'', ''Pi'', ''k'', ''M'', ''G'', ''T'', ''P'']"

lemma suffix_names: "map fst QUANTITY_SUFFIXES = suffix_names"
  by (simp add: QUANTITY_SUFFIXES_def suffix_names_def)

lemma suffix_names_found:
  "list_all (\<lambda>r. find (\<lambda>s. starts_with s r \<and> at_end (drop (length s) r)) suffix_names = Some r) suffix_names"
  by code_simp

lemma suffix_at_end_self: "s \<in> set suffix_names \<Longrightarrow> suffix_at_end s = Some s"
  using suffix_names_found by (simp add: suffix_at_end_def suffix_names list_all_iff)

lemma suffix_heads:
  "list_all (\<lambda>s. s = [] \<or> \<not> is_digit (hd s) \<and> hd s \<noteq> CHR ''.'') suffix_names"
  by code_simp

lemma suffix_head:
  "s \<in> set suffix_names \<Longrightarrow> s \<noteq> [] \<Longrightarrow> \<not> is_digit (hd s) \<and> hd s \<noteq> CHR ''.''"
  using suffix_heads by (auto simp: list_all_iff)

lemma digit_not_space: "is_digit c \<Longrightarrow> \<not> is_space c"
  by (auto simp: is_digit_def is_space_def Let_def)

lemma strip_unspaced: "\<forall>c \<in> set s. \<not> is_space c \<Longrightarrow> py_strip s = s"
  unfolding py_strip_def by (rule strip_if_id)

lemma take_digits_before:
  assumes "\<forall>c \<in> set w. is_digit c" "s = [] \<or> \<not> is_digit (hd s)"
  shows "takeWhile is_digit (w @ s) = w" "dropWhile is_digit (w @ s) = s"
  using assms by (cases s; simp add: takeWhile_tail takeWhile_append2 dropWhile_append2 takeWhile_eq_all_conv)+

lemma decimal_of_digits:
  assumes "\<forall>c \<in> set w. is_digit c" "w \<noteq> []"
  shows "decimal_of w = Some (digits_value w, 0)"
proof -
  have strip: "py_strip w = w" using assms(1) digit_not_space by (intro strip_unspaced) blast
  have whole: "takeWhile is_digit w = w" "dropWhile is_digit w = []" using assms(1) by simp_all
  show ?thesis unfolding decimal_of_def Let_def strip whole using assms(2) by simp
qed

lemma dot_not_digit: "\<not> is_digit CHR ''.''" "\<not> is_space CHR ''.''"
  by (simp_all add: is_digit_def is_space_def code_def)

lemma decimal_of_fraction:
  assumes "\<forall>c \<in> set w. is_digit c" "w \<noteq> []" "\<forall>c \<in> set f. is_digit c" "f \<noteq> []"
  shows "decimal_of (w @ CHR ''.'' # f) = Some (digits_value (w @ f), length f)"
proof -
  have "py_strip (w @ CHR ''.'' # f) = w @ CHR ''.'' # f"
    using assms digit_not_space dot_not_digit by (intro strip_unspaced) auto
  moreover have "dropWhile is_digit f = []" using assms(3) by simp
  ultimately show ?thesis
    using take_digits_before [OF assms(1), of "CHR ''.'' # f"] dot_not_digit assms(2,4)
    by (simp add: decimal_of_def Let_def)
qed

lemma parse_with_suffix:
  assumes "quantity_suffix (number @ suffix) = Some suffix" "decimal_of number = Some (c, k)"
    and "c * the (map_of QUANTITY_SUFFIXES suffix) < 10 ^ 28"
  shows "parse_quantity (Q_Str (number @ suffix)) =
    Inr (int (c * the (map_of QUANTITY_SUFFIXES suffix) div 10 ^ k))"
  using assms by (simp add: parse_quantity_def round_significant_def Let_def)

lemma quantity_suffix_whole:
  assumes "\<forall>c \<in> set w. is_digit c" "w \<noteq> []" "suffix \<in> set suffix_names"
  shows "quantity_suffix (w @ suffix) = Some suffix"
proof -
  have head: "suffix = [] \<or> \<not> is_digit (hd suffix)" using suffix_head [OF assms(3)] by blast
  have "skip_fraction suffix = suffix"
    using suffix_head [OF assms(3)] by (cases suffix) (auto simp: skip_fraction_def)
  then show ?thesis
    using take_digits_before [OF assms(1) head] assms(2) suffix_at_end_self [OF assms(3)]
    by (simp add: quantity_suffix_def)
qed

lemma quantity_suffix_fraction:
  assumes "\<forall>c \<in> set w. is_digit c" "w \<noteq> []" "\<forall>c \<in> set f. is_digit c" "f \<noteq> []"
    and "suffix \<in> set suffix_names"
  shows "quantity_suffix (w @ CHR ''.'' # f @ suffix) = Some suffix"
proof -
  have head: "suffix = [] \<or> \<not> is_digit (hd suffix)" using suffix_head [OF assms(5)] by blast
  have "skip_fraction (CHR ''.'' # f @ suffix) = suffix"
    using take_digits_before [OF assms(3) head] assms(4) by (simp add: skip_fraction_def)
  then show ?thesis
    using take_digits_before [OF assms(1), of "CHR ''.'' # f @ suffix"] dot_not_digit assms(2)
      suffix_at_end_self [OF assms(5)]
    by (simp add: quantity_suffix_def)
qed

text \<open>
  A quantity means what it says: digits, an optional fraction and one of the eleven suffixes
  give exactly the number of bytes (rounded down), as long as the product stays below the 28
  significant digits of \<open>Decimal\<close>, far above any disk.
\<close>

theorem parse_quantity_exact:
  assumes "\<forall>c \<in> set w. is_digit c" "w \<noteq> []" "\<forall>c \<in> set f. is_digit c"
    and "(suffix, m) \<in> set QUANTITY_SUFFIXES" "digits_value (w @ f) * m < 10 ^ 28"
  shows "parse_quantity (Q_Str (w @ (if f = [] then [] else CHR ''.'' # f) @ suffix)) =
    Inr (int (digits_value (w @ f) * m div 10 ^ length f))"
proof -
  have s: "suffix \<in> set suffix_names" using assms(4) suffix_names by (metis fst_conv image_eqI image_set)
  have "distinct (map fst QUANTITY_SUFFIXES)" unfolding suffix_names suffix_names_def by simp
  then have m: "map_of QUANTITY_SUFFIXES suffix = Some m" using assms(4) by simp
  show ?thesis
  proof (cases "f = []")
    case True
    then show ?thesis
      using parse_with_suffix [OF quantity_suffix_whole [OF assms(1,2) s] decimal_of_digits [OF assms(1,2)]]
        assms(5) m by simp
  next
    case False
    then show ?thesis
      using parse_with_suffix [of "w @ CHR ''.'' # f" suffix]
        quantity_suffix_fraction [OF assms(1-3) False s] decimal_of_fraction [OF assms(1-3) False]
        assms(5) m by simp
  qed
qed

theorem parse_quantity_exact_witness: "parse_quantity (Q_Str ''1.5Gi'') = Inr 1610612736"
  using parse_quantity_exact [of "''1''" "''5''" "''Gi''" "1024 ^ 3"]
  by (simp add: is_digit_def code_def QUANTITY_SUFFIXES_def digits_value_def)

lemma parse_quantity_nonnegative: "parse_quantity q = Inr n \<Longrightarrow> 0 \<le> n"
  by (auto simp: parse_quantity_def raise_r_def Let_def split: quantity.splits if_splits option.splits prod.splits)

lemma duration_group_show:
  assumes "\<not> is_digit u"
  shows "duration_group u (show_nat n @ u # rest) = (Some (show_nat n), rest)"
  using take_digits_before [OF show_nat_digits, of "u # rest" n] assms show_nat_nonempty [of n]
  by (simp add: duration_group_def Let_def)

lemma unit_not_digit: "\<not> is_digit CHR ''h''" "\<not> is_digit CHR ''m''" "\<not> is_digit CHR ''s''"
  by (simp_all add: is_digit_def code_def)

text \<open>
  Round trip of durations: hours, minutes and seconds written as \<open>1h30m5s\<close> are read back as
  exactly that many seconds (up to the interpreter's limit of 4300 digits per number).
\<close>

theorem parse_duration_roundtrip:
  assumes "length (show_nat h) \<le> 4300" "length (show_nat m) \<le> 4300" "length (show_nat s) \<le> 4300"
  shows "parse_duration (show_nat h @ ''h'' @ show_nat m @ ''m'' @ show_nat s @ ''s'') =
    Inr (int (h * 3600 + m * 60 + s))"
  using assms show_nat_nonempty [of h]
    duration_group_show [OF unit_not_digit(1), of h "show_nat m @ ''m'' @ show_nat s @ ''s''"]
    duration_group_show [OF unit_not_digit(2), of m "show_nat s @ ''s''"]
    duration_group_show [OF unit_not_digit(3), of s "[]"]
  by (simp add: parse_duration_def duration_part_def at_end_def)

theorem parse_duration_roundtrip_witness: "parse_duration ''1h30m5s'' = Inr 5405"
proof -
  have *: "show_nat (Suc 0) = ''1''" "show_nat 30 = ''30''" "show_nat 5 = ''5''" by code_simp+
  show ?thesis using parse_duration_roundtrip [of "Suc 0" 30 5] by (simp add: *)
qed

end
