(* ===== verification/Models.thy ===== *)
theory Models
  imports Naming Units
begin

text \<open>
  \<open>models.py\<close>: the specs of the four custom resources and what the operator checks in them beyond
  the CRD schema. Reading a JSON object into the fields of a model is the work of pydantic, which is
  not under \<open>src/\<close>; a spec here is the record of its fields, its field bounds are \<open>fields_ok\<close> predicates,
  and each \<open>validate\<close> definition is the model's own validator. Enumerated fields (\<open>Literal\<close>) are
  datatypes. A dictionary is an association list.
\<close>

section \<open>Shared pieces\<close>

datatype retention = RETAIN | DROP_RESOURCES

datatype access_level = OWNER | RW | RO

datatype ssl_mode = Ssl_Disable | Ssl_Allow | Ssl_Prefer | Ssl_Require | Ssl_Verify_Ca | Ssl_Verify_Full

fun ssl_text :: "ssl_mode \<Rightarrow> string" where
  "ssl_text Ssl_Disable = ''disable''"
| "ssl_text Ssl_Allow = ''allow''"
| "ssl_text Ssl_Prefer = ''prefer''"
| "ssl_text Ssl_Require = ''require''"
| "ssl_text Ssl_Verify_Ca = ''verify-ca''"
| "ssl_text Ssl_Verify_Full = ''verify-full''"

text \<open>\<open>a or b\<close> on an optional text.\<close>

definition or_text :: "string option \<Rightarrow> string \<Rightarrow> string" where
  "or_text a b = (case a of Some (c # cs) \<Rightarrow> c # cs | _ \<Rightarrow> b)"

text \<open>Truth of an optional text.\<close>

definition given :: "string option \<Rightarrow> bool" where
  "given a \<longleftrightarrow> a \<noteq> None \<and> a \<noteq> Some []"

lemma or_text_simps [simp]: "or_text None b = b" "or_text (Some []) b = b" "or_text (Some (c # cs)) b = c # cs"
  by (simp_all add: or_text_def)

lemma or_text_given: "or_text a b = (if given a then the a else b)"
  by (cases a; cases "the a") (auto simp: or_text_def given_def)

lemma given_simps [simp]: "\<not> given None" "\<not> given (Some [])" "given (Some (c # cs))"
  by (simp_all add: given_def)

text \<open>\<open>Identifier\<close> and \<open>K8sName\<close>: bounds on the length in characters.\<close>

definition identifier_field :: "string \<Rightarrow> bool" where
  "identifier_field s \<longleftrightarrow> 1 \<le> length s \<and> length s \<le> 63"

definition k8s_name_field :: "string \<Rightarrow> bool" where
  "k8s_name_field s \<longleftrightarrow> 1 \<le> length s \<and> length s \<le> 253"

definition optional_field :: "('a \<Rightarrow> bool) \<Rightarrow> 'a option \<Rightarrow> bool" where
  "optional_field p a \<longleftrightarrow> (case a of None \<Rightarrow> True | Some x \<Rightarrow> p x)"

record secret_key_ref =
  skr_name :: string
  skr_namespace :: "string option"
  skr_key :: string

record credentials_ref =
  cr_name :: string
  cr_namespace :: "string option"
  cr_username_key :: string
  cr_password_key :: string

record object_ref =
  or_name :: string
  or_namespace :: "string option"

definition resolve_namespace :: "string option \<Rightarrow> string \<Rightarrow> string" where
  "resolve_namespace own dflt = or_text own dflt"

text \<open>A validated value is checked and then dropped: the model keeps the text as it was written.\<close>

definition check_identifier :: "string \<Rightarrow> string \<Rightarrow> unit res" where
  "check_identifier value kind = bind_r (validate_identifier value kind) (\<lambda>_. Inr ())"

definition check_role_name :: "string \<Rightarrow> string \<Rightarrow> unit res" where
  "check_role_name value kind = bind_r (validate_role_name value kind) (\<lambda>_. Inr ())"

definition valid_identifier_text :: "string \<Rightarrow> bool" where
  "valid_identifier_text s \<longleftrightarrow>
     identifier_pattern (py_strip s) \<and> length (utf8 (py_strip s)) \<le> MAX_IDENTIFIER_LENGTH"

lemma check_identifier_ok [simp]: "check_identifier v k = Inr u \<longleftrightarrow> valid_identifier_text v"
  by (auto simp: check_identifier_def bind_r_eq_Inr validate_identifier_ok valid_identifier_text_def)

lemma check_role_name_ok [simp]:
  "check_role_name v k = Inr u \<longleftrightarrow> valid_identifier_text v \<and> \<not> starts_with ''pg_'' (py_strip v)"
  by (auto simp: check_role_name_def bind_r_eq_Inr validate_role_name_def validate_identifier_ok
      reject_reserved_ok valid_identifier_text_def)

section \<open>PushSecret\<close>

record store_ref =
  sr_name :: string
  sr_cluster :: bool        \<comment> \<open>\<open>kind\<close>: \<open>ClusterSecretStore\<close> or \<open>SecretStore\<close>\<close>

record push_secret_spec =
  ps_enabled :: bool
  ps_store_refs :: "store_ref list"
  ps_remote_ref_key :: "string option"
  ps_replace :: bool        \<comment> \<open>\<open>updatePolicy\<close>: \<open>Replace\<close> or \<open>IfNotExists\<close>\<close>
  ps_delete :: bool         \<comment> \<open>\<open>deletionPolicy\<close>: \<open>Delete\<close> or \<open>None\<close>\<close>
  ps_refresh_interval :: "string option"
  ps_labels :: "(string \<times> string) list"
  ps_annotations :: "(string \<times> string) list"
  ps_keys :: "string list"
  ps_metadata :: "(string \<times> json) list"

definition validate_push_secret :: "push_secret_spec \<Rightarrow> unit res" where
  "validate_push_secret p =
     guard_r (ps_enabled p \<and> ps_store_refs p = []) Value_Error
       ''pushSecret.secretStoreRefs must be set when pushSecret is enabled''"

section \<open>PostgresInstance\<close>

record instance_spec =
  is_host :: string
  is_port :: int
  is_credentials :: credentials_ref
  is_maintenance_database :: string
  is_ssl_mode :: ssl_mode
  is_ssl_root_cert :: "secret_key_ref option"
  is_connect_timeout :: int
  is_retention :: retention
  is_role_prefix :: string
  is_push_secret :: "push_secret_spec option"
  is_allowed_namespaces :: "string list"
  is_min_server_version :: "int option"
  is_paused :: bool

definition instance_fields_ok :: "instance_spec \<Rightarrow> bool" where
  "instance_fields_ok s \<longleftrightarrow>
     is_host s \<noteq> [] \<and> 1 \<le> is_port s \<and> is_port s \<le> 65535 \<and> k8s_name_field (cr_name (is_credentials s)) \<and>
     identifier_field (is_maintenance_database s) \<and>
     optional_field (\<lambda>r. k8s_name_field (skr_name r)) (is_ssl_root_cert s) \<and>
     1 \<le> is_connect_timeout s \<and> is_connect_timeout s \<le> 300"

definition validate_optional :: "('a \<Rightarrow> unit res) \<Rightarrow> 'a option \<Rightarrow> unit res" where
  "validate_optional f a = (case a of None \<Rightarrow> Inr () | Some x \<Rightarrow> f x)"

definition validate_instance_spec :: "instance_spec \<Rightarrow> unit res" where
  "validate_instance_spec s =
     bind_r (validate_optional validate_push_secret (is_push_secret s)) (\<lambda>_.
     bind_r (guard_r (is_ssl_mode s \<in> {Ssl_Verify_Ca, Ssl_Verify_Full} \<and> is_ssl_root_cert s = None) Value_Error
              (''sslMode '' @ py_repr (ssl_text (is_ssl_mode s)) @ '' requires sslRootCertSecretRef'')) (\<lambda>_.
     if is_role_prefix s \<noteq> []
     then check_identifier (rstrip_if is_underscore (is_role_prefix s) @ ''_x'') ''rolePrefix''
     else Inr ()))"

definition permits_namespace :: "instance_spec \<Rightarrow> string \<Rightarrow> bool" where
  "permits_namespace s namespace \<longleftrightarrow>
     is_allowed_namespaces s = [] \<or> namespace \<in> set (is_allowed_namespaces s)"

section \<open>PostgresDB\<close>

record schema_spec =
  sc_name :: string
  sc_comment :: "string option"

record extension_spec =
  ex_name :: string
  ex_schema :: "string option"
  ex_version :: "string option"
  ex_cascade :: bool

record role_overrides =
  ro_owner :: "string option"
  ro_read_write :: "string option"
  ro_read_only :: "string option"

record database_spec =
  db_instance :: string
  db_name :: "string option"
  db_retention :: "retention option"
  db_schemas :: "schema_spec list"
  db_extensions :: "extension_spec list"
  db_roles :: role_overrides
  db_encoding :: string
  db_lc_collate :: "string option"
  db_lc_ctype :: "string option"
  db_template :: string
  db_connection_limit :: int
  db_parameters :: "(string \<times> string) list"
  db_comment :: "string option"
  db_revoke_public_connect :: bool
  db_revoke_public_schema_create :: bool
  db_grant_execute_to_read_only :: bool
  db_set_role_for_owners :: bool
  db_paused :: bool

definition validate_schema_spec :: "schema_spec \<Rightarrow> unit res" where
  "validate_schema_spec s = check_identifier (sc_name s) ''schema name''"

definition validate_extension_spec :: "extension_spec \<Rightarrow> unit res" where
  "validate_extension_spec e =
     bind_r (check_identifier (ex_name e) ''extension name'')
       (\<lambda>_. if given (ex_schema e) then check_identifier (the (ex_schema e)) ''extension schema'' else Inr ())"

definition override_values :: "role_overrides \<Rightarrow> string list" where
  "override_values r = map the (filter given [ro_owner r, ro_read_write r, ro_read_only r])"

definition validate_role_overrides :: "role_overrides \<Rightarrow> unit res" where
  "validate_role_overrides r =
     bind_r (all_r (\<lambda>(k, v). if given v then check_role_name (the v) k else Inr ())
              [(''roles.owner'', ro_owner r), (''roles.readWrite'', ro_read_write r),
               (''roles.readOnly'', ro_read_only r)])
       (\<lambda>_. guard_r (\<not> distinct (override_values r)) Value_Error
             ''roles.owner/readWrite/readOnly must be distinct'')"

text \<open>The validators of the nested models run first, then the model's own.\<close>

definition validate_database_spec :: "database_spec \<Rightarrow> unit res" where
  "validate_database_spec s =
     bind_r (all_r validate_schema_spec (db_schemas s)) (\<lambda>_.
     bind_r (all_r validate_extension_spec (db_extensions s)) (\<lambda>_.
     bind_r (validate_role_overrides (db_roles s)) (\<lambda>_.
     bind_r (if given (db_name s) then check_identifier (the (db_name s)) ''databaseName'' else Inr ()) (\<lambda>_.
     bind_r (guard_r (\<not> distinct (map sc_name (db_schemas s))) Value_Error
              ''spec.schemas contains duplicate names'') (\<lambda>_.
     guard_r (\<not> distinct (map ex_name (db_extensions s))) Value_Error
              ''spec.extensions contains duplicate names'')))))"

definition resolve_database_name :: "(string \<Rightarrow> string) \<Rightarrow> database_spec \<Rightarrow> string \<Rightarrow> string res" where
  "resolve_database_name sha s resource_name =
     (if given (db_name s) then Inr (the (db_name s))
      else sanitize_identifier sha resource_name ''databaseName'')"

definition resolve_schemas :: "database_spec \<Rightarrow> schema_spec list" where
  "resolve_schemas s =
     (if \<exists>x \<in> set (db_schemas s). sc_name x = ''public'' then db_schemas s
      else \<lparr>sc_name = ''public'', sc_comment = None\<rparr> # db_schemas s)"

definition repr_role_names :: "role_names \<Rightarrow> string" where
  "repr_role_names r = ''{'' @ py_repr ''owner'' @ '': '' @ py_repr (rn_owner r) @ '', '' @
     py_repr ''readWrite'' @ '': '' @ py_repr (rn_read_write r) @ '', '' @
     py_repr ''readOnly'' @ '': '' @ py_repr (rn_read_only r) @ ''}''"

definition resolve_role_names ::
  "(string \<Rightarrow> string) \<Rightarrow> database_spec \<Rightarrow> string \<Rightarrow> string \<Rightarrow> role_names res" where
  "resolve_role_names sha s database prefix =
     (let defaults = group_role_names sha database prefix;
          resolved = \<lparr>rn_owner = or_text (ro_owner (db_roles s)) (rn_owner defaults),
                      rn_read_write = or_text (ro_read_write (db_roles s)) (rn_read_write defaults),
                      rn_read_only = or_text (ro_read_only (db_roles s)) (rn_read_only defaults)\<rparr>
      in if \<not> distinct [rn_owner resolved, rn_read_write resolved, rn_read_only resolved]
         then raise_r Value_Error (''derived group role names collide: '' @ repr_role_names resolved)
         else Inr resolved)"

definition effective_retention :: "retention option \<Rightarrow> retention \<Rightarrow> retention" where
  "effective_retention child inst = (case child of Some r \<Rightarrow> r | None \<Rightarrow> inst)"

section \<open>PostgresUser\<close>

record access_spec =
  ac_db_ref :: object_ref
  ac_role :: access_level

definition role_for :: "role_names \<Rightarrow> access_level \<Rightarrow> string" where
  "role_for r level = (case level of OWNER \<Rightarrow> rn_owner r | RW \<Rightarrow> rn_read_write r | RO \<Rightarrow> rn_read_only r)"

record role_attributes =
  ra_create_db :: bool
  ra_create_role :: bool
  ra_replication :: bool
  ra_bypass_rls :: bool
  ra_inherit :: bool

definition as_mapping :: "role_attributes \<Rightarrow> (string \<times> bool) list" where
  "as_mapping a =
     [(''createDB'', ra_create_db a), (''createRole'', ra_create_role a), (''replication'', ra_replication a),
      (''bypassRLS'', ra_bypass_rls a), (''inherit'', ra_inherit a)]"

record generated_secret_spec =
  gs_name :: "string option"
  gs_namespace :: "string option"
  gs_labels :: "(string \<times> string) list"
  gs_annotations :: "(string \<times> string) list"
  gs_keys :: "(string \<times> string) list"
  gs_include_uri :: bool
  gs_default_database :: "string option"

record user_spec =
  us_instance :: string
  us_username :: "string option"
  us_retention :: "retention option"
  us_access :: "access_spec list"
  us_attributes :: role_attributes
  us_connection_limit :: int
  us_valid_until :: "string option"
  us_parameters :: "(string \<times> string) list"
  us_password_secret :: "secret_key_ref option"
  us_password_length :: int
  us_generated_secret :: generated_secret_spec
  us_push_secret :: "push_secret_spec option"
  us_login :: bool
  us_paused :: bool

text \<open>\<open>(namespace or "", name)\<close>, the key under which a spec may list a database once.\<close>

definition access_key :: "access_spec \<Rightarrow> string \<times> string" where
  "access_key a = (or_text (or_namespace (ac_db_ref a)) [], or_name (ac_db_ref a))"

fun reject_repeated_access :: "(string \<times> string) list \<Rightarrow> access_spec list \<Rightarrow> unit res" where
  "reject_repeated_access seen [] = Inr ()"
| "reject_repeated_access seen (a # as) =
     (if access_key a \<in> set seen
      then raise_r Value_Error (''spec.access lists '' @ py_repr (or_name (ac_db_ref a)) @
             '' more than once; a user holds exactly one access level per database'')
      else reject_repeated_access (access_key a # seen) as)"

definition validate_user_spec :: "user_spec \<Rightarrow> unit res" where
  "validate_user_spec s =
     bind_r (validate_optional validate_push_secret (us_push_secret s)) (\<lambda>_.
     bind_r (if given (us_username s) then check_role_name (the (us_username s)) ''username'' else Inr ()) (\<lambda>_.
     reject_repeated_access [] (us_access s)))"

definition resolve_username :: "(string \<Rightarrow> string) \<Rightarrow> user_spec \<Rightarrow> string \<Rightarrow> string res" where
  "resolve_username sha s resource_name =
     (if given (us_username s) then Inr (the (us_username s))
      else bind_r (sanitize_identifier sha resource_name ''username'')
             (\<lambda>v. reject_reserved_role_prefix v ''username''))"

definition resolve_secret_name :: "(string \<Rightarrow> string) \<Rightarrow> user_spec \<Rightarrow> string \<Rightarrow> string" where
  "resolve_secret_name sha s resource_name =
     or_text (gs_name (us_generated_secret s)) (secret_name sha resource_name ''pg-credentials'')"

definition resolve_secret_namespace :: "user_spec \<Rightarrow> string \<Rightarrow> string" where
  "resolve_secret_namespace s dflt = or_text (gs_namespace (us_generated_secret s)) dflt"

definition secret_key :: "user_spec \<Rightarrow> string \<Rightarrow> string" where
  "secret_key s logical = (case map_of (gs_keys (us_generated_secret s)) logical of Some k \<Rightarrow> k | None \<Rightarrow> logical)"

section \<open>PostgresReplication\<close>

datatype publish_operation = Insert | Update | Delete | Truncate

datatype filter_operator = Eq | Ne | Lt | Le | Gt | Ge | In | IsNull | IsNotNull

fun operator_text :: "filter_operator \<Rightarrow> string" where
  "operator_text Eq = ''Eq''"
| "operator_text Ne = ''Ne''"
| "operator_text Lt = ''Lt''"
| "operator_text Le = ''Le''"
| "operator_text Gt = ''Gt''"
| "operator_text Ge = ''Ge''"
| "operator_text In = ''In''"
| "operator_text IsNull = ''IsNull''"
| "operator_text IsNotNull = ''IsNotNull''"

datatype streaming = Streaming_Off | Streaming_On | Streaming_Parallel

datatype filter_value = FV_Int int | FV_Str string

definition ALL_PUBLISH_OPERATIONS :: "publish_operation list" where
  "ALL_PUBLISH_OPERATIONS = [Insert, Update, Delete, Truncate]"

record filter_predicate =
  fp_column :: string
  fp_op :: filter_operator
  fp_value :: "filter_value option"
  fp_values :: "filter_value list option"

definition validate_predicate :: "filter_predicate \<Rightarrow> unit res" where
  "validate_predicate p =
     bind_r (check_identifier (fp_column p) ''rowFilter column'') (\<lambda>_.
       if fp_op p = In
       then guard_r (fp_values p = None \<or> fp_values p = Some [] \<or> fp_value p \<noteq> None) Value_Error
              (''rowFilter '' @ fp_column p @ '' In takes values, not value'')
       else if fp_op p \<in> {IsNull, IsNotNull}
       then guard_r (fp_value p \<noteq> None \<or> fp_values p \<noteq> None) Value_Error
              (''rowFilter '' @ fp_column p @ '' '' @ operator_text (fp_op p) @ '' takes no operand'')
       else guard_r (fp_value p = None \<or> fp_values p \<noteq> None) Value_Error
              (''rowFilter '' @ fp_column p @ '' '' @ operator_text (fp_op p) @ '' takes value, not values''))"

record row_filter =
  rf_all :: "filter_predicate list option"
  rf_any :: "filter_predicate list option"

text \<open>Truth of an optional list.\<close>

definition filled :: "'a list option \<Rightarrow> bool" where
  "filled a \<longleftrightarrow> a \<noteq> None \<and> a \<noteq> Some []"

definition predicates :: "row_filter \<Rightarrow> filter_predicate list" where
  "predicates f = (if filled (rf_all f) then the (rf_all f)
                   else if filled (rf_any f) then the (rf_any f) else [])"

definition conjunction :: "row_filter \<Rightarrow> string" where
  "conjunction f = (if filled (rf_all f) then ''AND'' else ''OR'')"

definition filter_columns :: "row_filter \<Rightarrow> string set" where
  "filter_columns f = fp_column ` set (predicates f)"

definition validate_row_filter :: "row_filter \<Rightarrow> unit res" where
  "validate_row_filter f =
     bind_r (all_r validate_predicate (case rf_all f of Some ps \<Rightarrow> ps | None \<Rightarrow> [])) (\<lambda>_.
     bind_r (all_r validate_predicate (case rf_any f of Some ps \<Rightarrow> ps | None \<Rightarrow> [])) (\<lambda>_.
     guard_r (filled (rf_all f) = filled (rf_any f)) Value_Error
       ''rowFilter sets exactly one of all or any, with at least one entry''))"

record schema_selection =
  sl_name :: string
  sl_exclude :: "string list"

definition validate_schema_selection :: "schema_selection \<Rightarrow> unit res" where
  "validate_schema_selection s =
     bind_r (check_identifier (sl_name s) ''schema name'') (\<lambda>_.
     bind_r (all_r (\<lambda>t. check_identifier t ''excluded table'') (sl_exclude s)) (\<lambda>_.
     guard_r (\<not> distinct (sl_exclude s)) Value_Error
       (''schemas['' @ sl_name s @ ''].excludeTables contains duplicates'')))"

record table_selection =
  ts_schema :: string
  ts_name :: string
  ts_columns :: "string list"
  ts_row_filter :: "row_filter option"

definition qualified_name :: "string \<Rightarrow> string \<Rightarrow> string" where
  "qualified_name schema name = schema @ ''.'' @ name"

definition ts_qualified :: "table_selection \<Rightarrow> string" where
  "ts_qualified t = qualified_name (ts_schema t) (ts_name t)"

definition validate_table_selection :: "table_selection \<Rightarrow> unit res" where
  "validate_table_selection t =
     bind_r (validate_optional validate_row_filter (ts_row_filter t)) (\<lambda>_.
     bind_r (check_identifier (ts_schema t) ''table schema'') (\<lambda>_.
     bind_r (check_identifier (ts_name t) ''table name'') (\<lambda>_.
     bind_r (all_r (\<lambda>c. check_identifier c ''column'') (ts_columns t)) (\<lambda>_.
     guard_r (\<not> distinct (ts_columns t)) Value_Error
       (''tables['' @ ts_qualified t @ ''].columns contains duplicates'')))))"

record replication_connection =
  rc_host :: "string option"
  rc_port :: "int option"
  rc_ssl_mode :: ssl_mode
  rc_ssl_root_cert_path :: "string option"

definition validate_connection :: "replication_connection \<Rightarrow> unit res" where
  "validate_connection c =
     guard_r (rc_ssl_mode c \<in> {Ssl_Verify_Ca, Ssl_Verify_Full} \<and> \<not> given (rc_ssl_root_cert_path c)) Value_Error
       (''sslMode '' @ py_repr (ssl_text (rc_ssl_mode c)) @
        '' requires sslRootCertPath, a CA bundle path on the target server'')"

record alerting_spec =
  al_max_lag :: quantity
  al_max_retained_wal :: quantity
  al_max_slot_inactive :: string

definition max_lag_bytes :: "alerting_spec \<Rightarrow> int res" where
  "max_lag_bytes a = parse_quantity (al_max_lag a)"

definition max_retained_wal_bytes :: "alerting_spec \<Rightarrow> int res" where
  "max_retained_wal_bytes a = parse_quantity (al_max_retained_wal a)"

definition max_slot_inactive_seconds :: "alerting_spec \<Rightarrow> int res" where
  "max_slot_inactive_seconds a = parse_duration (al_max_slot_inactive a)"

definition validate_alerting :: "alerting_spec \<Rightarrow> unit res" where
  "validate_alerting a =
     bind_r (max_lag_bytes a) (\<lambda>lag.
     bind_r (max_retained_wal_bytes a) (\<lambda>wal.
     bind_r (max_slot_inactive_seconds a) (\<lambda>secs.
     all_r (\<lambda>(field, value). guard_r (value \<le> 0) Value_Error
              (''alerting.'' @ field @ '' must be greater than zero''))
       [(''maxLag'', lag), (''maxRetainedWal'', wal), (''maxSlotInactive'', secs)])))"

record replication_spec =
  re_source_db :: object_ref
  re_connection :: replication_connection
  re_credentials :: "credentials_ref option"
  re_target_db :: object_ref
  re_schemas :: "schema_selection list"
  re_tables :: "table_selection list"
  re_publish :: "publish_operation list"
  re_via_root :: bool
  re_copy_data :: bool
  re_enabled :: bool
  re_streaming :: "streaming option"
  re_binary :: "bool option"
  re_alerting :: alerting_spec
  re_paused :: bool

definition excluded_tables :: "replication_spec \<Rightarrow> string list" where
  "excluded_tables s =
     concat (map (\<lambda>e. map (qualified_name (sl_name e)) (sl_exclude e)) (re_schemas s))"

definition validate_replication_spec :: "replication_spec \<Rightarrow> unit res" where
  "validate_replication_spec s =
     bind_r (validate_connection (re_connection s)) (\<lambda>_.
     bind_r (all_r validate_schema_selection (re_schemas s)) (\<lambda>_.
     bind_r (all_r validate_table_selection (re_tables s)) (\<lambda>_.
     bind_r (validate_alerting (re_alerting s)) (\<lambda>_.
     bind_r (guard_r (re_schemas s = [] \<and> re_tables s = []) Value_Error
              ''a replication selects at least one entry in schemas or tables'') (\<lambda>_.
     bind_r (guard_r (\<not> distinct (map sl_name (re_schemas s))) Value_Error
              ''spec.schemas lists a schema more than once'') (\<lambda>_.
     bind_r (guard_r (\<not> distinct (map ts_qualified (re_tables s))) Value_Error
              ''spec.tables lists a table more than once'') (\<lambda>_.
     bind_r (guard_r (\<not> distinct (re_publish s)) Value_Error
              ''spec.publish lists an operation more than once'') (\<lambda>_.
     let contradictions = sorted_set (filter (\<lambda>q. q \<in> set (map ts_qualified (re_tables s))) (excluded_tables s))
     in guard_r (contradictions \<noteq> []) Value_Error
          (join_with '', '' contradictions @ '' is both excluded in spec.schemas and listed in spec.tables'')))))))))"

definition selected_schemas :: "replication_spec \<Rightarrow> string set" where
  "selected_schemas s = set (map sl_name (re_schemas s) @ map ts_schema (re_tables s))"

definition publishes_keyed_changes :: "replication_spec \<Rightarrow> bool" where
  "publishes_keyed_changes s \<longleftrightarrow> Update \<in> set (re_publish s) \<or> Delete \<in> set (re_publish s)"

section \<open>Field bounds\<close>

definition database_fields_ok :: "database_spec \<Rightarrow> bool" where
  "database_fields_ok s \<longleftrightarrow>
     k8s_name_field (db_instance s) \<and> optional_field identifier_field (db_name s) \<and>
     (\<forall>x \<in> set (db_schemas s). identifier_field (sc_name x)) \<and>
     (\<forall>e \<in> set (db_extensions s). identifier_field (ex_name e) \<and> optional_field identifier_field (ex_schema e)) \<and>
     optional_field identifier_field (ro_owner (db_roles s)) \<and>
     optional_field identifier_field (ro_read_write (db_roles s)) \<and>
     optional_field identifier_field (ro_read_only (db_roles s)) \<and> -1 \<le> db_connection_limit s"

definition user_fields_ok :: "user_spec \<Rightarrow> bool" where
  "user_fields_ok s \<longleftrightarrow>
     k8s_name_field (us_instance s) \<and> optional_field identifier_field (us_username s) \<and>
     (\<forall>a \<in> set (us_access s). k8s_name_field (or_name (ac_db_ref a))) \<and> -1 \<le> us_connection_limit s \<and>
     16 \<le> us_password_length s \<and> us_password_length s \<le> 128 \<and>
     optional_field k8s_name_field (gs_name (us_generated_secret s)) \<and>
     optional_field (\<lambda>r. k8s_name_field (skr_name r)) (us_password_secret s)"

definition replication_fields_ok :: "replication_spec \<Rightarrow> bool" where
  "replication_fields_ok s \<longleftrightarrow>
     k8s_name_field (or_name (re_source_db s)) \<and> k8s_name_field (or_name (re_target_db s)) \<and>
     re_publish s \<noteq> [] \<and>
     (\<forall>e \<in> set (re_schemas s). identifier_field (sl_name e) \<and> (\<forall>t \<in> set (sl_exclude e). identifier_field t)) \<and>
     (\<forall>t \<in> set (re_tables s). identifier_field (ts_schema t) \<and> identifier_field (ts_name t) \<and>
        (\<forall>c \<in> set (ts_columns t). identifier_field c)) \<and>
     optional_field (\<lambda>p. 1 \<le> p \<and> p \<le> 65535) (rc_port (re_connection s))"

text \<open>\<open>model_validate\<close>: the fields as pydantic reads them (or its error), their bounds, the validator.\<close>

definition model_validate :: "('a \<Rightarrow> bool) \<Rightarrow> ('a \<Rightarrow> unit res) \<Rightarrow> 'a res \<Rightarrow> 'a res" where
  "model_validate bounds validate raw =
     bind_r raw (\<lambda>s. bind_r (guard_r (\<not> bounds s) Value_Error ''field out of bounds'')
       (\<lambda>_. bind_r (validate s) (\<lambda>_. Inr s)))"

definition parse_instance_spec :: "instance_spec res \<Rightarrow> instance_spec res" where
  "parse_instance_spec = model_validate instance_fields_ok validate_instance_spec"

definition parse_database_spec :: "database_spec res \<Rightarrow> database_spec res" where
  "parse_database_spec = model_validate database_fields_ok validate_database_spec"

definition parse_user_spec :: "user_spec res \<Rightarrow> user_spec res" where
  "parse_user_spec = model_validate user_fields_ok validate_user_spec"

definition parse_replication_spec :: "replication_spec res \<Rightarrow> replication_spec res" where
  "parse_replication_spec = model_validate replication_fields_ok validate_replication_spec"

lemma model_validate_ok:
  "model_validate bounds validate raw = Inr s \<longleftrightarrow> raw = Inr s \<and> bounds s \<and> validate s = Inr ()"
  by (auto simp: model_validate_def bind_r_eq_Inr)

section \<open>What validated specs satisfy\<close>

lemma space_not_dot: "is_space c \<Longrightarrow> c \<noteq> CHR ''.''"
  by (auto simp: is_space_def code_def Let_def)

lemma strip_keeps: "c \<in> set s \<Longrightarrow> \<not> p c \<Longrightarrow> c \<in> set (strip_if p s)"
proof -
  assume c: "c \<in> set s" "\<not> p c"
  have "c \<in> set (dropWhile p s)" if "c \<in> set s" for s
    using that c(2) by (induction s) auto
  then show "c \<in> set (strip_if p s)"
    using c by (simp add: strip_if_def lstrip_if_def rstrip_if_def)
qed

lemma pattern_chars: "identifier_pattern s \<Longrightarrow> c \<in> set s \<Longrightarrow> identifier_char c"
  by (cases s) (auto simp: identifier_char_def leading_char_def valid_char_def)

lemma valid_identifier_no_dot:
  assumes "valid_identifier_text s"
  shows "CHR ''.'' \<notin> set s"
proof
  assume "CHR ''.'' \<in> set s"
  moreover have "\<not> is_space CHR ''.''" using space_not_dot by blast
  ultimately have "CHR ''.'' \<in> set (py_strip s)" by (simp add: py_strip_def strip_keeps)
  then have "identifier_char CHR ''.''"
    using assms pattern_chars unfolding valid_identifier_text_def by blast
  then show False
    by (simp add: identifier_char_def valid_char_def char_class_defs code_def)
qed

lemma split_at_dot:
  "a @ d # b = a' @ d # b' \<Longrightarrow> d \<notin> set a \<Longrightarrow> d \<notin> set a' \<Longrightarrow> a = a' \<and> b = b'"
proof (induction a arbitrary: a')
  case Nil then show ?case by (cases a') auto
next
  case (Cons c cs) then show ?case by (cases a') auto
qed

lemma qualified_name_inject:
  "valid_identifier_text a \<Longrightarrow> valid_identifier_text b \<Longrightarrow>
   qualified_name a x = qualified_name b y \<longleftrightarrow> a = b \<and> x = y"
  using split_at_dot [of a "CHR ''.''" x b y] valid_identifier_no_dot
  by (auto simp: qualified_name_def)

lemma all_r_pairs: "all_r f xs = Inr () \<Longrightarrow> x \<in> set xs \<Longrightarrow> f x = Inr ()"
  by (simp add: all_r_ok)

lemma validate_replication_cases:
  assumes "validate_replication_spec s = Inr ()"
  shows "\<forall>e \<in> set (re_schemas s). validate_schema_selection e = Inr ()"
    "\<forall>t \<in> set (re_tables s). validate_table_selection t = Inr ()"
    "validate_alerting (re_alerting s) = Inr ()" "re_schemas s \<noteq> [] \<or> re_tables s \<noteq> []"
    "distinct (map sl_name (re_schemas s))" "distinct (map ts_qualified (re_tables s))"
    "distinct (re_publish s)" "set (excluded_tables s) \<inter> set (map ts_qualified (re_tables s)) = {}"
  using assms unfolding validate_replication_spec_def
  by (auto simp: bind_r_eq_Inr all_r_ok Let_def filter_empty_conv)

lemma validate_alerting_ok:
  "validate_alerting a = Inr () \<longleftrightarrow>
     (\<exists>l w t. max_lag_bytes a = Inr l \<and> max_retained_wal_bytes a = Inr w \<and>
        max_slot_inactive_seconds a = Inr t \<and> 0 < l \<and> 0 < w \<and> 0 < t)"
  by (auto simp: validate_alerting_def bind_r_eq_Inr)

text \<open>The shape a validated predicate has: the operand its operator reads, and no other.\<close>

definition operand_shape :: "filter_predicate \<Rightarrow> bool" where
  "operand_shape p \<longleftrightarrow> (case fp_op p of
      In \<Rightarrow> fp_value p = None \<and> filled (fp_values p)
    | IsNull \<Rightarrow> fp_value p = None \<and> fp_values p = None
    | IsNotNull \<Rightarrow> fp_value p = None \<and> fp_values p = None
    | _ \<Rightarrow> fp_value p \<noteq> None \<and> fp_values p = None)"

lemma validate_predicate_ok:
  "validate_predicate p = Inr () \<longleftrightarrow> valid_identifier_text (fp_column p) \<and> operand_shape p"
  by (cases "fp_op p") (auto simp: validate_predicate_def bind_r_eq_Inr operand_shape_def filled_def)

lemma validate_row_filter_ok:
  assumes "validate_row_filter f = Inr ()"
  shows "filled (rf_all f) \<noteq> filled (rf_any f)" "predicates f \<noteq> []"
    "\<forall>p \<in> set (predicates f). validate_predicate p = Inr ()"
  using assms by (auto simp: validate_row_filter_def bind_r_eq_Inr all_r_ok predicates_def filled_def
      split: option.splits)

definition pair_of :: "table_selection \<Rightarrow> string \<times> string" where
  "pair_of t = (ts_schema t, ts_name t)"

lemma table_selection_ok:
  assumes "validate_table_selection t = Inr ()"
  shows "valid_identifier_text (ts_schema t)" "valid_identifier_text (ts_name t)" "distinct (ts_columns t)"
    "ts_row_filter t = Some f \<Longrightarrow> validate_row_filter f = Inr ()"
  using assms by (auto simp: validate_table_selection_def bind_r_eq_Inr validate_optional_def all_r_ok)

lemma schema_selection_ok:
  assumes "validate_schema_selection e = Inr ()"
  shows "valid_identifier_text (sl_name e)" "distinct (sl_exclude e)"
  using assms by (auto simp: validate_schema_selection_def bind_r_eq_Inr)

text \<open>
  What an accepted PostgresReplication spec guarantees to the passes that read it: something is
  selected; no schema, no table (as a pair of schema and name, not only as a dotted text) and no
  operation is listed twice; no table is both excluded and listed; every row filter has exactly one
  non-empty group of predicates, each with the operand its operator reads; and the three alerting
  thresholds parse to positive numbers.
\<close>

theorem accepted_replication_spec:
  assumes "validate_replication_spec s = Inr ()"
  shows "(re_schemas s \<noteq> [] \<or> re_tables s \<noteq> []) \<and> distinct (map sl_name (re_schemas s)) \<and>
    distinct (map pair_of (re_tables s)) \<and> distinct (re_publish s) \<and>
    (\<forall>e \<in> set (re_schemas s). \<forall>n \<in> set (sl_exclude e). (sl_name e, n) \<notin> set (map pair_of (re_tables s))) \<and>
    (\<forall>t \<in> set (re_tables s). \<forall>f. ts_row_filter t = Some f \<longrightarrow>
       filled (rf_all f) \<noteq> filled (rf_any f) \<and> predicates f \<noteq> [] \<and> (\<forall>p \<in> set (predicates f). operand_shape p)) \<and>
    (\<exists>l w i. max_lag_bytes (re_alerting s) = Inr l \<and> max_retained_wal_bytes (re_alerting s) = Inr w \<and>
       max_slot_inactive_seconds (re_alerting s) = Inr i \<and> 0 < l \<and> 0 < w \<and> 0 < i)"
proof (intro conjI)
  note v = validate_replication_cases [OF assms]
  show "distinct (map pair_of (re_tables s))"
    using v(6) by (auto simp: distinct_map inj_on_def pair_of_def ts_qualified_def)
  show "\<forall>e \<in> set (re_schemas s). \<forall>n \<in> set (sl_exclude e). (sl_name e, n) \<notin> set (map pair_of (re_tables s))"
  proof (intro ballI notI)
    fix e n assume e: "e \<in> set (re_schemas s)" "n \<in> set (sl_exclude e)"
      and "(sl_name e, n) \<in> set (map pair_of (re_tables s))"
    then obtain t where "t \<in> set (re_tables s)" "ts_qualified t = qualified_name (sl_name e) n"
      by (auto simp: pair_of_def ts_qualified_def)
    with e v(8) show False by (auto simp: excluded_tables_def)
  qed
  show "\<forall>t \<in> set (re_tables s). \<forall>f. ts_row_filter t = Some f \<longrightarrow>
       filled (rf_all f) \<noteq> filled (rf_any f) \<and> predicates f \<noteq> [] \<and> (\<forall>p \<in> set (predicates f). operand_shape p)"
    using v(2) table_selection_ok(4) validate_row_filter_ok validate_predicate_ok by blast
qed (use validate_replication_cases [OF assms] validate_alerting_ok in auto)

definition sample_filter :: row_filter where
  "sample_filter = \<lparr>rf_all = Some [\<lparr>fp_column = ''region'', fp_op = Eq, fp_value = Some (FV_Str ''eu''), fp_values = None\<rparr>],
     rf_any = None\<rparr>"

definition sample_replication :: replication_spec where
  "sample_replication =
     \<lparr>re_source_db = \<lparr>or_name = ''orders'', or_namespace = None\<rparr>,
      re_connection = \<lparr>rc_host = None, rc_port = None, rc_ssl_mode = Ssl_Require, rc_ssl_root_cert_path = None\<rparr>,
      re_credentials = None, re_target_db = \<lparr>or_name = ''reports'', or_namespace = Some ''bi''\<rparr>,
      re_schemas = [\<lparr>sl_name = ''app'', sl_exclude = [''audit'']\<rparr>],
      re_tables = [\<lparr>ts_schema = ''app'', ts_name = ''events'', ts_columns = [''id'', ''region''],
                    ts_row_filter = Some sample_filter\<rparr>],
      re_publish = ALL_PUBLISH_OPERATIONS, re_via_root = False, re_copy_data = True, re_enabled = True,
      re_streaming = None, re_binary = None,
      re_alerting = \<lparr>al_max_lag = Q_Int 1073741824, al_max_retained_wal = Q_Int 10737418240, al_max_slot_inactive = ''10m''\<rparr>,
      re_paused = False\<rparr>"

lemma sample_alerting:
  "max_lag_bytes (re_alerting sample_replication) = Inr 1073741824"
  "max_retained_wal_bytes (re_alerting sample_replication) = Inr 10737418240"
  "max_slot_inactive_seconds (re_alerting sample_replication) = Inr 600"
  by (simp_all add: sample_replication_def max_lag_bytes_def max_retained_wal_bytes_def parse_quantity_def
      max_slot_inactive_seconds_def parse_duration_def duration_group_def duration_part_def at_end_def
      is_digit_def code_def digits_value_def)

lemma sample_replication_valid: "validate_replication_spec sample_replication = Inr ()"
proof -
  have a: "validate_alerting (re_alerting sample_replication) = Inr ()"
    by (simp add: validate_alerting_ok sample_alerting)
  have s: "all_r validate_schema_selection (re_schemas sample_replication) = Inr ()" by code_simp
  have t: "all_r validate_table_selection (re_tables sample_replication) = Inr ()" by code_simp
  have c: "validate_connection (re_connection sample_replication) = Inr ()" by code_simp
  show ?thesis
    unfolding validate_replication_spec_def a s t c
    by (simp add: sample_replication_def ALL_PUBLISH_OPERATIONS_def excluded_tables_def ts_qualified_def
        qualified_name_def Let_def)
qed

theorem accepted_replication_spec_witness:
  "distinct (map pair_of (re_tables sample_replication)) \<and>
   (\<exists>l. max_lag_bytes (re_alerting sample_replication) = Inr l \<and> 0 < l)"
  using accepted_replication_spec [OF sample_replication_valid] by blast

section \<open>Access levels of a user\<close>

lemma reject_repeated_ok:
  "reject_repeated_access seen as = Inr () \<longleftrightarrow>
     distinct (map access_key as) \<and> set (map access_key as) \<inter> set seen = {}"
  by (induction as arbitrary: seen) auto

text \<open>The database an entry means, for a resource in \<open>namespace\<close>.\<close>

definition access_target :: "string \<Rightarrow> access_spec \<Rightarrow> string \<times> string" where
  "access_target namespace a =
     (resolve_namespace (or_namespace (ac_db_ref a)) namespace, or_name (ac_db_ref a))"

text \<open>
  A PostgresUser spec is accepted exactly when its user name (if given) is a valid role name, its
  PushSecret names a store when enabled, and no two access entries are written the same way; two accepted
  entries can then mean the same database only if one names the resource's own namespace and the other
  leaves it out.
\<close>

theorem accepted_user_spec:
  "(validate_user_spec s = Inr () \<longleftrightarrow>
      validate_optional validate_push_secret (us_push_secret s) = Inr () \<and>
      (given (us_username s) \<longrightarrow> is_ok (validate_role_name (the (us_username s)) ''username'')) \<and>
      distinct (map access_key (us_access s))) \<and>
   (validate_user_spec s = Inr () \<longrightarrow> i < j \<longrightarrow> j < length (us_access s) \<longrightarrow>
      access_target ns (us_access s ! i) = access_target ns (us_access s ! j) \<longrightarrow>
      given (or_namespace (ac_db_ref (us_access s ! i))) \<noteq> given (or_namespace (ac_db_ref (us_access s ! j))) \<and>
      (or_namespace (ac_db_ref (us_access s ! i)) = Some ns \<or> or_namespace (ac_db_ref (us_access s ! j)) = Some ns))"
proof -
  have iff: "validate_user_spec s = Inr () \<longleftrightarrow>
      validate_optional validate_push_secret (us_push_secret s) = Inr () \<and>
      (given (us_username s) \<longrightarrow> is_ok (validate_role_name (the (us_username s)) ''username'')) \<and>
      distinct (map access_key (us_access s))"
    by (auto simp: validate_user_spec_def bind_r_eq_Inr reject_repeated_ok is_ok_iff check_role_name_def
        split: if_splits)
  moreover have "given (or_namespace (ac_db_ref (us_access s ! i))) \<noteq> given (or_namespace (ac_db_ref (us_access s ! j))) \<and>
      (or_namespace (ac_db_ref (us_access s ! i)) = Some ns \<or> or_namespace (ac_db_ref (us_access s ! j)) = Some ns)"
    if "validate_user_spec s = Inr ()" "i < j" "j < length (us_access s)"
      "access_target ns (us_access s ! i) = access_target ns (us_access s ! j)"
  proof -
    from that iff have "map access_key (us_access s) ! i \<noteq> map access_key (us_access s) ! j"
      by (metis length_map nth_eq_iff_index_eq less_imp_neq less_trans)
    then have "access_key (us_access s ! i) \<noteq> access_key (us_access s ! j)" using that by simp
    with that(4) show ?thesis
      by (cases "given (or_namespace (ac_db_ref (us_access s ! i)))";
          cases "given (or_namespace (ac_db_ref (us_access s ! j)))")
        (auto simp: access_key_def access_target_def resolve_namespace_def or_text_given given_def)
  qed
  ultimately show ?thesis by blast
qed

definition sample_user :: user_spec where
  "sample_user =
     \<lparr>us_instance = ''main'', us_username = Some ''app'', us_retention = None,
      us_access = [\<lparr>ac_db_ref = \<lparr>or_name = ''orders'', or_namespace = None\<rparr>, ac_role = RO\<rparr>,
                   \<lparr>ac_db_ref = \<lparr>or_name = ''orders'', or_namespace = Some ''shop''\<rparr>, ac_role = OWNER\<rparr>],
      us_attributes = \<lparr>ra_create_db = False, ra_create_role = False, ra_replication = False,
        ra_bypass_rls = False, ra_inherit = True\<rparr>,
      us_connection_limit = -1, us_valid_until = None, us_parameters = [], us_password_secret = None,
      us_password_length = 32,
      us_generated_secret = \<lparr>gs_name = None, gs_namespace = None, gs_labels = [], gs_annotations = [], gs_keys = [],
        gs_include_uri = True, gs_default_database = None\<rparr>,
      us_push_secret = None, us_login = True, us_paused = False\<rparr>"

lemma sample_user_valid: "validate_user_spec sample_user = Inr ()"
proof -
  have "check_role_name ''app'' k = Inr ()" for k
  proof -
    have "py_strip ''app'' = ''app''" "identifier_pattern ''app''" "length (utf8 ''app'') = 3" by code_simp+
    then show ?thesis by (simp add: valid_identifier_text_def MAX_IDENTIFIER_LENGTH_def)
  qed
  then show ?thesis
    by (simp add: validate_user_spec_def bind_r_eq_Inr) (simp add: sample_user_def validate_optional_def access_key_def)
qed

theorem accepted_user_spec_witness:
  "given (or_namespace (ac_db_ref (us_access sample_user ! 0))) \<noteq>
     given (or_namespace (ac_db_ref (us_access sample_user ! 1)))"
  using accepted_user_spec [of sample_user 0 1 "''shop''"] sample_user_valid
  by (simp add: sample_user_def access_target_def resolve_namespace_def)

text \<open>
  The validator compares the literal references only, so an accepted spec may name one database twice with
  two levels; \<open>resolve_grants\<close> of \<open>UserReconcile\<close> refuses such a spec once the references are resolved.
\<close>

lemma accepted_user_with_two_levels:
  "validate_user_spec sample_user = Inr () \<and>
   access_target ''shop'' (us_access sample_user ! 0) = access_target ''shop'' (us_access sample_user ! 1) \<and>
   ac_role (us_access sample_user ! 0) = RO \<and> ac_role (us_access sample_user ! 1) = OWNER"
  using sample_user_valid by (simp add: sample_user_def access_target_def resolve_namespace_def)

section \<open>Names and schemas of a database\<close>

lemma group_role_names_distinct:
  "distinct [rn_owner (group_role_names sha d p), rn_read_write (group_role_names sha d p),
     rn_read_only (group_role_names sha d p)]"
  by (simp add: group_role_names_def Let_def)

text \<open>
  The group roles a spec resolves to are three different names; each is the override when one is
  written and the derived name otherwise. The only failure is a collision, which needs an override: a
  spec without overrides always resolves.
\<close>

theorem resolve_role_names_result:
  "(resolve_role_names sha s db prefix = Inr r \<longrightarrow>
      distinct [rn_owner r, rn_read_write r, rn_read_only r] \<and>
      rn_owner r = (if given (ro_owner (db_roles s)) then the (ro_owner (db_roles s))
                    else rn_owner (group_role_names sha db prefix)) \<and>
      rn_read_write r = (if given (ro_read_write (db_roles s)) then the (ro_read_write (db_roles s))
                    else rn_read_write (group_role_names sha db prefix)) \<and>
      rn_read_only r = (if given (ro_read_only (db_roles s)) then the (ro_read_only (db_roles s))
                    else rn_read_only (group_role_names sha db prefix))) \<and>
   (override_values (db_roles s) = [] \<longrightarrow>
      resolve_role_names sha s db prefix = Inr (group_role_names sha db prefix))"
proof -
  have "resolve_role_names sha s db prefix = Inr (group_role_names sha db prefix)"
    if "override_values (db_roles s) = []"
    using that group_role_names_distinct [of sha db prefix]
    by (auto simp: override_values_def resolve_role_names_def or_text_given Let_def split: if_splits)
  then show ?thesis
    by (auto simp: resolve_role_names_def or_text_given Let_def split: if_splits)
qed

definition sample_database :: database_spec where
  "sample_database =
     \<lparr>db_instance = ''main'', db_name = Some ''orders'', db_retention = None,
      db_schemas = [\<lparr>sc_name = ''app'', sc_comment = Some ''tables''\<rparr>], db_extensions = [],
      db_roles = \<lparr>ro_owner = Some ''orders_admin'', ro_read_write = None, ro_read_only = None\<rparr>,
      db_encoding = ''UTF8'', db_lc_collate = None, db_lc_ctype = None, db_template = ''template0'',
      db_connection_limit = -1, db_parameters = [(''work_mem'', ''64MB'')], db_comment = None,
      db_revoke_public_connect = True, db_revoke_public_schema_create = True,
      db_grant_execute_to_read_only = True, db_set_role_for_owners = True, db_paused = False\<rparr>"

theorem resolve_role_names_result_witness:
  "resolve_role_names sample_sha (sample_database\<lparr>db_roles := \<lparr>ro_owner = None, ro_read_write = None, ro_read_only = None\<rparr>\<rparr>)
      ''orders'' [] = Inr (group_role_names sample_sha ''orders'' [])"
  by (rule resolve_role_names_result [THEN conjunct2, rule_format]) (simp add: override_values_def)

text \<open>
  The schemas managed for an accepted spec always include \<open>public\<close>, keep every declared schema with
  its comment, add nothing else, and never name one schema twice - so the grant pass reaches each exactly
  once.
\<close>

theorem resolve_schemas_complete:
  assumes "validate_database_spec s = Inr ()"
  shows "distinct (map sc_name (resolve_schemas s)) \<and>
    sc_name ` set (resolve_schemas s) = insert ''public'' (sc_name ` set (db_schemas s)) \<and>
    set (db_schemas s) \<subseteq> set (resolve_schemas s)"
proof -
  have "distinct (map sc_name (db_schemas s))"
    using assms by (auto simp: validate_database_spec_def bind_r_eq_Inr)
  then show ?thesis by (auto simp: resolve_schemas_def intro: rev_image_eqI)
qed

lemma sample_database_valid: "validate_database_spec sample_database = Inr ()"
proof -
  have v: "valid_identifier_text ''app''" "valid_identifier_text ''orders_admin''" "valid_identifier_text ''orders''"
    "\<not> starts_with ''pg_'' (py_strip ''orders_admin'')"
    by code_simp+
  show ?thesis
    by (simp add: validate_database_spec_def sample_database_def validate_schema_spec_def bind_r_eq_Inr
        validate_role_overrides_def override_values_def v)
qed

theorem resolve_schemas_complete_witness:
  "sc_name ` set (resolve_schemas sample_database) = {''public'', ''app''}"
  using resolve_schemas_complete [OF sample_database_valid] by (simp add: sample_database_def)

text \<open>
  A validated database name is used as it was written, not as it was validated: surrounding blanks pass
  the check, and the database is created with them in its name.
\<close>

lemma database_name_keeps_blanks:
  "validate_database_spec (sample_database\<lparr>db_name := Some '' orders ''\<rparr>) = Inr () \<and>
   resolve_database_name sha (sample_database\<lparr>db_name := Some '' orders ''\<rparr>) resource = Inr '' orders '' \<and>
   \<not> identifier_pattern '' orders ''"
proof -
  have v: "valid_identifier_text ''app''" "valid_identifier_text ''orders_admin''" "valid_identifier_text '' orders ''"
    "\<not> starts_with ''pg_'' (py_strip ''orders_admin'')"
    by code_simp+
  have b: "\<not> identifier_pattern '' orders ''" by code_simp
  show ?thesis
    by (simp add: validate_database_spec_def sample_database_def validate_schema_spec_def bind_r_eq_Inr
        validate_role_overrides_def override_values_def v resolve_database_name_def b del: identifier_pattern.simps)
qed

end
