(* ===== verification/Status.thy ===== *)
theory Status
  imports Prelude
begin

text \<open>
  \<open>status.py\<close>: the Kubernetes conditions of a resource, how a pass merges its conditions over the
  recorded ones, and the phase they collapse into. A condition read back from the API server may
  lack any field, so every field is optional; the time \<open>now()\<close> is an argument of the constructors.
\<close>

record condition =
  c_type :: "string option"
  c_status :: "string option"
  c_reason :: "string option"
  c_message :: "string option"
  c_transition :: "string option"
  c_generation :: "int option"

definition COND_READY :: string where "COND_READY = ''Ready''"
definition COND_REACHABLE :: string where "COND_REACHABLE = ''Reachable''"
definition COND_SYNCED :: string where "COND_SYNCED = ''Synced''"
definition COND_DRIFTED :: string where "COND_DRIFTED = ''Drifted''"
definition COND_STREAMING :: string where "COND_STREAMING = ''Streaming''"

lemmas condition_types =
  COND_READY_def COND_REACHABLE_def COND_SYNCED_def COND_DRIFTED_def COND_STREAMING_def

definition CONDITION_ORDER :: "string list" where
  "CONDITION_ORDER = [COND_READY, COND_REACHABLE, COND_STREAMING, COND_SYNCED, COND_DRIFTED]"

definition DEGRADING_REASONS :: "string list" where
  "DEGRADING_REASONS = [''Lagging'', ''Stalled'', ''SlotLost'']"

section \<open>Constructors\<close>

definition mk_condition ::
  "string \<Rightarrow> string \<Rightarrow> string \<Rightarrow> string \<Rightarrow> string \<Rightarrow> int option \<Rightarrow> condition" where
  "mk_condition now type status reason message gen =
     \<lparr>c_type = Some type, c_status = Some status, c_reason = Some reason,
      c_message = Some (take 32000 message), c_transition = Some now, c_generation = gen\<rparr>"

definition ready :: "string \<Rightarrow> string \<Rightarrow> int option \<Rightarrow> condition" where
  "ready now message gen = mk_condition now COND_READY ''True'' ''Reconciled'' message gen"

definition not_ready :: "string \<Rightarrow> string \<Rightarrow> string \<Rightarrow> int option \<Rightarrow> condition" where
  "not_ready now reason message gen = mk_condition now COND_READY ''False'' reason message gen"

definition pending :: "string \<Rightarrow> string \<Rightarrow> string \<Rightarrow> int option \<Rightarrow> condition" where
  "pending now reason message gen = mk_condition now COND_READY ''Unknown'' reason message gen"

definition reachable :: "string \<Rightarrow> string \<Rightarrow> int option \<Rightarrow> condition" where
  "reachable now message gen = mk_condition now COND_REACHABLE ''True'' ''Connected'' message gen"

definition unreachable :: "string \<Rightarrow> string \<Rightarrow> string \<Rightarrow> int option \<Rightarrow> condition" where
  "unreachable now reason message gen = mk_condition now COND_REACHABLE ''False'' reason message gen"

definition synced :: "string \<Rightarrow> string \<Rightarrow> int option \<Rightarrow> condition" where
  "synced now message gen = mk_condition now COND_SYNCED ''True'' ''InSync'' message gen"

definition not_synced :: "string \<Rightarrow> string \<Rightarrow> string \<Rightarrow> int option \<Rightarrow> condition" where
  "not_synced now reason message gen = mk_condition now COND_SYNCED ''False'' reason message gen"

definition drifted :: "string \<Rightarrow> string \<Rightarrow> int option \<Rightarrow> string \<Rightarrow> condition" where
  "drifted now message gen reason = mk_condition now COND_DRIFTED ''True'' reason message gen"

definition no_drift :: "string \<Rightarrow> int option \<Rightarrow> condition" where
  "no_drift now gen = mk_condition now COND_DRIFTED ''False'' ''NoDrift'' ''live state matches spec'' gen"

lemmas constructor_defs =
  ready_def not_ready_def pending_def reachable_def unreachable_def synced_def not_synced_def
  drifted_def no_drift_def

section \<open>Merging\<close>

text \<open>\<open>str(entry.get("type"))\<close>.\<close>

definition type_key :: "condition \<Rightarrow> string" where
  "type_key c = (case c_type c of None \<Rightarrow> ''None'' | Some t \<Rightarrow> t)"

definition by_type :: "condition list \<Rightarrow> (string \<times> condition) list" where
  "by_type cs = dupdate [] (map (\<lambda>c. (type_key c, c)) cs)"

text \<open>One update: with the same status as before it keeps the recorded transition time.\<close>

definition merge_one :: "(string \<times> condition) list \<Rightarrow> condition \<Rightarrow> (string \<times> condition) list" where
  "merge_one d u =
     dset d (type_key u)
       (case map_of d (type_key u) of
          None \<Rightarrow> u
        | Some previous \<Rightarrow>
            (if c_status previous = c_status u
             then u\<lparr>c_transition := (case c_transition previous of None \<Rightarrow> c_transition u | Some t \<Rightarrow> Some t)\<rparr>
             else u))"

definition ordered_values :: "(string \<times> condition) list \<Rightarrow> condition list" where
  "ordered_values d =
     (let known = filter (\<lambda>t. t \<in> set (dkeys d)) CONDITION_ORDER;
          rest = sort (filter (\<lambda>t. t \<notin> set CONDITION_ORDER) (dkeys d))
      in map (\<lambda>t. the (map_of d t)) (known @ rest))"

definition merge_conditions :: "condition list \<Rightarrow> condition list \<Rightarrow> condition list" where
  "merge_conditions existing updates = ordered_values (foldl merge_one (by_type existing) updates)"

section \<open>Phase\<close>

datatype phase = Ready | Drifted | Degraded | Pending | Paused | Failed | Unreachable

definition lookup_condition :: "condition list \<Rightarrow> string \<Rightarrow> condition option" where
  "lookup_condition cs t = map_of (by_type cs) t"

definition has_status :: "condition option \<Rightarrow> string \<Rightarrow> bool" where
  "has_status c s \<longleftrightarrow> (case c of None \<Rightarrow> False | Some x \<Rightarrow> c_status x = Some s)"

definition has_reason_in :: "condition option \<Rightarrow> string list \<Rightarrow> bool" where
  "has_reason_in c rs \<longleftrightarrow>
     (case c of None \<Rightarrow> False | Some x \<Rightarrow> (case c_reason x of None \<Rightarrow> False | Some r \<Rightarrow> r \<in> set rs))"

definition phase_from_conditions :: "condition list \<Rightarrow> phase" where
  "phase_from_conditions cs =
     (case lookup_condition cs COND_READY of
        None \<Rightarrow> Pending
      | Some r \<Rightarrow>
          (if c_status r = Some ''True'' then
             (if has_status (lookup_condition cs COND_STREAMING) ''False'' \<and>
                 has_reason_in (lookup_condition cs COND_STREAMING) DEGRADING_REASONS then Degraded
              else if has_status (lookup_condition cs COND_DRIFTED) ''True'' then Drifted
              else Ready)
           else if c_status r = Some ''Unknown'' then Pending
           else if has_reason_in (Some r) [''Paused''] then Paused
           else if has_status (lookup_condition cs COND_REACHABLE) ''False'' then Unreachable
           else Failed))"

section \<open>The contract of a condition table\<close>

text \<open>
  What every writer of conditions relies on: a merge replaces exactly the kinds it names, the
  replacement is decided by the entry recorded before (\<open>carry\<close>), re-sending the same content at a
  later time changes nothing, and the table is canonical: equal lookups mean equal tables.
\<close>

locale condition_table =
  fixes merge :: "'c list \<Rightarrow> 'c list \<Rightarrow> 'c list"
    and look :: "'c list \<Rightarrow> string \<Rightarrow> 'c option"
    and kind_of :: "'c \<Rightarrow> string"
    and carry :: "'c option \<Rightarrow> 'c \<Rightarrow> 'c"
    and resend :: "'c \<Rightarrow> 'c \<Rightarrow> bool"
  assumes look_kept: "t \<notin> kind_of ` set us \<Longrightarrow> look (merge cs us) t = look cs t"
    and look_written: "distinct (map kind_of us) \<Longrightarrow> u \<in> set us \<Longrightarrow>
          look (merge cs us) (kind_of u) = Some (carry (look cs (kind_of u)) u)"
    and resend_kind: "resend u v \<Longrightarrow> kind_of u = kind_of v"
    and carry_resend: "resend u v \<Longrightarrow> carry (Some (carry p u)) v = carry p u"
    and canonical: "(\<And>t. look (merge cs us) t = look (merge cs' us') t) \<Longrightarrow> merge cs us = merge cs' us'"
begin

lemma look_one: "look (merge cs [u]) t = (if t = kind_of u then Some (carry (look cs t) u) else look cs t)"
  using look_written [of "[u]" u cs] look_kept [of t "[u]" cs] by auto

lemma look_member:
  assumes "distinct (map kind_of us)" "i < length us"
  shows "look (merge cs us) (kind_of (us ! i)) = Some (carry (look cs (kind_of (us ! i))) (us ! i))"
  using look_written [OF assms(1)] assms(2) by simp

lemma resend_kinds: "list_all2 resend us vs \<Longrightarrow> map kind_of us = map kind_of vs"
  by (induction rule: list_all2_induct) (auto dest: resend_kind)

text \<open>A steady pass: sending the same conditions again leaves the table as it is.\<close>

lemma merge_steady:
  assumes "distinct (map kind_of us)" "list_all2 resend us vs"
  shows "merge (merge cs us) vs = merge cs us"
proof -
  have kinds: "map kind_of us = map kind_of vs" by (rule resend_kinds [OF assms(2)])
  have same: "look (merge (merge cs us) vs) t = look (merge cs us) t" for t
  proof (cases "t \<in> kind_of ` set vs")
    case False
    then show ?thesis by (rule look_kept)
  next
    case True
    then obtain i where i: "i < length vs" "t = kind_of (vs ! i)"
      by (metis imageE in_set_conv_nth)
    have i_us: "i < length us" and t_us: "t = kind_of (us ! i)"
      using i kinds by (metis length_map, metis length_map nth_map)
    have "resend (us ! i) (vs ! i)" using assms(2) i_us by (simp add: list_all2_conv_all_nth)
    moreover have "distinct (map kind_of vs)" using assms(1) kinds by simp
    ultimately show ?thesis
      using look_member [OF _ i(1), of "merge cs us"] look_member [OF assms(1) i_us, of cs]
        carry_resend i(2) t_us by simp
  qed
  have "merge (merge cs us) vs = merge (merge cs us) []"
    by (rule canonical) (simp add: same look_kept)
  moreover have "merge (merge cs us) [] = merge cs us"
    by (rule canonical) (simp add: look_kept)
  ultimately show ?thesis by simp
qed

end

section \<open>\<open>merge_conditions\<close> is a condition table\<close>

definition carry_transition :: "condition option \<Rightarrow> condition \<Rightarrow> condition" where
  "carry_transition p u = (case p of
      None \<Rightarrow> u
    | Some previous \<Rightarrow>
        (if c_status previous = c_status u
         then u\<lparr>c_transition := (case c_transition previous of None \<Rightarrow> c_transition u | Some t \<Rightarrow> Some t)\<rparr>
         else u))"

text \<open>The same condition sent again, at another time.\<close>

definition resent :: "condition \<Rightarrow> condition \<Rightarrow> bool" where
  "resent u v \<longleftrightarrow> c_transition u \<noteq> None \<and> v\<lparr>c_transition := c_transition u\<rparr> = u"

text \<open>A table as the merge keeps it: one entry per kind, under its own kind.\<close>

definition table_ok :: "(string \<times> condition) list \<Rightarrow> bool" where
  "table_ok d \<longleftrightarrow> distinct (dkeys d) \<and> (\<forall>k c. map_of d k = Some c \<longrightarrow> type_key c = k)"

lemma merge_one_eq: "merge_one d u = dset d (type_key u) (carry_transition (map_of d (type_key u)) u)"
  by (simp add: merge_one_def carry_transition_def)

lemma type_key_carry [simp]: "type_key (carry_transition p u) = type_key u"
  by (simp add: carry_transition_def type_key_def split: option.splits)

lemma table_ok_dset: "table_ok d \<Longrightarrow> type_key c = k \<Longrightarrow> table_ok (dset d k c)"
  by (auto simp: table_ok_def distinct_dset)

lemma table_ok_by_type: "table_ok (by_type cs)"
proof (induction cs rule: rev_induct)
  case Nil
  then show ?case by (simp add: by_type_def table_ok_def)
next
  case (snoc c cs)
  then show ?case by (simp add: by_type_def dupdate_snoc table_ok_dset)
qed

lemma table_ok_foldl: "table_ok d \<Longrightarrow> table_ok (foldl merge_one d us)"
  by (induction us arbitrary: d) (simp_all add: merge_one_eq table_ok_dset)

lemma map_of_merge_one:
  "map_of (merge_one d u) = (map_of d)(type_key u \<mapsto> carry_transition (map_of d (type_key u)) u)"
  by (simp add: merge_one_eq)

lemma foldl_merge_one_kept: "t \<notin> type_key ` set us \<Longrightarrow> map_of (foldl merge_one d us) t = map_of d t"
  by (induction us arbitrary: d) (auto simp: map_of_merge_one)

lemma foldl_merge_one_written:
  assumes "distinct (map type_key us)" "u \<in> set us"
  shows "map_of (foldl merge_one d us) (type_key u) = Some (carry_transition (map_of d (type_key u)) u)"
  using assms
proof (induction us arbitrary: d)
  case Nil
  then show ?case by simp
next
  case (Cons w us)
  show ?case
  proof (cases "u = w")
    case True
    have "map_of (foldl merge_one (merge_one d w) us) (type_key w) = map_of (merge_one d w) (type_key w)"
      using Cons.prems(1) by (intro foldl_merge_one_kept) auto
    with True show ?thesis by (simp add: map_of_merge_one)
  next
    case False
    with Cons.prems have "u \<in> set us" by simp
    moreover from this Cons.prems(1) have "type_key u \<noteq> type_key w" by (metis image_eqI distinct.simps(2) list.simps(9) set_map)
    ultimately show ?thesis using Cons.IH [of "merge_one d w"] Cons.prems(1) by (simp add: map_of_merge_one)
  qed
qed

definition table_order :: "string list \<Rightarrow> string list" where
  "table_order ks = filter (\<lambda>t. t \<in> set ks) CONDITION_ORDER @ sort (filter (\<lambda>t. t \<notin> set CONDITION_ORDER) ks)"

lemma ordered_values_eq: "ordered_values d = map (\<lambda>t. the (map_of d t)) (table_order (dkeys d))"
  by (simp add: ordered_values_def table_order_def)

lemma distinct_condition_order: "distinct CONDITION_ORDER"
  by (simp add: CONDITION_ORDER_def condition_types)

lemma set_table_order [simp]: "set (table_order ks) = set ks"
  by (auto simp: table_order_def)

lemma distinct_table_order: "distinct ks \<Longrightarrow> distinct (table_order ks)"
  using distinct_condition_order by (auto simp: table_order_def)

lemma table_order_cong:
  "distinct ks \<Longrightarrow> distinct ks' \<Longrightarrow> set ks = set ks' \<Longrightarrow> table_order ks = table_order ks'"
proof -
  assume ks: "distinct ks" "distinct ks'" "set ks = set ks'"
  have "sort (filter (\<lambda>t. t \<notin> set CONDITION_ORDER) ks) = sort (filter (\<lambda>t. t \<notin> set CONDITION_ORDER) ks')"
    using ks by (intro sorted_distinct_set_unique) simp_all
  with ks(3) show ?thesis by (simp add: table_order_def)
qed

lemma lookup_ordered_values:
  assumes "table_ok d"
  shows "lookup_condition (ordered_values d) t = map_of d t"
proof -
  let ?ks = "table_order (dkeys d)"
  have keys: "distinct ?ks" using assms by (simp add: table_ok_def distinct_table_order)
  have own: "type_key (the (map_of d k)) = k" if "k \<in> set ?ks" for k
    using that assms by (auto simp: table_ok_def dkeys_iff)
  have "map (\<lambda>c. (type_key c, c)) (ordered_values d) = map (\<lambda>k. (k, the (map_of d k))) ?ks"
    unfolding ordered_values_eq map_map by (rule map_cong) (use own in auto)
  then have "lookup_condition (ordered_values d) t = map_of (rev (map (\<lambda>k. (k, the (map_of d k))) ?ks)) t"
    by (simp add: lookup_condition_def by_type_def map_of_dupdate)
  also have "\<dots> = map_of d t"
    unfolding map_of_keyed [OF keys] by (auto simp: dkeys_iff)
  finally show ?thesis .
qed

lemma lookup_merge: "lookup_condition (merge_conditions cs us) t = map_of (foldl merge_one (by_type cs) us) t"
  unfolding merge_conditions_def by (intro lookup_ordered_values table_ok_foldl table_ok_by_type)

lemma ordered_values_cong:
  assumes "table_ok d" "table_ok e" "\<And>t. map_of d t = map_of e t"
  shows "ordered_values d = ordered_values e"
proof -
  have "set (dkeys d) = set (dkeys e)" using assms(3) by (auto simp: dkeys_iff)
  then have "table_order (dkeys d) = table_order (dkeys e)"
    using assms(1,2) by (intro table_order_cong) (simp_all add: table_ok_def)
  then show ?thesis using assms(3) by (simp add: ordered_values_eq)
qed

interpretation ct: condition_table merge_conditions lookup_condition type_key carry_transition resent
proof unfold_locales
  fix t us and cs :: "condition list"
  assume "t \<notin> type_key ` set us"
  then show "lookup_condition (merge_conditions cs us) t = lookup_condition cs t"
    unfolding lookup_merge unfolding lookup_condition_def by (rule foldl_merge_one_kept)
next
  fix us u and cs :: "condition list"
  assume "distinct (map type_key us)" "u \<in> set us"
  then show "lookup_condition (merge_conditions cs us) (type_key u) =
      Some (carry_transition (lookup_condition cs (type_key u)) u)"
    unfolding lookup_merge unfolding lookup_condition_def by (rule foldl_merge_one_written)
next
  fix u v
  assume "resent u v"
  then show "type_key u = type_key v" by (cases u; cases v) (auto simp: resent_def type_key_def)
next
  fix u v p
  assume "resent u v"
  then show "carry_transition (Some (carry_transition p u)) v = carry_transition p u"
    by (cases u; cases v) (auto simp: resent_def carry_transition_def split: option.splits)
next
  fix cs us cs' us'
  assume "\<And>t. lookup_condition (merge_conditions cs us) t = lookup_condition (merge_conditions cs' us') t"
  then show "merge_conditions cs us = merge_conditions cs' us'"
    unfolding lookup_merge unfolding merge_conditions_def
    by (intro ordered_values_cong table_ok_foldl table_ok_by_type)
qed

section \<open>Properties of the conditions of a resource\<close>

lemma type_key_mk [simp]: "type_key (mk_condition now t s r m g) = t"
  by (simp add: mk_condition_def type_key_def)

text \<open>
  Merging conditions: the condition of a kind that a pass reports is the reported one, with
  its recorded transition time kept exactly while its status is unchanged; the condition of every
  other kind is left as it was.
\<close>

theorem merge_conditions_lookup:
  assumes "distinct (map type_key us)"
  shows "lookup_condition (merge_conditions cs us) t =
    (case find (\<lambda>u. type_key u = t) us of
       None \<Rightarrow> lookup_condition cs t
     | Some u \<Rightarrow> Some (carry_transition (lookup_condition cs t) u))"
proof (cases "find (\<lambda>u. type_key u = t) us")
  case None
  then have "t \<notin> type_key ` set us" by (auto simp: find_None_iff)
  with None show ?thesis by (simp add: ct.look_kept)
next
  case (Some u)
  then have "u \<in> set us" "type_key u = t" by (auto simp: find_Some_iff)
  with Some show ?thesis using ct.look_written [OF assms] by auto
qed

theorem merge_conditions_lookup_witness:
  "lookup_condition (merge_conditions [ready ''t0'' ''old'' None] [ready ''t1'' ''new'' None, no_drift ''t1'' None]) ''Ready''
     = Some (ready ''t0'' ''new'' None)"
proof -
  let ?us = "[ready ''t1'' ''new'' None, no_drift ''t1'' None]"
  have d: "distinct (map type_key ?us)" by (simp add: constructor_defs condition_types)
  have "lookup_condition (merge_conditions [ready ''t0'' ''old'' None] ?us) ''Ready'' =
      Some (carry_transition (lookup_condition [ready ''t0'' ''old'' None] ''Ready'') (ready ''t1'' ''new'' None))"
    unfolding merge_conditions_lookup [OF d] by (simp add: constructor_defs condition_types)
  also have "\<dots> = Some (ready ''t0'' ''new'' None)"
    by (simp add: lookup_condition_def by_type_def dupdate_def carry_transition_def ready_def
        mk_condition_def type_key_def condition_types)
  finally show ?thesis .
qed

text \<open>
  A steady pass does not touch the object: merging the same conditions a second time, stamped
  with a later clock, gives back exactly the list already recorded.
\<close>

theorem merge_conditions_steady:
  assumes "distinct (map type_key us)" "\<forall>u \<in> set us. c_transition u \<noteq> None"
  shows "merge_conditions (merge_conditions cs us) (map (\<lambda>u. u\<lparr>c_transition := Some later\<rparr>) us) = merge_conditions cs us"
proof (rule ct.merge_steady [OF assms(1)])
  show "list_all2 resent us (map (\<lambda>u. u\<lparr>c_transition := Some later\<rparr>) us)"
    using assms(2) by (auto simp: list_all2_conv_all_nth resent_def)
qed

theorem merge_conditions_steady_witness:
  "merge_conditions (merge_conditions [not_ready ''t0'' ''X'' ''m'' None] [ready ''t1'' ''ok'' None])
     [(ready ''t1'' ''ok'' None)\<lparr>c_transition := Some ''t2''\<rparr>] =
   merge_conditions [not_ready ''t0'' ''X'' ''m'' None] [ready ''t1'' ''ok'' None]"
  using merge_conditions_steady [of "[ready ''t1'' ''ok'' None]" "[not_ready ''t0'' ''X'' ''m'' None]" "''t2''"]
  by (simp add: ready_def mk_condition_def)

text \<open>Conditions come out in the fixed order, the unknown kinds after the known ones, alphabetically.\<close>

lemma merge_conditions_order:
  "map type_key (merge_conditions cs us) =
     table_order (dkeys (foldl merge_one (by_type cs) us))"
proof -
  have "table_ok (foldl merge_one (by_type cs) us)" by (intro table_ok_foldl table_ok_by_type)
  then have "\<forall>t \<in> set (dkeys (foldl merge_one (by_type cs) us)).
      type_key (the (map_of (foldl merge_one (by_type cs) us) t)) = t"
    by (auto simp: table_ok_def dkeys_iff)
  then show ?thesis
    unfolding merge_conditions_def ordered_values_eq map_map by (intro map_idI) simp
qed

text \<open>
  The phase shown for a resource: it is \<open>Ready\<close>, \<open>Drifted\<close> or \<open>Degraded\<close> exactly when the Ready
  condition is True; of these, an unhealthy stream outranks drift, and drift outranks \<open>Ready\<close>.
\<close>

theorem phase_precedence:
  "(phase_from_conditions cs \<in> {Ready, Drifted, Degraded} \<longleftrightarrow> has_status (lookup_condition cs COND_READY) ''True'') \<and>
   (phase_from_conditions cs = Degraded \<longleftrightarrow> has_status (lookup_condition cs COND_READY) ''True'' \<and>
      has_status (lookup_condition cs COND_STREAMING) ''False'' \<and>
      has_reason_in (lookup_condition cs COND_STREAMING) DEGRADING_REASONS) \<and>
   (phase_from_conditions cs = Drifted \<longleftrightarrow> has_status (lookup_condition cs COND_READY) ''True'' \<and>
      has_status (lookup_condition cs COND_DRIFTED) ''True'' \<and> phase_from_conditions cs \<noteq> Degraded)"
  by (auto simp: phase_from_conditions_def has_status_def split: option.splits)

end
