(* ===== verification/Effects.thy ===== *)
theory Effects
  imports Models Status
begin

text \<open>
  Effects. The operator is asynchronous Python over a PostgreSQL server and the Kubernetes API;
  neither is under \<open>src/\<close>. Code that talks to them is a function of an environment \<open>env\<close>, which
  answers every request from the whole history of requests before it, and of that history, a list
  of events that the code extends. An environment is thus any server, with any concurrent activity
  between two requests, and any pattern of failures. \<open>bind_m\<close> sequences, \<open>Inl\<close> is a raised
  exception.

  The module \<open>postgres/sql.py\<close>: a statement is the tree of \<open>psycopg.sql\<close> calls that builds it
  (\<open>SQL\<close>, \<open>Identifier\<close>, \<open>Literal\<close>, \<open>format\<close>, \<open>join\<close>); how psycopg renders it is a field of the
  environment. A query is named by what it asks, with its parameters; the answers are typed, as the
  catalog columns they select are.

  The state the operator itself keeps between passes (\<open>ReconcileContext\<close>: the server-information
  cache and the connection pools) is in \<open>world\<close>, beside the history.
\<close>

section \<open>Statements\<close>

datatype lit = L_Str string | L_Int int | L_Bool bool | L_Null

datatype composed =
    SQL string
  | Ident "string list"
  | Lit lit
  | Format string "composed list"
  | Join string "composed list"

definition ident :: "string \<Rightarrow> composed" where
  "ident name = Ident [name]"

definition idents :: "string list \<Rightarrow> composed" where
  "idents names = Join '', '' (map ident names)"

definition qualified_ident :: "string \<Rightarrow> string \<Rightarrow> composed" where
  "qualified_ident schema name = Ident [schema, name]"

definition literal :: "string \<Rightarrow> composed" where
  "literal value = Lit (L_Str value)"

text \<open>Every piece of raw SQL text in a statement.\<close>

fun raw_sql :: "composed \<Rightarrow> string list" where
  "raw_sql (SQL s) = [s]"
| "raw_sql (Ident ns) = []"
| "raw_sql (Lit l) = []"
| "raw_sql (Format s cs) = s # concat (map raw_sql cs)"
| "raw_sql (Join s cs) = s # concat (map raw_sql cs)"

lemma raw_sql_helpers [simp]:
  "raw_sql (ident n) = []" "raw_sql (literal v) = []" "raw_sql (qualified_ident s n) = []"
  "set (raw_sql (idents ns)) = {'', ''}"
  by (auto simp: ident_def literal_def qualified_ident_def idents_def)

section \<open>Rows\<close>

record role_state =
  rs_name :: string
  rs_can_login :: bool
  rs_inherit :: bool
  rs_create_db :: bool
  rs_create_role :: bool
  rs_replication :: bool
  rs_bypass_rls :: bool
  rs_connection_limit :: int
  rs_valid_until :: "string option"

record database_state =
  ds_name :: string
  ds_owner :: string
  ds_encoding :: string
  ds_connection_limit :: int
  ds_collate :: "string option"
  ds_ctype :: "string option"

record schema_state =
  ss_name :: string
  ss_owner :: string

record extension_state =
  es_name :: string
  es_version :: string
  es_schema :: string

record server_info =
  sv_version_num :: int
  sv_version_text :: string
  sv_current_user :: string
  sv_is_superuser :: bool
  sv_can_create_db :: bool
  sv_can_create_role :: bool
  sv_is_rds_superuser :: bool

text \<open>Rows about logical replication, as \<open>postgres/replication.py\<close>, \<open>subscription.py\<close> and \<open>publication.py\<close> select them.\<close>

record logical_settings =
  ls_wal_level :: string
  ls_max_slots :: int
  ls_max_senders :: int
  ls_keep_size :: string
  ls_is_rds :: bool
  ls_slots_in_use :: int
  ls_has_replication :: bool

record subscription_row =
  sn_oid :: int
  sn_owner :: string
  sn_comment :: "string option"
  sn_enabled :: bool
  sn_binary :: bool
  sn_substream :: string
  sn_slot_name :: "string option"
  sn_publications :: "string list"

record slot_state =
  sl_slot :: string
  sl_database :: "string option"
  sl_active :: bool
  sl_active_pid :: "int option"

record slot_health =
  sh_active :: bool
  sh_wal_status :: "string option"
  sh_safe_wal_size :: "int option"
  sh_lag_bytes :: "int option"
  sh_retained_bytes :: "int option"

record publication_row =
  pn_oid :: int
  pn_owner :: string
  pn_comment :: "string option"
  pn_insert :: bool
  pn_update :: bool
  pn_delete :: bool
  pn_truncate :: bool
  pn_via_root :: bool

record member_row =
  mr_schema :: string
  mr_table :: string
  mr_filter :: "string option"
  mr_columns :: "string list option"

record relation_row =
  rel_oid :: int
  rel_schema :: string
  rel_name :: string
  rel_kind :: string
  rel_persistent :: bool
  rel_is_partition :: bool
  rel_owner :: string
  rel_owner_usable :: bool
  rel_row_security :: bool
  rel_replica_identity :: string
  rel_readable :: bool

record column_row =
  cl_relation :: int
  cl_name :: string
  cl_type :: string
  cl_generated :: bool
  cl_not_null :: bool
  cl_supplied :: bool

record target_row =
  tr_oid :: int
  tr_schema :: string
  tr_name :: string
  tr_kind :: string
  tr_owner :: string
  tr_owner_settable :: bool
  tr_replica_identity :: string

section \<open>Objects of the Kubernetes API\<close>

text \<open>A spec is what pydantic reads from the object, or its error.\<close>

record instance_obj =
  io_spec :: "instance_spec res"
  io_generation :: int

record database_obj =
  do_namespace :: string
  do_name :: string
  do_generation :: int
  do_spec :: "database_spec res"
  do_managed_schemas :: "string list"
  do_managed_extensions :: "string list"
  do_conditions :: "condition list"

text \<open>The \<open>dbRef\<close> of one side as the raw spec has it.\<close>

record raw_ref =
  rr_name :: "string option"
  rr_namespace :: "string option"

record replication_obj =
  lo_namespace :: string
  lo_name :: string
  lo_source :: raw_ref
  lo_target :: raw_ref
  lo_spec :: "replication_spec res"
  lo_created_at :: string                       \<comment> \<open>\<open>creationTimestamp\<close>\<close>
  lo_deleting :: bool                           \<comment> \<open>\<open>deletionTimestamp\<close> is set\<close>
  lo_target_instance :: "string option"         \<comment> \<open>\<open>status.target\<close>\<close>
  lo_target_database :: "string option"
  lo_published :: "string list"                 \<comment> \<open>\<open>status.publishedTables\<close>\<close>

text \<open>A Secret: \<open>data\<close> as bytes once base64 is undone, \<open>stringData\<close>, labels and annotations.\<close>

record secret_obj =
  so_data :: "(string \<times> nat list) list"
  so_string_data :: "(string \<times> string) list"
  so_labels :: "(string \<times> string) list"
  so_annotations :: "(string \<times> string) list"

text \<open>What a write of a Secret carries: base64 texts, labels, annotations.\<close>

record secret_body =
  sb_data :: "(string \<times> string) list"
  sb_labels :: "(string \<times> string) list"
  sb_annotations :: "(string \<times> string) list"

text \<open>A PushSecret: \<open>spec\<close>, labels, annotations and the conditions of its status, when it has one.\<close>

record condition_view =
  cv_type :: "string option"
  cv_status :: "string option"
  cv_reason :: "string option"
  cv_message :: "string option"

record push_secret_obj =
  po_spec :: json
  po_labels :: "(string \<times> string) list"
  po_annotations :: "(string \<times> string) list"
  po_conditions :: "condition_view list option"

record status_patch =
  sp_generation :: int
  sp_conditions :: "condition list"
  sp_phase :: phase
  sp_details :: "(string \<times> json) list"

section \<open>Requests and events\<close>

record conn =
  cn_instance :: string
  cn_database :: string

datatype query =
    Q_Role string
  | Q_Valid_Until_Unset string
  | Q_Valid_Until_Is string string
  | Q_Verifier string
  | Q_Memberships string
  | Q_Members_Of string
  | Q_Current_User
  | Q_Can string string                  \<comment> \<open>\<open>pg_has_role(current_user, role, privilege)\<close>\<close>
  | Q_Has_Role string string string      \<comment> \<open>\<open>pg_has_role(member, group, privilege)\<close>\<close>
  | Q_Role_Known string                  \<comment> \<open>\<open>EXISTS (SELECT 1 FROM pg_roles ...)\<close>\<close>
  | Q_Role_Comment string
  | Q_Role_Settings string string
  | Q_Owned_Databases string
  | Q_Role_Backends string
  | Q_Terminate int
  | Q_Database string
  | Q_Database_Settings string
  | Q_Connection_Roles string
  | Q_Database_Backends string
  | Q_Schemas
  | Q_Schema_Owner string
  | Q_Schema_Relations string
  | Q_Extensions
  | Q_Available_Extensions
  | Q_Schema_Grants "string list"
  | Q_Has_Rds_Role
  | Q_Logical_Settings
  | Q_Rds_Replication_Known
  | Q_Can_Grant_Rds_Replication
  | Q_Can_Subscribe
  | Q_Subscription string
  | Q_Subscribed_Tables int
  | Q_Slots string "int option"
  | Q_Slot_Health string
  | Q_Apply_Worker int
  | Q_Subscription_Stats int
  | Q_Publication string
  | Q_Publication_Tables int
  | Q_Published_Relations string
  | Q_Table_Has_Rows string string
  | Q_Relations_In string "string list"
  | Q_Relations_Named string "(string \<times> string) list"
  | Q_Relations_By_Oid string "int list"
  | Q_Columns "int list"
  | Q_Identity_Columns "int list"
  | Q_Leaves int
  | Q_Target_Relations "(string \<times> string) list"
  | Q_Target_Identity "int list"
  | Q_Server_Info bool

datatype k8s_request =
    K_Get_Instance string
  | K_Get_Database string string
  | K_List_Replications
  | K_Read_Secret string string
  | K_Delete_Secret string string
  | K_Patch_Status string "string option" string status_patch
  | K_Merge_Status string "string option" string "(string \<times> json) list"  \<comment> \<open>some fields of the status\<close>
  | K_Create_Secret string string secret_body
  | K_Patch_Secret string string secret_body
  | K_Get_Push_Secret "string \<times> string" string string       \<comment> \<open>(group, version), namespace, name\<close>
  | K_Create_Push_Secret "string \<times> string" string string json
  | K_Patch_Push_Secret "string \<times> string" string string json
  | K_Delete_Push_Secret "string \<times> string" string string
  | K_Read_Crd string
  | K_List string                                           \<comment> \<open>every object of a plural\<close>

datatype event =
    Connected conn bool
  | Executed conn composed bool
  | Asked conn query
  | Opened_Pool string string
  | Closed_Pool string string
  | Wrote_File string
  | K8s k8s_request
  | Locked string "string option" string          \<comment> \<open>the per-resource lock: kind, namespace, name\<close>
  | Unlocked string "string option" string
  | Began conn                                    \<comment> \<open>a transaction, and its end by commit or rollback\<close>
  | Ended conn bool
  | Slept
  | Counted string string string                  \<comment> \<open>an outcome metric: its name, kind, outcome\<close>
  | Gauge string string string "int option"       \<comment> \<open>the ready gauge of a resource; \<open>None\<close> is removal\<close>
  | Posted string string                          \<comment> \<open>a warning event on the resource: reason, message\<close>

type_synonym history = "event list"

text \<open>A driver error: the class the code tells apart, its class name, and \<open>str(exc)\<close>.\<close>

datatype pg_class = Pg_Insufficient_Privilege | Pg_Invalid_Catalog_Name | Pg_Undefined_Object | Pg_Other

datatype pg_error = Pg_Error pg_class string string

text \<open>How checking out a connection fails: a pool time-out, any other \<open>OperationalError\<close>, or another exception. And what
  one direct attempt comes to.\<close>

datatype connect_error = Pool_Timeout string string | Refused string string | Broken err

datatype direct_attempt = Answered | Refused_Directly string string | Failed_Otherwise

record env =
  sha256_bytes :: "nat list \<Rightarrow> string"                \<comment> \<open>hexdigest\<close>
  sha256_digest :: "nat list \<Rightarrow> nat list"
  hmac_sha256 :: "nat list \<Rightarrow> nat list \<Rightarrow> nat list"
  pbkdf2_sha256 :: "nat list \<Rightarrow> nat list \<Rightarrow> int \<Rightarrow> nat list"
  md5_hex :: "nat list \<Rightarrow> string"
  render_sql :: "composed \<Rightarrow> string"
  set_order :: "string list \<Rightarrow> string list"      \<comment> \<open>iteration order of a set with these elements\<close>
  clock :: "history \<Rightarrow> string"
  monotonic :: "history \<Rightarrow> int"                    \<comment> \<open>\<open>time.monotonic()\<close> in nanoseconds\<close>
  operator_namespace :: string
  cert_dir :: string
  file_exists :: "history \<Rightarrow> string \<Rightarrow> bool"
  on_connect :: "history \<Rightarrow> conn \<Rightarrow> connect_error option"
  on_attempt :: "history \<Rightarrow> conn \<Rightarrow> direct_attempt"
  on_execute :: "history \<Rightarrow> conn \<Rightarrow> composed \<Rightarrow> pg_error option"
  says_bool :: "history \<Rightarrow> conn \<Rightarrow> query \<Rightarrow> pg_error + bool"
  says_text :: "history \<Rightarrow> conn \<Rightarrow> query \<Rightarrow> pg_error + string option"
  says_names :: "history \<Rightarrow> conn \<Rightarrow> query \<Rightarrow> pg_error + string list"
  says_count :: "history \<Rightarrow> conn \<Rightarrow> query \<Rightarrow> pg_error + nat"
  says_role :: "history \<Rightarrow> conn \<Rightarrow> query \<Rightarrow> pg_error + role_state option"
  says_database :: "history \<Rightarrow> conn \<Rightarrow> query \<Rightarrow> pg_error + database_state option"
  says_settings :: "history \<Rightarrow> conn \<Rightarrow> query \<Rightarrow> pg_error + string list list"
  says_backends :: "history \<Rightarrow> conn \<Rightarrow> query \<Rightarrow> pg_error + (int \<times> string) list"
  says_schemas :: "history \<Rightarrow> conn \<Rightarrow> query \<Rightarrow> pg_error + schema_state list"
  says_extensions :: "history \<Rightarrow> conn \<Rightarrow> query \<Rightarrow> pg_error + extension_state list"
  says_grants :: "history \<Rightarrow> conn \<Rightarrow> query \<Rightarrow> pg_error + (string \<times> string \<times> string list) list"
  says_server :: "history \<Rightarrow> conn \<Rightarrow> query \<Rightarrow> pg_error + server_info option"
  says_logical :: "history \<Rightarrow> conn \<Rightarrow> query \<Rightarrow> pg_error + logical_settings option"
  says_subscription :: "history \<Rightarrow> conn \<Rightarrow> query \<Rightarrow> pg_error + subscription_row option"
  says_pairs :: "history \<Rightarrow> conn \<Rightarrow> query \<Rightarrow> pg_error + (string \<times> string) list"
  says_slots :: "history \<Rightarrow> conn \<Rightarrow> query \<Rightarrow> pg_error + slot_state list"
  says_slot_health :: "history \<Rightarrow> conn \<Rightarrow> query \<Rightarrow> pg_error + slot_health option"
  says_worker :: "history \<Rightarrow> conn \<Rightarrow> query \<Rightarrow> pg_error + (bool \<times> string option) option"
  says_stats :: "history \<Rightarrow> conn \<Rightarrow> query \<Rightarrow> pg_error + (string \<times> int option) list"
  says_publication :: "history \<Rightarrow> conn \<Rightarrow> query \<Rightarrow> pg_error + publication_row option"
  says_members :: "history \<Rightarrow> conn \<Rightarrow> query \<Rightarrow> pg_error + member_row list"
  says_relations :: "history \<Rightarrow> conn \<Rightarrow> query \<Rightarrow> pg_error + relation_row list"
  says_columns :: "history \<Rightarrow> conn \<Rightarrow> query \<Rightarrow> pg_error + column_row list"
  says_identity :: "history \<Rightarrow> conn \<Rightarrow> query \<Rightarrow> pg_error + (int \<times> string) list"
  says_oids :: "history \<Rightarrow> conn \<Rightarrow> query \<Rightarrow> pg_error + int list"
  says_targets :: "history \<Rightarrow> conn \<Rightarrow> query \<Rightarrow> pg_error + target_row list"
  says_target_identity :: "history \<Rightarrow> conn \<Rightarrow> query \<Rightarrow> pg_error + (int \<times> bool \<times> bool \<times> string) list"
  make_conninfo :: "(string \<times> string) list \<Rightarrow> string"      \<comment> \<open>\<open>psycopg.conninfo.make_conninfo\<close>\<close>
  micros :: "history \<Rightarrow> nat"                        \<comment> \<open>the wall clock, in microseconds since 1970\<close>
  says_instance :: "history \<Rightarrow> string \<Rightarrow> err + instance_obj"
  says_database_obj :: "history \<Rightarrow> string \<Rightarrow> string \<Rightarrow> err + database_obj"
  says_replications :: "history \<Rightarrow> err + replication_obj list"
  says_secret :: "history \<Rightarrow> string \<Rightarrow> string \<Rightarrow> err + secret_obj"
  says_push_secret :: "history \<Rightarrow> string \<times> string \<Rightarrow> string \<Rightarrow> string \<Rightarrow> err + push_secret_obj"
  says_crd :: "history \<Rightarrow> string \<Rightarrow> err + (string \<times> bool) list"        \<comment> \<open>versions: name, served\<close>
  says_instance_refs :: "history \<Rightarrow> string \<Rightarrow> err + string option list"  \<comment> \<open>\<open>instanceRef.name\<close> of each object\<close>
  random_choice :: "history \<Rightarrow> nat \<Rightarrow> nat"        \<comment> \<open>the n-th draw of \<open>secrets.choice\<close>, to be reduced\<close>
  pushsecret_enabled :: bool
  pushsecret_api_version :: string
  retry_backoff :: int
  k8s_fails :: "history \<Rightarrow> k8s_request \<Rightarrow> err option"

definition sha_of :: "env \<Rightarrow> string \<Rightarrow> string" where
  "sha_of E s = sha256_bytes E (utf8 s)"

record world =
  trace :: history
  server_cache :: "((string \<times> string) \<times> (int \<times> server_info)) list"
  pools :: "((string \<times> string) \<times> string) list"

section \<open>Sequencing\<close>

type_synonym 'a m = "env \<Rightarrow> world \<Rightarrow> (err + 'a) \<times> world"

definition ret_m :: "'a \<Rightarrow> 'a m" where
  "ret_m x = (\<lambda>E t. (Inr x, t))"

definition throw_m :: "err \<Rightarrow> 'a m" where
  "throw_m e = (\<lambda>E t. (Inl e, t))"

definition raise_m :: "err_class \<Rightarrow> string \<Rightarrow> 'a m" where
  "raise_m c msg = throw_m (Err c msg)"

definition bind_m :: "'a m \<Rightarrow> ('a \<Rightarrow> 'b m) \<Rightarrow> 'b m" where
  "bind_m m f = (\<lambda>E t. case m E t of (Inl e, u) \<Rightarrow> (Inl e, u) | (Inr x, u) \<Rightarrow> f x E u)"

definition then_m :: "'a m \<Rightarrow> 'b m \<Rightarrow> 'b m" where
  "then_m m k = bind_m m (\<lambda>_. k)"

definition lift_r :: "'a res \<Rightarrow> 'a m" where
  "lift_r r = (\<lambda>E t. (r, t))"

text \<open>\<open>try: m except cls as exc: h exc\<close>; \<open>try_all\<close> is \<open>except Exception\<close>.\<close>

definition catch_m :: "err_class \<Rightarrow> 'a m \<Rightarrow> (err \<Rightarrow> 'a m) \<Rightarrow> 'a m" where
  "catch_m cls m h = (\<lambda>E t. case m E t of
      (Inl e, u) \<Rightarrow> (if instance_of e cls then h e E u else (Inl e, u))
    | (Inr x, u) \<Rightarrow> (Inr x, u))"

text \<open>\<open>try: m finally: f\<close>, and the outcome of \<open>m\<close> as a value, for an exception that is looked at later.\<close>

definition finally_m :: "'a m \<Rightarrow> unit m \<Rightarrow> 'a m" where
  "finally_m m f = (\<lambda>E t. case m E t of (r, u) \<Rightarrow>
     (case f E u of (Inl e, v) \<Rightarrow> (Inl e, v) | (Inr _, v) \<Rightarrow> (r, v)))"

definition attempt_m :: "'a m \<Rightarrow> (err + 'a) m" where
  "attempt_m m = (\<lambda>E t. case m E t of (r, u) \<Rightarrow> (Inr r, u))"

definition when_m :: "bool \<Rightarrow> unit m \<Rightarrow> unit m" where
  "when_m b m = (if b then m else ret_m ())"

text \<open>\<open>for x in xs: acc = f(acc, x)\<close>.\<close>

fun fold_m :: "('s \<Rightarrow> 'a \<Rightarrow> 's m) \<Rightarrow> 's \<Rightarrow> 'a list \<Rightarrow> 's m" where
  "fold_m f s [] = ret_m s"
| "fold_m f s (x # xs) = bind_m (f s x) (\<lambda>s'. fold_m f s' xs)"

definition asks :: "(env \<Rightarrow> 'a) \<Rightarrow> 'a m" where
  "asks f = (\<lambda>E t. (Inr (f E), t))"

text \<open>Reading and writing the operator's own state, which emits nothing.\<close>

definition gets :: "(world \<Rightarrow> 'a) \<Rightarrow> 'a m" where
  "gets f = (\<lambda>E t. (Inr (f t), t))"

definition set_server_cache :: "((string \<times> string) \<times> (int \<times> server_info)) list \<Rightarrow> unit m" where
  "set_server_cache c = (\<lambda>E t. (Inr (), t\<lparr>server_cache := c\<rparr>))"

definition set_pools :: "((string \<times> string) \<times> string) list \<Rightarrow> unit m" where
  "set_pools p = (\<lambda>E t. (Inr (), t\<lparr>pools := p\<rparr>))"

text \<open>A value that the environment supplies at this point of the history.\<close>

definition sample_m :: "(env \<Rightarrow> history \<Rightarrow> 'a) \<Rightarrow> 'a m" where
  "sample_m f = (\<lambda>E t. (Inr (f E (trace t)), t))"

definition now_m :: "string m" where
  "now_m = sample_m clock"

definition tell :: "event \<Rightarrow> unit m" where
  "tell ev = (\<lambda>E t. (Inr (), t\<lparr>trace := trace t @ [ev]\<rparr>))"

text \<open>A request to the Kubernetes API that is only answered by success or an exception, and one with
  a result.\<close>

definition k8s_do :: "k8s_request \<Rightarrow> unit m" where
  "k8s_do r = bind_m (sample_m (\<lambda>E h. k8s_fails E h r)) (\<lambda>f.
     then_m (tell (K8s r)) (case f of None \<Rightarrow> ret_m () | Some e \<Rightarrow> throw_m e))"

definition k8s_ask :: "k8s_request \<Rightarrow> (env \<Rightarrow> history \<Rightarrow> err + 'a) \<Rightarrow> 'a m" where
  "k8s_ask r f = bind_m (sample_m f) (\<lambda>x. then_m (tell (K8s r)) (lift_r x))"

section \<open>\<open>postgres/sql.py\<close>\<close>

text \<open>\<open>_terse\<close>: the first line of the driver's message, or the class name when it is blank.\<close>

definition terse :: "string \<Rightarrow> string \<Rightarrow> string" where
  "terse cls_name text = (let t = py_strip text in if t = [] then cls_name else first_line t)"

definition translate_execute_error :: "string \<Rightarrow> pg_error \<Rightarrow> err" where
  "translate_execute_error rendered pe = (case pe of Pg_Error c nm text \<Rightarrow>
     (case c of
        Pg_Insufficient_Privilege \<Rightarrow>
          Err InsufficientPrivilege (''insufficient privilege for `'' @ rendered @ ''`: '' @ terse nm text @
            ''. The credentials in the instance's Secret must be a superuser or, '' @
            ''on RDS, a member of rds_superuser with CREATEDB and CREATEROLE.'')
      | Pg_Invalid_Catalog_Name \<Rightarrow> Err ObjectMissing (''`'' @ rendered @ ''` failed: '' @ terse nm text)
      | Pg_Undefined_Object \<Rightarrow> Err ObjectMissing (''`'' @ rendered @ ''` failed: '' @ terse nm text)
      | Pg_Other \<Rightarrow> Err ReconcileFailure (''`'' @ rendered @ ''` failed: '' @ terse nm text)))"

definition execute_as :: "conn \<Rightarrow> composed \<Rightarrow> string option \<Rightarrow> unit m" where
  "execute_as c statement describe =
     bind_m (asks (\<lambda>E. or_text describe (render_sql E statement))) (\<lambda>rendered.
     bind_m (sample_m (\<lambda>E h. on_execute E h c statement)) (\<lambda>failure.
     case failure of
       None \<Rightarrow> tell (Executed c statement True)
     | Some pe \<Rightarrow> then_m (tell (Executed c statement False)) (throw_m (translate_execute_error rendered pe))))"

definition execute :: "conn \<Rightarrow> composed \<Rightarrow> unit m" where
  "execute c statement = execute_as c statement None"

text \<open>\<open>fetch_all\<close>, \<open>fetch_one\<close>, \<open>fetch_scalar\<close> and \<open>fetch_column\<close>: a query and its typed answer.\<close>

definition fetch :: "(env \<Rightarrow> history \<Rightarrow> conn \<Rightarrow> query \<Rightarrow> pg_error + 'a) \<Rightarrow> conn \<Rightarrow> query \<Rightarrow> 'a m" where
  "fetch sel c q =
     bind_m (sample_m (\<lambda>E h. sel E h c q)) (\<lambda>answer.
     then_m (tell (Asked c q))
       (case answer of
          Inl (Pg_Error k nm text) \<Rightarrow> raise_m ReconcileFailure (''query failed: '' @ terse nm text)
        | Inr x \<Rightarrow> ret_m x))"

section \<open>Laws\<close>

lemma bind_ret [simp]: "bind_m (ret_m x) f = f x"
  by (simp add: bind_m_def ret_m_def)

lemma bind_throw [simp]: "bind_m (throw_m e) f = throw_m e"
  by (simp add: bind_m_def throw_m_def)

lemma bind_assoc_m: "bind_m (bind_m m f) g = bind_m m (\<lambda>x. bind_m (f x) g)"
  by (auto simp: bind_m_def fun_eq_iff split: prod.splits sum.splits)

lemma bind_ret_right [simp]: "bind_m m ret_m = m"
  by (auto simp: bind_m_def ret_m_def fun_eq_iff split: prod.splits sum.splits)

lemma fold_m_append: "fold_m f s (xs @ ys) = bind_m (fold_m f s xs) (\<lambda>s'. fold_m f s' ys)"
  by (induction xs arbitrary: s) (simp_all add: bind_assoc_m)

text \<open>Running a computation from a given world.\<close>

lemma bind_run: "bind_m m f E w = (case m E w of (Inl e, u) \<Rightarrow> (Inl e, u) | (Inr x, u) \<Rightarrow> f x E u)"
  by (simp add: bind_m_def)

lemma then_run: "then_m m k E w = (case m E w of (Inl e, u) \<Rightarrow> (Inl e, u) | (Inr x, u) \<Rightarrow> k E u)"
  by (simp add: then_m_def bind_m_def)

lemma basic_run: "ret_m x E w = (Inr x, w)" "throw_m e E w = (Inl e, w)" "lift_r r E w = (r, w)"
  "asks f E w = (Inr (f E), w)" "gets g E w = (Inr (g w), w)" "sample_m h E w = (Inr (h E (trace w)), w)"
  "tell ev E w = (Inr (), w\<lparr>trace := trace w @ [ev]\<rparr>)" "raise_m cl msg E w = (Inl (Err cl msg), w)"
  by (simp_all add: ret_m_def throw_m_def lift_r_def asks_def gets_def sample_m_def tell_def raise_m_def)

lemma catch_run: "catch_m cls m h E w = (case m E w of
      (Inl e, u) \<Rightarrow> (if instance_of e cls then h e E u else (Inl e, u)) | (Inr x, u) \<Rightarrow> (Inr x, u))"
  by (simp add: catch_m_def)

lemma finally_run: "finally_m m f E w = (case m E w of (r, u) \<Rightarrow>
     (case f E u of (Inl e, v) \<Rightarrow> (Inl e, v) | (Inr _, v) \<Rightarrow> (r, v)))"
  by (simp add: finally_m_def)

lemma attempt_run: "attempt_m m E w = (case m E w of (r, u) \<Rightarrow> (Inr r, u))"
  by (simp add: attempt_m_def)

lemmas run_simps = bind_run then_run basic_run catch_run

lemma fst_bind:
  "fst (a E w) = fst (b E w) \<Longrightarrow> (\<And>x w1 w2. fst (k x E w1) = fst (k' x E w2)) \<Longrightarrow>
   fst (bind_m a k E w) = fst (bind_m b k' E w)"
  by (auto simp: bind_m_def split: prod.splits sum.splits)

lemma fetch_answer:
  "sel E (trace w) c q = Inr x \<Longrightarrow> fetch sel c q E w = (Inr x, w\<lparr>trace := trace w @ [Asked c q]\<rparr>)"
  by (simp add: fetch_def run_simps)

section \<open>What a computation may emit\<close>

text \<open>\<open>emits E P m\<close>: in environment \<open>E\<close>, from every history, \<open>m\<close> only appends events that satisfy \<open>P\<close>.\<close>

definition emits :: "env \<Rightarrow> (event \<Rightarrow> bool) \<Rightarrow> 'a m \<Rightarrow> bool" where
  "emits E P m \<longleftrightarrow> (\<forall>t. \<exists>es. trace (snd (m E t)) = trace t @ es \<and> (\<forall>e \<in> set es. P e))"

text \<open>\<open>gives E Q m\<close>: every value \<open>m\<close> returns satisfies \<open>Q\<close>.\<close>

definition gives :: "env \<Rightarrow> ('a \<Rightarrow> bool) \<Rightarrow> 'a m \<Rightarrow> bool" where
  "gives E Q m \<longleftrightarrow> (\<forall>t x u. m E t = (Inr x, u) \<longrightarrow> Q x)"

named_theorems emits_rules \<open>composition of \<open>emits\<close>\<close>

lemma emits_ret [emits_rules]: "emits E P (ret_m x)"
  by (simp add: emits_def ret_m_def)

lemma emits_throw [emits_rules]: "emits E P (throw_m e)"
  by (simp add: emits_def throw_m_def)

lemma emits_raise [emits_rules]: "emits E P (raise_m c msg)"
  by (simp add: raise_m_def emits_throw)

lemma emits_lift [emits_rules]: "emits E P (lift_r r)"
  by (simp add: emits_def lift_r_def)

lemma emits_asks [emits_rules]: "emits E P (asks f)"
  by (simp add: emits_def asks_def)

lemma emits_state [emits_rules]: "emits E P (gets g)" "emits E P (set_server_cache c)" "emits E P (set_pools p)"
  by (simp_all add: emits_def gets_def set_server_cache_def set_pools_def)

lemma emits_sample [emits_rules]: "emits E P (sample_m f)"
  by (simp add: emits_def sample_m_def)

lemma emits_now [emits_rules]: "emits E P now_m"
  by (simp add: now_m_def emits_sample)

lemma emits_tell [emits_rules]: "P ev \<Longrightarrow> emits E P (tell ev)"
  by (simp add: emits_def tell_def)

lemma emits_bind_gives:
  assumes "emits E P m" "gives E Q m" "\<And>x. Q x \<Longrightarrow> emits E P (f x)"
  shows "emits E P (bind_m m f)"
  unfolding emits_def
proof
  fix t
  obtain r u where mu: "m E t = (r, u)" by (cases "m E t")
  obtain es where es: "trace u = trace t @ es" "\<forall>e \<in> set es. P e"
    using assms(1) mu unfolding emits_def by (metis snd_conv)
  show "\<exists>es. trace (snd (bind_m m f E t)) = trace t @ es \<and> (\<forall>e \<in> set es. P e)"
  proof (cases r)
    case (Inl e)
    with mu es show ?thesis by (simp add: bind_m_def)
  next
    case (Inr x)
    with mu assms(2) have "Q x" by (auto simp: gives_def)
    then obtain es' where "trace (snd (f x E u)) = trace u @ es'" "\<forall>e \<in> set es'. P e"
      using assms(3) unfolding emits_def by blast
    with mu es Inr show ?thesis by (auto simp: bind_m_def)
  qed
qed

lemma givesD: "gives E Q m \<Longrightarrow> m E w = (Inr x, u) \<Longrightarrow> Q x"
  unfolding gives_def by blast

lemma gives_True [simp]: "gives E (\<lambda>_. True) m"
  by (simp add: gives_def)

lemma gives_bindI:
  "gives E Q m \<Longrightarrow> (\<And>x. Q x \<Longrightarrow> gives E R (f x)) \<Longrightarrow> gives E R (bind_m m f)"
  unfolding gives_def by (simp add: bind_run split: prod.splits sum.splits) metis

lemma gives_ret: "Q x \<Longrightarrow> gives E Q (ret_m x)"
  by (simp add: gives_def basic_run)

lemma gives_raise: "gives E Q (raise_m c msg)" "gives E Q (throw_m e)"
  by (simp_all add: gives_def basic_run)

lemma gives_sample: "(\<And>h. Q (f E h)) \<Longrightarrow> gives E Q (sample_m f)"
  by (auto simp: gives_def basic_run)

lemma emits_bind [emits_rules]:
  "emits E P m \<Longrightarrow> (\<And>x. emits E P (f x)) \<Longrightarrow> emits E P (bind_m m f)"
  by (rule emits_bind_gives [where Q = "\<lambda>_. True"]) simp_all

lemma emits_then [emits_rules]: "emits E P m \<Longrightarrow> emits E P k \<Longrightarrow> emits E P (then_m m k)"
  by (simp add: then_m_def emits_bind)

lemma emits_catch [emits_rules]:
  assumes "emits E P m" "\<And>e. emits E P (h e)"
  shows "emits E P (catch_m cls m h)"
  unfolding emits_def
proof
  fix t
  obtain r u where mu: "m E t = (r, u)" by (cases "m E t")
  obtain es where es: "trace u = trace t @ es" "\<forall>e \<in> set es. P e"
    using assms(1) mu unfolding emits_def by (metis snd_conv)
  show "\<exists>es. trace (snd (catch_m cls m h E t)) = trace t @ es \<and> (\<forall>e \<in> set es. P e)"
  proof (cases r)
    case (Inl e)
    obtain es' where "trace (snd (h e E u)) = trace u @ es'" "\<forall>e \<in> set es'. P e"
      using assms(2) unfolding emits_def by blast
    with mu es Inl show ?thesis by (auto simp: catch_m_def)
  next
    case (Inr x)
    with mu es show ?thesis by (simp add: catch_m_def)
  qed
qed

lemma emits_attempt [emits_rules]: "emits E P m \<Longrightarrow> emits E P (attempt_m m)"
  by (auto simp: emits_def attempt_m_def split: prod.splits) (metis snd_conv)

lemma emits_finally [emits_rules]:
  assumes "emits E P m" "emits E P f"
  shows "emits E P (finally_m m f)"
  unfolding emits_def
proof
  fix t
  obtain r u where m: "m E t = (r, u)" by (cases "m E t")
  obtain q v where f: "f E u = (q, v)" by (cases "f E u")
  obtain es where es: "trace u = trace t @ es" "\<forall>e \<in> set es. P e"
    using assms(1) m unfolding emits_def by (metis snd_conv)
  obtain es' where es': "trace v = trace u @ es'" "\<forall>e \<in> set es'. P e"
    using assms(2) f unfolding emits_def by (metis snd_conv)
  have "snd (finally_m m f E t) = v" using m f by (simp add: finally_m_def split: sum.split)
  then show "\<exists>es. trace (snd (finally_m m f E t)) = trace t @ es \<and> (\<forall>e \<in> set es. P e)"
    using es es' by auto
qed

lemma emits_fold [emits_rules]:
  "(\<And>s x. x \<in> set xs \<Longrightarrow> emits E P (f s x)) \<Longrightarrow> emits E P (fold_m f s xs)"
  by (induction xs arbitrary: s) (simp_all add: emits_ret emits_bind)

lemma emits_when [emits_rules]: "(b \<Longrightarrow> emits E P m) \<Longrightarrow> emits E P (when_m b m)"
  by (simp add: when_m_def emits_ret)

lemma emits_case_option [emits_rules]:
  "(x = None \<Longrightarrow> emits E P m) \<Longrightarrow> (\<And>y. x = Some y \<Longrightarrow> emits E P (f y)) \<Longrightarrow>
   emits E P (case x of None \<Rightarrow> m | Some y \<Rightarrow> f y)"
  by (simp split: option.split)

lemma emits_execute_as [emits_rules]:
  "(\<And>ok. P (Executed c s ok)) \<Longrightarrow> emits E P (execute_as c s d)"
  unfolding execute_as_def by (intro emits_rules) auto

lemma emits_execute [emits_rules]: "(\<And>ok. P (Executed c s ok)) \<Longrightarrow> emits E P (execute c s)"
  by (simp add: execute_def emits_execute_as)

lemma emits_fetch [emits_rules]: "P (Asked c q) \<Longrightarrow> emits E P (fetch sel c q)"
  unfolding fetch_def
  by (intro emits_bind emits_then emits_sample emits_tell) (auto intro: emits_rules split: sum.split pg_error.split)

lemma emits_k8s_do [emits_rules]: "P (K8s r) \<Longrightarrow> emits E P (k8s_do r)"
  unfolding k8s_do_def by (intro emits_rules)

lemma emits_k8s_ask [emits_rules]: "P (K8s r) \<Longrightarrow> emits E P (k8s_ask r f)"
  unfolding k8s_ask_def by (intro emits_rules)

lemma emits_if [emits_rules]:
  "(b \<Longrightarrow> emits E P m) \<Longrightarrow> (\<not> b \<Longrightarrow> emits E P n) \<Longrightarrow> emits E P (if b then m else n)"
  by simp

lemma emits_case_prod [emits_rules]:
  "(\<And>a b. x = (a, b) \<Longrightarrow> emits E P (f a b)) \<Longrightarrow> emits E P (case x of (a, b) \<Rightarrow> f a b)"
  by (simp split: prod.split)

lemma emits_case_prod_app [emits_rules]:
  "(\<And>a b. x = (a, b) \<Longrightarrow> emits E P (f a b y)) \<Longrightarrow> emits E P ((case x of (a, b) \<Rightarrow> f a b) y)"
  by (simp split: prod.split)

lemma emits_case_sum [emits_rules]:
  "(\<And>e. x = Inl e \<Longrightarrow> emits E P (f e)) \<Longrightarrow> (\<And>y. x = Inr y \<Longrightarrow> emits E P (g y)) \<Longrightarrow>
   emits E P (case x of Inl e \<Rightarrow> f e | Inr y \<Rightarrow> g y)"
  by (simp split: sum.split)

lemma emits_case_list [emits_rules]:
  "(xs = [] \<Longrightarrow> emits E P m) \<Longrightarrow> (\<And>y ys. xs = y # ys \<Longrightarrow> emits E P (f y ys)) \<Longrightarrow>
   emits E P (case xs of [] \<Rightarrow> m | y # ys \<Rightarrow> f y ys)"
  by (simp split: list.split)

lemma emits_case_bool [emits_rules]:
  "(b \<Longrightarrow> emits E P m) \<Longrightarrow> (\<not> b \<Longrightarrow> emits E P n) \<Longrightarrow> emits E P (case b of True \<Rightarrow> m | False \<Rightarrow> n)"
  by (simp split: bool.split)

lemma emits_Let [emits_rules]: "emits E P (f x) \<Longrightarrow> emits E P (Let x f)"
  by simp

lemma emits_mono: "emits E P m \<Longrightarrow> (\<And>e. P e \<Longrightarrow> Q e) \<Longrightarrow> emits E Q m"
  unfolding emits_def by meson

lemma emits_conj: "emits E P m \<Longrightarrow> emits E Q m \<Longrightarrow> emits E (\<lambda>e. P e \<and> Q e) m"
  unfolding emits_def by (metis (no_types, lifting) append_same_eq same_append_eq)

lemma emits_runD:
  "emits E P m \<Longrightarrow> m E t = (r, u) \<Longrightarrow> \<exists>es. trace u = trace t @ es \<and> (\<forall>e \<in> set es. P e)"
  unfolding emits_def by (metis snd_conv)

subsection \<open>Statements that a computation executes\<close>

fun statement_of :: "event \<Rightarrow> composed option" where
  "statement_of (Executed c s ok) = Some s"
| "statement_of _ = None"

text \<open>Events that leave the outside world as it is: connections and questions.\<close>

fun read_only :: "event \<Rightarrow> bool" where
  "read_only (Connected c ok) = True"
| "read_only (Executed c s ok) = False"
| "read_only (Asked c q) = (case q of Q_Terminate p \<Rightarrow> False | _ \<Rightarrow> True)"
| "read_only (Opened_Pool i d) = True"
| "read_only (Closed_Pool i d) = True"
| "read_only (Wrote_File f) = True"
| "read_only (K8s r) = (case r of K_Delete_Secret a b \<Rightarrow> False | K_Patch_Status a b c d \<Rightarrow> False
     | K_Merge_Status a b c d \<Rightarrow> False
     | K_Create_Secret a b c \<Rightarrow> False | K_Patch_Secret a b c \<Rightarrow> False | K_Create_Push_Secret a b c d \<Rightarrow> False
     | K_Patch_Push_Secret a b c d \<Rightarrow> False | K_Delete_Push_Secret a b c \<Rightarrow> False | _ \<Rightarrow> True)"
| "read_only (Locked k ns n) = True"
| "read_only (Unlocked k ns n) = True"
| "read_only (Began c) = False"
| "read_only (Ended c b) = False"
| "read_only Slept = True"
| "read_only (Counted m k out) = True"
| "read_only (Gauge k ns n v) = True"
| "read_only (Posted r m) = False"

text \<open>An event that sends no statement, or one the predicate allows.\<close>

definition sends :: "(composed \<Rightarrow> bool) \<Rightarrow> event \<Rightarrow> bool" where
  "sends P ev = (case statement_of ev of None \<Rightarrow> True | Some s \<Rightarrow> P s)"

lemma sends_simps [simp]: "sends P (Executed c s ok) = P s" "sends P (Connected c ok)" "sends P (Asked c q)"
  "sends P (Opened_Pool i d)" "sends P (Closed_Pool i d)" "sends P (Wrote_File f)" "sends P (K8s r)"
  "sends P (Locked k ns n)" "sends P (Unlocked k ns n)" "sends P (Began c)" "sends P (Ended c ok)" "sends P Slept"
  "sends P (Counted m k out)" "sends P (Gauge k a b v)" "sends P (Posted why msg)"
  by (simp_all add: sends_def)

lemma read_only_sends: "read_only ev \<Longrightarrow> sends P ev"
  by (cases ev) simp_all

section \<open>Straight-line sequences\<close>

fun each_m :: "('a \<Rightarrow> unit m) \<Rightarrow> 'a list \<Rightarrow> unit m" where
  "each_m f [] = ret_m ()"
| "each_m f (x # xs) = then_m (f x) (each_m f xs)"

lemma then_assoc [simp]: "then_m (then_m a b) c = then_m a (then_m b c)"
  by (simp add: then_m_def bind_assoc_m)

lemma then_ret [simp]: "then_m (ret_m x) m = m"
  by (simp add: then_m_def)

lemma then_unit [simp]: "then_m m (ret_m ()) = m"
proof -
  have "(\<lambda>_::unit. ret_m ()) = ret_m" by (simp add: fun_eq_iff)
  then show ?thesis by (simp add: then_m_def)
qed

lemma each_m_append: "each_m f (xs @ ys) = then_m (each_m f xs) (each_m f ys)"
  by (induction xs) simp_all

lemma each_m_concat: "each_m f (concat (map g xs)) = each_m (\<lambda>x. each_m f (g x)) xs"
  by (induction xs) (simp_all add: each_m_append)

lemma each_m_cong: "(\<And>x. x \<in> set xs \<Longrightarrow> f x = g x) \<Longrightarrow> each_m f xs = each_m g xs"
  by (induction xs) simp_all

lemma when_m_simps [simp]: "when_m True m = m" "when_m False m = ret_m ()"
  by (simp_all add: when_m_def)

lemma emits_each [emits_rules]: "(\<And>x. x \<in> set xs \<Longrightarrow> emits E P (f x)) \<Longrightarrow> emits E P (each_m f xs)"
  by (induction xs) (simp_all add: emits_ret emits_then)

text \<open>A sequence of statements that succeeds has executed each of them, in order, and nothing else.\<close>

lemma execute_success:
  "execute c s E w = (Inr u, w') \<Longrightarrow> w' = w\<lparr>trace := trace w @ [Executed c s True]\<rparr>"
  by (auto simp: execute_def execute_as_def bind_m_def then_m_def asks_def sample_m_def tell_def throw_m_def
      split: option.splits prod.splits sum.splits)

lemma each_execute_success:
  "each_m (execute c) ss E w = (Inr u, w') \<Longrightarrow>
   trace w' = trace w @ map (\<lambda>s. Executed c s True) ss \<and> server_cache w' = server_cache w \<and> pools w' = pools w"
proof (induction ss arbitrary: w)
  case Nil
  then show ?case by (simp add: ret_m_def)
next
  case (Cons s ss)
  then show ?case
    by (auto simp: then_m_def bind_m_def split: prod.splits sum.splits dest!: execute_success)
qed

lemma execute_ok: "on_execute E (trace w) c s = None \<Longrightarrow> execute c s E w = (Inr (), w\<lparr>trace := trace w @ [Executed c s True]\<rparr>)"
  by (simp add: execute_def execute_as_def bind_m_def asks_def sample_m_def tell_def)

lemma each_execute_ok:
  "(\<And>h s. on_execute E h c s = None) \<Longrightarrow> \<exists>w'. each_m (execute c) ss E w = (Inr (), w')"
proof (induction ss arbitrary: w)
  case (Cons s ss)
  then show ?case by (simp add: then_m_def bind_m_def execute_ok)
qed (simp add: ret_m_def)

section \<open>A concrete environment\<close>

text \<open>A server with nothing on it that accepts every statement, for examples.\<close>

definition sample_env :: env where
  "sample_env = \<lparr>sha256_bytes = (\<lambda>b. replicate 64 CHR ''0''), sha256_digest = id, hmac_sha256 = (@),
     pbkdf2_sha256 = (\<lambda>p s n. p @ s), md5_hex = map char_of, render_sql = (\<lambda>s. ''sql''), set_order = remdups,
     clock = (\<lambda>h. ''2025-01-01T00:00:00Z''), monotonic = (\<lambda>h. 0), operator_namespace = ''pg-operator'',
     cert_dir = ''/tmp/pg-operator-ca'', file_exists = (\<lambda>h f. False), on_connect = (\<lambda>h c. None), on_attempt = (\<lambda>h c. Answered),
     on_execute = (\<lambda>h c s. None), says_bool = (\<lambda>h c q. Inr False), says_text = (\<lambda>h c q. Inr None),
     says_names = (\<lambda>h c q. Inr []), says_count = (\<lambda>h c q. Inr 0), says_role = (\<lambda>h c q. Inr None),
     says_database = (\<lambda>h c q. Inr None), says_settings = (\<lambda>h c q. Inr []), says_backends = (\<lambda>h c q. Inr []),
     says_schemas = (\<lambda>h c q. Inr []), says_extensions = (\<lambda>h c q. Inr []), says_grants = (\<lambda>h c q. Inr []),
     says_server = (\<lambda>h c q. Inr None), says_logical = (\<lambda>h c q. Inr None), says_subscription = (\<lambda>h c q. Inr None),
     says_pairs = (\<lambda>h c q. Inr []), says_slots = (\<lambda>h c q. Inr []), says_slot_health = (\<lambda>h c q. Inr None),
     says_worker = (\<lambda>h c q. Inr None), says_stats = (\<lambda>h c q. Inr []), says_publication = (\<lambda>h c q. Inr None),
     says_members = (\<lambda>h c q. Inr []), says_relations = (\<lambda>h c q. Inr []), says_columns = (\<lambda>h c q. Inr []),
     says_identity = (\<lambda>h c q. Inr []), says_oids = (\<lambda>h c q. Inr []), says_targets = (\<lambda>h c q. Inr []),
     says_target_identity = (\<lambda>h c q. Inr []), make_conninfo = (\<lambda>ps. concat (map snd ps)), micros = (\<lambda>h. 0),
     says_instance = (\<lambda>h n. Inl (Err (Api_Exception 404) [])),
     says_database_obj = (\<lambda>h ns n. Inl (Err (Api_Exception 404) [])), says_replications = (\<lambda>h. Inr []),
     says_secret = (\<lambda>h ns n. Inl (Err (Api_Exception 404) [])), 
     says_push_secret = (\<lambda>h gv ns n. Inl (Err (Api_Exception 404) [])), says_crd = (\<lambda>h n. Inl (Err (Api_Exception 404) [])),
     says_instance_refs = (\<lambda>h p. Inr []), random_choice = (\<lambda>h i. i), pushsecret_enabled = True,
     pushsecret_api_version = ''external-secrets.io/v1alpha1'', retry_backoff = 30, k8s_fails = (\<lambda>h r. None)\<rparr>"

definition empty_world :: world where
  "empty_world = \<lparr>trace = [], server_cache = [], pools = []\<rparr>"

definition sample_conn :: conn where
  "sample_conn = \<lparr>cn_instance = ''main'', cn_database = ''orders''\<rparr>"

lemma sample_env_accepts: "on_execute sample_env h c s = None"
  by (simp add: sample_env_def)

end
