(* ===== verification/Settings.thy ===== *)
theory Settings
  imports Prelude
begin

text \<open>
  \<open>postgres/settings.py\<close>: reading the \<open>name=value\<close> entries PostgreSQL keeps in
  \<open>pg_db_role_setting.setconfig\<close>, whose values it quotes when they would be ambiguous.
\<close>

definition dquote :: char where
  "dquote = char_of (34::nat)"

text \<open>\<open>s.replace(two quotes, one quote)\<close>\<close>

fun undouble :: "string \<Rightarrow> string" where
  "undouble [] = []"
| "undouble [c] = [c]"
| "undouble (c # d # s) =
     (if c = dquote \<and> d = dquote then dquote # undouble s else c # undouble (d # s))"

definition unquote_setting :: "string \<Rightarrow> string" where
  "unquote_setting value =
     (if 2 \<le> length value \<and> hd value = dquote \<and> last value = dquote
      then undouble (butlast (tl value)) else value)"

definition parse_entry :: "(string \<times> string) list \<Rightarrow> string \<Rightarrow> (string \<times> string) list" where
  "parse_entry settings entry =
     (case partition_at CHR ''='' entry of
        (name, None) \<Rightarrow> settings
      | (name, Some value) \<Rightarrow> dset settings (py_strip name) (unquote_setting value))"

definition parse_setconfig :: "string list \<Rightarrow> (string \<times> string) list" where
  "parse_setconfig entries = foldl parse_entry [] entries"

section \<open>Round trip\<close>

text \<open>The server's two stored forms of a value: as it is, or quoted with quotes doubled.\<close>

definition quoted :: "string \<Rightarrow> string" where
  "quoted v = dquote # concat (map (\<lambda>c. if c = dquote then [dquote, dquote] else [c]) v) @ [dquote]"

definition stored_form :: "string \<Rightarrow> string \<Rightarrow> bool" where
  "stored_form v s \<longleftrightarrow> s = quoted v \<or> (s = v \<and> dquote \<notin> set v)"

lemma undouble_Cons [simp]: "c \<noteq> dquote \<Longrightarrow> undouble (c # s) = c # undouble s"
  by (cases s) auto

lemma undouble_quoted: "undouble (concat (map (\<lambda>c. if c = dquote then [dquote, dquote] else [c]) v)) = v"
proof (induction v)
  case (Cons c v)
  then show ?case by simp
qed simp

lemma unquote_stored: "stored_form v s \<Longrightarrow> unquote_setting s = v"
  by (cases v) (auto simp: stored_form_def unquote_setting_def quoted_def butlast_append undouble_quoted [simplified])

lemma map_of_rev_distinct:
  assumes "distinct (map fst d)"
  shows "map_of (rev d) = map_of d"
proof
  fix k
  have "distinct (map fst (rev d))" using assms by (simp flip: rev_map)
  then have "map_of (rev d) k = Some v \<longleftrightarrow> map_of d k = Some v" for v
    using assms by (simp add: map_of_eq_Some_iff)
  then show "map_of (rev d) k = map_of d k" by (metis not_Some_eq)
qed

text \<open>
  Drift detection settles: the settings read back from the server's stored entries, quoted or not,
  are the settings that were written, whatever the values contain (names have no \<open>=\<close> and no blanks
  around them).
\<close>

theorem parse_setconfig_roundtrip:
  assumes "\<forall>(k, v) \<in> set d. CHR ''='' \<notin> set k \<and> py_strip k = k"
    and "distinct (map fst d)" "list_all2 (\<lambda>(k, v) e. \<exists>s. stored_form v s \<and> e = k @ ''='' @ s) d es"
  shows "map_of (parse_setconfig es) = map_of d"
proof -
  have step: "parse_entry acc e = dset acc k v"
    if "CHR ''='' \<notin> set k" "py_strip k = k" "\<exists>s. stored_form v s \<and> e = k @ ''='' @ s" for acc k v e
    using that by (auto simp: parse_entry_def partition_at_first unquote_stored)
  have "foldl parse_entry acc es = dupdate acc d" for acc
    using assms(3,1)
  proof (induction arbitrary: acc rule: list_all2_induct)
    case (Cons kv d e es)
    then show ?case using step by (auto simp: dupdate_def split: prod.splits)
  qed (simp add: dupdate_def)
  then show ?thesis
    using assms(2) by (simp add: parse_setconfig_def map_of_dupdate map_of_rev_distinct)
qed

theorem parse_setconfig_roundtrip_witness:
  "map_of (parse_setconfig [''work_mem=64MB'', ''search_path='' @ quoted ''a, b'']) =
     map_of [(''work_mem'', ''64MB''), (''search_path'', ''a, b'')]"
proof (rule parse_setconfig_roundtrip)
  have plain: "dquote \<notin> set ''64MB''" by code_simp
  have "py_strip ''work_mem'' = ''work_mem''" "py_strip ''search_path'' = ''search_path''" by code_simp+
  then show "\<forall>(k, v) \<in> set [(''work_mem'', ''64MB''), (''search_path'', ''a, b'')]. CHR ''='' \<notin> set k \<and> py_strip k = k"
    by simp
  show "list_all2 (\<lambda>(k, v) e. \<exists>s. stored_form v s \<and> e = k @ ''='' @ s)
      [(''work_mem'', ''64MB''), (''search_path'', ''a, b'')] [''work_mem=64MB'', ''search_path='' @ quoted ''a, b'']"
    using plain by (simp add: stored_form_def)
qed simp

end
