(* ===== verification/Parameters.thy ===== *)
theory Parameters
  imports Effects Settings
begin

text \<open>
  The contract of the two \<open>ALTER ... SET\<close> convergence passes (\<open>set_role_parameters\<close> and
  \<open>apply_database_parameters\<close>): the statements they plan, what a statement does to the stored settings, and,
  in the locale \<open>setting_statements\<close>, that a plan whose statements are all accepted turns the observed
  settings into the wanted ones, while a refused statement leaves its own key as it was and no other.
\<close>

definition wanted_changes :: "(string \<times> string) list \<Rightarrow> (string \<times> string) list \<Rightarrow> (string \<times> string) list" where
  "wanted_changes desired observed = filter (\<lambda>(k, v). map_of observed k \<noteq> Some v) desired"

definition settings_plan ::
  "(string \<Rightarrow> string \<Rightarrow> composed) \<Rightarrow> (string \<Rightarrow> composed) \<Rightarrow> (string \<times> string) list \<Rightarrow> (string \<times> string) list \<Rightarrow>
   string list \<Rightarrow> composed list" where
  "settings_plan set_st reset_st desired observed stale =
     map (\<lambda>(k, v). set_st k v) (wanted_changes desired observed) @ map reset_st stale"

text \<open>The settings after a sequence of statements, each with whether the server accepted it.\<close>

definition settings_after ::
  "(composed \<Rightarrow> (string \<times> string option) option) \<Rightarrow> (string \<rightharpoonup> string) \<Rightarrow> (composed \<times> bool) list \<Rightarrow> (string \<rightharpoonup> string)" where
  "settings_after effect m sts =
     foldl (\<lambda>m (s, ok). if ok then (case effect s of Some (k, v) \<Rightarrow> m(k := v) | None \<Rightarrow> m) else m) m sts"

fun executed_on :: "conn \<Rightarrow> event \<Rightarrow> (composed \<times> bool) list" where
  "executed_on c (Executed d s ok) = (if d = c then [(s, ok)] else [])"
| "executed_on c _ = []"

definition executions :: "conn \<Rightarrow> event list \<Rightarrow> (composed \<times> bool) list" where
  "executions c es = concat (map (executed_on c) es)"

lemma executions_simps [simp]: "executions c [] = []" "executions c (es @ fs) = executions c es @ executions c fs"
  "executions c (e # es) = executed_on c e @ executions c es"
  "executions c (map (\<lambda>(s, ok). Executed c s ok) sts) = sts"
  by (auto simp: executions_def) (induction sts; auto)

locale setting_statements =
  fixes set_st :: "string \<Rightarrow> string \<Rightarrow> composed"
    and reset_st :: "string \<Rightarrow> composed"
    and effect :: "composed \<Rightarrow> (string \<times> string option) option"
  assumes effect_set: "effect (set_st k v) = Some (k, Some v)"
    and effect_reset: "effect (reset_st k) = Some (k, None)"
begin

lemma plan_effects:
  "map effect (settings_plan set_st reset_st desired observed stale) =
     map Some (map (\<lambda>(k, v). (k, Some v)) (wanted_changes desired observed) @ map (\<lambda>k. (k, None)) stale)"
  by (auto simp: settings_plan_def effect_set effect_reset)

lemma after_untouched:
  assumes "\<forall>(s, ok) \<in> set sts. \<exists>k' v. effect s = Some (k', v) \<and> (k' = k \<longrightarrow> \<not> ok)"
  shows "settings_after effect m sts k = m k"
  using assms
proof (induction sts arbitrary: m)
  case (Cons x sts)
  obtain s ok where x: "x = (s, ok)" by (cases x)
  from Cons.prems x obtain k' v where "effect s = Some (k', v)" "k' = k \<longrightarrow> \<not> ok" by auto
  with Cons x show ?case by (auto simp: settings_after_def)
qed (simp add: settings_after_def)

lemma after_one:
  assumes "distinct (map (fst \<circ> the \<circ> effect \<circ> fst) sts)" "\<forall>(s, ok) \<in> set sts. effect s \<noteq> None"
    and "(s, True) \<in> set sts" "effect s = Some (k, v)"
  shows "settings_after effect m sts k = v"
  using assms
proof (induction sts arbitrary: m)
  case (Cons x sts)
  show ?case
  proof (cases "x = (s, True)")
    case True
    have "settings_after effect (m(k := v)) sts k = (m(k := v)) k"
    proof (rule after_untouched, clarify)
      fix s' ok assume "(s', ok) \<in> set sts"
      with Cons.prems True show "\<exists>k' w. effect s' = Some (k', w) \<and> (k' = k \<longrightarrow> \<not> ok)" by force
    qed
    with True Cons.prems(4) show ?thesis by (simp add: settings_after_def)
  next
    case False
    with Cons show ?thesis by (cases x) (auto simp: settings_after_def)
  qed
qed simp

lemma plan_result:
  assumes "distinct (map fst desired)" "distinct stale" "set stale = set (map fst observed) - set (map fst desired)"
    and "map fst sts = settings_plan set_st reset_st desired observed stale"
  shows "settings_after effect (map_of observed) sts k = map_of desired k \<or>
         (settings_after effect (map_of observed) sts k = map_of observed k \<and> (\<exists>s. (s, False) \<in> set sts))"
proof -
  let ?plan = "settings_plan set_st reset_st desired observed stale"
  have eff: "map (effect \<circ> fst) sts = map effect ?plan" using assms(4) by (metis map_map)
  have keys: "map (fst \<circ> the \<circ> effect \<circ> fst) sts = map fst (wanted_changes desired observed) @ stale"
  proof -
    have "map (fst \<circ> the \<circ> effect \<circ> fst) sts = map (fst \<circ> the) (map (effect \<circ> fst) sts)" by simp
    then show ?thesis unfolding eff plan_effects by (simp add: case_prod_beta o_def)
  qed
  have sub: "set (map fst (wanted_changes desired observed)) \<subseteq> set (map fst desired)"
    by (auto simp: wanted_changes_def)
  have dist: "distinct (map (fst \<circ> the \<circ> effect \<circ> fst) sts)"
    unfolding keys using assms(1-3) sub by (auto simp: wanted_changes_def distinct_map_filter)
  have some: "\<forall>(s, ok) \<in> set sts. effect s \<noteq> None"
  proof -
    have "effect s \<noteq> None" if "(s, ok) \<in> set sts" for s ok
    proof -
      have "effect s \<in> set (map (effect \<circ> fst) sts)" using that by force
      then show ?thesis unfolding eff plan_effects by auto
    qed
    then show ?thesis by auto
  qed
  have un: "settings_after effect (map_of observed) sts k = map_of observed k"
    if "\<forall>(s, ok) \<in> set sts. \<forall>v. effect s = Some (k, v) \<longrightarrow> \<not> ok"
    by (rule after_untouched) (use that some in fastforce)
  show ?thesis
  proof (cases "k \<in> set (map fst (wanted_changes desired observed) @ stale)")
    case False
    have "map_of desired k = map_of observed k"
    proof (cases "map_of desired k")
      case None
      then have "k \<notin> set (map fst observed)" using False assms(3) by (auto simp: map_of_eq_None_iff)
      with None show ?thesis by (metis map_of_eq_None_iff set_map)
    next
      case (Some v)
      then have "(k, v) \<in> set desired" by (rule map_of_SomeD)
      with False have "map_of observed k = Some v" by (force simp: wanted_changes_def)
      with Some show ?thesis by simp
    qed
    moreover have "settings_after effect (map_of observed) sts k = map_of observed k"
      by (rule un) (use False in \<open>force simp flip: keys\<close>)
    ultimately show ?thesis by simp
  next
    case True
    then obtain s ok v where s: "(s, ok) \<in> set sts" "effect s = Some (k, v)"
      using some by (fastforce simp flip: keys)
    have v: "v = map_of desired k"
    proof -
      have "effect s \<in> set (map (effect \<circ> fst) sts)" using s(1) by force
      then have "(k, v) \<in> set (map (\<lambda>(k, v). (k, Some v)) (wanted_changes desired observed) @ map (\<lambda>k. (k, None)) stale)"
        unfolding eff plan_effects s(2) by auto
      then have "map_of desired k = v"
        using assms(1,3) by (auto simp: wanted_changes_def map_of_eq_None_iff)
      then show ?thesis by simp
    qed
    show ?thesis
    proof (cases ok)
      case True
      with s have "(s, True) \<in> set sts" by simp
      from after_one [OF dist some this s(2)] v show ?thesis by simp
    next
      case False
      have "settings_after effect (map_of observed) sts k = map_of observed k"
      proof (rule un)
        have "\<not> ok'" if "(s', ok') \<in> set sts" "effect s' = Some (k, v')" for s' ok' v'
        proof -
          have "inj_on (fst \<circ> the \<circ> effect \<circ> fst) (set sts)" using dist by (simp add: distinct_map)
          then have "(s', ok') = (s, ok)"
            using s that by (auto dest: inj_onD [where x = "(s', ok')" and y = "(s, ok)"])
          with False show ?thesis by simp
        qed
        then show "\<forall>(s, ok) \<in> set sts. \<forall>v. effect s = Some (k, v) \<longrightarrow> \<not> ok" by auto
      qed
      moreover have "(s, False) \<in> set sts" using False s by simp
      ultimately show ?thesis by blast
    qed
  qed
qed

end

section \<open>Reading the statements back\<close>

fun parameter_effect :: "string \<Rightarrow> string \<Rightarrow> composed \<Rightarrow> (string \<times> string option) option" where
  "parameter_effect set_text reset_text (Format t cs) =
     (case cs of
        [Ident [n], Ident [k], Lit (L_Str v)] \<Rightarrow> (if t = set_text then Some (k, Some v) else None)
      | [Ident [n], Ident [k]] \<Rightarrow> (if t = reset_text then Some (k, None) else None)
      | _ \<Rightarrow> None)"
| "parameter_effect set_text reset_text _ = None"

text \<open>Iterating a set visits each of its elements once.\<close>

definition orders_sets :: "env \<Rightarrow> bool" where
  "orders_sets E \<longleftrightarrow> (\<forall>xs. set (set_order E xs) = set xs \<and> distinct (set_order E xs))"

lemma sample_env_orders_sets: "orders_sets sample_env"
  by (simp add: orders_sets_def sample_env_def)

text \<open>\<open>observed.keys() - desired.keys()\<close>, in the order the set is iterated.\<close>

definition stale_keys :: "env \<Rightarrow> (string \<times> string) list \<Rightarrow> (string \<times> string) list \<Rightarrow> string list" where
  "stale_keys E observed desired = set_order E (filter (\<lambda>k. k \<notin> set (dkeys desired)) (dkeys observed))"

lemma stale_keys_set:
  "orders_sets E \<Longrightarrow> set (stale_keys E observed desired) = set (map fst observed) - set (map fst desired)"
  "orders_sets E \<Longrightarrow> distinct (stale_keys E observed desired)"
  by (auto simp: orders_sets_def stale_keys_def dkeys_def)

lemma wanted_changes_same:
  "distinct (map fst desired) \<Longrightarrow> map_of observed = map_of desired \<Longrightarrow> wanted_changes desired observed = []"
  by (auto simp: wanted_changes_def filter_empty_conv)

lemma stale_keys_same:
  "orders_sets E \<Longrightarrow> map_of observed = map_of desired \<Longrightarrow> stale_keys E observed desired = []"
  using stale_keys_set(1) [of E observed desired] by (metis Diff_cancel dom_map_of_conv_image_fst list.set_map set_empty)

lemma executions_map [simp]: "executions c (map (\<lambda>s. Executed c s True) ss) = map (\<lambda>s. (s, True)) ss"
  by (induction ss) (simp_all add: executions_def)

end
