(* ===== verification/PgDatabase.thy ===== *)
theory PgDatabase
  imports Parameters
begin

text \<open>
  \<open>postgres/database.py\<close> and \<open>postgres/server.py\<close>: creating, converging and dropping a database, its
  schemas and extensions, and what a server's version allows. The lemmas show which statements each
  operation may send and how refused ones are reported.
\<close>

section \<open>The server\<close>

definition major_version :: "server_info \<Rightarrow> int" where
  "major_version s = sv_version_num s div 10000"

definition version_text :: "server_info \<Rightarrow> string" where
  "version_text s = show_int (sv_version_num s div 10000) @ ''.'' @ show_int (sv_version_num s mod 10000)"

definition supports_drop_database_force :: "server_info \<Rightarrow> bool" where
  "supports_drop_database_force s \<longleftrightarrow> 13 \<le> major_version s"

definition public_schema_is_locked_down :: "server_info \<Rightarrow> bool" where
  "public_schema_is_locked_down s \<longleftrightarrow> 15 \<le> major_version s"

definition supports_per_grant_options :: "server_info \<Rightarrow> bool" where
  "supports_per_grant_options s \<longleftrightarrow> 16 \<le> major_version s"

definition describe_privileges :: "server_info \<Rightarrow> string" where
  "describe_privileges s =
     (let held = map fst (filter snd [(''SUPERUSER'', sv_is_superuser s), (''CREATEDB'', sv_can_create_db s),
            (''CREATEROLE'', sv_can_create_role s), (''rds_superuser'', sv_is_rds_superuser s)])
      in if held \<noteq> [] then join_with '', '' held else ''none'')"

definition describe_server :: "conn \<Rightarrow> server_info m" where
  "describe_server c =
     bind_m (fetch says_bool c Q_Has_Rds_Role) (\<lambda>has_rds_role.
     bind_m (fetch says_server c (Q_Server_Info has_rds_role)) (\<lambda>row.
       case row of
         None \<Rightarrow> raise_m (Other_Exception ''RuntimeError'') ''could not resolve current_user in pg_roles''
       | Some info \<Rightarrow> ret_m info))"

section \<open>The database\<close>

definition get_database :: "conn \<Rightarrow> string \<Rightarrow> database_state option m" where
  "get_database c name = fetch says_database c (Q_Database name)"

definition create_database_statement ::
  "string \<Rightarrow> string \<Rightarrow> string \<Rightarrow> string \<Rightarrow> string option \<Rightarrow> string option \<Rightarrow> int \<Rightarrow> composed" where
  "create_database_statement name owner encoding template lc_collate lc_ctype limit =
     (let options = [Format ''OWNER = {}'' [ident owner], Format ''ENCODING = {}'' [literal encoding],
                     Format ''TEMPLATE = {}'' [ident template], Format ''CONNECTION LIMIT = {}'' [Lit (L_Int limit)]] @
            (if given lc_collate then [Format ''LC_COLLATE = {}'' [literal (the lc_collate)]] else []) @
            (if given lc_ctype then [Format ''LC_CTYPE = {}'' [literal (the lc_ctype)]] else [])
      in Format ''CREATE DATABASE {} WITH {}'' [ident name, Join '' '' options])"

definition create_database ::
  "conn \<Rightarrow> string \<Rightarrow> string \<Rightarrow> string \<Rightarrow> string \<Rightarrow> string option \<Rightarrow> string option \<Rightarrow> int \<Rightarrow> unit m" where
  "create_database c name owner encoding template lc_collate lc_ctype limit =
     execute c (create_database_statement name owner encoding template lc_collate lc_ctype limit)"

definition set_database_owner :: "conn \<Rightarrow> string \<Rightarrow> string \<Rightarrow> unit m" where
  "set_database_owner c name owner = execute c (Format ''ALTER DATABASE {} OWNER TO {}'' [ident name, ident owner])"

definition set_database_connection_limit :: "conn \<Rightarrow> string \<Rightarrow> int \<Rightarrow> unit m" where
  "set_database_connection_limit c name limit =
     execute c (Format ''ALTER DATABASE {} WITH CONNECTION LIMIT {}'' [ident name, Lit (L_Int limit)])"

text \<open>\<open>literal(comment) if comment else sql.SQL("NULL")\<close>\<close>

definition comment_value :: "string \<Rightarrow> composed" where
  "comment_value comment = (if comment \<noteq> [] then literal comment else SQL ''NULL'')"

definition comment_on_database :: "conn \<Rightarrow> string \<Rightarrow> string \<Rightarrow> unit m" where
  "comment_on_database c name comment =
     execute c (Format ''COMMENT ON DATABASE {} IS {}'' [ident name, comment_value comment])"

definition get_database_parameters :: "conn \<Rightarrow> string \<Rightarrow> (string \<times> string) list m" where
  "get_database_parameters c name =
     bind_m (fetch says_settings c (Q_Database_Settings name)) (\<lambda>rows.
       ret_m (foldl (\<lambda>settings config. dupdate settings (parse_setconfig config)) [] rows))"

record parameter_outcome =
  po_changes :: "string list"
  po_denied :: "string list"

definition set_database_statement :: "string \<Rightarrow> string \<Rightarrow> string \<Rightarrow> composed" where
  "set_database_statement name key value =
     Format ''ALTER DATABASE {} SET {} TO {}'' [ident name, ident key, literal value]"

definition reset_database_statement :: "string \<Rightarrow> string \<Rightarrow> composed" where
  "reset_database_statement name key = Format ''ALTER DATABASE {} RESET {}'' [ident name, ident key]"

text \<open>\<open>try: execute ... except InsufficientPrivilege: denied.append(...); continue\<close>, then \<open>changes.append\<close>.\<close>

definition try_parameter :: "conn \<Rightarrow> composed \<Rightarrow> string \<Rightarrow> string \<Rightarrow> parameter_outcome \<Rightarrow> parameter_outcome m" where
  "try_parameter c statement change denial outcome =
     catch_m InsufficientPrivilege
       (then_m (execute c statement) (ret_m (outcome\<lparr>po_changes := po_changes outcome @ [change]\<rparr>)))
       (\<lambda>_. ret_m (outcome\<lparr>po_denied := po_denied outcome @ [denial]\<rparr>))"

definition apply_database_parameters ::
  "conn \<Rightarrow> string \<Rightarrow> (string \<times> string) list \<Rightarrow> (string \<times> string) list \<Rightarrow> parameter_outcome m" where
  "apply_database_parameters c name desired observed =
     bind_m (fold_m (\<lambda>outcome (key, value).
         if map_of observed key = Some value then ret_m outcome
         else try_parameter c (set_database_statement name key value) (''set '' @ key @ ''='' @ value)
                (''parameter '' @ key @ '' could not be set: the managing role may not change it ('' @ key @
                 '' is superuser-only on a stock server; on RDS it requires the rds_superuser grant)'') outcome)
       \<lparr>po_changes = [], po_denied = []\<rparr> desired) (\<lambda>outcome.
     bind_m (asks (\<lambda>E. stale_keys E observed desired)) (\<lambda>stale.
     fold_m (\<lambda>outcome key.
         try_parameter c (reset_database_statement name key) (''reset '' @ key)
           (''parameter '' @ key @ '' could not be reset: the managing role may not change it'') outcome)
       outcome stale))"

definition connection_roles :: "conn \<Rightarrow> string \<Rightarrow> string list m" where
  "connection_roles c name = bind_m (fetch says_names c (Q_Connection_Roles name)) (\<lambda>rows. ret_m (sort rows))"

text \<open>A backend that cannot be signalled is reported by its role, unless it is gone.\<close>

definition terminate_connections :: "conn \<Rightarrow> string \<Rightarrow> (nat \<times> string list) m" where
  "terminate_connections c name =
     bind_m (fetch says_backends c (Q_Database_Backends name)) (\<lambda>backends.
     bind_m (fold_m (\<lambda>(terminated, unsignalled) (pid, usename).
         catch_m ReconcileFailure
           (then_m (fetch says_bool c (Q_Terminate pid)) (ret_m (terminated + 1, unsignalled)))
           (\<lambda>e. ret_m (terminated, if contains_text ''does not exist'' (err_text e) then unsignalled
                                   else usename # unsignalled)))
       (0, []) backends) (\<lambda>(terminated, unsignalled). ret_m (terminated, sorted_set unsignalled)))"

definition allow_connections_statement :: "string \<Rightarrow> bool \<Rightarrow> composed" where
  "allow_connections_statement name allow =
     Format ''ALTER DATABASE {} WITH ALLOW_CONNECTIONS {}'' [ident name, SQL (if allow then ''true'' else ''false'')]"

definition set_allow_connections :: "conn \<Rightarrow> string \<Rightarrow> bool \<Rightarrow> unit m" where
  "set_allow_connections c name allow = execute c (allow_connections_statement name allow)"

definition drop_database_statement :: "string \<Rightarrow> bool \<Rightarrow> composed" where
  "drop_database_statement name force =
     (let statement = Format ''DROP DATABASE IF EXISTS {}'' [ident name]
      in if force then Format ''{} WITH (FORCE)'' [statement] else statement)"

definition drop_database :: "conn \<Rightarrow> string \<Rightarrow> bool \<Rightarrow> unit m" where
  "drop_database c name force = execute c (drop_database_statement name force)"

definition revoke_public_database_privileges :: "conn \<Rightarrow> string \<Rightarrow> unit m" where
  "revoke_public_database_privileges c name = execute c (Format ''REVOKE ALL ON DATABASE {} FROM PUBLIC'' [ident name])"

definition grant_database_connect :: "conn \<Rightarrow> string \<Rightarrow> string list \<Rightarrow> bool \<Rightarrow> unit m" where
  "grant_database_connect c name roles with_temp =
     execute c (Format ''GRANT {} ON DATABASE {} TO {}''
       [SQL (if with_temp then ''CONNECT, TEMPORARY'' else ''CONNECT''), ident name, idents roles])"

section \<open>Schemas\<close>

definition list_schemas :: "conn \<Rightarrow> schema_state list m" where
  "list_schemas c = fetch says_schemas c Q_Schemas"

datatype schema_outcome = CREATED | OWNER_CHANGED | UNCHANGED | OWNER_DENIED

definition ensure_schema :: "conn \<Rightarrow> string \<Rightarrow> string \<Rightarrow> schema_outcome m" where
  "ensure_schema c name owner =
     bind_m (fetch says_text c (Q_Schema_Owner name)) (\<lambda>existing. case existing of
       None \<Rightarrow> then_m (execute c (Format ''CREATE SCHEMA {} AUTHORIZATION {}'' [ident name, ident owner])) (ret_m CREATED)
     | Some current_owner \<Rightarrow>
         if current_owner = owner \<or> current_owner = ''pg_database_owner'' then ret_m UNCHANGED
         else catch_m InsufficientPrivilege
                (then_m (execute c (Format ''ALTER SCHEMA {} OWNER TO {}'' [ident name, ident owner])) (ret_m OWNER_CHANGED))
                (\<lambda>_. ret_m OWNER_DENIED))"

definition comment_on_schema :: "conn \<Rightarrow> string \<Rightarrow> string \<Rightarrow> unit m" where
  "comment_on_schema c name comment =
     execute c (Format ''COMMENT ON SCHEMA {} IS {}'' [ident name, comment_value comment])"

definition drop_schema_statement :: "string \<Rightarrow> bool \<Rightarrow> composed" where
  "drop_schema_statement name cascade =
     Format ''{} {}'' [Format ''DROP SCHEMA IF EXISTS {}'' [ident name], SQL (if cascade then ''CASCADE'' else ''RESTRICT'')]"

definition drop_schema :: "conn \<Rightarrow> string \<Rightarrow> bool \<Rightarrow> unit m" where
  "drop_schema c name cascade = execute c (drop_schema_statement name cascade)"

definition schema_is_empty :: "conn \<Rightarrow> string \<Rightarrow> bool m" where
  "schema_is_empty c name = bind_m (fetch says_count c (Q_Schema_Relations name)) (\<lambda>n. ret_m (n = 0))"

section \<open>Extensions\<close>

definition list_extensions :: "conn \<Rightarrow> extension_state list m" where
  "list_extensions c = fetch says_extensions c Q_Extensions"

definition available_extensions :: "conn \<Rightarrow> string list m" where
  "available_extensions c = fetch says_names c Q_Available_Extensions"

definition create_extension_statement :: "string \<Rightarrow> string option \<Rightarrow> string option \<Rightarrow> bool \<Rightarrow> composed" where
  "create_extension_statement name schema version cascade =
     (let options = (if given schema then [Format ''SCHEMA {}'' [ident (the schema)]] else []) @
            (if given version then [Format ''VERSION {}'' [literal (the version)]] else []) @
            (if cascade then [SQL ''CASCADE''] else []);
          statement = Format ''CREATE EXTENSION IF NOT EXISTS {}'' [ident name]
      in if options \<noteq> [] then Format ''{} WITH {}'' [statement, Join '' '' options] else statement)"

definition create_extension :: "conn \<Rightarrow> string \<Rightarrow> string option \<Rightarrow> string option \<Rightarrow> bool \<Rightarrow> unit m" where
  "create_extension c name schema version cascade = execute c (create_extension_statement name schema version cascade)"

definition update_extension :: "conn \<Rightarrow> string \<Rightarrow> string option \<Rightarrow> unit m" where
  "update_extension c name version =
     (let statement = Format ''ALTER EXTENSION {} UPDATE'' [ident name]
      in execute c (if given version then Format ''{} TO {}'' [statement, literal (the version)] else statement))"

definition drop_extension_statement :: "string \<Rightarrow> bool \<Rightarrow> composed" where
  "drop_extension_statement name cascade =
     (let statement = Format ''DROP EXTENSION IF EXISTS {}'' [ident name]
      in if cascade then Format ''{} CASCADE'' [statement] else statement)"

definition drop_extension :: "conn \<Rightarrow> string \<Rightarrow> bool \<Rightarrow> unit m" where
  "drop_extension c name cascade = execute c (drop_extension_statement name cascade)"

record database_observation =
  ob_schemas :: "schema_state list"
  ob_extensions :: "extension_state list"
  ob_parameters :: "(string \<times> string) list"

definition observe :: "conn \<Rightarrow> string \<Rightarrow> database_observation m" where
  "observe c name =
     bind_m (list_schemas c) (\<lambda>schemas.
     bind_m (list_extensions c) (\<lambda>extensions.
     bind_m (get_database_parameters c name) (\<lambda>parameters.
       ret_m \<lparr>ob_schemas = schemas, ob_extensions = extensions, ob_parameters = parameters\<rparr>)))"

section \<open>Parameters converge\<close>

interpretation database_settings: setting_statements "set_database_statement name" "reset_database_statement name"
    "parameter_effect ''ALTER DATABASE {} SET {} TO {}'' ''ALTER DATABASE {} RESET {}''" for name
  by unfold_locales (simp_all add: set_database_statement_def reset_database_statement_def ident_def literal_def)

lemma execute_cases:
  "execute c s E w = (r, w') \<Longrightarrow> trace w' = trace w @ [Executed c s (is_ok r)]"
  by (auto simp: execute_def execute_as_def run_simps split: option.splits)

lemma try_parameter_run:
  assumes "try_parameter c st change denial out E w = (Inr out', w')"
  shows "\<exists>ok. trace w' = trace w @ [Executed c st ok] \<and> (po_denied out' = [] \<longleftrightarrow> po_denied out = [] \<and> ok)"
proof -
  obtain r u where u: "execute c st E w = (r, u)" by (cases "execute c st E w")
  show ?thesis
  proof (cases r)
    case (Inl e)
    with assms u have "w' = u" "out' = out\<lparr>po_denied := po_denied out @ [denial]\<rparr>"
      by (simp_all add: try_parameter_def run_simps split: if_splits)
    then show ?thesis using execute_cases [OF u] Inl by simp blast
  next
    case (Inr x)
    with assms u have "w' = u" "out' = out\<lparr>po_changes := po_changes out @ [change]\<rparr>"
      by (simp_all add: try_parameter_def run_simps)
    then show ?thesis using execute_cases [OF u] Inr by simp blast
  qed
qed

lemma try_fold_run:
  assumes "fold_m (\<lambda>out x. if skip x then ret_m out else try_parameter c (st x) (ch x) (de x) out) out xs E w = (Inr out', w')"
  shows "\<exists>sts. trace w' = trace w @ map (\<lambda>(s, ok). Executed c s ok) sts \<and> map fst sts = map st (filter (\<lambda>x. \<not> skip x) xs) \<and>
    (po_denied out' = [] \<longleftrightarrow> po_denied out = [] \<and> (\<forall>(s, ok) \<in> set sts. ok))"
  using assms
proof (induction xs arbitrary: out w)
  case Nil
  then show ?case by (intro exI [of _ "[]"]) (simp add: run_simps)
next
  case (Cons x xs)
  show ?case
  proof (cases "skip x")
    case True
    with Cons show ?thesis by (auto simp: run_simps)
  next
    case False
    with Cons.prems obtain out1 w1 where 1: "try_parameter c (st x) (ch x) (de x) out E w = (Inr out1, w1)"
      and 2: "fold_m (\<lambda>out x. if skip x then ret_m out else try_parameter c (st x) (ch x) (de x) out) out1 xs E w1 = (Inr out', w')"
      by (auto simp: run_simps split: prod.splits sum.splits)
    from try_parameter_run [OF 1] obtain ok where ok: "trace w1 = trace w @ [Executed c (st x) ok]"
      "po_denied out1 = [] \<longleftrightarrow> po_denied out = [] \<and> ok" by blast
    from Cons.IH [OF 2] obtain sts where "trace w' = trace w1 @ map (\<lambda>(s, ok). Executed c s ok) sts"
      "map fst sts = map st (filter (\<lambda>x. \<not> skip x) xs)"
      "po_denied out' = [] \<longleftrightarrow> po_denied out1 = [] \<and> (\<forall>(s, ok) \<in> set sts. ok)" by blast
    with ok False show ?thesis by (intro exI [of _ "(st x, ok) # sts"]) auto
  qed
qed

lemma apply_database_parameters_run:
  assumes "apply_database_parameters c name desired observed E w = (Inr outcome, w')"
  shows "\<exists>sts. trace w' = trace w @ map (\<lambda>(s, ok). Executed c s ok) sts \<and>
    map fst sts = settings_plan (set_database_statement name) (reset_database_statement name) desired observed
      (stale_keys E observed desired) \<and>
    (po_denied outcome = [] \<longleftrightarrow> (\<forall>(s, ok) \<in> set sts. ok))"
proof -
  let ?de = "\<lambda>key. ''parameter '' @ key @ '' could not be set: the managing role may not change it ('' @ key @
     '' is superuser-only on a stock server; on RDS it requires the rds_superuser grant)''"
  let ?de' = "\<lambda>key. ''parameter '' @ key @ '' could not be reset: the managing role may not change it''"
  let ?out = "\<lparr>po_changes = [], po_denied = []\<rparr>"
  have pairs: "(\<lambda>out (key, value). if map_of observed key = Some value then ret_m out
        else try_parameter c (set_database_statement name key value) (''set '' @ key @ ''='' @ value) (?de key) out) =
     (\<lambda>out x. if map_of observed (fst x) = Some (snd x) then ret_m out
        else try_parameter c (set_database_statement name (fst x) (snd x)) (''set '' @ fst x @ ''='' @ snd x) (?de (fst x)) out)"
    by (auto simp: fun_eq_iff)
  obtain out1 w1 where 1: "fold_m (\<lambda>out x. if map_of observed (fst x) = Some (snd x) then ret_m out
        else try_parameter c (set_database_statement name (fst x) (snd x)) (''set '' @ fst x @ ''='' @ snd x) (?de (fst x)) out)
        ?out desired E w = (Inr out1, w1)"
    and 2: "fold_m (\<lambda>out key. if False then ret_m out else try_parameter c (reset_database_statement name key) (''reset '' @ key) (?de' key) out)
        out1 (stale_keys E observed desired) E w1 = (Inr outcome, w')"
    using assms unfolding apply_database_parameters_def pairs
    by (auto simp: bind_run basic_run split: prod.splits sum.splits)
  from try_fold_run [OF 1] obtain sts1 where s1: "trace w1 = trace w @ map (\<lambda>(s, ok). Executed c s ok) sts1"
    "map fst sts1 = map (\<lambda>x. set_database_statement name (fst x) (snd x)) (filter (\<lambda>x. map_of observed (fst x) \<noteq> Some (snd x)) desired)"
    "po_denied out1 = [] \<longleftrightarrow> (\<forall>(s, ok) \<in> set sts1. ok)" by auto
  from try_fold_run [OF 2] obtain sts2 where s2: "trace w' = trace w1 @ map (\<lambda>(s, ok). Executed c s ok) sts2"
    "map fst sts2 = map (reset_database_statement name) (stale_keys E observed desired)"
    "po_denied outcome = [] \<longleftrightarrow> po_denied out1 = [] \<and> (\<forall>(s, ok) \<in> set sts2. ok)" by auto
  have plan: "settings_plan (set_database_statement name) (reset_database_statement name) desired observed
      (stale_keys E observed desired) = map fst (sts1 @ sts2)"
    by (simp add: settings_plan_def wanted_changes_def s1(2) s2(2) case_prod_beta')
  show ?thesis
    unfolding plan using s1(1,3) s2(1,3) by (intro exI [of _ "sts1 @ sts2"]) auto
qed

text \<open>
  Database parameters converge as far as the server allows: after a pass that returns, every
  parameter has its declared value (undeclared ones are reset), or it kept its observed value and the
  outcome lists a denial. So with no denial reported the parameters are exactly the declared ones.
\<close>

theorem database_parameters_converge:
  assumes "apply_database_parameters c name desired observed E w = (Inr outcome, w')"
    and "distinct (map fst desired)" "orders_sets E"
  shows "\<exists>es. trace w' = trace w @ es \<and>
    (\<forall>k. settings_after (parameter_effect ''ALTER DATABASE {} SET {} TO {}'' ''ALTER DATABASE {} RESET {}'')
            (map_of observed) (executions c es) k = map_of desired k \<or>
         (settings_after (parameter_effect ''ALTER DATABASE {} SET {} TO {}'' ''ALTER DATABASE {} RESET {}'')
            (map_of observed) (executions c es) k = map_of observed k \<and> po_denied outcome \<noteq> []))"
proof -
  from apply_database_parameters_run [OF assms(1)] obtain sts where s:
    "trace w' = trace w @ map (\<lambda>(s, ok). Executed c s ok) sts"
    "map fst sts = settings_plan (set_database_statement name) (reset_database_statement name) desired observed (stale_keys E observed desired)"
    "po_denied outcome = [] \<longleftrightarrow> (\<forall>(s, ok) \<in> set sts. ok)" by blast
  from database_settings.plan_result [OF assms(2) stale_keys_set(2,1) [OF assms(3)] s(2)] s(1,3) show ?thesis
    by (intro exI [of _ "map (\<lambda>(s, ok). Executed c s ok) sts"]) (simp only: executions_simps, fastforce)
qed

theorem database_parameters_converge_witness:
  "\<exists>es. settings_after (parameter_effect ''ALTER DATABASE {} SET {} TO {}'' ''ALTER DATABASE {} RESET {}'')
       (map_of [(''work_mem'', ''4MB''), (''jit'', ''off'')]) (executions sample_conn es) = map_of [(''work_mem'', ''64MB'')]"
proof -
  obtain outcome w' where w: "apply_database_parameters sample_conn ''orders'' [(''work_mem'', ''64MB'')]
      [(''work_mem'', ''4MB''), (''jit'', ''off'')] sample_env empty_world = (Inr outcome, w')" and d: "po_denied outcome = []"
    by (simp add: apply_database_parameters_def try_parameter_def run_simps execute_ok sample_env_accepts stale_keys_def dkeys_def)
      (simp add: sample_env_def run_simps execute_ok)
  show ?thesis
    using database_parameters_converge [OF w _ sample_env_orders_sets] d
    by (simp del: map_of.simps) (meson ext)
qed

end
