(* ===== verification/Connection.thy ===== *)
theory Connection
  imports PgDatabase
begin

text \<open>
  \<open>postgres/connection.py\<close> and the reading side of \<open>k8s/secrets.py\<close>, \<open>k8s/client.py\<close> and
  \<open>k8s/resources.py\<close>: endpoints and their fingerprints, the pool registry (the \<open>pools\<close> of a world map an
  instance and database to the fingerprint its pool was opened with), Secrets and instances.
\<close>

section \<open>Endpoints\<close>

record endpoint =
  ep_instance :: string
  ep_host :: string
  ep_port :: int
  ep_username :: string
  ep_password :: string
  ep_maintenance_database :: string
  ep_ssl_mode :: ssl_mode
  ep_ssl_root_cert :: "string option"
  ep_connect_timeout :: int

definition fingerprint_of :: "env \<Rightarrow> endpoint \<Rightarrow> string" where
  "fingerprint_of E ep = sha_of E (join_with ''|''
     [ep_host ep, show_int (ep_port ep), ep_username ep, ep_password ep, ssl_text (ep_ssl_mode ep),
      or_text (ep_ssl_root_cert ep) [], show_int (ep_connect_timeout ep)])"

text \<open>The parameters given to \<open>make_conninfo\<close>.\<close>

definition conninfo :: "endpoint \<Rightarrow> string \<Rightarrow> int \<Rightarrow> string \<Rightarrow> (string \<times> string) list" where
  "conninfo ep dbname statement_timeout_ms app_name =
     (let params =
        [(''host'', ep_host ep), (''port'', show_int (ep_port ep)), (''dbname'', dbname), (''user'', ep_username ep),
         (''password'', ep_password ep), (''sslmode'', ssl_text (ep_ssl_mode ep)),
         (''connect_timeout'', show_int (ep_connect_timeout ep)), (''application_name'', app_name),
         (''options'', ''-c statement_timeout='' @ show_int statement_timeout_ms @ '' -c lock_timeout=10000'')]
      in if given (ep_ssl_root_cert ep) then dset params ''sslrootcert'' (the (ep_ssl_root_cert ep)) else params)"

text \<open>The bundle is written once: its name carries the hash of its content.\<close>

definition materialise_ca_bundle :: "string \<Rightarrow> nat list \<Rightarrow> string m" where
  "materialise_ca_bundle inst pem =
     bind_m (asks (\<lambda>E. cert_dir E @ ''/'' @ inst @ ''-'' @ take 16 (sha256_bytes E pem) @ ''.pem'')) (\<lambda>path.
     bind_m (sample_m (\<lambda>E h. file_exists E h path)) (\<lambda>present.
     then_m (when_m (\<not> present) (tell (Wrote_File path))) (ret_m path)))"

section \<open>Pools\<close>

definition pool_for :: "endpoint \<Rightarrow> string \<Rightarrow> unit m" where
  "pool_for ep dbname =
     bind_m (asks (\<lambda>E. fingerprint_of E ep)) (\<lambda>fp.
     bind_m (gets pools) (\<lambda>ps.
     let key = (ep_instance ep, dbname);
         open_pool = then_m (tell (Opened_Pool (ep_instance ep) dbname))
           (bind_m (gets pools) (\<lambda>ps. set_pools (dset ps key fp)))
     in case map_of ps key of
          Some cached \<Rightarrow>
            if cached = fp then ret_m ()
            else then_m (set_pools (ddel ps key)) (then_m (tell (Closed_Pool (ep_instance ep) dbname)) open_pool)
        | None \<Rightarrow> open_pool))"

text \<open>\<open>PoolRegistry._diagnose\<close>: one direct attempt, whose error says what the time-out of the pool does not.\<close>

definition diagnose :: "endpoint \<Rightarrow> string \<Rightarrow> string option m" where
  "diagnose ep dbname =
     (let c = \<lparr>cn_instance = ep_instance ep, cn_database = dbname\<rparr>
      in bind_m (sample_m (\<lambda>E h. on_attempt E h c)) (\<lambda>attempt.
         then_m (tell (Connected c (attempt = Answered)))
         (ret_m (case attempt of
             Refused_Directly nm text \<Rightarrow> Some (terse nm text)
           | Failed_Otherwise \<Rightarrow> None
           | Answered \<Rightarrow> None))))"

lemma emits_diagnose [emits_rules]:
  "(\<And>ok. P (Connected \<lparr>cn_instance = ep_instance ep, cn_database = d\<rparr> ok)) \<Longrightarrow> emits E P (diagnose ep d)"
  unfolding diagnose_def Let_def by (intro emits_rules)

definition connection :: "endpoint \<Rightarrow> string option \<Rightarrow> conn m" where
  "connection ep dbname =
     (let target = or_text dbname (ep_maintenance_database ep);
          c = \<lparr>cn_instance = ep_instance ep, cn_database = target\<rparr>
      in then_m (pool_for ep target)
        (bind_m (sample_m (\<lambda>E h. on_connect E h c)) (\<lambda>failure.
         then_m (tell (Connected c (failure = None)))
         (let cannot = (\<lambda>detail. raise_m ConnectionFailure (''cannot connect to '' @ ep_host ep @ '':'' @
                show_int (ep_port ep) @ ''/'' @ target @ '' as '' @ ep_username ep @ '': '' @ detail))
          in case failure of
               None \<Rightarrow> ret_m c
             | Some (Pool_Timeout nm text) \<Rightarrow>
                 bind_m (diagnose ep target) (\<lambda>diagnosis. cannot (or_text diagnosis (terse nm text)))
             | Some (Refused nm text) \<Rightarrow> cannot (terse nm text)
             | Some (Broken e) \<Rightarrow> throw_m e))))"

definition close_database :: "string \<Rightarrow> string \<Rightarrow> unit m" where
  "close_database inst dbname =
     bind_m (gets pools) (\<lambda>ps.
     then_m (set_pools (ddel ps (inst, dbname)))
       (when_m (map_of ps (inst, dbname) \<noteq> None) (tell (Closed_Pool inst dbname))))"

definition close_instance :: "string \<Rightarrow> unit m" where
  "close_instance inst =
     bind_m (gets pools) (\<lambda>ps.
     let keys = filter (\<lambda>k. fst k = inst) (map fst ps)
     in then_m (set_pools (filter (\<lambda>(k, _). fst k \<noteq> inst) ps)) (each_m (\<lambda>(i, d). tell (Closed_Pool i d)) keys))"

definition close_all :: "unit m" where
  "close_all =
     bind_m (gets pools) (\<lambda>ps. then_m (set_pools []) (each_m (\<lambda>((i, d), _). tell (Closed_Pool i d)) ps))"

section \<open>Kubernetes objects\<close>

definition is_not_found :: "err \<Rightarrow> bool" where
  "is_not_found e \<longleftrightarrow> err_cls e = Api_Exception 404"

definition is_conflict :: "err \<Rightarrow> bool" where
  "is_conflict e \<longleftrightarrow> err_cls e = Api_Exception 409"

text \<open>\<open>except Exception as exc: if is_not_found(exc): raise new; raise\<close>\<close>

definition rename_not_found :: "'a m \<Rightarrow> err_class \<Rightarrow> string \<Rightarrow> 'a m" where
  "rename_not_found m cls msg = catch_m Base_Exception m (\<lambda>e. if is_not_found e then raise_m cls msg else throw_m e)"

definition get_instance :: "string \<Rightarrow> instance_obj m" where
  "get_instance name =
     rename_not_found (k8s_ask (K_Get_Instance name) (\<lambda>E h. says_instance E h name)) InstanceNotFound
       (''PostgresInstance '' @ py_repr name @ '' not found (it is cluster-scoped, so no namespace applies)'')"

definition get_database_object :: "string \<Rightarrow> string \<Rightarrow> database_obj m" where
  "get_database_object namespace name =
     rename_not_found (k8s_ask (K_Get_Database namespace name) (\<lambda>E h. says_database_obj E h namespace name))
       ReferenceNotFound (''PostgresDB '' @ namespace @ ''/'' @ name @ '' not found'')"

definition read_secret :: "string \<Rightarrow> string \<Rightarrow> (string \<times> nat list) list m" where
  "read_secret namespace name =
     bind_m (rename_not_found (k8s_ask (K_Read_Secret namespace name) (\<lambda>E h. says_secret E h namespace name))
              ReferenceNotFound (''Secret '' @ namespace @ ''/'' @ name @ '' not found'')) (\<lambda>secret.
     ret_m (dupdate (dupdate [] (so_data secret)) (map (\<lambda>(k, v). (k, utf8 v)) (so_string_data secret))))"

definition read_secret_key :: "string \<Rightarrow> string \<Rightarrow> string \<Rightarrow> nat list m" where
  "read_secret_key namespace name key =
     bind_m (read_secret namespace name) (\<lambda>data.
       case map_of data key of
         Some v \<Rightarrow> ret_m v
       | None \<Rightarrow> raise_m ReferenceNotFound (''Secret '' @ namespace @ ''/'' @ name @ '' has no key '' @ py_repr key @
           '' (keys present: '' @ (let ks = join_with '', '' (sort (map fst data)) in if ks \<noteq> [] then ks else ''<none>'') @ '')''))"

text \<open>\<open>bytes.decode()\<close>, on texts of the modelled range; anything else is an error.\<close>

fun utf8_decode :: "nat list \<Rightarrow> string option" where
  "utf8_decode [] = Some []"
| "utf8_decode [b] = (if b < 128 then Some [char_of b] else None)"
| "utf8_decode (b # d # bs) =
     (if b < 128 then map_option ((#) (char_of b)) (utf8_decode (d # bs))
      else if 194 \<le> b \<and> b \<le> 195 \<and> 128 \<le> d \<and> d < 192
           then map_option ((#) (char_of ((b - 192) * 64 + (d - 128)))) (utf8_decode bs)
      else None)"

definition decode_m :: "nat list \<Rightarrow> string m" where
  "decode_m bs = (case utf8_decode bs of
      Some s \<Rightarrow> ret_m s
    | None \<Rightarrow> raise_m Value_Error ''codec can't decode'')"

section \<open>Properties\<close>

lemma utf8_roundtrip: "utf8_decode (utf8 s) = Some s"
proof (induction s)
  case (Cons c s)
  show ?case
  proof (cases "code c < 128")
    case True
    with Cons show ?thesis by (cases "utf8 s") auto
  next
    case False
    have "code c div 64 < 4" by (rule less_mult_imp_div_less) simp
    with False have b: "194 \<le> 192 + code c div 64" "192 + code c div 64 \<le> 195" by auto
    have m: "code c div 64 * 64 + code c mod 64 = code c" by simp
    from b Cons m False show ?thesis by auto
  qed
qed simp

lemma pool_for_run:
  "\<exists>w'. pool_for ep db E w = (Inr (), w') \<and> map_of (pools w') = (map_of (pools w))((ep_instance ep, db) \<mapsto> fingerprint_of E ep)"
  by (auto simp: pool_for_def run_simps set_pools_def Let_def map_of_ddel fun_upd_idem split: option.splits)

text \<open>
  Stale credentials are never used: whatever the registry held, checking out a connection leaves
  exactly this endpoint's fingerprint for the database - a pool opened with other parameters has been
  closed and replaced - and touches no other pool; and a failure to connect is a \<open>ConnectionFailure\<close> (or the
  driver's own unrelated exception), never a silent success.
\<close>

theorem connection_uses_current_parameters:
  assumes "connection ep dbname E w = (r, w')"
  shows "map_of (pools w') = (map_of (pools w))((ep_instance ep, or_text dbname (ep_maintenance_database ep)) \<mapsto> fingerprint_of E ep) \<and>
    (case r of
       Inr c \<Rightarrow> cn_instance c = ep_instance ep \<and> cn_database c = or_text dbname (ep_maintenance_database ep) \<and>
                last (trace w') = Connected c True
     | Inl e \<Rightarrow> err_cls e = ConnectionFailure \<or> (\<exists>h c. on_connect E h c = Some (Broken e)))"
proof -
  let ?db = "or_text dbname (ep_maintenance_database ep)"
  obtain u where u: "pool_for ep ?db E w = (Inr (), u)"
    "map_of (pools u) = (map_of (pools w))((ep_instance ep, ?db) \<mapsto> fingerprint_of E ep)"
    using pool_for_run [of ep ?db E w] by blast
  then show ?thesis
    using assms by (auto simp: connection_def diagnose_def run_simps Let_def split: option.splits connect_error.splits)
qed

text \<open>An endpoint for examples.\<close>

definition sample_endpoint :: endpoint where
  "sample_endpoint = \<lparr>ep_instance = ''main'', ep_host = ''db.example'', ep_port = 5432, ep_username = ''admin'',
     ep_password = ''secret'', ep_maintenance_database = ''postgres'', ep_ssl_mode = Ssl_Require,
     ep_ssl_root_cert = None, ep_connect_timeout = 10\<rparr>"

theorem connection_uses_current_parameters_witness:
  "map_of (pools (snd (connection sample_endpoint None sample_env
      (empty_world\<lparr>pools := [((''main'', ''postgres''), ''stale'')]\<rparr>)))) (''main'', ''postgres'') =
    Some (fingerprint_of sample_env sample_endpoint)"
  using connection_uses_current_parameters [OF prod.collapse [symmetric],
      of sample_endpoint None sample_env "empty_world\<lparr>pools := [((''main'', ''postgres''), ''stale'')]\<rparr>"]
  by (simp add: sample_endpoint_def or_text_def)

end
