(* ===== verification/Context.thy ===== *)
theory Context
  imports Connection
begin

text \<open>
  \<open>reconcile/context.py\<close>: resolving a PostgresInstance into an endpoint and a probed server, with the
  \<open>allowedNamespaces\<close> gate, the \<open>minServerVersion\<close> floor and the server-information cache; the connections a
  pass opens; and the table of per-resource locks as a state machine.
\<close>

section \<open>Instances\<close>

record resolved_instance =
  ri_name :: string
  ri_spec :: instance_spec
  ri_endpoint :: endpoint
  ri_server :: server_info
  ri_generation :: int

definition display :: "resolved_instance \<Rightarrow> string" where
  "display i = ep_host (ri_endpoint i) @ '':'' @ show_int (ep_port (ri_endpoint i))"

text \<open>\<open>str(list)\<close>\<close>

definition repr_list :: "string list \<Rightarrow> string" where
  "repr_list xs = ''['' @ join_with '', '' (map py_repr xs) @ '']''"

definition load_instance_spec :: "string \<Rightarrow> string \<Rightarrow> (instance_spec \<times> int) m" where
  "load_instance_spec name for_namespace =
     bind_m (get_instance name) (\<lambda>obj.
       case parse_instance_spec (io_spec obj) of
         Inl e \<Rightarrow> raise_m ConfigurationError (''PostgresInstance '' @ py_repr name @ '' has an invalid spec: '' @ err_text e)
       | Inr spec \<Rightarrow>
           if for_namespace \<noteq> [] \<and> \<not> permits_namespace spec for_namespace
           then raise_m ConfigurationError (''PostgresInstance '' @ py_repr name @ '' does not permit namespace '' @
                  py_repr for_namespace @ ''; allowedNamespaces = '' @ repr_list (is_allowed_namespaces spec))
           else ret_m (spec, io_generation obj))"

definition build_endpoint :: "string \<Rightarrow> instance_spec \<Rightarrow> endpoint m" where
  "build_endpoint name spec =
     bind_m (asks operator_namespace) (\<lambda>own.
     let ref = is_credentials spec; namespace = resolve_namespace (cr_namespace ref) own
     in bind_m (bind_m (read_secret_key namespace (cr_name ref) (cr_username_key ref)) decode_m) (\<lambda>username.
        bind_m (bind_m (read_secret_key namespace (cr_name ref) (cr_password_key ref)) decode_m) (\<lambda>password.
        bind_m (case is_ssl_root_cert spec of
                  None \<Rightarrow> ret_m None
                | Some ca \<Rightarrow>
                    bind_m (read_secret_key (resolve_namespace (skr_namespace ca) own) (skr_name ca) (skr_key ca)) (\<lambda>pem.
                    bind_m (materialise_ca_bundle name pem) (\<lambda>path. ret_m (Some path)))) (\<lambda>ca_path.
        ret_m \<lparr>ep_instance = name, ep_host = is_host spec, ep_port = is_port spec, ep_username = py_strip username,
               ep_password = password, ep_maintenance_database = is_maintenance_database spec,
               ep_ssl_mode = is_ssl_mode spec, ep_ssl_root_cert = ca_path,
               ep_connect_timeout = is_connect_timeout spec\<rparr>))))"

definition SERVER_INFO_TTL :: int where
  "SERVER_INFO_TTL = 300 * 10 ^ 9"

text \<open>The cached information when it is younger than the limit; the code asks the clock only for an entry.\<close>

definition fresh_info :: "((string \<times> string) \<times> (int \<times> server_info)) list \<Rightarrow> string \<times> string \<Rightarrow> int \<Rightarrow> server_info option" where
  "fresh_info cache key now = (case map_of cache key of
      Some (stamp, info) \<Rightarrow> if now - stamp < SERVER_INFO_TTL then Some info else None
    | None \<Rightarrow> None)"

definition describe_cached :: "endpoint \<Rightarrow> server_info m" where
  "describe_cached ep =
     bind_m (asks (\<lambda>E. (ep_instance ep, fingerprint_of E ep))) (\<lambda>key.
     bind_m (gets server_cache) (\<lambda>cache.
     bind_m (sample_m monotonic) (\<lambda>now.
       case fresh_info cache key now of
         Some info \<Rightarrow> ret_m info
       | None \<Rightarrow>
           bind_m (connection ep None) (\<lambda>c.
           bind_m (describe_server c) (\<lambda>info.
           bind_m (sample_m monotonic) (\<lambda>stamp.
           bind_m (gets server_cache) (\<lambda>cache.
           then_m (set_server_cache (dset cache key (stamp, info))) (ret_m info))))))))"

definition resolve_instance :: "string \<Rightarrow> string \<Rightarrow> resolved_instance m" where
  "resolve_instance name for_namespace =
     bind_m (load_instance_spec name for_namespace) (\<lambda>(spec, generation).
     bind_m (build_endpoint name spec) (\<lambda>ep.
     bind_m (describe_cached ep) (\<lambda>server.
       case is_min_server_version spec of
         Some minimum \<Rightarrow>
           if minimum \<noteq> 0 \<and> major_version server < minimum
           then raise_m ConfigurationError (''PostgresInstance '' @ py_repr name @ '' requires PostgreSQL >= '' @
                  show_int minimum @ '' but the server reports '' @ version_text server)
           else ret_m \<lparr>ri_name = name, ri_spec = spec, ri_endpoint = ep, ri_server = server, ri_generation = generation\<rparr>
       | None \<Rightarrow>
           ret_m \<lparr>ri_name = name, ri_spec = spec, ri_endpoint = ep, ri_server = server, ri_generation = generation\<rparr>)))"

definition invalidate :: "string \<Rightarrow> unit m" where
  "invalidate inst =
     bind_m (gets server_cache) (\<lambda>cache. set_server_cache (filter (\<lambda>(key, _). fst key \<noteq> inst) cache))"

definition ctx_connect :: "resolved_instance \<Rightarrow> string option \<Rightarrow> conn m" where
  "ctx_connect i database = connection (ri_endpoint i) database"

section \<open>Gates\<close>

text \<open>Resolving an instance and connecting to it change nothing outside the operator.\<close>

lemma read_only_connection: "emits E read_only (connection ep d)"
  unfolding connection_def pool_for_def Let_def
  by (intro emits_rules; simp split: connect_error.split add: emits_rules)

lemma read_only_objects:
  "emits E read_only (get_instance n)" "emits E read_only (get_database_object ns n)" "emits E read_only (read_secret ns n)"
  "emits E read_only (read_secret_key ns n k)" "emits E read_only (decode_m bs)" "emits E read_only (close_database i d)"
  "emits E read_only (close_instance i)"
  unfolding get_instance_def get_database_object_def read_secret_key_def read_secret_def rename_not_found_def decode_m_def
    close_database_def close_instance_def
  by (intro emits_rules; (simp add: Let_def)?; (intro emits_rules)?; simp?)+

lemma read_only_context:
  "emits E read_only (load_instance_spec n ns)" "emits E read_only (resolve_instance n ns)"
  "emits E read_only (ctx_connect i d)" "emits E read_only (build_endpoint n spec)" "emits E read_only (describe_cached ep)"
proof -
  show l: "emits E read_only (load_instance_spec n ns)" for n ns
    unfolding load_instance_spec_def by (intro emits_rules read_only_objects)
  show b: "emits E read_only (build_endpoint n spec)" for n spec
    unfolding build_endpoint_def materialise_ca_bundle_def Let_def by (intro emits_rules read_only_objects) simp_all
  show d: "emits E read_only (describe_cached ep)" for ep
    unfolding describe_cached_def describe_server_def by (intro emits_rules read_only_connection) simp_all
  show "emits E read_only (resolve_instance n ns)"
    unfolding resolve_instance_def by (intro emits_rules l b d)
  show "emits E read_only (ctx_connect i d)"
    unfolding ctx_connect_def by (rule read_only_connection)
qed

lemma load_instance_gives:
  "gives E (\<lambda>(spec, g). (ns \<noteq> [] \<longrightarrow> permits_namespace spec ns) \<and> instance_fields_ok spec \<and>
     validate_instance_spec spec = Inr ()) (load_instance_spec name ns)"
  unfolding load_instance_spec_def
  by (rule gives_bindI [OF gives_True])
    (auto intro!: gives_ret gives_raise simp: parse_instance_spec_def model_validate_ok split: sum.split)

text \<open>
  What a resolved instance guarantees: the namespace that asked is permitted, the spec passed its
  validation, the server is at least the required version, and the endpoint is the spec's own host, port,
  database and SSL mode.
\<close>

theorem resolved_instance_guarantees:
  "gives E (\<lambda>i. ri_name i = name \<and> (ns = [] \<or> permits_namespace (ri_spec i) ns) \<and>
       validate_instance_spec (ri_spec i) = Inr () \<and>
       (case is_min_server_version (ri_spec i) of None \<Rightarrow> True | Some m \<Rightarrow> m = 0 \<or> m \<le> major_version (ri_server i)) \<and>
       ep_instance (ri_endpoint i) = name \<and> ep_host (ri_endpoint i) = is_host (ri_spec i) \<and>
       ep_port (ri_endpoint i) = is_port (ri_spec i) \<and> ep_ssl_mode (ri_endpoint i) = is_ssl_mode (ri_spec i) \<and>
       ep_maintenance_database (ri_endpoint i) = is_maintenance_database (ri_spec i))
     (resolve_instance name ns)"
proof -
  have ep: "gives E (\<lambda>ep. ep_instance ep = name \<and> ep_host ep = is_host spec \<and> ep_port ep = is_port spec \<and>
      ep_ssl_mode ep = is_ssl_mode spec \<and> ep_maintenance_database ep = is_maintenance_database spec)
      (build_endpoint name spec)" for spec
    unfolding build_endpoint_def Let_def
    by (intro gives_bindI [OF gives_True] gives_ret) simp
  show ?thesis
    unfolding resolve_instance_def
    by (rule gives_bindI [OF load_instance_gives], clarify, rule gives_bindI [OF ep], rule gives_bindI [OF gives_True])
      (auto intro!: gives_ret gives_raise split: option.split)
qed

text \<open>
  The namespace gate closes first: for a namespace the instance does not permit, resolving it reads
  the PostgresInstance and nothing else - no Secret is read and no connection is made - and ends in a
  \<open>ConfigurationError\<close>.
\<close>

theorem namespace_gate:
  assumes "says_instance E (trace w) name = Inr obj" "parse_instance_spec (io_spec obj) = Inr spec"
    and "ns \<noteq> []" "\<not> permits_namespace spec ns"
  shows "\<exists>msg. resolve_instance name ns E w =
    (Inl (Err ConfigurationError msg), w\<lparr>trace := trace w @ [K8s (K_Get_Instance name)]\<rparr>)"
  using assms
  by (simp add: resolve_instance_def load_instance_spec_def get_instance_def rename_not_found_def k8s_ask_def run_simps)

text \<open>An instance for examples.\<close>

definition sample_instance :: instance_spec where
  "sample_instance = \<lparr>is_host = ''db.example'', is_port = 5432,
     is_credentials = \<lparr>cr_name = ''admin'', cr_namespace = None, cr_username_key = ''username'', cr_password_key = ''password''\<rparr>,
     is_maintenance_database = ''postgres'', is_ssl_mode = Ssl_Require, is_ssl_root_cert = None, is_connect_timeout = 10,
     is_retention = RETAIN, is_role_prefix = [], is_push_secret = None, is_allowed_namespaces = [''team-a''],
     is_min_server_version = None, is_paused = False\<rparr>"

lemma sample_instance_accepted: "parse_instance_spec (Inr sample_instance) = Inr sample_instance"
  by code_simp

theorem namespace_gate_witness:
  "\<exists>msg. resolve_instance ''main'' ''team-b''
      (sample_env\<lparr>says_instance := \<lambda>h n. Inr \<lparr>io_spec = Inr sample_instance, io_generation = 1\<rparr>\<rparr>) empty_world =
    (Inl (Err ConfigurationError msg), empty_world\<lparr>trace := [K8s (K_Get_Instance ''main'')]\<rparr>)"
proof -
  let ?E = "sample_env\<lparr>says_instance := \<lambda>h n. Inr \<lparr>io_spec = Inr sample_instance, io_generation = 1\<rparr>\<rparr>"
  have t: "trace empty_world @ [e] = [e]" for e by (simp add: empty_world_def)
  have gate: "\<not> permits_namespace sample_instance ''team-b''" by (simp add: permits_namespace_def sample_instance_def)
  show ?thesis
    by (rule namespace_gate [where ns = "''team-b''" and w = empty_world and E = ?E and name = "''main''", unfolded t,
          OF _ _ _ gate, where obj = "\<lparr>io_spec = Inr sample_instance, io_generation = 1\<rparr>"])
      (simp_all add: sample_instance_accepted)
qed

end
