(* ===== verification/Clock.thy ===== *)
theory Clock
  imports Units
begin

text \<open>
  The part of \<open>datetime\<close> that \<open>reconcile/health.py\<close> uses: moments in UTC from 1970 on, written by
  \<open>strftime\<close> and read back by \<open>strptime\<close> in the format \<open>%Y-%m-%dT%H:%M:%SZ\<close>, in the proleptic Gregorian
  calendar. A moment is its number of seconds since 1970-01-01T00:00:00Z.
\<close>

definition leap :: "nat \<Rightarrow> bool" where
  "leap y \<longleftrightarrow> y mod 4 = 0 \<and> (y mod 100 \<noteq> 0 \<or> y mod 400 = 0)"

definition year_days :: "nat \<Rightarrow> nat" where
  "year_days y = (if leap y then 366 else 365)"

definition month_days :: "nat \<Rightarrow> nat \<Rightarrow> nat" where
  "month_days y m = (if m = 2 then (if leap y then 29 else 28) else if m \<in> {4, 6, 9, 11} then 30 else 31)"

text \<open>Days before the year, from year 1 on; days of the year before the month.\<close>

definition days_before_year :: "nat \<Rightarrow> nat" where
  "days_before_year y = (let p = y - 1 in 365 * p + p div 4 + p div 400 - p div 100)"

fun days_before_month :: "nat \<Rightarrow> nat \<Rightarrow> nat" where
  "days_before_month y m = (if m \<le> 1 then 0 else days_before_month y (m - 1) + month_days y (m - 1))"

declare days_before_month.simps [simp del]

text \<open>Counting forward from a year, or from a month of a year, by whole years and months.\<close>

function year_of :: "nat \<Rightarrow> nat \<Rightarrow> nat \<times> nat" where
  "year_of y d = (if d < year_days y then (y, d) else year_of (y + 1) (d - year_days y))"
  by pat_completeness auto

termination by (relation "measure snd") (auto simp: year_days_def)

declare year_of.simps [simp del]

function month_of :: "nat \<Rightarrow> nat \<Rightarrow> nat \<Rightarrow> nat \<times> nat" where
  "month_of y m d = (if m \<ge> 12 \<or> d < month_days y m then (m, d) else month_of y (m + 1) (d - month_days y m))"
  by pat_completeness auto

termination by (relation "measure (\<lambda>(y, m, d). 12 - m)") auto

declare month_of.simps [simp del]

section \<open>Writing and reading a moment\<close>

text \<open>\<open>%m\<close> and its like: two digits.\<close>

definition pad2 :: "nat \<Rightarrow> string" where
  "pad2 n = (if n < 10 then CHR ''0'' # show_nat n else show_nat n)"

definition EPOCH :: nat where
  "EPOCH = 719162"

definition civil :: "nat \<Rightarrow> nat \<times> nat \<times> nat" where
  "civil days = (let (y, rest) = year_of 1970 days; (m, d) = month_of y 1 rest in (y, m, d + 1))"

definition stamp_text :: "nat \<Rightarrow> string" where
  "stamp_text t = (let (y, m, d) = civil (t div 86400); s = t mod 86400
            in show_nat y @ ''-'' @ pad2 m @ ''-'' @ pad2 d @ ''T'' @ pad2 (s div 3600) @ '':'' @
               pad2 (s div 60 mod 60) @ '':'' @ pad2 (s mod 60) @ ''Z'')"

text \<open>A number of at most two digits in a range, as the patterns of \<open>strptime\<close> accept it; \<open>%d\<close> also takes a
  blank before one digit.\<close>

definition two_digits :: "nat \<Rightarrow> nat \<Rightarrow> string \<Rightarrow> nat option" where
  "two_digits lo hi s =
     (if s \<noteq> [] \<and> length s \<le> 2 \<and> list_all is_digit s \<and> lo \<le> digits_value s \<and> digits_value s \<le> hi
      then Some (digits_value s) else None)"

definition day_field :: "string \<Rightarrow> nat option" where
  "day_field s = (case s of c # t \<Rightarrow> if c = CHR '' '' \<and> length t = 1 then two_digits 1 9 t else two_digits 1 31 s | [] \<Rightarrow> None)"

text \<open>The text before the first character of a kind, and what follows that character.\<close>

definition cut :: "(char \<Rightarrow> bool) \<Rightarrow> string \<Rightarrow> (string \<times> string) option" where
  "cut p s = (case dropWhile (\<lambda>c. \<not> p c) s of [] \<Rightarrow> None | _ # rest \<Rightarrow> Some (takeWhile (\<lambda>c. \<not> p c) s, rest))"

definition year_field :: "string \<Rightarrow> nat option" where
  "year_field s = (if length s = 4 \<and> list_all is_digit s \<and> 1 \<le> digits_value s then Some (digits_value s) else None)"

text \<open>\<open>%S\<close> matches up to 61, which \<open>datetime\<close> then refuses; the letters of the format match in either case.\<close>

definition stamp_fields :: "string \<Rightarrow> (nat \<times> nat \<times> nat \<times> nat \<times> nat \<times> nat) option" where
  "stamp_fields s =
     Option.bind (cut (\<lambda>c. c = CHR ''-'') s) (\<lambda>(ys, s). Option.bind (year_field ys) (\<lambda>y.
     Option.bind (cut (\<lambda>c. c = CHR ''-'') s) (\<lambda>(ms, s). Option.bind (two_digits 1 12 ms) (\<lambda>m.
     Option.bind (cut (\<lambda>c. upper_char c = CHR ''T'') s) (\<lambda>(ds, s). Option.bind (day_field ds) (\<lambda>d.
     Option.bind (cut (\<lambda>c. c = CHR '':'') s) (\<lambda>(hs, s). Option.bind (two_digits 0 23 hs) (\<lambda>h.
     Option.bind (cut (\<lambda>c. c = CHR '':'') s) (\<lambda>(ns, s). Option.bind (two_digits 0 59 ns) (\<lambda>n.
     Option.bind (cut (\<lambda>c. upper_char c = CHR ''Z'') s) (\<lambda>(ss, s). Option.bind (two_digits 0 59 ss) (\<lambda>sec.
       if s = [] then Some (y, m, d, h, n, sec) else None))))))))))))"

definition parse_stamp :: "string \<Rightarrow> int option" where
  "parse_stamp s = Option.bind (stamp_fields s) (\<lambda>(y, m, d, h, n, sec).
     if d \<le> month_days y m
     then Some ((int (days_before_year y + days_before_month y m + d) - 1 - int EPOCH) * 86400 + int (h * 3600 + n * 60 + sec))
     else None)"

section \<open>What is written is read back\<close>

lemma days_before_year_Suc: "1 \<le> y \<Longrightarrow> days_before_year (y + 1) = days_before_year y + year_days y"
proof (cases y)
  case (Suc p)
  have "p div 100 \<le> p div 4" by (simp add: div_le_mono2)
  moreover have "Suc p mod 400 = 0 \<Longrightarrow> Suc p mod 100 = 0" "Suc p mod 100 = 0 \<Longrightarrow> Suc p mod 4 = 0"
    using mod_mod_cancel [of 100 400 "Suc p"] mod_mod_cancel [of 4 100 "Suc p"] by auto
  ultimately show ?thesis
    unfolding days_before_year_def Let_def year_days_def leap_def Suc
    by (cases "Suc p mod 4 = 0"; cases "Suc p mod 100 = 0"; cases "Suc p mod 400 = 0")
      (simp_all add: div_Suc [of p 4] div_Suc [of p 100] div_Suc [of p 400] ac_simps)
qed simp

lemma year_of_days:
  "year_of y d = (y', d') \<Longrightarrow> 1 \<le> y \<Longrightarrow>
   days_before_year y' + d' = days_before_year y + d \<and> d' < year_days y' \<and> y \<le> y'"
proof (induction y d rule: year_of.induct)
  case (1 y d)
  show ?case
  proof (cases "d < year_days y")
    case True
    with 1 show ?thesis by (simp add: year_of.simps)
  next
    case False
    with 1 have "days_before_year y' + d' = days_before_year (y + 1) + (d - year_days y) \<and> d' < year_days y' \<and> y + 1 \<le> y'"
      by (simp add: year_of.simps [of y])
    with False 1(3) show ?thesis by (simp add: days_before_year_Suc [simplified])
  qed
qed

lemma month_of_days:
  "month_of y m d = (m', d') \<Longrightarrow> 1 \<le> m \<Longrightarrow> m \<le> 12 \<Longrightarrow>
   days_before_month y m' + d' = days_before_month y m + d \<and> m \<le> m' \<and> m' \<le> 12 \<and> (m' = 12 \<or> d' < month_days y m')"
proof (induction y m d rule: month_of.induct)
  case (1 y m d)
  show ?case
  proof (cases "m \<ge> 12 \<or> d < month_days y m")
    case True
    with 1 show ?thesis by (auto simp: month_of.simps)
  next
    case False
    with 1 have "days_before_month y m' + d' = days_before_month y (m + 1) + (d - month_days y m) \<and>
        m + 1 \<le> m' \<and> m' \<le> 12 \<and> (m' = 12 \<or> d' < month_days y m')"
      by (simp add: month_of.simps [of y m])
    moreover have "days_before_month y (m + 1) = days_before_month y m + month_days y m"
      by (subst days_before_month.simps) (use 1(3) in simp)
    ultimately show ?thesis using False by simp
  qed
qed


lemma days_before_month_bounds: "days_before_month y 1 = 0" "days_before_month y 12 + 31 = year_days y"
  by (simp_all add: days_before_month.simps month_days_def year_days_def)

lemma civil_days:
  assumes "civil n = (y, m, d)"
  shows "days_before_year y + days_before_month y m + d = EPOCH + n + 1" "1970 \<le> y" "1 \<le> m" "m \<le> 12" "1 \<le> d" "d \<le> month_days y m"
proof -
  obtain rest where yr: "year_of 1970 n = (y, rest)" and mo: "month_of y 1 rest = (m, d - 1)" and d: "1 \<le> d"
    using assms by (auto simp: civil_def split: prod.splits)
  note y = year_of_days [OF yr, simplified] and m = month_of_days [OF mo, simplified]
  have "days_before_year 1970 = EPOCH" by (simp add: days_before_year_def EPOCH_def Let_def)
  with y m d show "days_before_year y + days_before_month y m + d = EPOCH + n + 1"
    using days_before_month_bounds(1) [of y] by (elim conjE) (simp; linarith)
  show "1970 \<le> y" "1 \<le> m" "m \<le> 12" "1 \<le> d" using y m d by simp_all
  have "d - 1 < month_days y m" if "m = 12"
    using that m y days_before_month_bounds [of y] by (simp add: month_days_def)
  then show "d \<le> month_days y m" using m d by fastforce
qed

lemma cut_append: "list_all (\<lambda>c. \<not> p c) a \<Longrightarrow> p c \<Longrightarrow> cut p (a @ c # r) = Some (a, r)"
  by (simp add: cut_def list_all_iff takeWhile_tail takeWhile_append2 dropWhile_append2)

lemma pad2_digits: "list_all is_digit (pad2 n)"
  using show_nat_digits [of n] by (simp add: pad2_def list_all_iff is_digit_def code_def)

lemma show_nat_small: "n < 10 \<Longrightarrow> length (show_nat n) = 1" "10 \<le> n \<Longrightarrow> n < 100 \<Longrightarrow> length (show_nat n) = 2"
proof -
  show one: "length (show_nat n) = 1" if "n < 10" for n using that by (subst show_nat.simps) simp
  show "length (show_nat n) = 2" if "10 \<le> n" "n < 100"
    using that one [of "n div 10"] by (subst show_nat.simps) simp
qed

lemma show_nat_four: "1000 \<le> n \<Longrightarrow> n < 10000 \<Longrightarrow> length (show_nat n) = 4"
proof -
  assume n: "1000 \<le> n" "n < 10000"
  have "length (show_nat (n div 10 div 10)) = 2" by (rule show_nat_small) (use n in simp_all)
  then have "length (show_nat (n div 10)) = 3" using n by (subst show_nat.simps) simp
  then show ?thesis using n by (subst show_nat.simps) simp
qed

lemma pad2_value: "digits_value (pad2 n) = n"
proof -
  have "digits_value (CHR ''0'' # s) = digits_value s" for s by (simp add: digits_value_def code_def)
  then show ?thesis by (simp add: pad2_def)
qed

lemma pad2_length: "n < 100 \<Longrightarrow> length (pad2 n) = 2"
  using show_nat_small [of n] by (cases "n < 10") (auto simp: pad2_def)

lemma two_digits_pad2: "n < 100 \<Longrightarrow> lo \<le> n \<Longrightarrow> n \<le> hi \<Longrightarrow> two_digits lo hi (pad2 n) = Some n"
  using pad2_length [of n] by (auto simp: two_digits_def pad2_digits pad2_value)

lemma day_field_pad2: "1 \<le> n \<Longrightarrow> n \<le> 31 \<Longrightarrow> day_field (pad2 n) = Some n"
proof -
  assume n: "1 \<le> n" "n \<le> 31"
  obtain c s where p: "pad2 n = c # s" using pad2_length [of n] n by (cases "pad2 n") auto
  have "c \<noteq> CHR '' ''" using pad2_digits [of n] by (auto simp: p is_digit_def code_def)
  with two_digits_pad2 [of n 1 31] n p show ?thesis by (simp add: day_field_def)
qed

lemma digits_not: "list_all is_digit s \<Longrightarrow> \<not> is_digit d \<Longrightarrow> list_all (\<lambda>c. c \<noteq> d) s"
  by (auto simp: list_all_iff)

lemma digits_not_letter: "list_all is_digit s \<Longrightarrow> list_all (\<lambda>c. upper_char c \<noteq> CHR ''T'' \<and> upper_char c \<noteq> CHR ''Z'') s"
  by (auto simp: list_all_iff is_digit_def code_def upper_char_def is_lower_letter_def)

text \<open>
  A moment written by the operator is read back to the second: \<open>strptime\<close> of the text \<open>strftime\<close> made
  gives the moment, for every moment up to the last year \<open>datetime\<close> has.
\<close>

lemma parse_stamp_text:
  assumes "fst (civil (t div 86400)) \<le> 9999"
  shows "parse_stamp (stamp_text t) = Some (int t)"
proof -
  obtain y m d where c: "civil (t div 86400) = (y, m, d)" by (cases "civil (t div 86400)")
  note civ = civil_days [OF c]
  let ?s = "t mod 86400"
  have md: "d \<le> 31" using civ(6) by (auto simp: month_days_def split: if_splits)
  have s: "?s div 3600 < 24" "?s div 60 mod 60 < 60" "?s mod 60 < 60" by (simp_all add: less_mult_imp_div_less)
  have y: "list_all is_digit (show_nat y)" using show_nat_digits by (simp add: list_all_iff)
  have sep: "\<not> is_digit CHR ''-''" "\<not> is_digit CHR '':''" "upper_char CHR ''T'' = CHR ''T''" "upper_char CHR ''Z'' = CHR ''Z''"
    by (simp_all add: is_digit_def code_def upper_char_def is_lower_letter_def)
  have no: "list_all (\<lambda>c. c \<noteq> CHR ''-'') (pad2 n)" "list_all (\<lambda>c. c \<noteq> CHR '':'') (pad2 n)"
    "list_all (\<lambda>c. upper_char c \<noteq> CHR ''T'') (pad2 n)" "list_all (\<lambda>c. upper_char c \<noteq> CHR ''Z'') (pad2 n)" for n
    using digits_not [OF pad2_digits] sep digits_not_letter [OF pad2_digits [of n]] by (auto simp: list_all_iff)
  have yf: "year_field (show_nat y) = Some y"
    using show_nat_four [of y] civ(2) assms c y by (simp add: year_field_def)
  have "stamp_fields (stamp_text t) = Some (y, m, d, ?s div 3600, ?s div 60 mod 60, ?s mod 60)"
    using civ(3-5) md s digits_not [OF y sep(1)]
    by (simp add: stamp_text_def c Let_def stamp_fields_def cut_append no sep yf two_digits_pad2 day_field_pad2)
  moreover have "?s div 3600 * 3600 + ?s div 60 mod 60 * 60 + ?s mod 60 = ?s"
  proof -
    have "?s div 60 div 60 = ?s div 3600" by (simp add: div_mult2_eq [symmetric])
    with div_mult_mod_eq [of "?s div 60" 60] div_mult_mod_eq [of ?s 60] show ?thesis by linarith
  qed
  then have "int (?s div 3600 * 3600 + ?s div 60 mod 60 * 60 + ?s mod 60) = int ?s" by simp
  moreover have "int (days_before_year y + days_before_month y m + d) - 1 - int EPOCH = int (t div 86400)"
    using civ(1) by simp
  moreover have "int (t div 86400) * 86400 + int ?s = int t"
    by (metis div_mult_mod_eq of_nat_add of_nat_mult of_nat_numeral)
  ultimately show ?thesis
    using civ(6) by (simp add: parse_stamp_def)
qed

end
