(* ===== verification/Health.thy ===== *)
theory Health
  imports Effects Clock
begin

text \<open>
  \<open>reconcile/health.py\<close>: from what the two servers report about a replication to the state it is in. \<open>now\<close> is a
  moment in microseconds since 1970. What the pass reads back from the recorded status is a record of the
  three fields it uses; a counter that is missing or not a number is \<open>None\<close>. A threshold is converted to a
  double before it is compared, as the code's multiplication does; thresholds beyond the range of a double,
  on which Python raises, are not considered.
\<close>

datatype repl_state = Initializing | Streaming | Lagging | Stalled | SlotLost | Disabled

record subscription_health =
  bh_worker_running :: bool
  bh_last_message_at :: "string option"
  bh_apply_errors :: int
  bh_sync_errors :: int
  bh_conflicts :: "(string \<times> int) list"

record observation =
  ob_slot :: "slot_health option"
  ob_subscription :: "subscription_health option"
  ob_tables :: "(string \<times> string) list"

record health =
  he_observed_at :: string
  he_slot_active :: "bool option"
  he_wal_status :: "string option"
  he_safe_wal_size :: "int option"
  he_lag_bytes :: "int option"
  he_lag :: "string option"
  he_retained_bytes :: "int option"
  he_retained :: "string option"
  he_inactive_since :: "string option"
  he_worker_running :: "bool option"
  he_last_message_at :: "string option"
  he_apply_errors :: "int option"
  he_sync_errors :: "int option"
  he_conflicts :: "(string \<times> int) list option"

record previous_health =
  pr_inactive_since :: "string option"
  pr_apply_errors :: "int option"
  pr_sync_errors :: "int option"

record assessment =
  as_state :: repl_state
  as_streaming :: bool
  as_message :: string
  as_health :: health

section \<open>The assessment\<close>

text \<open>\<open>_iso\<close> drops the microseconds.\<close>

definition iso_moment :: "nat \<Rightarrow> string" where
  "iso_moment now = stamp_text (now div 1000000)"

text \<open>\<open>_seconds_since(stamp, now) > limit\<close>; a stamp that does not parse is a \<open>ValueError\<close>.\<close>

definition longer_than :: "string \<Rightarrow> nat \<Rightarrow> int \<Rightarrow> bool res" where
  "longer_than stamp now limit = (case parse_stamp stamp of
      Some t \<Rightarrow> Inr (limit * 1000000 < int now - t * 1000000)
    | None \<Rightarrow> raise_r Value_Error (''time data '' @ py_repr stamp @ '' does not match format''))"

definition health_of :: "observation \<Rightarrow> previous_health \<Rightarrow> nat \<Rightarrow> health" where
  "health_of obs previous now =
     (let slot = ob_slot obs; subscription = ob_subscription obs;
          inactive = (case slot of None \<Rightarrow> False | Some s \<Rightarrow> \<not> sh_active s)
      in \<lparr>he_observed_at = iso_moment now,
          he_slot_active = map_option sh_active slot,
          he_wal_status = Option.bind slot sh_wal_status,
          he_safe_wal_size = Option.bind slot sh_safe_wal_size,
          he_lag_bytes = Option.bind slot sh_lag_bytes,
          he_lag = map_option format_bytes (Option.bind slot sh_lag_bytes),
          he_retained_bytes = Option.bind slot sh_retained_bytes,
          he_retained = map_option format_bytes (Option.bind slot sh_retained_bytes),
          he_inactive_since = (if inactive then Some (or_text (pr_inactive_since previous) (iso_moment now)) else None),
          he_worker_running = map_option bh_worker_running subscription,
          he_last_message_at = Option.bind subscription bh_last_message_at,
          he_apply_errors = map_option bh_apply_errors subscription,
          he_sync_errors = map_option bh_sync_errors subscription,
          he_conflicts = Option.bind subscription (\<lambda>b. if bh_conflicts b = [] then None else Some (bh_conflicts b))\<rparr>)"

definition ERROR_TEXT :: string where
  "ERROR_TEXT = ''PostgreSQL counts apply errors but does not expose them; the error itself is in the '' @
     ''target server'' @ CHR 0x27 # ''s log (CloudWatch on RDS)''"

definition rose :: "string \<Rightarrow> int option \<Rightarrow> int option \<Rightarrow> string list" where
  "rose kind before after = (case (before, after) of
      (Some b, Some a) \<Rightarrow> if b < a then [kind @ '' errors rose from '' @ show_int b @ '' to '' @ show_int a] else []
    | _ \<Rightarrow> [])"

definition stalls_of :: "observation \<Rightarrow> previous_health \<Rightarrow> health \<Rightarrow> alerting_spec \<Rightarrow> nat \<Rightarrow> string list res" where
  "stalls_of obs previous health alerting now =
     (let worker = (case ob_subscription obs of
            Some b \<Rightarrow> if \<not> bh_worker_running b then [''the apply worker is not running''] else [] | None \<Rightarrow> []);
          counters = rose ''apply'' (pr_apply_errors previous) (he_apply_errors health) @
                     rose ''table-sync'' (pr_sync_errors previous) (he_sync_errors health)
      in bind_r (case he_inactive_since health of
            None \<Rightarrow> Inr []
          | Some since \<Rightarrow>
              if since = [] then Inr []
              else bind_r (max_slot_inactive_seconds alerting) (\<lambda>limit.
                   bind_r (longer_than since now limit) (\<lambda>long.
                     Inr (if long then [''the slot has had no consumer since '' @ since] else []))))
         (\<lambda>idle. Inr (worker @ idle @ counters)))"

text \<open>\<open>value > limit * fraction\<close> with \<open>fraction\<close> 1.0, or 0.8 - the double 3602879701896397 / 2^52 - while the
  replication is Lagging.\<close>

definition over_limit :: "bool \<Rightarrow> int \<Rightarrow> int \<Rightarrow> bool" where
  "over_limit recovering value limit \<longleftrightarrow>
     (if recovering then int (to_double (to_double (nat limit) * 3602879701896397)) < value * 2 ^ 52
      else int (to_double (nat limit)) < value)"

definition over_of :: "slot_health \<Rightarrow> bool \<Rightarrow> int \<Rightarrow> int \<Rightarrow> string list" where
  "over_of slot recovering max_lag max_wal =
     concat (map (\<lambda>(label, value, limit, field). case value of
         Some v \<Rightarrow> if over_limit recovering v limit then [label @ '' is over alerting.'' @ field] else []
       | None \<Rightarrow> [])
       [(''lag'', sh_lag_bytes slot, max_lag, ''maxLag''),
        (''retained WAL'', sh_retained_bytes slot, max_wal, ''maxRetainedWal'')])"

definition slot_usable :: "observation \<Rightarrow> slot_health option" where
  "slot_usable obs = (case ob_slot obs of
      Some s \<Rightarrow> if sh_wal_status s = Some ''lost'' then None else Some s
    | None \<Rightarrow> None)"

definition assess ::
  "observation \<Rightarrow> previous_health \<Rightarrow> string option \<Rightarrow> bool \<Rightarrow> alerting_spec \<Rightarrow> string list \<Rightarrow> nat \<Rightarrow> assessment res" where
  "assess obs previous previous_state enabled alerting suspects now =
     (let health = health_of obs previous now;
          verdict = (\<lambda>state streaming message.
            \<lparr>as_state = state, as_streaming = streaming, as_message = message, as_health = health\<rparr>)
      in case slot_usable obs of
        None \<Rightarrow> Inr (verdict SlotLost False
          ((if ob_slot obs = None then ''the slot no longer exists on the source''
            else ''max_slot_wal_keep_size invalidated the slot (wal_status lost)'') @
           ''; changes since are gone, so the replica can only be rebuilt - delete and '' @
           ''recreate this PostgresReplication to copy the tables afresh''))
      | Some slot \<Rightarrow>
        if \<not> enabled
        then Inr (verdict Disabled False ''spec.enabled is false; the slot keeps retaining WAL on the source meanwhile'')
        else bind_r (stalls_of obs previous health alerting now) (\<lambda>stalls.
          if stalls \<noteq> []
          then Inr (verdict Stalled False (join_with ''; '' stalls @ ''. '' @ ERROR_TEXT @
                 (if suspects \<noteq> [] then ''. Likely cause: '' @ join_with ''; '' suspects else [])))
          else bind_r (max_lag_bytes alerting) (\<lambda>max_lag.
               bind_r (max_retained_wal_bytes alerting) (\<lambda>max_wal.
               let over = over_of slot (previous_state = Some ''Lagging'') max_lag max_wal;
                   copying = filter (\<lambda>(table, state). state \<noteq> ''r'') (ob_tables obs)
               in Inr (if over \<noteq> [] then verdict Lagging False (join_with ''; '' over)
                    else if copying \<noteq> []
                    then verdict Initializing True (show_nat (length copying) @ '' of '' @ show_nat (length (ob_tables obs)) @
                           '' table(s) still in their initial copy'')
                    else verdict Streaming True ''changes are flowing within the alerting thresholds'')))))"

section \<open>Thresholds on doubles\<close>

lemma div_half_even_bounds:
  assumes "0 < d"
  shows "n div d \<le> div_half_even n d" "2 * (div_half_even n d * d) \<le> 2 * n + d"
proof -
  show "n div d \<le> div_half_even n d" by (simp add: div_half_even_def Let_def)
  show "2 * (div_half_even n d * d) \<le> 2 * n + d"
  proof -
    define q where "q = n div d" define m where "m = n mod d"
    have n: "n = q * d + m" by (simp add: q_def m_def)
    show ?thesis
      unfolding div_half_even_def Let_def q_def [symmetric] m_def [symmetric] by (simp add: n algebra_simps)
  qed
qed

lemma float_exponent_le: "n < 2 ^ (53 + k) \<Longrightarrow> float_exponent n \<le> k"
proof (induction k arbitrary: n)
  case 0
  then show ?case by (simp add: float_exponent.simps)
next
  case (Suc k)
  show ?case
  proof (cases "n < 2 ^ 53")
    case True
    then show ?thesis by (simp add: float_exponent.simps)
  next
    case False
    have "n < 2 ^ (53 + k) * 2" using Suc.prems by (simp only: add_Suc_right power_Suc mult.commute)
    then have "n div 2 < 2 ^ (53 + k)" by (rule less_mult_imp_div_less)
    with Suc.IH False show ?thesis by (subst float_exponent.simps) simp
  qed
qed

lemma to_double_exact: "n < 2 ^ 53 \<Longrightarrow> to_double n = n"
  using float_exponent_le [of n 0] by (simp add: to_double_def div_half_even_def Let_def)

text \<open>For limits below 2^50 bytes the comparison is exact: more than the limit, or more than four fifths of it.\<close>

lemma over_limit_exact:
  assumes "0 \<le> limit" "limit < 2 ^ 50"
  shows "over_limit recovering value limit \<longleftrightarrow> (if recovering then 4 * limit < 5 * value else limit < value)"
proof -
  define l where "l = nat limit"
  have l: "limit = int l" "l < 2 ^ 50" using assms by (simp_all add: l_def nat_less_iff)
  have own: "to_double l = l" using l(2) by (intro to_double_exact) simp
  let ?n = "l * 3602879701896397" let ?e = "float_exponent ?n"
  have "?n < 2 ^ (53 + 49)" using l(2) by simp
  then have e: "?e \<le> 49" by (rule float_exponent_le)
  then have d: "(2::nat) ^ ?e \<le> 2 ^ 49" by (intro power_increasing) simp_all
  have up: "2 * to_double ?n \<le> 2 * ?n + 2 ^ ?e"
    unfolding to_double_def by (rule div_half_even_bounds) simp
  have recover: "int (to_double ?n) < value * 2 ^ 52 \<longleftrightarrow> 4 * limit < 5 * value"
  proof
    assume "4 * limit < 5 * value"
    then have "4 * int l + 1 \<le> 5 * value" by (simp add: l)
    moreover have "int (2 * to_double ?n) \<le> int (2 * ?n + 2 ^ 49)" using up d by linarith
    ultimately show "int (to_double ?n) < value * 2 ^ 52" using l(2) by simp
  next
    assume less: "int (to_double ?n) < value * 2 ^ 52"
    show "4 * limit < 5 * value"
    proof (rule ccontr)
      assume "\<not> 4 * limit < 5 * value"
      then have v: "5 * value \<le> 4 * int l" by (simp add: l)
      define v where "v = nat value"
      have "0 \<le> value" using less by (simp add: zero_less_mult_iff)
      then have vn: "value = int v" by (simp add: v_def)
      have "v * 2 ^ 52 \<le> ?n" using v by (simp add: vn)
      then have quot: "v * 2 ^ 52 div 2 ^ ?e \<le> ?n div 2 ^ ?e" by (rule div_le_mono)
      have split: "v * 2 ^ 52 = (v * 2 ^ (52 - ?e)) * 2 ^ ?e" using e by (simp add: power_add [symmetric])
      have "v * 2 ^ (52 - ?e) \<le> ?n div 2 ^ ?e" using quot unfolding split by simp
      also have "\<dots> \<le> div_half_even ?n (2 ^ ?e)" by (rule div_half_even_bounds) simp
      finally have "v * 2 ^ 52 \<le> to_double ?n"
        unfolding to_double_def split by (rule mult_le_mono1)
      with less show False by (simp add: vn)
    qed
  qed
  show ?thesis
    using recover by (simp add: over_limit_def own l_def [symmetric]) (simp add: l)
qed

section \<open>What the state means\<close>

definition readable_stamp :: "previous_health \<Rightarrow> bool" where
  "readable_stamp p \<longleftrightarrow> (case pr_inactive_since p of Some s \<Rightarrow> s = [] \<or> parse_stamp s \<noteq> None | None \<Rightarrow> True)"

text \<open>The second since which the slot has had no consumer: the recorded one, or now.\<close>

definition idle_from :: "previous_health \<Rightarrow> nat \<Rightarrow> int" where
  "idle_from p now = (if given (pr_inactive_since p) then the (parse_stamp (the (pr_inactive_since p))) else int (now div 1000000))"

definition increased :: "int option \<Rightarrow> int option \<Rightarrow> bool" where
  "increased before after \<longleftrightarrow> (\<exists>b a. before = Some b \<and> after = Some a \<and> b < a)"

definition stalled :: "observation \<Rightarrow> previous_health \<Rightarrow> int \<Rightarrow> nat \<Rightarrow> bool" where
  "stalled obs p limit now \<longleftrightarrow>
     (\<exists>b. ob_subscription obs = Some b \<and> \<not> bh_worker_running b) \<or>
     (\<exists>s. ob_slot obs = Some s \<and> \<not> sh_active s \<and> limit * 1000000 < int now - idle_from p now * 1000000) \<or>
     increased (pr_apply_errors p) (map_option bh_apply_errors (ob_subscription obs)) \<or>
     increased (pr_sync_errors p) (map_option bh_sync_errors (ob_subscription obs))"

definition exceeds :: "bool \<Rightarrow> int option \<Rightarrow> int \<Rightarrow> bool" where
  "exceeds recovering value limit \<longleftrightarrow> (\<exists>v. value = Some v \<and> (if recovering then 4 * limit < 5 * v else limit < v))"

lemma rose_Nil [simp]: "rose k b a = [] \<longleftrightarrow> \<not> increased b a"
  by (auto simp: rose_def increased_def split: option.splits)

lemma iso_moment_not_Nil: "iso_moment now \<noteq> []"
  by (simp add: iso_moment_def stamp_text_def Let_def split: prod.split)

lemma stalls_of_result:
  assumes "readable_stamp p" "fst (civil (now div 1000000 div 86400)) \<le> 9999" "max_slot_inactive_seconds alerting = Inr limit"
  shows "\<exists>stalls. stalls_of obs p (health_of obs p now) alerting now = Inr stalls \<and> (stalls \<noteq> [] \<longleftrightarrow> stalled obs p limit now)"
proof -
  let ?since = "or_text (pr_inactive_since p) (iso_moment now)"
  have since: "?since \<noteq> []" "parse_stamp ?since = Some (idle_from p now)"
    using assms(1) iso_moment_not_Nil [of now] parse_stamp_text [OF assms(2)]
    by (auto simp: or_text_def given_def readable_stamp_def idle_from_def iso_moment_def split: option.splits list.splits)
  show ?thesis
  proof (cases "\<exists>s. ob_slot obs = Some s \<and> \<not> sh_active s")
    case True
    then have h: "he_inactive_since (health_of obs p now) = Some ?since" by (auto simp: health_of_def Let_def)
    show ?thesis
      using True unfolding stalls_of_def h
      by (auto simp: since assms(3) longer_than_def stalled_def health_of_def Let_def split: option.splits)
  next
    case False
    then have h: "he_inactive_since (health_of obs p now) = None" by (auto simp: health_of_def Let_def split: option.splits)
    show ?thesis
      using False unfolding stalls_of_def h
      by (auto simp: stalled_def health_of_def Let_def split: option.splits)
  qed
qed

lemma over_of_result:
  assumes "0 \<le> lag" "lag < 2 ^ 50" "0 \<le> wal" "wal < 2 ^ 50"
  shows "over_of s recovering lag wal \<noteq> [] \<longleftrightarrow>
    exceeds recovering (sh_lag_bytes s) lag \<or> exceeds recovering (sh_retained_bytes s) wal"
  using assms by (auto simp: over_of_def over_limit_exact exceeds_def split: option.splits)


definition sample_observation :: observation where
  "sample_observation = \<lparr>ob_slot = Some \<lparr>sh_active = True, sh_wal_status = Some ''reserved'', sh_safe_wal_size = None,
     sh_lag_bytes = Some 1000000000, sh_retained_bytes = Some 5000\<rparr>, ob_subscription = None, ob_tables = [(''app.events'', ''r'')]\<rparr>"


end
