(* ===== verification/Topology.thy ===== *)
theory Topology
  imports Context Health "HOL-Library.Product_Lexorder"
begin

text \<open>
  \<open>reconcile/replication.py\<close>, its first step: both ends of a PostgresReplication resolved to physical databases,
  and what can never work refused before any server is contacted - one server at both ends, an end that moved,
  schemas the source does not manage, a replication that closes a cycle. Also the tables that an older
  replication claims. The lemmas say that the search for a cycle finds one exactly when there is one, and that
  admitted replications keep the graph acyclic.
\<close>

section \<open>Objects\<close>

text \<open>
  What the status of a PostgresReplication records. The code reads it through \<open>get\<close> and treats a missing text and
  an empty one alike, so a missing text is empty here.
\<close>

record recorded_filter =
  rf_table :: string
  rf_spec_hash :: string
  rf_applied :: string

record credentials_location =
  cs_namespace :: string
  cs_name :: string
  cs_generated :: bool

record repl_status =
  rt_source_instance :: string
  rt_source_database :: string
  rt_publication :: string
  rt_slot :: string
  rt_login :: string
  rt_target_instance :: string
  rt_target_database :: string
  rt_subscription :: string
  rt_subscription_oid :: "int option"
  rt_created :: "(string \<times> bool) list"
  rt_granted :: "string list"
  rt_credentials :: "credentials_location option"
  rt_fingerprint :: "string option"
  rt_row_filters :: "recorded_filter list"
  rt_health :: previous_health
  rt_state :: "string option"                  \<comment> \<open>\<open>replicationState\<close>\<close>
  rt_conditions :: "condition list"

record repl_obj =
  rb_namespace :: string
  rb_name :: string
  rb_created_at :: string
  rb_generation :: int
  rb_spec :: "replication_spec res"
  rb_enabled :: bool                           \<comment> \<open>\<open>spec.enabled\<close> as written, and the key of the password in\<close>
  rb_password_key :: "string option"           \<comment> \<open>\<open>spec.source.credentialsSecretRef\<close>, for an unreadable spec\<close>
  rb_status :: repl_status

text \<open>\<open>created.get(key)\<close>, as a truth value, and \<open>any(created.values())\<close>.\<close>

definition created_of :: "(string \<times> bool) list \<Rightarrow> string \<Rightarrow> bool" where
  "created_of created key \<longleftrightarrow> map_of created key = Some True"

definition any_created :: "(string \<times> bool) list \<Rightarrow> bool" where
  "any_created created \<longleftrightarrow> True \<in> set (map snd created)"

section \<open>Ends\<close>

record replication_end =
  en_namespace :: string
  en_name :: string
  en_instance :: string
  en_database :: string
  en_host :: string
  en_port :: int

type_synonym database_identity = "string \<times> int \<times> string"

definition end_server :: "replication_end \<Rightarrow> string \<times> int" where
  "end_server e = (py_lower (en_host e), en_port e)"

definition end_identity :: "replication_end \<Rightarrow> database_identity" where
  "end_identity e = (py_lower (en_host e), en_port e, en_database e)"

definition end_display :: "replication_end \<Rightarrow> string" where
  "end_display e = en_instance e @ ''/'' @ en_database e"

definition end_status :: "replication_end \<Rightarrow> (string \<times> json) list" where
  "end_status e =
     [(''instance'', J_Str (en_instance e)), (''database'', J_Str (en_database e)),
      (''postgresDB'', J_Str (en_namespace e @ ''/'' @ en_name e)), (''display'', J_Str (end_display e))]"

definition parse_replication :: "repl_obj \<Rightarrow> replication_spec m" where
  "parse_replication obj = (case parse_replication_spec (rb_spec obj) of
      Inl e \<Rightarrow> if instance_of e Value_Error then raise_m ConfigurationError (''invalid spec: '' @ err_text e) else throw_m e
    | Inr s \<Rightarrow> ret_m s)"

text \<open>\<open>raise type(exc)(f"spec.{side}: {exc}")\<close>\<close>

definition resolve_end ::
  "object_ref \<Rightarrow> string \<Rightarrow> string \<Rightarrow> string \<Rightarrow> (replication_end \<times> database_spec \<times> instance_spec) m" where
  "resolve_end ref namespace side for_namespace =
     (let ref_namespace = resolve_namespace (or_namespace ref) namespace
      in bind_m (catch_m ReferenceNotFound (get_database_object ref_namespace (or_name ref))
                   (\<lambda>e. throw_m (Err (err_cls e) (''spec.'' @ side @ '': '' @ err_text e)))) (\<lambda>obj.
         bind_m (asks sha_of) (\<lambda>h.
         case bind_r (parse_database_spec (do_spec obj)) (\<lambda>ds.
              bind_r (resolve_database_name h ds (do_name obj)) (\<lambda>database. Inr (ds, database))) of
           Inl e \<Rightarrow>
             if instance_of e Value_Error
             then raise_m ConfigurationError (side @ '' PostgresDB '' @ ref_namespace @ ''/'' @ or_name ref @
                    '' has an invalid spec: '' @ err_text e)
             else throw_m e
         | Inr (ds, database) \<Rightarrow>
             bind_m (load_instance_spec (db_instance ds) for_namespace) (\<lambda>(inst_spec, generation).
             ret_m (\<lparr>en_namespace = ref_namespace, en_name = or_name ref, en_instance = db_instance ds,
                     en_database = database, en_host = is_host inst_spec, en_port = is_port inst_spec\<rparr>,
                    ds, inst_spec)))))"

section \<open>Refusals\<close>

definition refuse_moved_end :: "string \<Rightarrow> replication_end \<Rightarrow> string \<times> string \<Rightarrow> unit m" where
  "refuse_moved_end side e was =
     (if fst was = [] \<or> snd was = [] \<or> was = (en_instance e, en_database e) then ret_m ()
      else raise_m ConfigurationError (''the '' @ side @ '' PostgresDB '' @ en_namespace e @ ''/'' @ en_name e @
             '' now resolves to '' @ en_instance e @ ''/'' @ en_database e @
             '', but this replication'' @ CHR 0x27 # ''s objects are on '' @ fst was @ ''/'' @ snd was @
             ''; converging would orphan them there. Point the PostgresDB '' @
             ''back, or delete this PostgresReplication - which removes them from where '' @
             ''status records them - and create a new one''))"

definition refuse_moved_ends :: "repl_status \<Rightarrow> replication_end \<Rightarrow> replication_end \<Rightarrow> unit m" where
  "refuse_moved_ends existing source target =
     (if \<not> any_created (rt_created existing) then ret_m ()
      else then_m (refuse_moved_end ''source'' source (rt_source_instance existing, rt_source_database existing))
             (refuse_moved_end ''target'' target (rt_target_instance existing, rt_target_database existing)))"

text \<open>The elements of \<open>spec.selected_schemas\<close>, sorted, less the managed ones.\<close>

definition unmanaged_schemas :: "replication_spec \<Rightarrow> database_spec \<Rightarrow> string list" where
  "unmanaged_schemas spec source_db =
     sorted_set (filter (\<lambda>s. s \<notin> set (map sc_name (resolve_schemas source_db)))
       (map sl_name (re_schemas spec) @ map ts_schema (re_tables spec)))"

definition require_managed_schemas :: "replication_spec \<Rightarrow> replication_end \<Rightarrow> database_spec \<Rightarrow> unit m" where
  "require_managed_schemas spec source source_db =
     (let unmanaged = unmanaged_schemas spec source_db
      in if unmanaged = [] then ret_m ()
         else raise_m ConfigurationError (''schema(s) '' @ join_with '', '' unmanaged @ '' are not managed by source PostgresDB '' @
                en_namespace source @ ''/'' @ en_name source @ ''; its RO group, through which the '' @
                ''replication login reads, holds grants on managed schemas only. Add them '' @
                ''to that PostgresDB'' @ CHR 0x27 # ''s spec.schemas''))"

section \<open>Cycles\<close>

text \<open>
  The replications between databases. The code's dictionary from a database to the set of its successors, with
  the replication that leads there, is the list of its entries: source, target, replication.
\<close>

type_synonym edges = "(database_identity \<times> database_identity \<times> string) list"

definition list_replications :: "replication_obj list m" where
  "list_replications = k8s_ask K_List_Replications says_replications"

text \<open>One other replication: its edge, or none when it is this one, is being deleted or does not resolve.\<close>

definition edge_of :: "string \<Rightarrow> string \<Rightarrow> replication_obj \<Rightarrow> edges m" where
  "edge_of namespace name other =
     (if (lo_namespace other, lo_name other) = (namespace, name) \<or> lo_deleting other then ret_m []
      else catch_m ConfigurationError
        (catch_m Value_Error
          (bind_m (lift_r (parse_replication_spec (lo_spec other))) (\<lambda>spec.
           bind_m (resolve_end (re_source_db spec) (lo_namespace other) ''source'' []) (\<lambda>(source, _, _).
           bind_m (resolve_end (re_target_db spec) (lo_namespace other) ''target'' []) (\<lambda>(target, _, _).
           ret_m [(end_identity source, end_identity target, lo_namespace other @ ''/'' @ lo_name other)]))))
          (\<lambda>_. ret_m []))
        (\<lambda>_. ret_m []))"

definition collect_edges :: "string \<Rightarrow> string \<Rightarrow> edges m" where
  "collect_edges namespace name =
     bind_m list_replications (\<lambda>others.
     fold_m (\<lambda>edges other. bind_m (edge_of namespace name other) (\<lambda>new. ret_m (edges @ new))) [] others)"

text \<open>\<open>sorted(edges.get(node, ()))\<close>\<close>

definition followers :: "edges \<Rightarrow> database_identity \<Rightarrow> (database_identity \<times> string) list" where
  "followers edges node = sorted_set (map snd (filter (\<lambda>e. fst e = node) edges))"

text \<open>The body of the inner loop: a database not seen before is queued with the way to it.\<close>

definition visit ::
  "string list \<Rightarrow> database_identity list \<times> (database_identity \<times> string list) list \<Rightarrow> database_identity \<times> string \<Rightarrow>
   database_identity list \<times> (database_identity \<times> string list) list" where
  "visit via state step = (case (state, step) of ((seen, queue), (following, replication)) \<Rightarrow>
     if following \<in> set seen then (seen, queue)
     else (following # seen, queue @ [(following, via @ [replication])]))"

text \<open>Databases that an edge leads to and that are not seen yet.\<close>

definition unseen :: "edges \<Rightarrow> database_identity list \<Rightarrow> database_identity set" where
  "unseen edges seen = fst ` snd ` set edges - set seen"

lemma followers_iff: "x \<in> set (followers edges node) \<longleftrightarrow> (node, x) \<in> set edges"
  by (force simp: followers_def)

lemma finite_unseen [simp]: "finite (unseen edges seen)"
  by (simp add: unseen_def)

lemma visit_measure:
  assumes "fst step \<in> fst ` snd ` set edges" "visit via (seen, queue) step = (seen', queue')"
  shows "card (unseen edges seen') + length queue' = card (unseen edges seen) + length queue"
proof (cases "fst step \<in> set seen")
  case False
  obtain x r where s: "step = (x, r)" by (cases step)
  have u: "unseen edges (x # seen) = unseen edges seen - {x}" by (auto simp: unseen_def)
  have m: "x \<in> unseen edges seen" using False assms(1) s by (simp add: unseen_def)
  have "Suc (card (unseen edges (x # seen))) = card (unseen edges seen)" unfolding u by (rule card_Suc_Diff1) (simp_all add: m)
  with assms(2) False s show ?thesis by (auto simp: visit_def)
qed (use assms(2) in \<open>auto simp: visit_def split: prod.splits\<close>)

lemma visits_measure:
  assumes "set steps \<subseteq> snd ` set edges" "foldl (visit via) (seen, queue) steps = (seen', queue')"
  shows "card (unseen edges seen') + length queue' = card (unseen edges seen) + length queue"
  using assms
proof (induction steps arbitrary: seen queue)
  case (Cons s ss)
  obtain a b where v: "visit via (seen, queue) s = (a, b)" by (cases "visit via (seen, queue) s")
  have "fst s \<in> fst ` snd ` set edges" using Cons.prems(1) by auto
  from visit_measure [OF this v] Cons v show ?case by simp
qed simp

function path_loop ::
  "edges \<Rightarrow> database_identity \<Rightarrow> database_identity list \<Rightarrow> (database_identity \<times> string list) list \<Rightarrow> string list option" where
  "path_loop edges goal seen [] = None"
| "path_loop edges goal seen ((node, via) # rest) =
     (if node = goal then Some via
      else let (seen', queue') = foldl (visit via) (seen, rest) (followers edges node)
           in path_loop edges goal seen' queue')"
  by pat_completeness auto

termination
proof (relation "measure (\<lambda>(edges, goal, seen, queue). card (unseen edges seen) + length queue)", goal_cases)
  case (2 edges goal seen node via rest p seen' queue')
  have "set (followers edges node) \<subseteq> snd ` set edges" by (force simp: followers_iff)
  moreover have fold: "foldl (visit via) (seen, rest) (followers edges node) = (seen', queue')" using 2 by simp
  ultimately show ?case using visits_measure [of "followers edges node" edges via seen rest seen' queue'] by simp
qed simp

definition path :: "edges \<Rightarrow> database_identity \<Rightarrow> database_identity \<Rightarrow> string list option" where
  "path edges start goal = path_loop edges goal [start] [(start, [])]"

definition refuse_cycles :: "string \<Rightarrow> string \<Rightarrow> replication_end \<Rightarrow> replication_end \<Rightarrow> unit m" where
  "refuse_cycles namespace name source target =
     bind_m (collect_edges namespace name) (\<lambda>edges.
     case path edges (end_identity target) (end_identity source) of
       None \<Rightarrow> ret_m ()
     | Some loop \<Rightarrow> raise_m ConfigurationError (end_display source @ '' -> '' @ end_display target @
         '' would close a replication cycle '' @ ''with '' @ join_with '', '' loop @
         ''; changes would be applied round it until apply '' @ ''stalls on a duplicate key''))"

section \<open>The search finds exactly the cycles\<close>

definition graph :: "edges \<Rightarrow> (database_identity \<times> database_identity) set" where
  "graph edges = (\<lambda>(a, b, _). (a, b)) ` set edges"

text \<open>The named replications lead, in this order, from one database to the other.\<close>

fun walk :: "edges \<Rightarrow> database_identity \<Rightarrow> string list \<Rightarrow> database_identity \<Rightarrow> bool" where
  "walk edges a [] b \<longleftrightarrow> a = b"
| "walk edges a (r # rs) b \<longleftrightarrow> list_ex (\<lambda>(x, m, q). x = a \<and> q = r \<and> walk edges m rs b) edges"

lemma walk_snoc: "walk edges a rs m \<Longrightarrow> (m, b, r) \<in> set edges \<Longrightarrow> walk edges a (rs @ [r]) b"
  by (induction rs arbitrary: a) (auto simp: list_ex_iff, force+)

lemma walk_reaches: "walk edges a rs b \<Longrightarrow> (a, b) \<in> (graph edges)\<^sup>*"
proof (induction rs arbitrary: a)
  case (Cons r rs)
  then obtain m where "(a, m, r) \<in> set edges" "walk edges m rs b" by (auto simp: list_ex_iff)
  with Cons.IH [of m] show ?case by (force simp: graph_def intro: converse_rtrancl_into_rtrancl)
qed simp

lemma visits_result:
  assumes "foldl (visit via) (seen, queue) steps = (seen', queue')"
  shows "set seen' = set seen \<union> fst ` set steps \<and> set queue \<subseteq> set queue' \<and> set seen' - set seen \<subseteq> fst ` set queue' \<and>
    (\<forall>n v. (n, v) \<in> set queue' \<longrightarrow> (n, v) \<in> set queue \<or> (\<exists>r. (n, r) \<in> set steps \<and> v = via @ [r]))"
  using assms
proof (induction steps arbitrary: seen queue)
  case (Cons s ss)
  obtain n r where s: "s = (n, r)" by (cases s)
  obtain a b where v: "visit via (seen, queue) s = (a, b)" by (cases "visit via (seen, queue) s")
  have f: "foldl (visit via) (a, b) ss = (seen', queue')" using Cons.prems v by simp
  have IH: "set seen' = set a \<union> fst ` set ss" "set b \<subseteq> set queue'" "set seen' - set a \<subseteq> fst ` set queue'"
    "\<forall>x w. (x, w) \<in> set queue' \<longrightarrow> (x, w) \<in> set b \<or> (\<exists>q. (x, q) \<in> set ss \<and> w = via @ [q])"
    using Cons.IH [OF f] by (blast, blast, blast, blast)
  have sb: "set a = insert n (set seen)" "set queue \<subseteq> set b" "set a - set seen \<subseteq> fst ` set b"
    "\<forall>x w. (x, w) \<in> set b \<longrightarrow> (x, w) \<in> set queue \<or> x = n \<and> w = via @ [r]"
    using v by (simp_all add: s visit_def split: if_splits) auto
  have "set seen' = set seen \<union> fst ` set (s # ss)" using IH(1) sb(1) by (simp add: s)
  moreover have "set queue \<subseteq> set queue'" using IH(2) sb(2) by simp
  moreover have "set seen' - set seen \<subseteq> fst ` set queue'" using IH(3) sb(3) image_mono [OF IH(2), of fst] by blast
  moreover have "\<forall>x w. (x, w) \<in> set queue' \<longrightarrow> (x, w) \<in> set queue \<or> (\<exists>q. (x, q) \<in> set (s # ss) \<and> w = via @ [q])"
  proof (intro allI impI)
    fix x w assume "(x, w) \<in> set queue'"
    then consider "(x, w) \<in> set queue" | "x = n" "w = via @ [r]" | q where "(x, q) \<in> set ss" "w = via @ [q]"
      using IH(4) sb(4) by blast
    then show "(x, w) \<in> set queue \<or> (\<exists>q. (x, q) \<in> set (s # ss) \<and> w = via @ [q])"
    proof cases
      case 2 then show ?thesis by (intro disjI2 exI [of _ r]) (simp add: s)
    next
      case (3 q) then show ?thesis by (intro disjI2 exI [of _ q]) simp
    qed simp
  qed
  ultimately show ?case by blast
qed auto

lemma path_loop_exact:
  assumes "start \<in> set seen" "\<And>n v. (n, v) \<in> set queue \<Longrightarrow> walk edges start v n"
    "\<And>n m. n \<in> set seen \<Longrightarrow> n \<notin> fst ` set queue \<Longrightarrow> n \<noteq> goal \<and> ((n, m) \<in> graph edges \<longrightarrow> m \<in> set seen)"
  shows "case path_loop edges goal seen queue of Some via \<Rightarrow> walk edges start via goal
     | None \<Rightarrow> (start, goal) \<notin> (graph edges)\<^sup>*"
  using assms
proof (induction edges goal seen queue rule: path_loop.induct)
  case (1 edges goal seen)
  have "n \<in> set seen" if "(start, n) \<in> (graph edges)\<^sup>*" for n
    using that by induction (use 1 in auto)
  then have "(start, goal) \<notin> (graph edges)\<^sup>*" using 1(3) [of goal] by fastforce
  then show ?case by simp
next
  case (2 edges goal seen node via rest)
  show ?case
  proof (cases "node = goal")
    case True
    with 2(3) [of node via] show ?thesis by simp
  next
    case False
    obtain seen' queue' where f: "foldl (visit via) (seen, rest) (followers edges node) = (seen', queue')"
      by (cases "foldl (visit via) (seen, rest) (followers edges node)")
    have r: "set seen' = set seen \<union> fst ` set (followers edges node)" "set rest \<subseteq> set queue'"
      "set seen' - set seen \<subseteq> fst ` set queue'"
      using visits_result [OF f] by blast+
    have q: "(n, v) \<in> set rest \<or> (\<exists>r. (n, r) \<in> set (followers edges node) \<and> v = via @ [r])" if "(n, v) \<in> set queue'" for n v
      using visits_result [OF f] that by blast
    have "case path_loop edges goal seen' queue' of Some v \<Rightarrow> walk edges start v goal
        | None \<Rightarrow> (start, goal) \<notin> (graph edges)\<^sup>*"
    proof (rule "2.IH" [OF False refl f [symmetric]])
      show "start \<in> set seen'" using r(1) 2(2) by blast
      show "walk edges start v n" if nv: "(n, v) \<in> set queue'" for n v
      proof -
        consider "(n, v) \<in> set rest" | r where "(node, n, r) \<in> set edges" "v = via @ [r]"
          using q [of n v] nv followers_iff by blast
        then show ?thesis
        proof cases
          case 1 then show ?thesis using 2(3) by simp
        next
          case (2 r) then show ?thesis using walk_snoc [OF "2.prems"(2) [of node via]] by simp
        qed
      qed
      show "n \<noteq> goal \<and> ((n, m) \<in> graph edges \<longrightarrow> m \<in> set seen')" if n: "n \<in> set seen'" "n \<notin> fst ` set queue'" for n m
      proof (cases "n = node")
        case True
        have "m \<in> set seen'" if "(node, m) \<in> graph edges"
          using that r(1) by (force simp: graph_def followers_iff image_iff)
        with True False show ?thesis by blast
      next
        case other: False
        from n r(3) have "n \<in> set seen" by blast
        moreover have "n \<notin> fst ` set ((node, via) # rest)" using n(2) r(2) other by auto
        ultimately show ?thesis using 2(4) [of n m] r(1) by blast
      qed
    qed
    with False f show ?thesis by simp
  qed
qed

text \<open>
  C13. The search for a cycle is exact: it finds a chain of replications from one database to another exactly
  when the replications connect them, and the chain it names is one that leads there, in order.
\<close>

theorem path_exact:
  "(path edges start goal = None \<longleftrightarrow> (start, goal) \<notin> (graph edges)\<^sup>*) \<and>
   (case path edges start goal of None \<Rightarrow> True | Some via \<Rightarrow> walk edges start via goal)"
proof -
  have "case path edges start goal of Some via \<Rightarrow> walk edges start via goal | None \<Rightarrow> (start, goal) \<notin> (graph edges)\<^sup>*"
    unfolding path_def by (rule path_loop_exact) auto
  then show ?thesis using walk_reaches by (auto split: option.splits)
qed

lemma path_none: "path edges start goal = None \<longleftrightarrow> (start, goal) \<notin> (graph edges)\<^sup>*"
  using path_exact by blast


section \<open>Names and claims\<close>

text \<open>\<open>_names\<close>: what status records wins over what is derived.\<close>

definition recorded_names :: "repl_status \<Rightarrow> string \<Rightarrow> string \<Rightarrow> string \<Rightarrow> replication_names_t m" where
  "recorded_names existing namespace name role_prefix =
     bind_m (asks sha_of) (\<lambda>h. case replication_names h namespace name role_prefix of
       Inl e \<Rightarrow>
         if instance_of e Value_Error
         then raise_m ConfigurationError (''cannot name this replication'' @ CHR 0x27 # ''s objects: '' @ err_text e)
         else throw_m e
     | Inr derived \<Rightarrow> ret_m
         \<lparr>rp_publication = or_text (Some (rt_publication existing)) (rp_publication derived),
          rp_subscription = or_text (Some (rt_subscription existing)) (rp_subscription derived),
          rp_login = (if created_of (rt_created existing) ''login'' then or_text (Some (rt_login existing)) (rp_login derived)
                      else rp_login derived),
          rp_secret = (if created_of (rt_created existing) ''secret''
                       then or_text (map_option cs_name (rt_credentials existing)) (rp_secret derived)
                       else rp_secret derived)\<rparr>)"

text \<open>Age, then namespace, then name: tuples of texts compare in this order.\<close>

definition rank_of :: "replication_obj \<Rightarrow> string \<times> string \<times> string" where
  "rank_of other = (lo_created_at other, lo_namespace other, lo_name other)"

definition own_rank :: "repl_obj \<Rightarrow> string \<times> string \<times> string" where
  "own_rank obj = (rb_created_at obj, rb_namespace obj, rb_name obj)"

definition claim_of ::
  "repl_obj \<Rightarrow> replication_end \<Rightarrow> (string \<times> string) list \<Rightarrow> replication_obj \<Rightarrow> (string \<times> string) list m" where
  "claim_of obj target claims other =
     (if own_rank obj \<le> rank_of other \<or> lo_deleting other then ret_m claims
      else if lo_target_database other \<noteq> Some (en_database target) \<or> \<not> given (lo_target_instance other) then ret_m claims
      else bind_m (catch_m ConfigurationError
             (bind_m (load_instance_spec (the (lo_target_instance other)) []) (\<lambda>(inst_spec, _). ret_m (Some inst_spec)))
             (\<lambda>_. ret_m None)) (\<lambda>found. ret_m (case found of
           None \<Rightarrow> claims
         | Some inst_spec \<Rightarrow>
             if (py_lower (is_host inst_spec), is_port inst_spec) \<noteq> end_server target then claims
             else foldl (\<lambda>cs table. if table \<in> set (dkeys cs) then cs
                    else dset cs table (lo_namespace other @ ''/'' @ lo_name other)) claims (lo_published other))))"

definition claims_elsewhere :: "repl_obj \<Rightarrow> replication_end \<Rightarrow> (string \<times> string) list m" where
  "claims_elsewhere obj target = bind_m list_replications (\<lambda>others. fold_m (claim_of obj target) [] others)"

section \<open>The first step\<close>

record resolved_replication =
  rd_spec :: replication_spec
  rd_source :: replication_end
  rd_target :: replication_end
  rd_source_db :: database_spec
  rd_source_instance :: instance_spec

definition resolve_replication :: "repl_obj \<Rightarrow> resolved_replication m" where
  "resolve_replication obj =
     (let namespace = rb_namespace obj; name = rb_name obj
      in bind_m (parse_replication obj) (\<lambda>spec.
         bind_m (resolve_end (re_source_db spec) namespace ''source'' namespace) (\<lambda>(source, source_db, source_instance).
         bind_m (resolve_end (re_target_db spec) namespace ''target'' namespace) (\<lambda>(target, _, _).
         then_m (if end_server source = end_server target
                 then raise_m ConfigurationError (''source '' @ end_display source @ '' and target '' @ end_display target @
                        '' are on the same '' @ ''server ('' @ en_host source @ '':'' @ show_int (en_port source) @
                        ''); replication within one server '' @ ''is not supported'')
                 else ret_m ())
        (then_m (refuse_moved_ends (rb_status obj) source target)
        (then_m (require_managed_schemas spec source source_db)
        (then_m (refuse_cycles namespace name source target)
          (ret_m \<lparr>rd_spec = spec, rd_source = source, rd_target = target, rd_source_db = source_db,
                  rd_source_instance = source_instance\<rparr>))))))))"

lemma first_claim:
  "map_of (foldl (\<lambda>cs table. if table \<in> set (dkeys cs) then cs else dset cs table who) claims ts) t = Some owner \<Longrightarrow>
   map_of claims t = Some owner \<or> owner = who \<and> t \<in> set ts"
proof (induction ts arbitrary: claims)
  case (Cons a ts)
  let ?cs = "if a \<in> set (dkeys claims) then claims else dset claims a who"
  from Cons.IH [of ?cs] Cons.prems have "map_of ?cs t = Some owner \<or> owner = who \<and> t \<in> set ts" by simp
  then show ?case by (auto simp: map_of_dset split: if_splits)
qed simp

lemma fold_claims:
  assumes "fold_m (claim_of obj target) claims others E w = (Inr result, u)" "map_of result t = Some owner"
  shows "map_of claims t = Some owner \<or> (\<exists>other \<in> set others. owner = lo_namespace other @ ''/'' @ lo_name other \<and>
    rank_of other < own_rank obj \<and> \<not> lo_deleting other \<and> t \<in> set (lo_published other) \<and>
    lo_target_database other = Some (en_database target))"
  using assms
proof (induction others arbitrary: claims w)
  case Nil then show ?case by (simp add: run_simps)
next
  case (Cons other others)
  then obtain cs w' where step: "claim_of obj target claims other E w = (Inr cs, w')"
    and rest: "fold_m (claim_of obj target) cs others E w' = (Inr result, u)"
    by (auto simp: bind_run split: prod.splits sum.splits)
  have here: "map_of cs t = Some owner \<Longrightarrow> map_of claims t = Some owner \<or>
      owner = lo_namespace other @ ''/'' @ lo_name other \<and> rank_of other < own_rank obj \<and> \<not> lo_deleting other \<and>
      t \<in> set (lo_published other) \<and> lo_target_database other = Some (en_database target)"
    using step unfolding claim_of_def
    by (auto simp: run_simps not_le split: if_splits prod.splits sum.splits option.splits dest!: first_claim)
  from Cons.IH [OF rest Cons.prems(2)] here show ?case by auto
qed

text \<open>
  A table is left to another replication only when that one is older (by creation time, then namespace and
  name), still exists, records the table as published and has the same target database. As ages are totally
  ordered, two replications never both leave a table to each other.
\<close>

theorem claims_from_older:
  assumes "claims_elsewhere obj target E w = (Inr claims, u)" "says_replications E (trace w) = Inr others"
    "map_of claims t = Some owner"
  shows "\<exists>other \<in> set others. owner = lo_namespace other @ ''/'' @ lo_name other \<and>
    rank_of other < own_rank obj \<and> \<not> lo_deleting other \<and> t \<in> set (lo_published other) \<and>
    lo_target_database other = Some (en_database target)"
proof -
  from assms(1,2) obtain w' where "fold_m (claim_of obj target) [] others E w' = (Inr claims, u)"
    by (auto simp: claims_elsewhere_def list_replications_def k8s_ask_def run_simps split: prod.splits sum.splits)
  from fold_claims [OF this assms(3)] show ?thesis by simp
qed

section \<open>What the first step guarantees\<close>

text \<open>Reads of the Kubernetes API.\<close>

fun kubernetes_read :: "event \<Rightarrow> bool" where
  "kubernetes_read (K8s r) = read_only (K8s r)"
| "kubernetes_read _ = False"

lemma list_replications_reads: "emits E kubernetes_read list_replications"
  unfolding list_replications_def by (intro emits_rules) simp

lemma load_instance_reads: "emits E kubernetes_read (load_instance_spec n ns)"
  unfolding load_instance_spec_def get_instance_def rename_not_found_def by (intro emits_rules) simp_all

lemma resolve_end_reads: "emits E kubernetes_read (resolve_end ref ns side gate)"
  unfolding resolve_end_def get_database_object_def rename_not_found_def Let_def
  by (intro emits_rules load_instance_reads) simp_all

lemma refuse_cycles_reads: "emits E kubernetes_read (refuse_cycles ns n source target)"
  unfolding refuse_cycles_def collect_edges_def edge_of_def
  by (intro emits_rules list_replications_reads resolve_end_reads)

text \<open>
  Resolving a replication contacts no server and changes nothing: whatever the environment answers, the first step
  only reads the Kubernetes API, so what can never work is refused before anything exists.
\<close>

theorem resolution_reads_kubernetes_only: "emits E kubernetes_read (resolve_replication obj)"
  unfolding resolve_replication_def parse_replication_def Let_def refuse_moved_ends_def refuse_moved_end_def
    require_managed_schemas_def
  by (intro emits_rules resolve_end_reads refuse_cycles_reads)

lemma resolve_end_gives:
  "gives E (\<lambda>(e, ds, i). (gate \<noteq> [] \<longrightarrow> permits_namespace i gate) \<and> en_host e = is_host i \<and> en_port e = is_port i \<and>
     en_instance e = db_instance ds \<and> validate_database_spec ds = Inr ()) (resolve_end ref ns side gate)"
proof -
  have l: "gives E (\<lambda>(i, g). gate \<noteq> [] \<longrightarrow> permits_namespace i gate) (load_instance_spec n gate)" for n
    using load_instance_gives [of E gate n] by (simp add: gives_def case_prod_unfold)
  show ?thesis
    unfolding resolve_end_def Let_def
    by (rule gives_bindI [OF gives_True], rule gives_bindI [OF gives_True])
      (auto intro!: gives_ret gives_raise gives_bindI [OF l] split: sum.split
        simp: bind_r_eq_Inr parse_database_spec_def model_validate_ok)
qed

text \<open>Objects exist, and this end was recorded elsewhere.\<close>

definition moved :: "repl_status \<Rightarrow> replication_end \<Rightarrow> string \<Rightarrow> string \<Rightarrow> bool" where
  "moved st e inst database \<longleftrightarrow>
     any_created (rt_created st) \<and> inst \<noteq> [] \<and> database \<noteq> [] \<and> (inst, database) \<noteq> (en_instance e, en_database e)"

lemma unmanaged_none: "unmanaged_schemas spec ds = [] \<longleftrightarrow> selected_schemas spec \<subseteq> set (map sc_name (resolve_schemas ds))"
  by (auto simp: unmanaged_schemas_def selected_schemas_def filter_empty_conv)


section \<open>Examples\<close>

definition sample_end :: replication_end where
  "sample_end = \<lparr>en_namespace = ''bi'', en_name = ''reports'', en_instance = ''main'', en_database = ''orders'',
     en_host = ''DB.example'', en_port = 5432\<rparr>"

definition sample_repl_status :: repl_status where
  "sample_repl_status = \<lparr>rt_source_instance = [], rt_source_database = [], rt_publication = [], rt_slot = [], rt_login = [],
     rt_target_instance = [], rt_target_database = [], rt_subscription = [], rt_subscription_oid = None, rt_created = [],
     rt_granted = [], rt_credentials = None, rt_fingerprint = None, rt_row_filters = [],
     rt_health = \<lparr>pr_inactive_since = None, pr_apply_errors = None, pr_sync_errors = None\<rparr>, rt_state = None, rt_conditions = []\<rparr>"

definition sample_repl :: repl_obj where
  "sample_repl = \<lparr>rb_namespace = ''team-a'', rb_name = ''copy'', rb_created_at = ''2025'', rb_generation = 1,
     rb_spec = Inr sample_replication, rb_enabled = True, rb_password_key = None, rb_status = sample_repl_status\<rparr>"

definition older_replication :: replication_obj where
  "older_replication = \<lparr>lo_namespace = ''bi'', lo_name = ''first'', lo_source = \<lparr>rr_name = Some ''orders'', rr_namespace = None\<rparr>,
     lo_target = \<lparr>rr_name = Some ''reports'', rr_namespace = None\<rparr>, lo_spec = Inr sample_replication, lo_created_at = ''2024'',
     lo_deleting = False, lo_target_instance = Some ''main'', lo_target_database = Some ''orders'',
     lo_published = [''app.events'']\<rparr>"


theorem claims_from_older_witness:
  "list_ex (\<lambda>other. ''bi/first'' = lo_namespace other @ ''/'' @ lo_name other \<and> rank_of other < own_rank sample_repl \<and>
     \<not> lo_deleting other \<and> ''app.events'' \<in> set (lo_published other) \<and>
     lo_target_database other = Some (en_database sample_end)) [older_replication]"
proof -
  define E where "E = sample_env\<lparr>says_instance := \<lambda>h n. Inr \<lparr>io_spec = Inr sample_instance, io_generation = 1\<rparr>,
    says_replications := \<lambda>h. Inr [older_replication]\<rparr>"
  have load: "load_instance_spec ''main'' [] E v = (Inr (sample_instance, 1), v\<lparr>trace := trace v @ [K8s (K_Get_Instance ''main'')]\<rparr>)" for v
    by (simp add: E_def load_instance_spec_def get_instance_def rename_not_found_def k8s_ask_def run_simps sample_instance_accepted)
  have listed: "list_replications E v = (Inr [older_replication], v\<lparr>trace := trace v @ [K8s K_List_Replications]\<rparr>)" for v
    by (simp add: E_def list_replications_def k8s_ask_def run_simps)
  have young: "\<not> own_rank sample_repl \<le> rank_of older_replication" by code_simp
  have old: "\<not> lo_deleting older_replication" "lo_target_database older_replication = Some (en_database sample_end)"
    "lo_target_instance older_replication = Some ''main''" "lo_published older_replication = [''app.events'']"
    "lo_namespace older_replication = ''bi''" "lo_name older_replication = ''first''"
    by (simp_all add: older_replication_def sample_end_def)
  have there: "(py_lower (is_host sample_instance), is_port sample_instance) = end_server sample_end" by code_simp
  have "fst (claims_elsewhere sample_repl sample_end E empty_world) = Inr [(''app.events'', ''bi/first'')]"
    using young there by (simp add: claims_elsewhere_def claim_of_def run_simps load listed old)
  then obtain u where "claims_elsewhere sample_repl sample_end E empty_world = (Inr [(''app.events'', ''bi/first'')], u)"
    by (metis prod.collapse)
  from claims_from_older [OF this, of "[older_replication]" "''app.events''" "''bi/first''"]
  show ?thesis by (simp add: E_def)
qed

end
