(* ===== verification/Logical.thy ===== *)
theory Logical
  imports PgDatabase
begin

text \<open>
  \<open>postgres/replication.py\<close>: what a server can take part in as one end of a logical replication. The settings are
  one row; the managing role's rights are asked for one by one, and only those that exist.
\<close>

definition MIN_REPLICATION_VERSION :: int where
  "MIN_REPLICATION_VERSION = 16"

datatype subscription_privilege = Granted | Assumed | Unavailable

datatype replication_grant = Grant_Rds_Replication | Grant_Attribute | Grant_None

record logical_info =
  li_major_version :: int
  li_current_user :: string
  li_wal_level :: string
  li_max_slots :: int
  li_slots_in_use :: int
  li_max_senders :: int
  li_keep_size :: string
  li_create_subscription :: subscription_privilege
  li_replication_grant :: replication_grant
  li_is_rds :: bool

definition wal_is_logical :: "logical_info \<Rightarrow> bool" where
  "wal_is_logical i \<longleftrightarrow> li_wal_level i = ''logical''"

definition wal_issue :: "logical_info \<Rightarrow> string" where
  "wal_issue i =
     (if li_is_rds i
      then ''wal_level is '' @ li_wal_level i @ ''; set rds.logical_replication '' @
           ''= 1 in the DB parameter group and reboot (static parameter)''
      else ''wal_level is '' @ li_wal_level i @ ''; set wal_level = logical '' @ ''and restart the server'')"

definition logical_issues :: "logical_info \<Rightarrow> string list" where
  "logical_issues i =
     (if li_major_version i < MIN_REPLICATION_VERSION
      then [''PostgreSQL '' @ show_int (li_major_version i) @ '' is below the '' @
            show_int MIN_REPLICATION_VERSION @ '' that replication requires''] else []) @
     (if \<not> wal_is_logical i then [wal_issue i] else []) @
     (if li_max_senders i = 0 then [''max_wal_senders is 0, so no subscriber can connect''] else []) @
     (if wal_is_logical i \<and> li_max_slots i \<le> li_slots_in_use i
      then [''all '' @ show_int (li_max_slots i) @ '' replication slots are in use''] else []) @
     (if li_create_subscription i = Unavailable
      then [li_current_user i @ '' cannot create subscriptions (needs '' @
            ''pg_create_subscription or superuser), so this server cannot '' @ ''be a replication target''] else []) @
     (if li_replication_grant i = Grant_None
      then [li_current_user i @ '' can neither grant rds_replication nor '' @
            ''confer REPLICATION, so replications from this server need a '' @
            ''pre-provisioned login (source.credentialsSecretRef)''] else [])"

fun privilege_text :: "subscription_privilege \<Rightarrow> string" where
  "privilege_text Granted = ''Granted''"
| "privilege_text Assumed = ''Assumed''"
| "privilege_text Unavailable = ''Unavailable''"

fun replication_grant_text :: "replication_grant \<Rightarrow> string" where
  "replication_grant_text Grant_Rds_Replication = ''rds_replication''"
| "replication_grant_text Grant_Attribute = ''attribute''"
| "replication_grant_text Grant_None = ''none''"

definition logical_status :: "logical_info \<Rightarrow> json" where
  "logical_status i = J_Obj
     [(''walLevel'', J_Str (li_wal_level i)), (''maxReplicationSlots'', J_Int (li_max_slots i)),
      (''replicationSlotsInUse'', J_Int (li_slots_in_use i)), (''maxWalSenders'', J_Int (li_max_senders i)),
      (''maxSlotWalKeepSize'', J_Str (li_keep_size i)),
      (''createSubscription'', J_Str (privilege_text (li_create_subscription i))),
      (''replicationGrant'', J_Str (replication_grant_text (li_replication_grant i))),
      (''issues'', J_List (map J_Str (logical_issues i)))]"

definition subscription_privilege_m :: "conn \<Rightarrow> server_info \<Rightarrow> subscription_privilege m" where
  "subscription_privilege_m c server =
     (if sv_is_superuser server then ret_m Granted
      else bind_m (if MIN_REPLICATION_VERSION \<le> major_version server then fetch says_bool c Q_Can_Subscribe else ret_m False)
        (\<lambda>may. ret_m (if may then Granted else if sv_is_rds_superuser server then Assumed else Unavailable)))"

definition replication_grant_m :: "conn \<Rightarrow> server_info \<Rightarrow> bool \<Rightarrow> replication_grant m" where
  "replication_grant_m c server has_replication_attribute =
     bind_m (fetch says_bool c Q_Rds_Replication_Known) (\<lambda>known.
     bind_m (if known then fetch says_bool c Q_Can_Grant_Rds_Replication else ret_m False) (\<lambda>grantable.
     ret_m (if grantable then Grant_Rds_Replication
            else if sv_is_superuser server \<or> (has_replication_attribute \<and> sv_can_create_role server) then Grant_Attribute
            else Grant_None)))"

definition describe_logical_replication :: "conn \<Rightarrow> server_info \<Rightarrow> logical_info m" where
  "describe_logical_replication c server =
     bind_m (fetch says_logical c Q_Logical_Settings) (\<lambda>row. case row of
       None \<Rightarrow> raise_m (Other_Exception ''RuntimeError'') ''logical replication settings query returned nothing''
     | Some s \<Rightarrow>
         bind_m (subscription_privilege_m c server) (\<lambda>privilege.
         bind_m (replication_grant_m c server (ls_has_replication s)) (\<lambda>grant.
         ret_m \<lparr>li_major_version = major_version server, li_current_user = sv_current_user server,
                li_wal_level = ls_wal_level s, li_max_slots = ls_max_slots s, li_slots_in_use = ls_slots_in_use s,
                li_max_senders = ls_max_senders s, li_keep_size = ls_keep_size s, li_create_subscription = privilege,
                li_replication_grant = grant, li_is_rds = ls_is_rds s\<rparr>)))"

lemma read_only_logical: "emits E read_only (describe_logical_replication c sv)"
  unfolding describe_logical_replication_def subscription_privilege_m_def replication_grant_m_def
  by (intro emits_rules; simp)

section \<open>What the issues say\<close>

text \<open>
  A server is reported without issues exactly when it can be either end of a replication: new enough, WAL
  logged logically, senders allowed, a slot free, subscriptions allowed, and a login that may stream.
\<close>

lemma no_logical_issues:
  "logical_issues i = [] \<longleftrightarrow>
     MIN_REPLICATION_VERSION \<le> li_major_version i \<and> wal_is_logical i \<and> li_max_senders i \<noteq> 0 \<and>
     li_slots_in_use i < li_max_slots i \<and> li_create_subscription i \<noteq> Unavailable \<and> li_replication_grant i \<noteq> Grant_None"
  by (auto simp: logical_issues_def)

text \<open>The pass takes the one issue that names \<open>wal_level\<close>; there is one, unless the managing role is itself
  called so.\<close>

lemma starts_with_before_blank: "CHR '' '' \<notin> set p \<Longrightarrow> starts_with p (u @ CHR '' '' # t) = starts_with p u"
proof (induction p arbitrary: u)
  case (Cons c p)
  then show ?case by (cases u) auto
qed simp

lemma wal_issue_found:
  assumes "\<not> wal_is_logical i" "\<not> starts_with ''wal_level'' (li_current_user i)"
  shows "filter (starts_with ''wal_level'') (logical_issues i) = [wal_issue i]"
proof -
  have u: "\<not> starts_with ''wal_level'' (li_current_user i @ CHR '' '' # t)" for t
    using assms(2) by (subst starts_with_before_blank) simp_all
  show ?thesis
    using assms(1) u by (simp add: logical_issues_def wal_issue_def)
qed

end
