(* ===== verification/Base64.thy ===== *)
theory Base64
  imports Prelude
begin

text \<open>
  The base64 codec of the standard library as the operator uses it: \<open>b64encode\<close>, and \<open>b64decode\<close> in its
  strict mode (\<open>validate=True\<close>), which fails on anything but alphabet characters in groups of four with
  the padding at the end. Bytes are naturals below 256.
\<close>

definition b64_char :: "nat \<Rightarrow> char" where
  "b64_char n =
     (if n < 26 then char_of (65 + n) else if n < 52 then char_of (71 + n)
      else if n < 62 then char_of (n - 4) else if n = 62 then CHR ''+'' else CHR ''/'')"

definition b64_value :: "char \<Rightarrow> nat option" where
  "b64_value c = (let n = code c in
     if 65 \<le> n \<and> n \<le> 90 then Some (n - 65)
     else if 97 \<le> n \<and> n \<le> 122 then Some (n - 71)
     else if 48 \<le> n \<and> n \<le> 57 then Some (n + 4)
     else if n = 43 then Some 62 else if n = 47 then Some 63 else None)"

fun b64encode :: "nat list \<Rightarrow> string" where
  "b64encode [] = []"
| "b64encode [a] = [b64_char (a div 4), b64_char (a mod 4 * 16), CHR ''='', CHR ''='']"
| "b64encode [a, b] =
     [b64_char (a div 4), b64_char (a mod 4 * 16 + b div 16), b64_char (b mod 16 * 4), CHR ''='']"
| "b64encode (a # b # c # bs) =
     b64_char (a div 4) # b64_char (a mod 4 * 16 + b div 16) # b64_char (b mod 16 * 4 + c div 64) #
     b64_char (c mod 64) # b64encode bs"

fun b64decode :: "string \<Rightarrow> nat list option" where
  "b64decode [] = Some []"
| "b64decode (w # x # y # z # rest) =
     (case (b64_value w, b64_value x) of
        (Some v0, Some v1) \<Rightarrow>
          (case b64_value y of
             None \<Rightarrow> (if y = CHR ''='' \<and> z = CHR ''='' \<and> rest = [] then Some [v0 * 4 + v1 div 16] else None)
           | Some v2 \<Rightarrow>
               (case b64_value z of
                  None \<Rightarrow> (if z = CHR ''='' \<and> rest = []
                           then Some [v0 * 4 + v1 div 16, v1 mod 16 * 16 + v2 div 4] else None)
                | Some v3 \<Rightarrow>
                    (case b64decode rest of
                       None \<Rightarrow> None
                     | Some bs \<Rightarrow> Some ((v0 * 4 + v1 div 16) # (v1 mod 16 * 16 + v2 div 4) #
                                       (v2 mod 4 * 64 + v3) # bs))))
      | _ \<Rightarrow> None)"
| "b64decode _ = None"

lemma code_char_lt: "n < 256 \<Longrightarrow> code (char_of n) = n"
  by (rule code_char_of)

lemma b64_char_code:
  "code (b64_char n) =
     (if n < 26 then 65 + n else if n < 52 then 71 + n else if n < 62 then n - 4 else if n = 62 then 43 else 47)"
  by (simp add: b64_char_def code_char_lt) (simp add: code_def)

lemma b64_char_ok: "b64_char n \<noteq> CHR '':'' \<and> b64_char n \<noteq> CHR ''$'' \<and> code (b64_char n) < 128"
proof -
  have "code (b64_char n) \<noteq> 58 \<and> code (b64_char n) \<noteq> 36 \<and> code (b64_char n) < 128"
    by (auto simp: b64_char_code)
  moreover have "code CHR '':'' = 58" "code CHR ''$'' = 36" by code_simp+
  ultimately show ?thesis by metis
qed

lemma b64_value_char [simp]: "n < 64 \<Longrightarrow> b64_value (b64_char n) = Some n"
  by (auto simp: b64_value_def b64_char_code Let_def)

lemma b64_value_pad [simp]: "b64_value CHR ''='' = None"
  by (simp add: b64_value_def code_def)

lemma byte_bounds: "b < 256 \<Longrightarrow> b div 16 < (16::nat)" "b < 256 \<Longrightarrow> b div 64 < (4::nat)" "b < 256 \<Longrightarrow> b div 4 < (64::nat)"
  by (simp_all add: less_mult_imp_div_less)

lemma split_low: "q < k \<Longrightarrow> (m * k + q) div k = (m::nat)" "q < k \<Longrightarrow> (m * k + q) mod k = (q::nat)"
  by simp_all

lemma byte_parts:
  fixes a b c :: nat
  shows "a mod 4 * 16 < 64" "b < 256 \<Longrightarrow> a mod 4 * 16 + b div 16 < 64"
    "b mod 16 * 4 < 64" "c < 256 \<Longrightarrow> b mod 16 * 4 + c div 64 < 64" "c mod 64 < 64"
  using mod_less_divisor [of 4 a] mod_less_divisor [of 16 b] mod_less_divisor [of 64 c]
    byte_bounds(1) [of b] byte_bounds(2) [of c]
  by simp_all

lemma low_bits: "b < 256 \<Longrightarrow> (a mod 4 * 16 + b div 16) div 16 = a mod (4::nat)"
  "b < 256 \<Longrightarrow> (a mod 4 * 16 + b div 16) mod 16 = b div (16::nat)"
  "c < 256 \<Longrightarrow> (b mod 16 * 4 + c div 64) div 4 = b mod (16::nat)"
  "c < 256 \<Longrightarrow> (b mod 16 * 4 + c div 64) mod 4 = c div (64::nat)"
  by (rule split_low, simp add: byte_bounds)+

lemma b64_roundtrip: "\<forall>b \<in> set bs. b < 256 \<Longrightarrow> b64decode (b64encode bs) = Some bs"
proof (induction bs rule: b64encode.induct)
  case (2 a)
  then show ?case by (simp add: byte_parts byte_bounds)
next
  case (3 a b)
  then show ?case by (simp add: byte_parts byte_bounds low_bits)
next
  case (4 a b c bs)
  then show ?case by (simp add: byte_parts byte_bounds low_bits)
qed simp

lemma b64encode_inject:
  "\<forall>b \<in> set xs. b < 256 \<Longrightarrow> \<forall>b \<in> set ys. b < 256 \<Longrightarrow> b64encode xs = b64encode ys \<longleftrightarrow> xs = ys"
  using b64_roundtrip by (metis option.inject)

lemma b64encode_chars: "c \<in> set (b64encode bs) \<Longrightarrow> c \<noteq> CHR '':'' \<and> c \<noteq> CHR ''$'' \<and> code c < 128"
proof (induction bs rule: b64encode.induct)
  case (2 a)
  then show ?case using b64_char_ok by (auto simp: code_def)
next
  case (3 a b)
  then show ?case using b64_char_ok by (auto simp: code_def)
next
  case (4 a b c bs)
  then show ?case using b64_char_ok by auto
qed simp

end
