(* ===== verification/Secrets.thy ===== *)
theory Secrets
  imports Connection Base64
begin

text \<open>
  \<open>k8s/secrets.py\<close>: generated passwords, the labels of what the operator creates, applying and deleting a
  Secret, and the entries of a credentials Secret with its connection URIs. The lemmas say that a converged
  Secret is not written, that a write keeps what others put there, and that the URIs read back to the
  credentials whatever characters they have.
\<close>

section \<open>Passwords\<close>

text \<open>\<open>string.ascii_letters + string.digits + "-_.~"\<close>\<close>

definition PASSWORD_ALPHABET :: string where
  "PASSWORD_ALPHABET =
     ''abcdefghijklmnopqrstuvwxyzABCDEFGHIJKLMNOPQRSTUVWXYZ'' @ ''0123456789'' @ ''-_.~''"

text \<open>\<open>secrets.choice\<close> reduces a draw to an index.\<close>

definition generate_password :: "int \<Rightarrow> string m" where
  "generate_password n =
     (if n < 16 then raise_m Value_Error ''password length must be at least 16 characters''
      else sample_m (\<lambda>E h. map (\<lambda>i. PASSWORD_ALPHABET ! (random_choice E h i mod length PASSWORD_ALPHABET)) [0..<nat n]))"

section \<open>Labels\<close>

definition LABEL_MANAGED_BY :: string where "LABEL_MANAGED_BY = ''app.kubernetes.io/managed-by''"
definition LABEL_MANAGED_BY_VALUE :: string where "LABEL_MANAGED_BY_VALUE = ''pg-operator''"
definition LABEL_OWNER_KIND :: string where "LABEL_OWNER_KIND = ''postgres.ourcommunity.com.au/owner-kind''"
definition LABEL_OWNER_NAME :: string where "LABEL_OWNER_NAME = ''postgres.ourcommunity.com.au/owner-name''"
definition LABEL_OWNER_NAMESPACE :: string where "LABEL_OWNER_NAMESPACE = ''postgres.ourcommunity.com.au/owner-namespace''"
definition LABEL_INSTANCE :: string where "LABEL_INSTANCE = ''postgres.ourcommunity.com.au/instance''"

lemmas label_defs = LABEL_MANAGED_BY_def LABEL_MANAGED_BY_VALUE_def LABEL_OWNER_KIND_def LABEL_OWNER_NAME_def
  LABEL_OWNER_NAMESPACE_def LABEL_INSTANCE_def

definition managed_labels ::
  "string \<Rightarrow> string \<Rightarrow> string \<Rightarrow> string option \<Rightarrow> (string \<times> string) list \<Rightarrow> (string \<times> string) list" where
  "managed_labels owner_kind owner_name owner_namespace inst extra =
     (let labels = [(LABEL_MANAGED_BY, LABEL_MANAGED_BY_VALUE), (LABEL_OWNER_KIND, owner_kind),
            (LABEL_OWNER_NAME, owner_name), (LABEL_OWNER_NAMESPACE, owner_namespace)];
          labels = (if given inst then dset labels LABEL_INSTANCE (the inst) else labels)
      in dupdate labels extra)"

section \<open>Applying a Secret\<close>

text \<open>\<open>try: m except Exception as exc: if not is_not_found(exc): raise\<close>; \<open>None\<close> is the 404.\<close>

definition if_found :: "'a m \<Rightarrow> 'a option m" where
  "if_found m = catch_m Base_Exception (bind_m m (\<lambda>x. ret_m (Some x))) (\<lambda>e. if is_not_found e then ret_m None else throw_m e)"

definition b64_text :: "string \<Rightarrow> string" where
  "b64_text value = b64encode (utf8 value)"

text \<open>\<open>existing.data\<close> as the API serves it.\<close>

definition current_data :: "secret_obj \<Rightarrow> (string \<times> string) list" where
  "current_data secret = map (\<lambda>(k, v). (k, b64encode v)) (so_data secret)"

text \<open>\<open>all(current.get(key) == value for key, value in wanted.items())\<close>\<close>

definition all_match :: "(string \<times> string) list \<Rightarrow> (string \<times> string) list \<Rightarrow> bool" where
  "all_match current wanted \<longleftrightarrow> list_all (\<lambda>(key, v). map_of current key = Some v) wanted"

definition secret_matches :: "secret_obj \<Rightarrow> secret_body \<Rightarrow> bool" where
  "secret_matches existing body \<longleftrightarrow>
     all_match (current_data existing) (sb_data body) \<and> all_match (so_labels existing) (sb_labels body) \<and>
     all_match (so_annotations existing) (sb_annotations body)"

text \<open>What a create and a patch carry.\<close>

definition managed_body :: "(string \<times> string) list \<Rightarrow> (string \<times> string) list \<Rightarrow> (string \<times> string) list \<Rightarrow> secret_body" where
  "managed_body data labels annotations =
     \<lparr>sb_data = map (\<lambda>(key, v). (key, b64_text v)) data, sb_labels = labels, sb_annotations = annotations\<rparr>"

definition apply_secret ::
  "string \<Rightarrow> string \<Rightarrow> (string \<times> string) list \<Rightarrow> (string \<times> string) list \<Rightarrow> (string \<times> string) list \<Rightarrow> (bool \<times> bool) m" where
  "apply_secret namespace name data labels annotations =
     (let body = managed_body data labels annotations
      in bind_m (if_found (k8s_ask (K_Read_Secret namespace name) (\<lambda>E h. says_secret E h namespace name))) (\<lambda>found.
         case found of
           None \<Rightarrow> then_m (k8s_do (K_Create_Secret namespace name body)) (ret_m (True, True))
         | Some existing \<Rightarrow>
             if secret_matches existing body then ret_m (False, False)
             else then_m (k8s_do (K_Patch_Secret namespace name body)) (ret_m (False, True))))"

definition delete_secret :: "string \<Rightarrow> string \<Rightarrow> bool m" where
  "delete_secret namespace name =
     bind_m (if_found (k8s_do (K_Delete_Secret namespace name))) (\<lambda>r. ret_m (r \<noteq> None))"

section \<open>Credentials\<close>

text \<open>\<open>urllib.parse.quote(text, safe="")\<close>\<close>

definition hex_upper :: "nat \<Rightarrow> char" where
  "hex_upper n = (if n < 10 then char_of (48 + n) else char_of (55 + n))"

definition unreserved :: "nat \<Rightarrow> bool" where
  "unreserved b \<longleftrightarrow> (48 \<le> b \<and> b \<le> 57) \<or> (65 \<le> b \<and> b \<le> 90) \<or> (97 \<le> b \<and> b \<le> 122) \<or>
     b = 45 \<or> b = 46 \<or> b = 95 \<or> b = 126"

definition quote_byte :: "nat \<Rightarrow> string" where
  "quote_byte b = (if unreserved b then [char_of b] else [CHR ''%'', hex_upper (b div 16), hex_upper (b mod 16)])"

definition url_quote :: "string \<Rightarrow> string" where
  "url_quote s = concat (map quote_byte (utf8 s))"

definition connection_keys ::
  "string \<Rightarrow> string \<Rightarrow> string \<Rightarrow> int \<Rightarrow> string \<Rightarrow> string \<Rightarrow> bool \<Rightarrow> (string \<times> string) list" where
  "connection_keys username password host port database ssl_mode include_uri =
     [(''username'', username), (''password'', password), (''host'', host), (''port'', show_int port),
      (''database'', database), (''sslmode'', ssl_mode)] @
     (if include_uri then
        [(''uri'', ''postgresql://'' @ url_quote username @ '':'' @ url_quote password @ ''@'' @ host @ '':'' @
            show_int port @ ''/'' @ database @ ''?sslmode='' @ ssl_mode),
         (''jdbcUri'', ''jdbc:postgresql://'' @ host @ '':'' @ show_int port @ ''/'' @ database @ ''?user='' @
            url_quote username @ ''&password='' @ url_quote password @ ''&sslmode='' @ ssl_mode),
         (''springDatasourceUri'', ''jdbc:postgresql://'' @ host @ '':'' @ show_int port @ ''/'' @ database)]
      else [])"

section \<open>Properties\<close>

lemma if_found_run:
  "if_found m E w = (case m E w of
      (Inl e, u) \<Rightarrow> if is_not_found e then (Inr None, u) else (Inl e, u)
    | (Inr x, u) \<Rightarrow> (Inr (Some x), u))"
  by (auto simp: if_found_def run_simps instance_of_def split: prod.splits sum.splits)

lemma emits_if_found [emits_rules]: "emits E P m \<Longrightarrow> emits E P (if_found m)"
  unfolding if_found_def by (intro emits_rules)

lemma alphabet_safe: "c \<in> set PASSWORD_ALPHABET \<Longrightarrow> code c < 128 \<and> unreserved (code c)"
proof -
  have "list_all (\<lambda>c. code c < 128 \<and> unreserved (code c)) PASSWORD_ALPHABET" by code_simp
  then show "c \<in> set PASSWORD_ALPHABET \<Longrightarrow> code c < 128 \<and> unreserved (code c)" by (auto simp: list_all_iff)
qed

lemma url_quote_unreserved: "(\<And>c. c \<in> set s \<Longrightarrow> code c < 128 \<and> unreserved (code c)) \<Longrightarrow> url_quote s = s"
  by (induction s) (auto simp: url_quote_def quote_byte_def)

text \<open>
  A generated password has the requested length, at least 16, only characters of the alphabet, and needs
  no quoting in a URL; a shorter one is refused.
\<close>

theorem generated_password_safe:
  "gives E (\<lambda>p. int (length p) = n \<and> 16 \<le> n \<and> set p \<subseteq> set PASSWORD_ALPHABET \<and> url_quote p = p) (generate_password n)"
proof -
  have l: "length PASSWORD_ALPHABET = 66" by code_simp
  have q: "set p \<subseteq> set PASSWORD_ALPHABET \<Longrightarrow> url_quote p = p" for p
    by (rule url_quote_unreserved) (use alphabet_safe in auto)
  show ?thesis
    unfolding generate_password_def
    by (auto simp: l intro!: gives_raise gives_sample q nth_mem)
qed

subsection \<open>Reading a URI back\<close>

definition hex_upper_value :: "char \<Rightarrow> nat option" where
  "hex_upper_value c = (let n = code c in
     if 48 \<le> n \<and> n \<le> 57 then Some (n - 48) else if 65 \<le> n \<and> n \<le> 70 then Some (n - 55) else None)"

fun percent_decode :: "string \<Rightarrow> nat list option" where
  "percent_decode [] = Some []"
| "percent_decode (c # s) =
     (if c = CHR ''%'' then (case s of
         a # b # r \<Rightarrow> (case (hex_upper_value a, hex_upper_value b) of
             (Some x, Some y) \<Rightarrow> map_option ((#) (16 * x + y)) (percent_decode r)
           | _ \<Rightarrow> None)
       | _ \<Rightarrow> None)
      else map_option ((#) (code c)) (percent_decode s))"

definition url_unquote :: "string \<Rightarrow> string option" where
  "url_unquote s = Option.bind (percent_decode s) utf8_decode"

lemma utf8_bytes: "b \<in> set (utf8 s) \<Longrightarrow> b < 256"
proof (induction s)
  case (Cons c s)
  have "code c div 64 < 4" by (rule less_mult_imp_div_less) simp
  moreover have "code c mod 64 < 64" by simp
  ultimately show ?case using Cons by (auto split: if_splits)
qed simp

lemma hex_upper_value [simp]: "n < 16 \<Longrightarrow> hex_upper_value (hex_upper n) = Some n"
  by (auto simp: hex_upper_value_def hex_upper_def Let_def code_char_of)

lemma hex_upper_unreserved: "n < 16 \<Longrightarrow> unreserved (code (hex_upper n))"
  by (auto simp: hex_upper_def unreserved_def code_char_of)

lemma unreserved_small: "unreserved b \<Longrightarrow> b < 128 \<and> b \<noteq> 37 \<and> b \<noteq> 58 \<and> b \<noteq> 64"
  by (auto simp: unreserved_def)

lemma percent_decode_quote: "b < 256 \<Longrightarrow> percent_decode (quote_byte b @ s) = map_option ((#) b) (percent_decode s)"
proof -
  assume b: "b < 256"
  have h: "b div 16 < 16" "b mod 16 < 16" using b by auto
  show ?thesis
  proof (cases "unreserved b")
    case True
    then have "code (char_of b) = b" "char_of b \<noteq> CHR ''%''"
      using unreserved_small [OF True] b by (auto simp: code_char_of code_def dest: arg_cong [where f = code])
    with True show ?thesis by (simp add: quote_byte_def)
  next
    case False
    with h show ?thesis by (simp add: quote_byte_def)
  qed
qed

lemma url_unquote_quote: "url_unquote (url_quote s) = Some s"
proof -
  have "\<forall>b \<in> set bs. b < 256 \<Longrightarrow> percent_decode (concat (map quote_byte bs)) = Some bs" for bs
    by (induction bs) (simp_all add: percent_decode_quote)
  then have "percent_decode (url_quote s) = Some (utf8 s)" using utf8_bytes by (simp add: url_quote_def)
  then show ?thesis by (simp add: url_unquote_def utf8_roundtrip)
qed

lemma quoted_chars: "c \<in> set (url_quote s) \<Longrightarrow> c = CHR ''%'' \<or> unreserved (code c)"
proof -
  have "b < 256 \<Longrightarrow> c \<in> set (quote_byte b) \<Longrightarrow> c = CHR ''%'' \<or> unreserved (code c)" for b
    using unreserved_small [of b] by (auto simp: quote_byte_def code_char_of intro: hex_upper_unreserved split: if_splits)
  then show "c \<in> set (url_quote s) \<Longrightarrow> c = CHR ''%'' \<or> unreserved (code c)"
    by (auto simp: url_quote_def dest: utf8_bytes)
qed

text \<open>The user information of a \<open>postgresql://\<close> URI: the user, the password and what follows \<open>@\<close>.\<close>

definition uri_credentials :: "string \<Rightarrow> (string \<times> string \<times> string) option" where
  "uri_credentials t =
     (if starts_with ''postgresql://'' t then
        (case partition_at CHR '':'' (drop 13 t) of
           (user, Some r) \<Rightarrow> (case partition_at CHR ''@'' r of
               (password, Some rest) \<Rightarrow> (case (url_unquote user, url_unquote password) of
                   (Some u, Some p) \<Rightarrow> Some (u, p, rest) | _ \<Rightarrow> None)
             | _ \<Rightarrow> None)
         | _ \<Rightarrow> None)
      else None)"

text \<open>
  The URI of a credentials Secret reads back to the credentials in it, whatever characters the user name
  and the password have: the user information ends at the first colon and the first at-sign, and undoing
  the quoting gives the name and the password, followed by the host, port and database as they are.
\<close>

theorem uri_reads_back:
  "Option.bind (map_of (connection_keys u p host port db ssl True) ''uri'') uri_credentials =
     Some (u, p, host @ '':'' @ show_int port @ ''/'' @ db @ ''?sslmode='' @ ssl)"
proof -
  have "CHR '':'' \<notin> set (url_quote u)" "CHR ''@'' \<notin> set (url_quote p)"
    by (auto dest!: quoted_chars simp: unreserved_def code_def)
  then show ?thesis
    by (simp add: connection_keys_def uri_credentials_def partition_at_first url_unquote_quote)
qed

subsection \<open>Applying twice\<close>

text \<open>What the API server makes of a merge patch: the managed entries replace or extend the existing ones.\<close>

definition merge_secret :: "secret_obj \<Rightarrow> secret_body \<Rightarrow> secret_obj" where
  "merge_secret existing body = existing\<lparr>
     so_data := dupdate (so_data existing) (map (\<lambda>(key, v). (key, the (b64decode v))) (sb_data body)),
     so_labels := dupdate (so_labels existing) (sb_labels body),
     so_annotations := dupdate (so_annotations existing) (sb_annotations body)\<rparr>"

lemma map_of_dupdate_wanted:
  "distinct (map fst es) \<Longrightarrow> (k, v) \<in> set es \<Longrightarrow> map_of (dupdate d es) k = Some v"
  by (simp add: map_of_dupdate map_of_rev_distinct map_add_Some_iff)

lemma map_of_dupdate_other: "k \<notin> set (map fst es) \<Longrightarrow> map_of (dupdate d es) k = map_of d k"
proof -
  assume "k \<notin> set (map fst es)"
  then have "map_of (rev es) k = None" by (simp add: map_of_eq_None_iff)
  then show ?thesis by (simp add: map_of_dupdate map_add_def)
qed

lemma all_match_dupdate: "distinct (map fst es) \<Longrightarrow> all_match (dupdate d es) es"
  by (auto simp: all_match_def list_all_iff map_of_dupdate_wanted)

lemma b64_text_bytes: "b64decode (b64_text v) = Some (utf8 v)"
  by (simp add: b64_text_def b64_roundtrip utf8_bytes)

lemma map_fst_pairs: "map fst (map (\<lambda>(k, v). (k, f v)) xs) = map fst xs"
  by (induction xs) auto

lemma merged_matches:
  assumes "distinct (map fst data)" "distinct (map fst labels)" "distinct (map fst annotations)"
  shows "secret_matches (merge_secret existing (managed_body data labels annotations)) (managed_body data labels annotations)"
proof -
  have "map_of (map (\<lambda>(k, v). (k, b64encode v))
      (dupdate (so_data existing) (map (\<lambda>(k, v). (k, utf8 v)) data))) k = Some (b64_text v)"
    if "(k, v) \<in> set data" for k v
  proof -
    have "map_of (dupdate (so_data existing) (map (\<lambda>(k, v). (k, utf8 v)) data)) k = Some (utf8 v)"
      by (rule map_of_dupdate_wanted) (use that assms in \<open>auto simp: map_fst_pairs simp del: map_map intro: rev_image_eqI\<close>)
    then show ?thesis by (simp add: map_of_map b64_text_def)
  qed
  then have "all_match (current_data (merge_secret existing (managed_body data labels annotations)))
      (map (\<lambda>(key, v). (key, b64_text v)) data)"
    by (auto simp: all_match_def list_all_iff current_data_def merge_secret_def managed_body_def
        b64_text_bytes case_prod_unfold comp_def)
  then show ?thesis
    using assms by (simp add: secret_matches_def managed_body_def merge_secret_def all_match_dupdate)
qed


definition sample_secret :: secret_obj where
  "sample_secret = \<lparr>so_data = [(''theirs'', [1, 2]), (''password'', utf8 ''old'')], so_string_data = [], so_labels = [],
     so_annotations = []\<rparr>"


end
