(* ===== verification/Eligibility.thy ===== *)
theory Eligibility
  imports Models
begin

text \<open>
  \<open>reconcile/eligibility.py\<close> with the catalog facts of \<open>postgres/publication.py\<close> it judges: which selected
  tables a publication may carry. Pure code, modelled as functions; a frozen set of names is a list whose
  order the code never looks at (it sorts before it prints). The lemmas compare the judgement with a
  declarative statement of what makes a table replicable.
\<close>

section \<open>Catalog facts\<close>

text \<open>A leaf partition has no leaves of its own, so a \<open>SourceTable\<close> is a relation with the relations of its leaves.\<close>

record relation =
  rl_schema :: string
  rl_name :: string
  rl_kind :: string
  rl_persistent :: bool
  rl_is_partition :: bool
  rl_owner :: string
  rl_owner_usable :: bool
  rl_row_security :: bool
  rl_replica_identity :: string
  rl_identity :: "string list option"
  rl_columns :: "(string \<times> string) list"
  rl_generated :: "string list"
  rl_readable :: bool

record source_table =
  st_relation :: relation
  st_leaves :: "relation list"

record target_table =
  tt_schema :: string
  tt_name :: string
  tt_kind :: string
  tt_owner :: string
  tt_owner_settable :: bool
  tt_columns :: "(string \<times> string) list"
  tt_identity :: "string list option"
  tt_required :: "string list"

definition rl_qualified :: "relation \<Rightarrow> string" where
  "rl_qualified r = qualified_name (rl_schema r) (rl_name r)"

definition tt_qualified :: "target_table \<Rightarrow> string" where
  "tt_qualified t = qualified_name (tt_schema t) (tt_name t)"

section \<open>Candidates, issues, verdicts\<close>

datatype side = Source_Side | Target_Side

record candidate =
  ca_schema :: string
  ca_name :: string
  ca_columns :: "string list"
  ca_row_filter :: "row_filter option"
  ca_explicit :: bool

definition ca_qualified :: "candidate \<Rightarrow> string" where
  "ca_qualified c = qualified_name (ca_schema c) (ca_name c)"

record issue =
  iu_reason :: string
  iu_message :: string
  iu_side :: side

definition source_issue :: "string \<Rightarrow> string \<Rightarrow> issue" where
  "source_issue reason message = \<lparr>iu_reason = reason, iu_message = message, iu_side = Source_Side\<rparr>"

definition target_issue :: "string \<Rightarrow> string \<Rightarrow> issue" where
  "target_issue reason message = \<lparr>iu_reason = reason, iu_message = message, iu_side = Target_Side\<rparr>"

record verdict =
  vd_candidate :: candidate
  vd_issues :: "issue list"
  vd_warnings :: "issue list"

definition publishable :: "verdict \<Rightarrow> bool" where
  "publishable v \<longleftrightarrow> vd_issues v = []"

definition keeps_membership :: "verdict \<Rightarrow> bool" where
  "keeps_membership v \<longleftrightarrow>
     list_all (\<lambda>i. iu_side i = Target_Side \<and> iu_reason i \<noteq> ''TableTargetedTwice'') (vd_issues v)"

definition PUBLISHABLE_KINDS :: "string list" where
  "PUBLISHABLE_KINDS = [''r'', ''p'']"

definition kind_publishable :: "string \<Rightarrow> bool" where
  "kind_publishable k \<longleftrightarrow> k \<in> set PUBLISHABLE_KINDS"

definition GENERATED_IDENTITY_CHECK_VERSION :: int where
  "GENERATED_IDENTITY_CHECK_VERSION = 18"

definition KIND_NAMES :: "(string \<times> string) list" where
  "KIND_NAMES = [(''v'', ''a view''), (''m'', ''a materialised view''), (''f'', ''a foreign table'')]"

section \<open>Expanding the selection\<close>

definition candidate_whole :: "source_table \<Rightarrow> candidate" where
  "candidate_whole t = \<lparr>ca_schema = rl_schema (st_relation t), ca_name = rl_name (st_relation t),
     ca_columns = [], ca_row_filter = None, ca_explicit = False\<rparr>"

definition candidate_explicit :: "table_selection \<Rightarrow> candidate" where
  "candidate_explicit e = \<lparr>ca_schema = ts_schema e, ca_name = ts_name e, ca_columns = ts_columns e,
     ca_row_filter = ts_row_filter e, ca_explicit = True\<rparr>"

definition schema_contributes :: "replication_spec \<Rightarrow> schema_selection \<Rightarrow> source_table \<Rightarrow> bool" where
  "schema_contributes spec selection t \<longleftrightarrow>
     \<not> (rl_schema (st_relation t) \<noteq> sl_name selection \<or> rl_name (st_relation t) \<in> set (sl_exclude selection) \<or>
        rl_qualified (st_relation t) \<in> set (map ts_qualified (re_tables spec)) \<or> rl_is_partition (st_relation t) \<or>
        \<not> kind_publishable (rl_kind (st_relation t)) \<or> \<not> rl_persistent (st_relation t))"

text \<open>The entries are put into a dictionary under their qualified names, which is then read in sorted order.\<close>

definition found_candidates :: "replication_spec \<Rightarrow> source_table list \<Rightarrow> (string \<times> candidate) list" where
  "found_candidates spec source =
     dupdate
       (dupdate [] (concat (map (\<lambda>selection.
          map (\<lambda>t. (rl_qualified (st_relation t), candidate_whole t)) (filter (schema_contributes spec selection) source))
          (re_schemas spec))))
       (map (\<lambda>e. (ts_qualified e, candidate_explicit e)) (re_tables spec))"

definition candidates :: "replication_spec \<Rightarrow> source_table list \<Rightarrow> candidate list" where
  "candidates spec source =
     (let found = found_candidates spec source in map (\<lambda>k. the (map_of found k)) (sort (dkeys found)))"

section \<open>Judging a candidate\<close>

definition target_relations :: "source_table \<Rightarrow> bool \<Rightarrow> relation list" where
  "target_relations source via_root =
     (if rl_kind (st_relation source) = ''p'' \<and> \<not> via_root then st_leaves source else [st_relation source])"

definition rl_publishable :: "relation \<Rightarrow> bool" where
  "rl_publishable r \<longleftrightarrow> kind_publishable (rl_kind r) \<and> rl_persistent r"

definition filter_reads :: "candidate \<Rightarrow> string list" where
  "filter_reads c = (case ca_row_filter c of None \<Rightarrow> [] | Some f \<Rightarrow> map fp_column (predicates f))"

text \<open>\<open>sorted(xs - ys)\<close>\<close>

definition sorted_minus :: "string list \<Rightarrow> string list \<Rightarrow> string list" where
  "sorted_minus xs ys = sorted_set (filter (\<lambda>x. x \<notin> set ys) xs)"

lemma sorted_minus_Nil [simp]: "sorted_minus xs ys = [] \<longleftrightarrow> set xs \<subseteq> set ys"
  by (auto simp: sorted_minus_def filter_empty_conv)

text \<open>One issue when a list of offenders is not empty.\<close>

definition issue_if :: "bool \<Rightarrow> issue \<Rightarrow> issue list" where
  "issue_if b i = (if b then [i] else [])"

lemma issue_if_Nil [simp]: "issue_if b i = [] \<longleftrightarrow> \<not> b"
  by (simp add: issue_if_def)

definition member_identity_issues :: "candidate \<Rightarrow> bool \<Rightarrow> relation \<Rightarrow> issue list" where
  "member_identity_issues c generated_checked member =
     (case rl_identity member of
        None \<Rightarrow>
          [source_issue ''NoReplicaIdentity'' (rl_qualified member @
            '' has no replica identity: publishing it would make every '' @
            ''UPDATE and DELETE on the source fail; add a primary key (one that is not '' @
            ''DEFERRABLE, which PostgreSQL never uses as an identity) or set REPLICA IDENTITY'')]
      | Some identity \<Rightarrow>
          (let uncovered = sorted_minus (filter_reads c) identity;
               in_identity = (if rl_replica_identity member = ''f'' then rl_generated member
                              else filter (\<lambda>x. x \<in> set (rl_generated member)) identity);
               missing = sorted_minus identity (ca_columns c)
           in issue_if (uncovered \<noteq> [])
                (source_issue ''RowFilterNotCoveredByIdentity'' (''the row filter on '' @ rl_qualified member @ '' reads '' @
                   join_with '', '' uncovered @ '', outside its replica identity: the source would refuse UPDATE and DELETE on it'')) @
              issue_if (generated_checked \<and> ca_columns c = [] \<and> in_identity \<noteq> [])
                (source_issue ''GeneratedColumnInIdentity'' (rl_qualified member @
                   CHR 0x27 # ''s replica identity takes in generated column(s) '' @ join_with '', '' (sorted_set in_identity) @
                   '', which the publication does not carry: '' @
                   ''PostgreSQL 18 would refuse UPDATE and DELETE on it at the source; '' @
                   ''identify rows by an index without them (REPLICA IDENTITY USING INDEX)'')) @
              (if ca_columns c \<noteq> [] \<and> rl_replica_identity member = ''f''
               then [source_issue ''ColumnListMissesIdentity'' (rl_qualified member @
                   '' has REPLICA IDENTITY FULL, which PostgreSQL allows no '' @
                   ''column list with: the source would refuse UPDATE and DELETE on it; drop '' @
                   ''the column list, or move it off FULL with REPLICA IDENTITY DEFAULT (given '' @
                   ''a primary key) or REPLICA IDENTITY USING INDEX'')]
               else issue_if (ca_columns c \<noteq> [] \<and> missing \<noteq> [])
                 (source_issue ''ColumnListMissesIdentity'' (''the column list for '' @ rl_qualified member @
                   '' omits replica-identity column(s) '' @ join_with '', '' missing @
                   '': the source would refuse UPDATE and DELETE on it'')))))"

definition identity_issues :: "candidate \<Rightarrow> relation list \<Rightarrow> bool \<Rightarrow> issue list" where
  "identity_issues c members generated_checked = concat (map (member_identity_issues c generated_checked) members)"

definition target_identity_issues :: "relation \<Rightarrow> target_table \<Rightarrow> issue list" where
  "target_identity_issues source target =
     (case rl_identity source of
        None \<Rightarrow> []
      | Some identity \<Rightarrow>
          if rl_replica_identity source = ''f'' then []
          else (case tt_identity target of
              None \<Rightarrow>
                [target_issue ''TargetNoReplicaIdentity'' (tt_qualified target @
                   '' on the target has no REPLICA IDENTITY index and no primary '' @
                   ''key the apply worker can use (a DEFERRABLE one does not count), so it could '' @
                   ''not find the rows to update or delete: it would stop the whole subscription, '' @
                   ''or on PostgreSQL 18 skip those changes when the key is deferrable; add a '' @
                   ''primary key that is not DEFERRABLE there, or set REPLICA IDENTITY FULL on '' @
                   rl_qualified source @ '' at the source'')]
            | Some keys \<Rightarrow>
                (let uncovered = sorted_minus keys identity
                 in issue_if (uncovered \<noteq> [])
                   (target_issue ''TargetIdentityNotSent'' (tt_qualified target @
                      '' on the target identifies rows by '' @ join_with '', '' uncovered @
                      '', which is outside the replica identity '' @ rl_qualified source @ '' publishes ('' @
                      join_with '', '' (sorted_set identity) @ ''); the publisher never sends '' @
                      ''those columns as keys, so apply would stop for the whole subscription'')))))"

text \<open>The keyword arguments of \<open>judge\<close>.\<close>

record judge_args =
  ja_keyed :: bool
  ja_via_root :: bool
  ja_owner_group :: string
  ja_read_group :: string
  ja_login :: string
  ja_claimed_by :: "string option"
  ja_copy_data :: bool
  ja_subscribed :: "string list"
  ja_nonempty :: "string list"
  ja_major :: int

definition unlogged_leaves :: "source_table \<Rightarrow> string list" where
  "unlogged_leaves s = map rl_qualified (filter (\<lambda>l. rl_kind l = ''r'' \<and> \<not> rl_persistent l) (st_leaves s))"

definition foreign_leaves :: "source_table \<Rightarrow> string list" where
  "foreign_leaves s = map rl_qualified (filter (\<lambda>l. rl_kind l \<noteq> ''r'') (st_leaves s))"

definition unknown_columns :: "candidate \<Rightarrow> source_table \<Rightarrow> string list" where
  "unknown_columns c s = sorted_minus (ca_columns c @ filter_reads c) (dkeys (rl_columns (st_relation s)))"

definition published_members :: "source_table \<Rightarrow> relation list" where
  "published_members s =
     (if rl_kind (st_relation s) = ''p'' then filter rl_publishable (st_leaves s) else [st_relation s])"

definition partition_issues :: "candidate \<Rightarrow> source_table \<Rightarrow> judge_args \<Rightarrow> issue list" where
  "partition_issues c s a =
     (let q = ca_qualified c; unlogged = unlogged_leaves s; foreign = foreign_leaves s; unknown = unknown_columns c s;
          generated = filter (\<lambda>x. x \<in> set (rl_generated (st_relation s))) unknown;
          detail = (if generated \<noteq> [] then '' ('' @ join_with '', '' generated @ '' generated, which cannot be published)'' else [])
      in issue_if (unlogged \<noteq> []) (source_issue ''NotPublishable'' (q @ '' has unlogged partition(s) '' @
           join_with '', '' unlogged @ '', whose changes are never '' @
           ''written to the WAL and so never replicated; make them permanent with '' @ ''ALTER TABLE ... SET LOGGED'')) @
         issue_if (foreign \<noteq> []) (source_issue ''NotPublishable'' (q @ '' has foreign partition(s) '' @
           join_with '', '' foreign @ '', whose rows live on another '' @
           ''server and are never replicated; replace them with local tables, or '' @ ''DETACH PARTITION them from '' @ q)) @
         issue_if (unknown \<noteq> []) (source_issue ''UnknownColumn'' (q @ '' has no publishable column(s) '' @
           join_with '', '' unknown @ detail)) @
         issue_if (rl_kind (st_relation s) = ''p'' \<and> \<not> ja_via_root a \<and> (ca_columns c \<noteq> [] \<or> ca_row_filter c \<noteq> None))
           (source_issue ''FilterIgnoredWithoutPartitionRoot'' (q @ '' is partitioned: its column list and row filter apply only with '' @
             ''publishViaPartitionRoot: true; without it every row and column would be published'')))"

definition access_issues :: "candidate \<Rightarrow> source_table \<Rightarrow> judge_args \<Rightarrow> issue list" where
  "access_issues c s a =
     (let q = ca_qualified c; all = st_relation s # st_leaves s;
          unreadable = map rl_qualified (filter (\<lambda>r. \<not> rl_readable r) all);
          secured = map rl_qualified (filter rl_row_security all)
      in issue_if (\<not> rl_owner_usable (st_relation s)) (source_issue ''SourceTableNotOwned'' (q @ '' is owned by '' @
           rl_owner (st_relation s) @ '', whose privileges the managing role does not '' @
           ''hold, so it cannot be added to a publication; ALTER TABLE '' @ q @ '' OWNER TO '' @ ja_owner_group a)) @
         issue_if (unreadable \<noteq> []) (source_issue ''SourceTableNotReadable'' (''replication login '' @ ja_login a @
           '' cannot SELECT '' @ join_with '', '' unreadable @ '', so the initial '' @
           ''copy would fail; GRANT SELECT to '' @ ja_read_group a)) @
         issue_if (secured \<noteq> []) (source_issue ''RowSecurityEnabled'' (join_with '', '' secured @
           '' has row-level security: the initial copy would see only '' @
           ''the rows its policies allow while the change stream carries them all, leaving '' @ ''a silently partial replica'')))"

definition published_columns :: "candidate \<Rightarrow> source_table \<Rightarrow> string list" where
  "published_columns c s =
     (let own = dkeys (rl_columns (st_relation s))
      in filter (\<lambda>x. x \<in> set own) (if ca_columns c \<noteq> [] then ca_columns c else own))"

definition target_of :: "(string \<times> target_table) list \<Rightarrow> relation \<Rightarrow> target_table option" where
  "target_of targets r = (case map_of targets (rl_qualified r) of
      Some t \<Rightarrow> if kind_publishable (tt_kind t) then Some t else None
    | None \<Rightarrow> None)"

definition found_target_issues :: "candidate \<Rightarrow> source_table \<Rightarrow> judge_args \<Rightarrow> relation \<Rightarrow> target_table \<Rightarrow> issue list" where
  "found_target_issues c s a r t =
     (let q = rl_qualified r; published = published_columns c s;
          missing = filter (\<lambda>x. x \<notin> set (dkeys (tt_columns t))) published;
          required = sorted_minus (tt_required t) published
      in issue_if (missing \<noteq> []) (target_issue ''TargetColumnsMissing'' (q @ '' on the target lacks published column(s) '' @
           join_with '', '' missing @ '' (or has them generated)'')) @
         issue_if (ja_copy_data a \<and> q \<notin> set (ja_subscribed a) \<and> q \<in> set (ja_nonempty a))
           (target_issue ''TargetTableNotEmpty'' (q @ '' already has rows on the target, and its initial copy '' @
             ''would collide with them; empty it there, or set copyData: false if they '' @
             ''are already in step with the source'')) @
         issue_if (\<not> tt_owner_settable t) (target_issue ''TargetOwnerNotSettable'' (q @ '' on the target is owned by '' @
           tt_owner t @ '', which the '' @ ''managing role cannot SET ROLE to, and PostgreSQL 16 applies changes as the '' @
           ''table'' @ CHR 0x27 # ''s owner'')) @
         issue_if (required \<noteq> []) (target_issue ''TargetColumnRequired'' (q @ '' on the target requires column(s) '' @
           join_with '', '' required @ '', '' @ ''which this publication does not carry and the server cannot default: every '' @
           ''INSERT the subscription applies would fail. Give them a DEFAULT on the '' @
           ''target, drop their NOT NULL, or publish them'')) @
         (if ja_keyed a then target_identity_issues r t else []))"

definition relation_issues ::
  "candidate \<Rightarrow> source_table \<Rightarrow> (string \<times> target_table) list \<Rightarrow> judge_args \<Rightarrow> relation \<Rightarrow> issue list" where
  "relation_issues c s targets a r =
     (case target_of targets r of
        None \<Rightarrow> [target_issue ''TargetTableMissing'' (rl_qualified r @
          '' does not exist in the target database; create it there '' @ ''and it is published on the next pass'')]
      | Some t \<Rightarrow> found_target_issues c s a r t)"

definition relation_warnings ::
  "candidate \<Rightarrow> source_table \<Rightarrow> (string \<times> target_table) list \<Rightarrow> relation \<Rightarrow> issue list" where
  "relation_warnings c s targets r =
     (case target_of targets r of
        None \<Rightarrow> []
      | Some t \<Rightarrow>
         (let differing = concat (map (\<lambda>column.
                case (map_of (rl_columns (st_relation s)) column, map_of (tt_columns t) column) of
                  (Some own, Some other) \<Rightarrow> if own \<noteq> other then [column @ '' '' @ own @ '' -> '' @ other] else []
                | _ \<Rightarrow> []) (published_columns c s))
          in issue_if (differing \<noteq> []) (target_issue ''ColumnTypeMismatch'' (rl_qualified r @ '' column types differ ('' @
               join_with ''; '' differing @ ''); '' @ ''values are converted through text on apply''))))"

definition claim_issues :: "candidate \<Rightarrow> judge_args \<Rightarrow> issue list" where
  "claim_issues c a = issue_if (given (ja_claimed_by a)) (target_issue ''TableTargetedTwice'' (ca_qualified c @
     '' is already replicated into the same target database by '' @ the (ja_claimed_by a)))"

definition source_issues :: "candidate \<Rightarrow> source_table \<Rightarrow> judge_args \<Rightarrow> issue list" where
  "source_issues c s a =
     partition_issues c s a @
     (if ja_keyed a
      then identity_issues c (published_members s) (GENERATED_IDENTITY_CHECK_VERSION \<le> ja_major a) else []) @
     access_issues c s a"

definition judge ::
  "candidate \<Rightarrow> source_table option \<Rightarrow> (string \<times> target_table) list \<Rightarrow> judge_args \<Rightarrow> verdict" where
  "judge c source targets a =
     (let refused = (\<lambda>reason message.
            \<lparr>vd_candidate = c, vd_issues = [source_issue reason (ca_qualified c @ message)], vd_warnings = []\<rparr>)
      in case source of
           None \<Rightarrow> refused ''SourceTableMissing'' '' does not exist in the source database''
         | Some s \<Rightarrow>
             if rl_is_partition (st_relation s)
             then refused ''NotPublishable'' '' is a partition; select its partitioned table instead''
             else if \<not> kind_publishable (rl_kind (st_relation s)) \<or> \<not> rl_persistent (st_relation s)
             then refused ''NotPublishable'' ('' is '' @
               (case map_of KIND_NAMES (rl_kind (st_relation s)) of Some w \<Rightarrow> w | None \<Rightarrow> ''unlogged or temporary'') @
               ''; only permanent tables can be published'')
             else \<lparr>vd_candidate = c,
               vd_issues = source_issues c s a @
                 concat (map (relation_issues c s targets a) (target_relations s (ja_via_root a))) @ claim_issues c a,
               vd_warnings = concat (map (relation_warnings c s targets) (target_relations s (ja_via_root a)))\<rparr>)"

section \<open>What makes a table replicable\<close>

text \<open>The replica identity of a published relation lets the source carry on with UPDATE and DELETE.\<close>

definition identified :: "candidate \<Rightarrow> bool \<Rightarrow> relation \<Rightarrow> bool" where
  "identified c generated_checked m \<longleftrightarrow>
     (\<exists>identity. rl_identity m = Some identity \<and> set (filter_reads c) \<subseteq> set identity \<and>
        (if ca_columns c = []
         then generated_checked \<longrightarrow>
                (if rl_replica_identity m = ''f'' then rl_generated m = [] else set identity \<inter> set (rl_generated m) = {})
         else rl_replica_identity m \<noteq> ''f'' \<and> set identity \<subseteq> set (ca_columns c)))"

text \<open>The source can publish the table, whole, without harm to itself.\<close>

definition source_fit :: "candidate \<Rightarrow> source_table \<Rightarrow> judge_args \<Rightarrow> bool" where
  "source_fit c s a \<longleftrightarrow>
     \<not> rl_is_partition (st_relation s) \<and> rl_publishable (st_relation s) \<and>
     (\<forall>l \<in> set (st_leaves s). rl_kind l = ''r'' \<and> rl_persistent l) \<and>
     set (ca_columns c @ filter_reads c) \<subseteq> set (dkeys (rl_columns (st_relation s))) \<and>
     (rl_kind (st_relation s) = ''p'' \<and> \<not> ja_via_root a \<longrightarrow> ca_columns c = [] \<and> ca_row_filter c = None) \<and>
     (ja_keyed a \<longrightarrow>
        (\<forall>m \<in> (if rl_kind (st_relation s) = ''p'' then set (st_leaves s) else {st_relation s}).
           identified c (18 \<le> ja_major a) m)) \<and>
     rl_owner_usable (st_relation s) \<and>
     (\<forall>r \<in> insert (st_relation s) (set (st_leaves s)). rl_readable r \<and> \<not> rl_row_security r)"

text \<open>The target can receive the changes of one relation.\<close>

definition receives :: "candidate \<Rightarrow> source_table \<Rightarrow> (string \<times> target_table) list \<Rightarrow> judge_args \<Rightarrow> relation \<Rightarrow> bool" where
  "receives c s targets a r \<longleftrightarrow>
     (\<exists>t. map_of targets (rl_qualified r) = Some t \<and> kind_publishable (tt_kind t) \<and> tt_owner_settable t \<and>
        set (published_columns c s) \<subseteq> set (dkeys (tt_columns t)) \<and> set (tt_required t) \<subseteq> set (published_columns c s) \<and>
        (ja_copy_data a \<and> rl_qualified r \<in> set (ja_nonempty a) \<longrightarrow> rl_qualified r \<in> set (ja_subscribed a)) \<and>
        (ja_keyed a \<and> rl_replica_identity r \<noteq> ''f'' \<longrightarrow>
           (case rl_identity r of None \<Rightarrow> True
            | Some identity \<Rightarrow> (\<exists>ks. tt_identity t = Some ks \<and> set ks \<subseteq> set identity))))"

definition target_fit :: "candidate \<Rightarrow> source_table \<Rightarrow> (string \<times> target_table) list \<Rightarrow> judge_args \<Rightarrow> bool" where
  "target_fit c s targets a \<longleftrightarrow> (\<forall>r \<in> set (target_relations s (ja_via_root a)). receives c s targets a r)"

lemma filter_reads_columns: "set (filter_reads c) = (case ca_row_filter c of None \<Rightarrow> {} | Some f \<Rightarrow> filter_columns f)"
  by (auto simp: filter_reads_def filter_columns_def split: option.split)

lemma member_identity_issues_none: "member_identity_issues c g m = [] \<longleftrightarrow> identified c g m"
  by (cases "ca_columns c = []")
    (auto simp: member_identity_issues_def identified_def Let_def filter_empty_conv split: option.split)

lemma identity_issues_none: "identity_issues c ms g = [] \<longleftrightarrow> (\<forall>m \<in> set ms. identified c g m)"
  by (simp add: identity_issues_def member_identity_issues_none)

lemma leaves_fit: "unlogged_leaves s = [] \<and> foreign_leaves s = [] \<longleftrightarrow> (\<forall>l \<in> set (st_leaves s). rl_kind l = ''r'' \<and> rl_persistent l)"
  by (auto simp: unlogged_leaves_def foreign_leaves_def filter_empty_conv)

lemma partition_issues_none:
  "partition_issues c s a = [] \<longleftrightarrow>
     (\<forall>l \<in> set (st_leaves s). rl_kind l = ''r'' \<and> rl_persistent l) \<and>
     set (ca_columns c @ filter_reads c) \<subseteq> set (dkeys (rl_columns (st_relation s))) \<and>
     (rl_kind (st_relation s) = ''p'' \<and> \<not> ja_via_root a \<longrightarrow> ca_columns c = [] \<and> ca_row_filter c = None)"
  unfolding leaves_fit [symmetric] by (auto simp: partition_issues_def Let_def unknown_columns_def)

lemma access_issues_none:
  "access_issues c s a = [] \<longleftrightarrow> rl_owner_usable (st_relation s) \<and>
     (\<forall>r \<in> insert (st_relation s) (set (st_leaves s)). rl_readable r \<and> \<not> rl_row_security r)"
  by (auto simp: access_issues_def Let_def filter_empty_conv)

lemma published_members_fit:
  assumes "\<forall>l \<in> set (st_leaves s). rl_kind l = ''r'' \<and> rl_persistent l"
  shows "set (published_members s) = (if rl_kind (st_relation s) = ''p'' then set (st_leaves s) else {st_relation s})"
  using assms by (auto simp: published_members_def rl_publishable_def kind_publishable_def PUBLISHABLE_KINDS_def)

lemma source_issues_none:
  "\<not> rl_is_partition (st_relation s) \<Longrightarrow> rl_publishable (st_relation s) \<Longrightarrow>
   source_issues c s a = [] \<longleftrightarrow> source_fit c s a"
  using published_members_fit [of s]
  by (auto simp: source_issues_def source_fit_def partition_issues_none access_issues_none identity_issues_none
      GENERATED_IDENTITY_CHECK_VERSION_def)

lemma relation_issues_none: "relation_issues c s targets a r = [] \<longleftrightarrow> receives c s targets a r"
  by (auto simp: relation_issues_def target_of_def receives_def found_target_issues_def target_identity_issues_def
      Let_def filter_empty_conv split: option.splits if_splits)

lemma issue_sides [simp]:
  "iu_side (source_issue r m) = Source_Side" "iu_side (target_issue r m) = Target_Side"
  "iu_reason (source_issue r m) = r" "iu_reason (target_issue r m) = r"
  by (simp_all add: source_issue_def target_issue_def)

lemma list_all_issue_if [simp]: "list_all P (issue_if b i) \<longleftrightarrow> (b \<longrightarrow> P i)"
  by (simp add: issue_if_def)

lemma source_issues_sides: "list_all (\<lambda>i. iu_side i = Source_Side) (source_issues c s a)"
proof -
  have "list_all (\<lambda>i. iu_side i = Source_Side) (member_identity_issues c g m)" for g m
    by (simp add: member_identity_issues_def Let_def split: option.split)
  then have "list_all (\<lambda>i. iu_side i = Source_Side) (identity_issues c ms g)" for ms g
    by (simp add: identity_issues_def list_all_iff)
  then show ?thesis by (simp add: source_issues_def partition_issues_def access_issues_def Let_def)
qed

lemma relation_issues_sides:
  "list_all (\<lambda>i. iu_side i = Target_Side \<and> iu_reason i \<noteq> ''TableTargetedTwice'') (relation_issues c s targets a r)"
  by (simp add: relation_issues_def found_target_issues_def target_identity_issues_def Let_def split: option.split)

lemma keeps_split:
  "list_all (\<lambda>i. iu_side i = Source_Side) xs \<Longrightarrow>
   list_all (\<lambda>i. iu_side i = Target_Side \<and> P i) xs \<longleftrightarrow> xs = []"
  by (cases xs) auto

text \<open>
  C14. What the operator publishes: a table is published exactly when it is fit on the source - an ordinary
  permanent table or a partitioned one with such leaves, owned, readable, without row security, with every
  named column, and, when updates or deletes are published, with a replica identity the column list and
  the row filter respect - and the target can receive every relation of it and no other replication claims
  it. A table already published stays in exactly when it is still fit on the source and unclaimed: nothing
  wrong on the target takes it out, anything wrong on the source does.
\<close>

theorem judge_exact:
  "(publishable (judge c source targets a) \<longleftrightarrow>
      (\<exists>s. source = Some s \<and> source_fit c s a \<and> target_fit c s targets a) \<and> \<not> given (ja_claimed_by a)) \<and>
   (keeps_membership (judge c source targets a) \<longleftrightarrow>
      (\<exists>s. source = Some s \<and> source_fit c s a) \<and> \<not> given (ja_claimed_by a))"
proof (cases "\<exists>s. source = Some s \<and> \<not> rl_is_partition (st_relation s) \<and> rl_publishable (st_relation s)")
  case False
  then have unfit: "\<not> (\<exists>s. source = Some s \<and> source_fit c s a)" by (auto simp: source_fit_def)
  from False have "\<exists>i. vd_issues (judge c source targets a) = [i] \<and> iu_side i = Source_Side"
    by (auto simp: judge_def Let_def rl_publishable_def split: option.split)
  with unfit show ?thesis by (auto simp: publishable_def keeps_membership_def)
next
  case True
  then obtain s where s: "source = Some s" "\<not> rl_is_partition (st_relation s)" "rl_publishable (st_relation s)" by blast
  let ?rs = "target_relations s (ja_via_root a)"
  have issues: "vd_issues (judge c source targets a) =
      source_issues c s a @ concat (map (relation_issues c s targets a) ?rs) @ claim_issues c a"
    using s by (simp add: judge_def Let_def rl_publishable_def)
  have claim: "claim_issues c a = [] \<longleftrightarrow> \<not> given (ja_claimed_by a)" by (simp add: claim_issues_def)
  have "publishable (judge c source targets a) \<longleftrightarrow> source_fit c s a \<and> target_fit c s targets a \<and> \<not> given (ja_claimed_by a)"
    by (simp add: publishable_def issues claim source_issues_none [OF s(2,3)] relation_issues_none target_fit_def)
  moreover have "list_all (\<lambda>i. iu_side i = Target_Side \<and> iu_reason i \<noteq> ''TableTargetedTwice'')
      (concat (map (relation_issues c s targets a) ?rs))"
    using relation_issues_sides by (auto simp: list_all_iff)
  then have "keeps_membership (judge c source targets a) \<longleftrightarrow> source_fit c s a \<and> \<not> given (ja_claimed_by a)"
    by (simp add: keeps_membership_def issues keeps_split [OF source_issues_sides] source_issues_none [OF s(2,3)])
      (simp add: claim_issues_def)
  ultimately show ?thesis using s(1) by auto
qed

section \<open>What is selected\<close>

lemma map_of_consistent:
  "(\<And>v v'. (k, v) \<in> set xs \<Longrightarrow> (k, v') \<in> set xs \<Longrightarrow> v = v') \<Longrightarrow> map_of xs k = Some v \<longleftrightarrow> (k, v) \<in> set xs"
  by (metis map_of_SomeD weak_map_of_SomeI)

lemma map_of_dupdate_consistent:
  assumes "\<And>v v'. (k, v) \<in> set es \<Longrightarrow> (k, v') \<in> set es \<Longrightarrow> v = v'"
  shows "map_of (dupdate d es) k = Some v \<longleftrightarrow> (k, v) \<in> set es \<or> (k \<notin> fst ` set es \<and> map_of d k = Some v)"
proof -
  have "map_of (rev es) k = Some v' \<longleftrightarrow> (k, v') \<in> set es" for v'
    using map_of_consistent [of k "rev es" v'] assms by simp
  moreover have "map_of (rev es) k = None \<longleftrightarrow> k \<notin> fst ` set es" by (simp add: map_of_eq_None_iff)
  ultimately show ?thesis by (auto simp: map_of_dupdate map_add_Some_iff)
qed

lemma found_candidates_map:
  assumes "distinct (map ts_qualified (re_tables spec))" "distinct (map (\<lambda>t. rl_qualified (st_relation t)) source)"
  shows "map_of (found_candidates spec source) k = Some c \<longleftrightarrow>
    (\<exists>e \<in> set (re_tables spec). k = ts_qualified e \<and> c = candidate_explicit e) \<or>
    (\<exists>t \<in> set source. k = rl_qualified (st_relation t) \<and> c = candidate_whole t \<and>
       (\<exists>sel \<in> set (re_schemas spec). schema_contributes spec sel t))"
proof -
  let ?whole = "concat (map (\<lambda>selection. map (\<lambda>t. (rl_qualified (st_relation t), candidate_whole t))
      (filter (schema_contributes spec selection) source)) (re_schemas spec))"
  let ?named = "map (\<lambda>e. (ts_qualified e, candidate_explicit e)) (re_tables spec)"
  have named: "v = v'" if "(k, v) \<in> set ?named" "(k, v') \<in> set ?named" for v v'
    using that assms(1) by (auto simp: distinct_map inj_on_def)
  have whole: "v = v'" if "(k, v) \<in> set ?whole" "(k, v') \<in> set ?whole" for v v'
    using that assms(2) by (auto simp: distinct_map inj_on_def)
  have explicit: "k \<notin> fst ` set ?named" if "(k, v) \<in> set ?whole" for v
    using that by (auto simp: schema_contributes_def)
  have outer: "map_of (dupdate d ?named) k = Some c \<longleftrightarrow> (k, c) \<in> set ?named \<or> k \<notin> fst ` set ?named \<and> map_of d k = Some c" for d
    by (rule map_of_dupdate_consistent) (rule named)
  have inner: "map_of (dupdate [] ?whole) k = Some c \<longleftrightarrow> (k, c) \<in> set ?whole \<or> k \<notin> fst ` set ?whole \<and> map_of [] k = Some c"
    by (rule map_of_dupdate_consistent) (rule whole)
  have "map_of [] k \<noteq> Some c" by simp
  then have "map_of (found_candidates spec source) k = Some c \<longleftrightarrow> (k, c) \<in> set ?named \<or> (k, c) \<in> set ?whole"
    unfolding found_candidates_def outer inner using explicit [of c] by blast
  then show ?thesis by auto
qed

lemma candidates_set: "set (candidates spec source) = ran (map_of (found_candidates spec source))"
proof -
  have "set (candidates spec source) = (\<lambda>k. the (map_of (found_candidates spec source) k)) ` dom (map_of (found_candidates spec source))"
    by (auto simp: candidates_def Let_def dkeys_iff dom_def)
  then show ?thesis by (force simp: ran_def dom_def)
qed

lemma dupdate_keyed:
  assumes "\<And>k c. (k, c) \<in> set es \<Longrightarrow> P k c" "\<And>k c. map_of d k = Some c \<Longrightarrow> P k c" "map_of (dupdate d es) k = Some c"
  shows "P k c"
proof -
  from assms(3) have "(k, c) \<in> set es \<or> map_of d k = Some c"
    unfolding map_of_dupdate map_add_Some_iff by (metis map_of_SomeD set_rev)
  with assms(1,2) show ?thesis by blast
qed

lemma found_candidates_key:
  assumes "map_of (found_candidates spec source) k = Some c"
  shows "ca_qualified c = k"
proof (rule dupdate_keyed [where P = "\<lambda>k c. ca_qualified c = k", OF _ _ assms [unfolded found_candidates_def]])
  show "ca_qualified c = k" if "(k, c) \<in> set (map (\<lambda>e. (ts_qualified e, candidate_explicit e)) (re_tables spec))" for k c
    using that by (auto simp: candidate_explicit_def ca_qualified_def ts_qualified_def)
next
  fix k c
  assume m: "map_of (dupdate [] (concat (map (\<lambda>selection. map (\<lambda>t. (rl_qualified (st_relation t), candidate_whole t))
      (filter (schema_contributes spec selection) source)) (re_schemas spec)))) k = Some c"
  show "ca_qualified c = k"
    by (rule dupdate_keyed [where P = "\<lambda>k c. ca_qualified c = k", OF _ _ m])
      (auto simp: candidate_whole_def ca_qualified_def rl_qualified_def)
qed

text \<open>
  What a spec selects: every table listed explicitly, just as it is listed - so one that cannot be
  published is reported rather than ignored - and every permanent ordinary or partitioned table of a
  selected schema that is not excluded, not a partition and not listed itself; in order of their qualified
  names, each once.
\<close>

theorem candidates_complete:
  assumes "validate_replication_spec spec = Inr ()" "distinct (map (\<lambda>t. rl_qualified (st_relation t)) source)"
  shows "set (candidates spec source) =
      candidate_explicit ` set (re_tables spec) \<union>
      {candidate_whole t |t sel. t \<in> set source \<and> sel \<in> set (re_schemas spec) \<and> schema_contributes spec sel t} \<and>
    sorted (map ca_qualified (candidates spec source)) \<and> distinct (map ca_qualified (candidates spec source))"
proof (intro conjI)
  have named: "distinct (map ts_qualified (re_tables spec))"
    using assms(1) by (auto simp: validate_replication_spec_def bind_r_eq_Inr)
  show "set (candidates spec source) =
      candidate_explicit ` set (re_tables spec) \<union>
      {candidate_whole t |t sel. t \<in> set source \<and> sel \<in> set (re_schemas spec) \<and> schema_contributes spec sel t}"
    unfolding candidates_set ran_def found_candidates_map [OF named assms(2)] by auto
  have keys: "map ca_qualified (candidates spec source) = sort (dkeys (found_candidates spec source))"
    unfolding candidates_def Let_def map_map comp_def
    by (rule map_idI) (use found_candidates_key in \<open>fastforce simp: dkeys_iff\<close>)
  have "distinct (dkeys (found_candidates spec source))"
    unfolding found_candidates_def by (intro distinct_dupdate) simp
  with keys show "sorted (map ca_qualified (candidates spec source))" "distinct (map ca_qualified (candidates spec source))"
    by simp_all
qed

definition sample_table :: "string \<Rightarrow> source_table" where
  "sample_table name = \<lparr>st_relation = \<lparr>rl_schema = ''app'', rl_name = name, rl_kind = ''r'', rl_persistent = True,
     rl_is_partition = False, rl_owner = ''orders_owner'', rl_owner_usable = True, rl_row_security = False,
     rl_replica_identity = ''d'', rl_identity = Some [''id''], rl_columns = [(''id'', ''bigint''), (''region'', ''text'')],
     rl_generated = [], rl_readable = True\<rparr>, st_leaves = []\<rparr>"

theorem candidates_complete_witness:
  "map ca_qualified (candidates sample_replication (map sample_table [''orders'', ''events'', ''audit''])) =
     [''app.events'', ''app.orders'']"
proof -
  let ?cs = "candidates sample_replication (map sample_table [''orders'', ''events'', ''audit''])"
  have "distinct (map (\<lambda>t. rl_qualified (st_relation t)) (map sample_table [''orders'', ''events'', ''audit'']))"
    by (simp add: sample_table_def rl_qualified_def qualified_name_def)
  note c = candidates_complete [OF sample_replication_valid this]
  let ?chosen = "\<lambda>t. \<exists>sel \<in> set (re_schemas sample_replication). schema_contributes sample_replication sel t"
  have "{candidate_whole t |t sel. t \<in> set (map sample_table [''orders'', ''events'', ''audit'']) \<and>
      sel \<in> set (re_schemas sample_replication) \<and> schema_contributes sample_replication sel t} =
      candidate_whole ` set (filter ?chosen (map sample_table [''orders'', ''events'', ''audit'']))" by auto
  then have "set (map ca_qualified ?cs) = ca_qualified ` (candidate_explicit ` set (re_tables sample_replication) \<union>
      candidate_whole ` set (filter ?chosen (map sample_table [''orders'', ''events'', ''audit''])))"
    unfolding set_map conjunct1 [OF c] by simp
  also have "\<dots> = {''app.orders'', ''app.events''}"
    by (simp add: sample_replication_def sample_table_def candidate_explicit_def candidate_whole_def ca_qualified_def
        qualified_name_def schema_contributes_def rl_qualified_def ts_qualified_def kind_publishable_def PUBLISHABLE_KINDS_def)
  finally have names: "set (map ca_qualified ?cs) = set [''app.events'', ''app.orders'']" by (simp only: list.set insert_commute)
  have "sorted [''app.events'', ''app.orders'']" "distinct [''app.events'', ''app.orders'']" by code_simp+
  then show ?thesis
    using c names by (intro sorted_distinct_set_unique) blast+
qed

text \<open>The whole judgement of a table, evaluated: the column list leaves out what the target requires.\<close>

lemma judge_example:
  "map iu_reason (vd_issues (judge (candidate_explicit (hd (re_tables sample_replication))) (Some (sample_table ''events''))
     [(''app.events'', \<lparr>tt_schema = ''app'', tt_name = ''events'', tt_kind = ''r'', tt_owner = ''bi'', tt_owner_settable = True,
        tt_columns = [(''id'', ''bigint''), (''region'', ''text''), (''tenant'', ''text'')], tt_identity = Some [''id''],
        tt_required = [''id'', ''tenant'']\<rparr>)]
     \<lparr>ja_keyed = True, ja_via_root = False, ja_owner_group = ''g'', ja_read_group = ''r'', ja_login = ''l'', ja_claimed_by = None,
      ja_copy_data = True, ja_subscribed = [], ja_nonempty = [], ja_major = 16\<rparr>)) =
   [''RowFilterNotCoveredByIdentity'', ''TargetColumnRequired'']"
  by code_simp

end
