(* ===== verification/Roles.thy ===== *)
theory Roles
  imports Parameters Base64
begin

text \<open>
  \<open>postgres/roles.py\<close>: group roles, login roles and their attributes, passwords, memberships, role settings
  and teardown. Every operation is a computation over the environment; the lemmas say which statements
  it sends, that converged roles are left alone, and that the password check never writes.
\<close>

section \<open>Attributes\<close>

definition get_role :: "conn \<Rightarrow> string \<Rightarrow> role_state option m" where
  "get_role c name = fetch says_role c (Q_Role name)"

definition role_exists :: "conn \<Rightarrow> string \<Rightarrow> bool m" where
  "role_exists c name = bind_m (get_role c name) (\<lambda>r. ret_m (r \<noteq> None))"

definition ROLE_DEFAULTS :: "(string \<times> bool) list" where
  "ROLE_DEFAULTS = [(''login'', False), (''inherit'', True), (''createDB'', False), (''createRole'', False),
     (''replication'', False), (''bypassRLS'', False)]"

definition ATTRIBUTE_KEYWORDS :: "(string \<times> string \<times> string) list" where
  "ATTRIBUTE_KEYWORDS =
     [(''login'', ''LOGIN'', ''NOLOGIN''), (''inherit'', ''INHERIT'', ''NOINHERIT''),
      (''createDB'', ''CREATEDB'', ''NOCREATEDB''), (''createRole'', ''CREATEROLE'', ''NOCREATEROLE''),
      (''replication'', ''REPLICATION'', ''NOREPLICATION''), (''bypassRLS'', ''BYPASSRLS'', ''NOBYPASSRLS'')]"

definition observed_attributes :: "role_state \<Rightarrow> (string \<times> bool) list" where
  "observed_attributes st =
     [(''login'', rs_can_login st), (''inherit'', rs_inherit st), (''createDB'', rs_create_db st),
      (''createRole'', rs_create_role st), (''replication'', rs_replication st), (''bypassRLS'', rs_bypass_rls st)]"

fun clauses_from :: "(string \<times> string \<times> string) list \<Rightarrow> (string \<times> bool) list \<Rightarrow> (string \<times> bool) list \<Rightarrow> composed list" where
  "clauses_from [] desired observed = []"
| "clauses_from ((attribute, positive, negative) # ks) desired observed =
     (case map_of desired attribute of
        None \<Rightarrow> clauses_from ks desired observed
      | Some wanted \<Rightarrow>
          (if map_of observed attribute = Some wanted then clauses_from ks desired observed
           else SQL (if wanted then positive else negative) # clauses_from ks desired observed))"

definition attribute_clauses :: "(string \<times> bool) list \<Rightarrow> (string \<times> bool) list \<Rightarrow> composed list" where
  "attribute_clauses desired observed = clauses_from ATTRIBUTE_KEYWORDS desired observed"

definition alter_role_with :: "string \<Rightarrow> composed list \<Rightarrow> composed" where
  "alter_role_with name clauses = Format ''ALTER ROLE {} WITH {}'' [ident name, Join '' '' clauses]"

definition ensure_group_role :: "conn \<Rightarrow> string \<Rightarrow> bool m" where
  "ensure_group_role c name =
     bind_m (get_role c name) (\<lambda>existing. case existing of
       Some st \<Rightarrow>
         let clauses = attribute_clauses [(''login'', False), (''inherit'', True)] (observed_attributes st)
         in then_m (when_m (clauses \<noteq> []) (execute c (alter_role_with name clauses))) (ret_m False)
     | None \<Rightarrow> then_m (execute c (Format ''CREATE ROLE {} WITH NOLOGIN INHERIT'' [ident name])) (ret_m True))"

section \<open>Login roles\<close>

definition valid_until_matches :: "conn \<Rightarrow> string \<Rightarrow> string option \<Rightarrow> bool m" where
  "valid_until_matches c name value =
     (case value of
        None \<Rightarrow> fetch says_bool c (Q_Valid_Until_Unset name)
      | Some v \<Rightarrow> fetch says_bool c (Q_Valid_Until_Is v name))"

definition connection_limit_clause :: "int \<Rightarrow> composed" where
  "connection_limit_clause n = Format ''CONNECTION LIMIT {}'' [Lit (L_Int n)]"

definition create_login_statement ::
  "string \<Rightarrow> string option \<Rightarrow> (string \<times> bool) list \<Rightarrow> int \<Rightarrow> string option \<Rightarrow> composed" where
  "create_login_statement name password attributes limit valid_until =
     (let clauses = attribute_clauses attributes ROLE_DEFAULTS @
            (if limit \<noteq> -1 then [connection_limit_clause limit] else []) @
            (if given valid_until then [Format ''VALID UNTIL {}'' [literal (the valid_until)]] else []) @
            (case password of None \<Rightarrow> [] | Some p \<Rightarrow> [Format ''PASSWORD {}'' [literal p]]);
          statement = Format ''CREATE ROLE {}'' [ident name]
      in if clauses \<noteq> [] then Format ''{} WITH {}'' [statement, Join '' '' clauses] else statement)"

definition ensure_login_role ::
  "conn \<Rightarrow> string \<Rightarrow> string option \<Rightarrow> (string \<times> bool) list \<Rightarrow> int \<Rightarrow> string option \<Rightarrow> bool m" where
  "ensure_login_role c name password attributes limit valid_until =
     bind_m (get_role c name) (\<lambda>existing. case existing of
       None \<Rightarrow>
         then_m (execute_as c (create_login_statement name password attributes limit valid_until)
                  (Some (''CREATE ROLE '' @ name @ '' WITH <options>'')))
           (ret_m True)
     | Some st \<Rightarrow>
         bind_m (valid_until_matches c name valid_until) (\<lambda>unchanged.
           let clauses = attribute_clauses attributes (observed_attributes st) @
                 (if rs_connection_limit st \<noteq> limit then [connection_limit_clause limit] else []) @
                 (if \<not> unchanged then [Format ''VALID UNTIL {}'' [literal (or_text valid_until ''infinity'')]] else [])
           in then_m (when_m (clauses \<noteq> [])
                       (execute_as c (alter_role_with name clauses)
                          (Some (''ALTER ROLE '' @ name @ '' WITH <options>''))))
                (ret_m False)))"

section \<open>Passwords\<close>

definition set_password :: "conn \<Rightarrow> string \<Rightarrow> string \<Rightarrow> unit m" where
  "set_password c name password =
     execute_as c (Format ''ALTER ROLE {} WITH PASSWORD {}'' [ident name, literal password])
       (Some (''ALTER ROLE '' @ name @ '' WITH PASSWORD <redacted>''))"

text \<open>\<open>except Exception: return None\<close>\<close>

definition stored_verifier :: "conn \<Rightarrow> string \<Rightarrow> string option m" where
  "stored_verifier c name = catch_m Base_Exception (fetch says_text c (Q_Verifier name)) (\<lambda>_. ret_m None)"

text \<open>\<open>int(text)\<close> on ASCII digits, with the sign, blanks and single underscores it allows.\<close>

fun digit_groups :: "string \<Rightarrow> bool" where
  "digit_groups [] = False"
| "digit_groups [c] = is_digit c"
| "digit_groups (c # d # s) = (is_digit c \<and> (if is_underscore d then digit_groups s else digit_groups (d # s)))"

definition py_int :: "string \<Rightarrow> int option" where
  "py_int text = (let t = py_strip text;
     (sign, body) = (case t of c # cs \<Rightarrow> if c = CHR ''-'' then (-1, cs) else if c = CHR ''+'' then (1, cs) else (1, t)
                              | [] \<Rightarrow> (1, []))
     in if digit_groups body then Some (sign * int (digits_value (filter is_digit body))) else None)"

definition ascii :: "string \<Rightarrow> bool" where
  "ascii s \<longleftrightarrow> (\<forall>c \<in> set s. code c < 128)"

text \<open>\<open>hmac.compare_digest\<close> on texts, which it refuses outside ASCII.\<close>

definition compare_digest :: "string \<Rightarrow> string \<Rightarrow> bool res" where
  "compare_digest a b =
     (if ascii a \<and> ascii b then Inr (a = b)
      else raise_r (Other_Exception ''TypeError'') ''comparing strings with non-ASCII characters is not supported'')"

definition stored_key_text :: "env \<Rightarrow> string \<Rightarrow> nat list \<Rightarrow> int \<Rightarrow> string" where
  "stored_key_text E password salt iterations =
     b64encode (sha256_digest E (hmac_sha256 E (pbkdf2_sha256 E (utf8 password) salt iterations) (map code ''Client Key'')))"

definition scram_matches :: "env \<Rightarrow> string \<Rightarrow> string \<Rightarrow> bool option res" where
  "scram_matches E verifier password =
     (case split_at CHR ''$'' verifier of
        [tag, params, keys] \<Rightarrow>
          (case partition_at CHR '':'' params of
             (iterations_raw, None) \<Rightarrow> Inr None
           | (iterations_raw, Some salt_b64) \<Rightarrow>
               (case (if ascii salt_b64 then b64decode salt_b64 else None, py_int iterations_raw) of
                  (Some salt, Some iterations) \<Rightarrow>
                    (if iterations < 1 then raise_r Value_Error ''iteration value must be greater than 0.''
                     else bind_r (compare_digest (stored_key_text E password salt iterations)
                                   (fst (partition_at CHR '':'' keys)))
                            (\<lambda>b. Inr (Some b)))
                | _ \<Rightarrow> Inr None))
      | _ \<Rightarrow> Inr None)"

definition md5_matches :: "env \<Rightarrow> string \<Rightarrow> string \<Rightarrow> string \<Rightarrow> bool option res" where
  "md5_matches E name verifier password =
     bind_r (compare_digest (''md5'' @ md5_hex E (utf8 (password @ name))) verifier) (\<lambda>b. Inr (Some b))"

definition password_matches :: "conn \<Rightarrow> string \<Rightarrow> string \<Rightarrow> bool option m" where
  "password_matches c name password =
     bind_m (stored_verifier c name) (\<lambda>v. case v of
       None \<Rightarrow> ret_m None
     | Some verifier \<Rightarrow>
         if starts_with ''SCRAM-SHA-256$'' verifier
         then bind_m (asks (\<lambda>E. scram_matches E verifier password)) lift_r
         else if starts_with ''md5'' verifier
         then bind_m (asks (\<lambda>E. md5_matches E name verifier password)) lift_r
         else ret_m None)"

section \<open>Memberships\<close>

definition memberships :: "conn \<Rightarrow> string \<Rightarrow> string list m" where
  "memberships c member = fetch says_names c (Q_Memberships member)"

definition members_of :: "conn \<Rightarrow> string \<Rightarrow> string list m" where
  "members_of c grp = fetch says_names c (Q_Members_Of grp)"

definition grant_membership :: "conn \<Rightarrow> string \<Rightarrow> string \<Rightarrow> bool \<Rightarrow> unit m" where
  "grant_membership c grp member with_admin =
     (let statement = Format ''GRANT {} TO {}'' [ident grp, ident member]
      in execute c (if with_admin then Format ''{} WITH ADMIN OPTION'' [statement] else statement))"

definition revoke_membership :: "conn \<Rightarrow> string \<Rightarrow> string \<Rightarrow> unit m" where
  "revoke_membership c grp member = execute c (Format ''REVOKE {} FROM {}'' [ident grp, ident member])"

text \<open>\<open>str(await fetch_scalar(... current_user))\<close>\<close>

definition current_user :: "conn \<Rightarrow> string m" where
  "current_user c = bind_m (fetch says_text c Q_Current_User) (\<lambda>r. ret_m (case r of Some s \<Rightarrow> s | None \<Rightarrow> ''None''))"

definition self_grant :: "string \<Rightarrow> string \<Rightarrow> composed" where
  "self_grant grp current = Format ''GRANT {} TO {} WITH INHERIT TRUE, SET TRUE'' [ident grp, ident current]"

definition ensure_self_membership :: "conn \<Rightarrow> string \<Rightarrow> bool \<Rightarrow> unit m" where
  "ensure_self_membership c grp per_grant_options =
     bind_m (current_user c) (\<lambda>current.
       if current = grp then ret_m ()
       else if per_grant_options
       then bind_m (fetch says_bool c (Q_Can grp ''SET'')) (\<lambda>has_set.
            bind_m (fetch says_bool c (Q_Can grp ''USAGE'')) (\<lambda>has_inherit.
              if has_set \<and> has_inherit then ret_m () else execute c (self_grant grp current)))
       else bind_m (fetch says_bool c (Q_Can grp ''MEMBER'')) (\<lambda>is_member.
            then_m (when_m (\<not> is_member) (grant_membership c grp current True))
              (bind_m (fetch says_bool c (Q_Can grp ''USAGE'')) (\<lambda>can_use. ret_m ()))))"

section \<open>Settings\<close>

definition set_role_statement :: "string \<Rightarrow> string \<Rightarrow> string \<Rightarrow> composed" where
  "set_role_statement name key value = Format ''ALTER ROLE {} SET {} TO {}'' [ident name, ident key, literal value]"

definition reset_role_statement :: "string \<Rightarrow> string \<Rightarrow> composed" where
  "reset_role_statement name key = Format ''ALTER ROLE {} RESET {}'' [ident name, ident key]"

definition set_role_parameters ::
  "conn \<Rightarrow> string \<Rightarrow> (string \<times> string) list \<Rightarrow> (string \<times> string) list \<Rightarrow> string list m" where
  "set_role_parameters c name parameters observed =
     bind_m (fold_m (\<lambda>changes (key, value).
         if map_of observed key = Some value then ret_m changes
         else then_m (execute c (set_role_statement name key value)) (ret_m (changes @ [''set '' @ key])))
       [] parameters) (\<lambda>changes.
     bind_m (asks (\<lambda>E. stale_keys E observed parameters)) (\<lambda>stale.
     fold_m (\<lambda>changes key. then_m (execute c (reset_role_statement name key)) (ret_m (changes @ [''reset '' @ key])))
       changes stale))"

definition merge_settings :: "string list list \<Rightarrow> (string \<times> string) list" where
  "merge_settings rows = foldl (\<lambda>settings config. dupdate settings (parse_setconfig config)) [] rows"

definition get_role_parameters :: "conn \<Rightarrow> string \<Rightarrow> string option \<Rightarrow> (string \<times> string) list m" where
  "get_role_parameters c name database =
     bind_m (fetch says_settings c (Q_Role_Settings name (or_text database []))) (\<lambda>rows. ret_m (merge_settings rows))"

definition set_default_role_in_database :: "conn \<Rightarrow> string \<Rightarrow> string \<Rightarrow> string \<Rightarrow> unit m" where
  "set_default_role_in_database c login_role database group_role =
     execute c (Format ''ALTER ROLE {} IN DATABASE {} SET role TO {}''
       [ident login_role, ident database, ident group_role])"

definition reset_default_role_in_database :: "conn \<Rightarrow> string \<Rightarrow> string \<Rightarrow> bool m" where
  "reset_default_role_in_database c login_role database =
     catch_m ObjectMissing
       (then_m (execute c (Format ''ALTER ROLE {} IN DATABASE {} RESET role'' [ident login_role, ident database]))
          (ret_m True))
       (\<lambda>_. ret_m False)"

section \<open>Teardown\<close>

definition owned_objects_exist :: "conn \<Rightarrow> string \<Rightarrow> bool m" where
  "owned_objects_exist c role = bind_m (fetch says_count c (Q_Owned_Databases role)) (\<lambda>n. ret_m (n \<noteq> 0))"

definition drop_owned :: "conn \<Rightarrow> string \<Rightarrow> bool \<Rightarrow> unit m" where
  "drop_owned c role cascade =
     (let statement = Format ''DROP OWNED BY {}'' [ident role]
      in execute c (if cascade then Format ''{} CASCADE'' [statement] else statement))"

definition drop_role_statement :: "string \<Rightarrow> composed" where
  "drop_role_statement name = Format ''DROP ROLE IF EXISTS {}'' [ident name]"

definition drop_role :: "conn \<Rightarrow> string \<Rightarrow> unit m" where
  "drop_role c name = execute c (drop_role_statement name)"

definition terminate_backend :: "conn \<Rightarrow> int \<Rightarrow> bool m" where
  "terminate_backend c pid = fetch says_bool c (Q_Terminate pid)"

definition terminate_role_sessions :: "conn \<Rightarrow> string \<Rightarrow> nat m" where
  "terminate_role_sessions c name =
     bind_m (fetch says_backends c (Q_Role_Backends name)) (\<lambda>backends.
     fold_m (\<lambda>n pid. catch_m ReconcileFailure (then_m (terminate_backend c pid) (ret_m (n + 1))) (\<lambda>_. ret_m n))
       0 (map fst backends))"

definition revoke_all_memberships :: "conn \<Rightarrow> string \<Rightarrow> string list m" where
  "revoke_all_memberships c member =
     bind_m (memberships c member) (\<lambda>held.
     then_m (when_m (held \<noteq> [])
              (execute c (Format ''REVOKE {} FROM {}'' [idents (sorted_set held), ident member])))
       (ret_m (sorted_set held)))"

section \<open>Attribute differences\<close>

text \<open>The meaning of one clause on a role's attributes, and of a list of clauses.\<close>

definition clause_effect :: "composed \<Rightarrow> (string \<times> bool) option" where
  "clause_effect s = (case s of
      SQL t \<Rightarrow> map_option (\<lambda>(a, p, n). (a, t = p)) (find (\<lambda>(a, p, n). t = p \<or> t = n) ATTRIBUTE_KEYWORDS)
    | _ \<Rightarrow> None)"

definition apply_clause :: "(string \<rightharpoonup> bool) \<Rightarrow> composed \<Rightarrow> (string \<rightharpoonup> bool)" where
  "apply_clause m s = (case clause_effect s of Some (a, b) \<Rightarrow> m(a \<mapsto> b) | None \<Rightarrow> m)"

lemma clause_effects:
  "(a, p, n) \<in> set ATTRIBUTE_KEYWORDS \<Longrightarrow>
   clause_effect (SQL p) = Some (a, True) \<and> clause_effect (SQL n) = Some (a, False)"
proof -
  have "list_all (\<lambda>(a, p, n). clause_effect (SQL p) = Some (a, True) \<and> clause_effect (SQL n) = Some (a, False))
      ATTRIBUTE_KEYWORDS"
    by code_simp
  then show "(a, p, n) \<in> set ATTRIBUTE_KEYWORDS \<Longrightarrow>
      clause_effect (SQL p) = Some (a, True) \<and> clause_effect (SQL n) = Some (a, False)"
    by (auto simp: list_all_iff)
qed

lemma apply_clauses_from:
  assumes "set ks \<subseteq> set ATTRIBUTE_KEYWORDS" "distinct (map fst ks)"
    and "\<forall>k \<in> set (map fst ks). m k = map_of observed k"
  shows "foldl apply_clause m (clauses_from ks desired observed) =
     (\<lambda>k. if k \<in> set (map fst ks) \<and> map_of desired k \<noteq> None then map_of desired k else m k)"
  using assms
proof (induction ks arbitrary: m)
  case (Cons k ks)
  obtain a p n where k: "k = (a, p, n)" by (cases k)
  have e: "clause_effect (SQL p) = Some (a, True)" "clause_effect (SQL n) = Some (a, False)"
    using clause_effects [of a p n] Cons.prems(1) k by auto
  have a: "a \<notin> set (map fst ks)" using Cons.prems(2) k by auto
  show ?case
  proof (cases "map_of desired a")
    case None
    then show ?thesis using Cons k by (auto simp: fun_eq_iff)
  next
    case (Some wanted)
    have m: "m a = map_of observed a" using Cons.prems(3) k by simp
    let ?m = "m(a \<mapsto> wanted)"
    have step: "foldl apply_clause m (clauses_from (k # ks) desired observed) =
        foldl apply_clause ?m (clauses_from ks desired observed)"
      using Some m k e by (auto simp: apply_clause_def fun_upd_idem)
    have "foldl apply_clause ?m (clauses_from ks desired observed) =
        (\<lambda>k. if k \<in> set (map fst ks) \<and> map_of desired k \<noteq> None then map_of desired k else ?m k)"
      by (rule Cons.IH) (use Cons.prems k a in \<open>auto simp: image_iff\<close>)
    with step show ?thesis using Some k a by (auto simp: fun_eq_iff)
  qed
qed simp

text \<open>
  Role attributes converge and nothing is restated: running the clauses the code derives turns the
  observed attributes into the observed ones overwritten by the wanted ones, and there is no clause for an
  attribute that already has its wanted value - so none at all for a converged role.
\<close>

theorem attribute_clauses_converge:
  "foldl apply_clause (map_of observed) (attribute_clauses desired observed) =
     (\<lambda>k. if k \<in> set (map fst ATTRIBUTE_KEYWORDS) \<and> map_of desired k \<noteq> None
          then map_of desired k else map_of observed k) \<and>
   (\<forall>s \<in> set (attribute_clauses desired observed). \<exists>a b. clause_effect s = Some (a, b) \<and>
      map_of desired a = Some b \<and> map_of observed a \<noteq> Some b)"
proof -
  have "\<exists>a b. clause_effect s = Some (a, b) \<and> map_of desired a = Some b \<and> map_of observed a \<noteq> Some b"
    if "s \<in> set (clauses_from ks desired observed)" "set ks \<subseteq> set ATTRIBUTE_KEYWORDS" for s ks
    using that
    by (induction ks desired observed rule: clauses_from.induct)
      (auto split: option.splits if_splits dest!: clause_effects)
  moreover have "distinct (map fst ATTRIBUTE_KEYWORDS)" by (simp add: ATTRIBUTE_KEYWORDS_def)
  ultimately show ?thesis
    unfolding attribute_clauses_def by (auto simp: apply_clauses_from)
qed

theorem attribute_clauses_converge_witness:
  "\<exists>a b. clause_effect (SQL ''LOGIN'') = Some (a, b) \<and> map_of [(''login'', True)] a = Some b \<and>
     map_of [(''login'', False)] a \<noteq> Some b"
proof -
  have "SQL ''LOGIN'' \<in> set (attribute_clauses [(''login'', True)] [(''login'', False)])"
    by (simp add: attribute_clauses_def ATTRIBUTE_KEYWORDS_def)
  then show ?thesis
    using attribute_clauses_converge [of "[(''login'', False)]" "[(''login'', True)]"] by blast
qed

lemma clauses_from_converged:
  "(\<And>a b. map_of desired a = Some b \<Longrightarrow> map_of observed a = Some b) \<Longrightarrow> clauses_from ks desired observed = []"
  by (induction ks desired observed rule: clauses_from.induct) (auto split: option.splits)

definition valid_until_query :: "string \<Rightarrow> string option \<Rightarrow> query" where
  "valid_until_query name value = (case value of None \<Rightarrow> Q_Valid_Until_Unset name | Some v \<Rightarrow> Q_Valid_Until_Is v name)"

text \<open>
  A converged login role is left alone: when the role has every wanted attribute, the wanted
  connection limit and, by the server's own comparison, the wanted expiry, a pass asks its two questions
  and sends no statement at all - in particular no password.
\<close>

theorem converged_login_role_untouched:
  assumes "says_role E (trace w) c (Q_Role name) = Inr (Some st)"
    and "\<forall>a b. map_of attributes a = Some b \<longrightarrow> map_of (observed_attributes st) a = Some b"
    and "rs_connection_limit st = limit"
    and "says_bool E (trace w @ [Asked c (Q_Role name)]) c (valid_until_query name valid_until) = Inr True"
  shows "ensure_login_role c name password attributes limit valid_until E w =
     (Inr False, w\<lparr>trace := trace w @ [Asked c (Q_Role name), Asked c (valid_until_query name valid_until)]\<rparr>)"
proof -
  have r: "get_role c name E w = (Inr (Some st), w\<lparr>trace := trace w @ [Asked c (Q_Role name)]\<rparr>)"
    unfolding get_role_def by (rule fetch_answer) (rule assms(1))
  have v: "valid_until_matches c name valid_until = fetch says_bool c (valid_until_query name valid_until)"
    by (simp add: valid_until_matches_def valid_until_query_def split: option.split)
  have "attribute_clauses attributes (observed_attributes st) = []"
    unfolding attribute_clauses_def using assms(2) by (intro clauses_from_converged) blast
  then show ?thesis
    using assms(3,4) by (simp add: ensure_login_role_def run_simps r v fetch_answer)
qed

text \<open>
  Error texts do not depend on the password: if the server answers the same to the statements for two
  passwords, setting either, or creating the role with either, gives the same result - the same error
  text included, however statements are rendered.
\<close>

theorem password_not_in_errors:
  assumes "\<And>h. on_execute E h c (Format ''ALTER ROLE {} WITH PASSWORD {}'' [ident name, literal p]) =
             on_execute E h c (Format ''ALTER ROLE {} WITH PASSWORD {}'' [ident name, literal q])"
    and "\<And>h. on_execute E h c (create_login_statement name (Some p) attributes limit valid_until) =
             on_execute E h c (create_login_statement name (Some q) attributes limit valid_until)"
  shows "fst (set_password c name p E w) = fst (set_password c name q E w) \<and>
    fst (ensure_login_role c name (Some p) attributes limit valid_until E w) =
    fst (ensure_login_role c name (Some q) attributes limit valid_until E w)"
proof -
  have same: "fst (execute_as c s (Some (x # d)) E w) = fst (execute_as c s' (Some (x # d)) E w)"
    if "\<And>h. on_execute E h c s = on_execute E h c s'" for s s' x d w
    using that by (simp add: execute_as_def bind_m_def then_m_def asks_def sample_m_def tell_def throw_m_def
        split: option.split)
  have "fst (set_password c name p E w) = fst (set_password c name q E w)"
    unfolding set_password_def by (simp add: same [OF assms(1)])
  moreover have created: "fst (then_m (execute_as c (create_login_statement name (Some p) attributes limit valid_until) (Some (x # d))) (ret_m True) E w) =
      fst (then_m (execute_as c (create_login_statement name (Some q) attributes limit valid_until) (Some (x # d))) (ret_m True) E w)"
    for x d w
    unfolding then_m_def by (rule fst_bind, rule same [OF assms(2)]) (simp add: run_simps)
  then have "fst (ensure_login_role c name (Some p) attributes limit valid_until E w) =
    fst (ensure_login_role c name (Some q) attributes limit valid_until E w)"
    by (auto simp: ensure_login_role_def bind_m_def [of "get_role c name"] split: prod.splits sum.splits option.splits)
  ultimately show ?thesis by blast
qed

definition sample_role :: role_state where
  "sample_role = \<lparr>rs_name = ''app'', rs_can_login = True, rs_inherit = True, rs_create_db = False, rs_create_role = False,
     rs_replication = False, rs_bypass_rls = False, rs_connection_limit = 10, rs_valid_until = None\<rparr>"

theorem converged_login_role_untouched_witness:
  "ensure_login_role sample_conn ''app'' (Some ''s3cret'') [(''login'', True), (''createDB'', False)] 10 None
     (sample_env\<lparr>says_role := \<lambda>h c q. Inr (Some sample_role), says_bool := \<lambda>h c q. Inr True\<rparr>) empty_world =
   (Inr False, empty_world\<lparr>trace := [Asked sample_conn (Q_Role ''app''), Asked sample_conn (Q_Valid_Until_Unset ''app'')]\<rparr>)"
  using converged_login_role_untouched [where E = "sample_env\<lparr>says_role := \<lambda>h c q. Inr (Some sample_role), says_bool := \<lambda>h c q. Inr True\<rparr>"
      and w = empty_world and c = sample_conn and name = "''app''" and st = sample_role
      and attributes = "[(''login'', True), (''createDB'', False)]" and limit = 10 and valid_until = None]
  by (simp add: sample_role_def observed_attributes_def valid_until_query_def empty_world_def)

theorem password_not_in_errors_witness:
  "fst (set_password sample_conn ''app'' ''one'' sample_env empty_world) = fst (set_password sample_conn ''app'' ''two'' sample_env empty_world) \<and>
    fst (ensure_login_role sample_conn ''app'' (Some ''one'') [(''login'', True)] 5 None sample_env empty_world) =
    fst (ensure_login_role sample_conn ''app'' (Some ''two'') [(''login'', True)] 5 None sample_env empty_world)"
  by (rule password_not_in_errors) (simp_all add: sample_env_accepts)

section \<open>The password check\<close>

lemma split_at_none: "d \<notin> set s \<Longrightarrow> split_at d s = [s]"
  by (induction s) auto

lemma split_at_first: "d \<notin> set a \<Longrightarrow> split_at d (a @ d # b) = a # split_at d b"
proof (induction a)
  case (Cons c a)
  then show ?case by (cases "split_at d b") auto
qed simp

lemma split_at_three:
  "d \<notin> set a \<Longrightarrow> d \<notin> set b \<Longrightarrow> d \<notin> set c \<Longrightarrow> split_at d (a @ d # b @ d # c) = [a, b, c]"
  by (simp add: split_at_first split_at_none)

lemma digit_not: "is_digit c \<Longrightarrow> \<not> is_space c" "is_digit c \<Longrightarrow> \<not> is_underscore c"
  "is_digit c \<Longrightarrow> c \<noteq> CHR ''-''" "is_digit c \<Longrightarrow> c \<noteq> CHR ''+''" "is_digit c \<Longrightarrow> c \<noteq> CHR '':''"
  "is_digit c \<Longrightarrow> c \<noteq> CHR ''$''"
  by (auto simp: is_digit_def is_space_def is_underscore_def code_def Let_def)

lemma digit_groups_digits: "\<forall>c \<in> set s. is_digit c \<Longrightarrow> s \<noteq> [] \<Longrightarrow> digit_groups s"
  by (induction s rule: digit_groups.induct) (auto simp: digit_not)

lemma py_int_show [simp]: "py_int (show_nat n) = Some (int n)"
proof -
  have d: "\<forall>c \<in> set (show_nat n). is_digit c" by (rule show_nat_digits)
  have "py_strip (show_nat n) = show_nat n" using d by (simp add: py_strip_def strip_if_id digit_not)
  moreover obtain c cs where s: "show_nat n = c # cs" using show_nat_nonempty by (cases "show_nat n") auto
  moreover have "c \<noteq> CHR ''-''" "c \<noteq> CHR ''+''" using d s digit_not(3,4) by fastforce+
  moreover have "digit_groups (show_nat n)" using d show_nat_nonempty by (rule digit_groups_digits)
  moreover have "filter is_digit (show_nat n) = show_nat n" using d by simp
  ultimately show ?thesis by (simp add: py_int_def Let_def del: filter_True) (metis digits_value_show)
qed

definition scram_verifier :: "env \<Rightarrow> string \<Rightarrow> nat list \<Rightarrow> nat \<Rightarrow> nat list \<Rightarrow> string" where
  "scram_verifier E password salt n server_key =
     ''SCRAM-SHA-256$'' @ show_nat n @ '':'' @ b64encode salt @ ''$'' @
     stored_key_text E password salt (int n) @ '':'' @ b64encode server_key"

lemma scram_matches_verifier:
  assumes "1 \<le> n" "\<forall>b \<in> set salt. b < 256"
  shows "scram_matches E (scram_verifier E password salt n key) candidate =
    Inr (Some (stored_key_text E candidate salt (int n) = stored_key_text E password salt (int n)))"
proof -
  have no: "CHR ''$'' \<notin> set (b64encode bs)" "CHR '':'' \<notin> set (b64encode bs)" "ascii (b64encode bs)" for bs
    using b64encode_chars by (auto simp: ascii_def)
  have dig: "CHR ''$'' \<notin> set (show_nat n)" "CHR '':'' \<notin> set (show_nat n)"
    using show_nat_digits digit_not(5,6) by blast+
  let ?params = "show_nat n @ '':'' @ b64encode salt"
  let ?keys = "stored_key_text E password salt (int n) @ '':'' @ b64encode key"
  have "scram_verifier E password salt n key = ''SCRAM-SHA-256'' @ CHR ''$'' # (?params @ CHR ''$'' # ?keys)"
    by (simp add: scram_verifier_def)
  moreover have "CHR ''$'' \<notin> set ''SCRAM-SHA-256''" by simp
  moreover have "CHR ''$'' \<notin> set ?params" "CHR ''$'' \<notin> set ?keys"
    using no dig by (simp_all add: stored_key_text_def)
  ultimately have "split_at CHR ''$'' (scram_verifier E password salt n key) = [''SCRAM-SHA-256'', ?params, ?keys]"
    using split_at_three [of "CHR ''$''" "''SCRAM-SHA-256''" ?params ?keys] by simp
  moreover have "partition_at CHR '':'' ?params = (show_nat n, Some (b64encode salt))"
    using partition_at_first [OF dig(2)] by simp
  moreover have "fst (partition_at CHR '':'' ?keys) = stored_key_text E password salt (int n)"
    using partition_at_first no(2) unfolding stored_key_text_def by fastforce
  ultimately show ?thesis
    using assms no(3) by (simp add: scram_matches_def b64_roundtrip compare_digest_def stored_key_text_def)
qed

text \<open>
  The password check is right and only reads: against a SCRAM verifier in PostgreSQL's format, a
  candidate matches exactly when it derives the same stored key - so the password the verifier was made
  from always matches - and the check asks one question and changes nothing. When the verifier cannot be
  read, the answer is \<open>None\<close>, never an error.
\<close>

theorem password_check_sound:
  assumes "1 \<le> n" "\<forall>b \<in> set salt. b < 256"
    and "says_text E (trace w) c (Q_Verifier name) = answer"
    and "answer = Inr (Some (scram_verifier E password salt n key)) \<or> (\<exists>e. answer = Inl e)"
  shows "password_matches c name candidate E w =
    (Inr (case answer of
        Inl e \<Rightarrow> None
      | Inr _ \<Rightarrow> Some (stored_key_text E candidate salt (int n) = stored_key_text E password salt (int n))),
     w\<lparr>trace := trace w @ [Asked c (Q_Verifier name)]\<rparr>)"
proof (cases answer)
  case (Inl e)
  have "instance_of x Base_Exception" for x by (simp add: instance_of_def)
  then show ?thesis using Inl assms(3)
    by (cases e) (simp add: password_matches_def stored_verifier_def fetch_def run_simps)
next
  case (Inr x)
  with assms(4) have x: "answer = Inr (Some (scram_verifier E password salt n key))" by simp
  then have "fetch says_text c (Q_Verifier name) E w =
      (Inr (Some (scram_verifier E password salt n key)), w\<lparr>trace := trace w @ [Asked c (Q_Verifier name)]\<rparr>)"
    using assms(3) by (intro fetch_answer) simp
  moreover have "starts_with ''SCRAM-SHA-256$'' (scram_verifier E password salt n key)"
    unfolding scram_verifier_def by (rule starts_with_append)
  ultimately show ?thesis
    using x by (simp add: password_matches_def stored_verifier_def run_simps scram_matches_verifier [OF assms(1,2)])
qed

theorem password_check_sound_witness:
  "fst (password_matches sample_conn ''app'' ''s3cret''
     (sample_env\<lparr>says_text := \<lambda>h c q. Inr (Some (scram_verifier sample_env ''s3cret'' [1, 2, 3] 4096 [9]))\<rparr>) empty_world) =
   Inr (Some True)"
proof -
  let ?E = "sample_env\<lparr>says_text := \<lambda>h c q. Inr (Some (scram_verifier sample_env ''s3cret'' [1, 2, 3] 4096 [9]))\<rparr>"
  have "password_matches sample_conn ''app'' ''s3cret'' ?E empty_world =
     (Inr (case Inr (Some (scram_verifier ?E ''s3cret'' [1, 2, 3] 4096 [9])) :: pg_error + string option of Inl e \<Rightarrow> None
           | Inr _ \<Rightarrow> Some (stored_key_text ?E ''s3cret'' [1, 2, 3] (int 4096) = stored_key_text ?E ''s3cret'' [1, 2, 3] (int 4096))),
      empty_world\<lparr>trace := trace empty_world @ [Asked sample_conn (Q_Verifier ''app'')]\<rparr>)"
    by (rule password_check_sound [where key = "[9]"]) (simp_all add: scram_verifier_def stored_key_text_def)
  then show ?thesis by simp
qed

section \<open>Settings converge\<close>

interpretation role_settings: setting_statements "set_role_statement name" "reset_role_statement name"
    "parameter_effect ''ALTER ROLE {} SET {} TO {}'' ''ALTER ROLE {} RESET {}''" for name
  by unfold_locales (simp_all add: set_role_statement_def reset_role_statement_def ident_def literal_def)

lemma set_role_parameters_run:
  assumes "set_role_parameters c name ps observed E w = (Inr changes, w')"
  shows "trace w' = trace w @ map (\<lambda>s. Executed c s True)
     (settings_plan (set_role_statement name) (reset_role_statement name) ps observed (stale_keys E observed ps))"
proof -
  have sets: "trace w' = trace w @ map (\<lambda>s. Executed c s True) (map (\<lambda>(k, v). set_role_statement name k v) (wanted_changes ps observed))"
    if "fold_m (\<lambda>changes (key, value).
         if map_of observed key = Some value then ret_m changes
         else then_m (execute c (set_role_statement name key value)) (ret_m (changes @ [''set '' @ key]))) acc ps E w = (Inr r, w')"
    for acc r w w' ps
    using that
  proof (induction ps arbitrary: acc w)
    case (Cons kv ps)
    then show ?case
      by (cases kv) (auto simp: wanted_changes_def run_simps split: prod.splits sum.splits if_splits dest!: execute_success)
  qed (simp add: wanted_changes_def run_simps)
  have resets: "trace w' = trace w @ map (\<lambda>s. Executed c s True) (map (reset_role_statement name) ks)"
    if "fold_m (\<lambda>changes key. then_m (execute c (reset_role_statement name key)) (ret_m (changes @ [''reset '' @ key])))
       acc ks E w = (Inr r, w')" for acc r w w' ks
    using that
  proof (induction ks arbitrary: acc w)
    case (Cons k ks)
    then show ?case by (auto simp: run_simps split: prod.splits sum.splits dest!: execute_success)
  qed (simp add: run_simps)
  from assms show ?thesis
    by (auto simp: set_role_parameters_def run_simps settings_plan_def split: prod.splits sum.splits dest!: sets resets sets [simplified] resets [simplified])
qed

text \<open>
  Role settings converge: a pass that returns has turned the observed settings of the role into
  exactly the declared ones - undeclared settings are reset - and when they already agree it has sent
  nothing.
\<close>

theorem role_parameters_converge:
  assumes "set_role_parameters c name ps observed E w = (Inr changes, w')"
    and "distinct (map fst ps)" "orders_sets E"
  shows "\<exists>es. trace w' = trace w @ es \<and>
    settings_after (parameter_effect ''ALTER ROLE {} SET {} TO {}'' ''ALTER ROLE {} RESET {}'')
       (map_of observed) (executions c es) = map_of ps \<and>
    (map_of observed = map_of ps \<longrightarrow> es = [])"
proof -
  let ?plan = "settings_plan (set_role_statement name) (reset_role_statement name) ps observed (stale_keys E observed ps)"
  have "settings_after (parameter_effect ''ALTER ROLE {} SET {} TO {}'' ''ALTER ROLE {} RESET {}'')
       (map_of observed) (map (\<lambda>s. (s, True)) ?plan) k = map_of ps k" for k
    using role_settings.plan_result [OF assms(2) stale_keys_set(2,1) [OF assms(3)], of "map (\<lambda>s. (s, True)) ?plan"]
    by (auto simp: o_def)
  moreover have "?plan = []" if "map_of observed = map_of ps"
    using that wanted_changes_same [OF assms(2)] stale_keys_same [OF assms(3)] by (simp add: settings_plan_def)
  ultimately show ?thesis
    using set_role_parameters_run [OF assms(1)]
    by (intro exI [of _ "map (\<lambda>s. Executed c s True) ?plan"]) (simp only: executions_map, auto)
qed

theorem role_parameters_converge_witness:
  "\<exists>es. settings_after (parameter_effect ''ALTER ROLE {} SET {} TO {}'' ''ALTER ROLE {} RESET {}'')
       (map_of [(''work_mem'', ''4MB''), (''jit'', ''off'')]) (executions sample_conn es) = map_of [(''work_mem'', ''64MB'')]"
proof -
  obtain changes w' where w: "set_role_parameters sample_conn ''app'' [(''work_mem'', ''64MB'')]
      [(''work_mem'', ''4MB''), (''jit'', ''off'')] sample_env empty_world = (Inr changes, w')"
    by (simp add: set_role_parameters_def run_simps execute_ok sample_env_accepts stale_keys_def dkeys_def)
      (simp add: sample_env_def run_simps execute_ok)
  show ?thesis
    using role_parameters_converge [OF w _ sample_env_orders_sets] by auto
qed

end
