(* ===== verification/Publications.thy ===== *)
theory Publications
  imports Eligibility Roles "HOL-Library.Product_Lexorder"
begin

text \<open>
  \<open>postgres/publication.py\<close>: what the catalogs of both servers say about tables, assembled into the records that
  \<open>Eligibility\<close> judges, and the publication statements. A frozen set of names is a list; dictionaries are
  keyed lists. \<open>pg_partition_tree\<close> calls a relation a leaf when it is not partitioned itself, so leaves are
  assembled without looking for leaves of theirs.
\<close>

section \<open>The source catalog\<close>

definition columns_by_relation :: "column_row list \<Rightarrow> int \<Rightarrow> column_row list" where
  "columns_by_relation rows oid = filter (\<lambda>r. cl_relation r = oid) rows"

text \<open>The names a query returns for one relation; an empty list is a relation without any.\<close>

definition names_of :: "(int \<times> string) list \<Rightarrow> int \<Rightarrow> string list" where
  "names_of rows oid = remdups (map snd (filter (\<lambda>(relid, _). relid = oid) rows))"

definition publishable_columns :: "column_row list \<Rightarrow> (string \<times> string) list" where
  "publishable_columns columns = dupdate [] (map (\<lambda>r. (cl_name r, cl_type r)) (filter (\<lambda>r. \<not> cl_generated r) columns))"

definition publisher_identity :: "string \<Rightarrow> string list \<Rightarrow> string list \<Rightarrow> string list option" where
  "publisher_identity replica_identity own_columns identity =
     (if replica_identity = ''f'' then Some own_columns
      else if (replica_identity = ''d'' \<or> replica_identity = ''i'') \<and> identity \<noteq> [] then Some identity
      else None)"

definition source_relation :: "relation_row \<Rightarrow> column_row list \<Rightarrow> string list \<Rightarrow> relation" where
  "source_relation row columns identity =
     (let own_columns = publishable_columns columns
      in \<lparr>rl_schema = rel_schema row, rl_name = rel_name row, rl_kind = rel_kind row, rl_persistent = rel_persistent row,
          rl_is_partition = rel_is_partition row, rl_owner = rel_owner row, rl_owner_usable = rel_owner_usable row,
          rl_row_security = rel_row_security row, rl_replica_identity = rel_replica_identity row,
          rl_identity = publisher_identity (rel_replica_identity row) (dkeys own_columns) identity,
          rl_columns = own_columns, rl_generated = map cl_name (filter cl_generated columns), rl_readable = rel_readable row\<rparr>)"

text \<open>\<open>{int(row[0]): row for row in rows}\<close>\<close>

definition by_oid :: "relation_row list \<Rightarrow> (int \<times> relation_row) list" where
  "by_oid rows = dupdate [] (map (\<lambda>r. (rel_oid r, r)) rows)"

definition assemble_leaves :: "conn \<Rightarrow> relation_row list \<Rightarrow> relation list m" where
  "assemble_leaves c rows =
     (if rows = [] then ret_m []
      else let oids = dkeys (by_oid rows)
        in bind_m (fetch says_columns c (Q_Columns oids)) (\<lambda>columns.
           bind_m (fetch says_identity c (Q_Identity_Columns oids)) (\<lambda>identity.
           ret_m (map (\<lambda>(oid, row). source_relation row (columns_by_relation columns oid) (names_of identity oid)) (by_oid rows)))))"

definition leaves_of :: "conn \<Rightarrow> string \<Rightarrow> relation_row \<Rightarrow> relation list m" where
  "leaves_of c login row =
     (if rel_kind row \<noteq> ''p'' then ret_m []
      else bind_m (fetch says_oids c (Q_Leaves (rel_oid row))) (\<lambda>leaf_oids.
        if leaf_oids = [] then ret_m []
        else bind_m (fetch says_relations c (Q_Relations_By_Oid login leaf_oids)) (assemble_leaves c)))"

definition assemble :: "conn \<Rightarrow> relation_row list \<Rightarrow> string \<Rightarrow> source_table list m" where
  "assemble c rows login =
     (if rows = [] then ret_m []
      else let oids = dkeys (by_oid rows)
        in bind_m (fetch says_columns c (Q_Columns oids)) (\<lambda>columns.
           bind_m (fetch says_identity c (Q_Identity_Columns oids)) (\<lambda>identity.
           fold_m (\<lambda>assembled (oid, row).
               bind_m (leaves_of c login row) (\<lambda>leaves.
               ret_m (assembled @ [\<lparr>st_relation = source_relation row (columns_by_relation columns oid) (names_of identity oid),
                                   st_leaves = leaves\<rparr>])))
             [] (by_oid rows))))"

definition describe_source_tables ::
  "conn \<Rightarrow> string list \<Rightarrow> (string \<times> string) list \<Rightarrow> string \<Rightarrow> (string \<times> source_table) list m" where
  "describe_source_tables c schemas tables login =
     bind_m (fetch says_relations c (Q_Relations_In login (sorted_set schemas))) (\<lambda>rows.
     bind_m (let named = sorted_set tables
             in if named \<noteq> [] then fetch says_relations c (Q_Relations_Named login named) else ret_m []) (\<lambda>more.
     bind_m (assemble c (rows @ more) login) (\<lambda>found.
     ret_m (dupdate [] (map (\<lambda>t. (rl_qualified (st_relation t), t)) found)))))"

section \<open>The target catalog\<close>

text \<open>The key columns of the primary key and of the replica-identity index; one index may be both.\<close>

definition primary_columns :: "(int \<times> bool \<times> bool \<times> string) list \<Rightarrow> int \<Rightarrow> string list" where
  "primary_columns rows oid = remdups (map (\<lambda>(_, _, _, n). n) (filter (\<lambda>(relid, prim, repl, _). relid = oid \<and> prim) rows))"

definition replident_columns :: "(int \<times> bool \<times> bool \<times> string) list \<Rightarrow> int \<Rightarrow> string list" where
  "replident_columns rows oid = remdups (map (\<lambda>(_, _, _, n). n) (filter (\<lambda>(relid, prim, repl, _). relid = oid \<and> repl) rows))"

definition subscriber_identity :: "string \<Rightarrow> string list \<Rightarrow> string list \<Rightarrow> string list option" where
  "subscriber_identity replica_identity primary replident =
     (if replica_identity = ''i'' \<and> replident \<noteq> [] then Some replident
      else if primary \<noteq> [] then Some primary else None)"

definition target_relation :: "target_row \<Rightarrow> column_row list \<Rightarrow> (int \<times> bool \<times> bool \<times> string) list \<Rightarrow> target_table" where
  "target_relation row columns identity =
     (let replicated = filter (\<lambda>r. \<not> cl_generated r) columns
      in \<lparr>tt_schema = tr_schema row, tt_name = tr_name row, tt_kind = tr_kind row, tt_owner = tr_owner row,
          tt_owner_settable = tr_owner_settable row, tt_columns = publishable_columns columns,
          tt_identity = subscriber_identity (tr_replica_identity row) (primary_columns identity (tr_oid row))
            (replident_columns identity (tr_oid row)),
          tt_required = map cl_name (filter (\<lambda>r. cl_not_null r \<and> \<not> cl_supplied r) replicated)\<rparr>)"

definition describe_target_tables :: "conn \<Rightarrow> (string \<times> string) list \<Rightarrow> (string \<times> target_table) list m" where
  "describe_target_tables c wanted =
     (let names = sorted_set wanted
      in if names = [] then ret_m []
         else bind_m (fetch says_targets c (Q_Target_Relations names)) (\<lambda>rows.
           let oids = map tr_oid rows
           in bind_m (fetch says_columns c (Q_Columns oids)) (\<lambda>columns.
              bind_m (fetch says_target_identity c (Q_Target_Identity oids)) (\<lambda>identity.
              ret_m (dupdate [] (map (\<lambda>t. (tt_qualified t, t))
                (map (\<lambda>row. target_relation row (columns_by_relation columns (tr_oid row)) identity) rows)))))))"

section \<open>Publications\<close>

record published_table =
  pt_columns :: "string list option"
  pt_row_filter :: "string option"

record publication_state =
  pu_name :: string
  pu_owner :: string
  pu_comment :: "string option"
  pu_operations :: "publish_operation list"
  pu_via_root :: bool
  pu_tables :: "(string \<times> published_table) list"

definition operations_of :: "publication_row \<Rightarrow> publish_operation list" where
  "operations_of r = map fst (filter snd [(Insert, pn_insert r), (Update, pn_update r), (Delete, pn_delete r), (Truncate, pn_truncate r)])"

definition get_publication :: "conn \<Rightarrow> string \<Rightarrow> publication_state option m" where
  "get_publication c name =
     bind_m (fetch says_publication c (Q_Publication name)) (\<lambda>row. case row of
       None \<Rightarrow> ret_m None
     | Some r \<Rightarrow>
         bind_m (fetch says_members c (Q_Publication_Tables (pn_oid r))) (\<lambda>members.
         ret_m (Some \<lparr>pu_name = name, pu_owner = pn_owner r, pu_comment = pn_comment r, pu_operations = operations_of r,
                      pu_via_root = pn_via_root r,
                      pu_tables = dupdate [] (map (\<lambda>t. (qualified_name (mr_schema t) (mr_table t),
                        \<lparr>pt_columns = mr_columns t, pt_row_filter = mr_filter t\<rparr>)) members)\<rparr>)))"

fun operation_text :: "publish_operation \<Rightarrow> string" where
  "operation_text Insert = ''insert''"
| "operation_text Update = ''update''"
| "operation_text Delete = ''delete''"
| "operation_text Truncate = ''truncate''"

definition publication_options :: "publish_operation list \<Rightarrow> bool \<Rightarrow> composed" where
  "publication_options operations via_root =
     Format ''publish = {}, publish_via_partition_root = {}''
       [literal (join_with '', '' (map operation_text operations)), Lit (L_Bool via_root)]"

definition create_publication :: "conn \<Rightarrow> string \<Rightarrow> publish_operation list \<Rightarrow> bool \<Rightarrow> string \<Rightarrow> unit m" where
  "create_publication c name operations via_root comment =
     then_m (execute c (Format ''CREATE PUBLICATION {} WITH ({})'' [ident name, publication_options operations via_root]))
       (execute c (Format ''COMMENT ON PUBLICATION {} IS {}'' [ident name, literal comment]))"

definition set_publication_options :: "conn \<Rightarrow> string \<Rightarrow> publish_operation list \<Rightarrow> bool \<Rightarrow> unit m" where
  "set_publication_options c name operations via_root =
     execute c (Format ''ALTER PUBLICATION {} SET ({})'' [ident name, publication_options operations via_root])"

definition table_spec :: "string \<Rightarrow> string \<Rightarrow> string list \<Rightarrow> composed option \<Rightarrow> composed" where
  "table_spec schema table columns row_filter =
     Join '' '' ([qualified_ident schema table] @
       (if columns \<noteq> [] then [Format ''({})'' [idents columns]] else []) @
       (case row_filter of None \<Rightarrow> [] | Some f \<Rightarrow> [Format ''WHERE {}'' [f]]))"

definition add_table_statement :: "string \<Rightarrow> string \<Rightarrow> string \<Rightarrow> string list \<Rightarrow> composed option \<Rightarrow> composed" where
  "add_table_statement publication schema table columns row_filter =
     Format ''ALTER PUBLICATION {} ADD TABLE {}'' [ident publication, table_spec schema table columns row_filter]"

definition drop_table_statement :: "string \<Rightarrow> string \<Rightarrow> string \<Rightarrow> composed" where
  "drop_table_statement publication schema table =
     Format ''ALTER PUBLICATION {} DROP TABLE {}'' [ident publication, qualified_ident schema table]"

definition add_table :: "conn \<Rightarrow> string \<Rightarrow> string \<Rightarrow> string \<Rightarrow> string list \<Rightarrow> composed option \<Rightarrow> unit m" where
  "add_table c publication schema table columns row_filter =
     execute c (add_table_statement publication schema table columns row_filter)"

definition drop_table :: "conn \<Rightarrow> string \<Rightarrow> string \<Rightarrow> string \<Rightarrow> unit m" where
  "drop_table c publication schema table = execute c (drop_table_statement publication schema table)"

text \<open>\<open>async with conn.transaction()\<close>: committed when the body returns, rolled back when it raises.\<close>

definition transaction :: "conn \<Rightarrow> 'a m \<Rightarrow> 'a m" where
  "transaction c m =
     then_m (tell (Began c))
       (bind_m (catch_m Base_Exception m (\<lambda>e. then_m (tell (Ended c False)) (throw_m e)))
         (\<lambda>x. then_m (tell (Ended c True)) (ret_m x)))"

definition replace_table :: "conn \<Rightarrow> string \<Rightarrow> string \<Rightarrow> string \<Rightarrow> string list \<Rightarrow> composed option \<Rightarrow> unit m" where
  "replace_table c publication schema table columns row_filter =
     transaction c (then_m (drop_table c publication schema table) (add_table c publication schema table columns row_filter))"

definition drop_publication :: "conn \<Rightarrow> string \<Rightarrow> unit m" where
  "drop_publication c name = execute c (Format ''DROP PUBLICATION IF EXISTS {}'' [ident name])"

definition published_relations :: "conn \<Rightarrow> string \<Rightarrow> string list m" where
  "published_relations c publication = fetch says_names c (Q_Published_Relations publication)"

definition nonempty_tables :: "conn \<Rightarrow> (string \<times> string) list \<Rightarrow> string list m" where
  "nonempty_tables c tables =
     fold_m (\<lambda>found (schema, table).
         bind_m (fetch says_bool c (Q_Table_Has_Rows schema table)) (\<lambda>rows.
         ret_m (if rows then found @ [qualified_name schema table] else found)))
       [] (sorted_set tables)"

end
