(* ===== verification/Subscriptions.thy ===== *)
theory Subscriptions
  imports Roles Health
begin

text \<open>
  \<open>postgres/subscription.py\<close>: subscriptions on the target, the slots they hold on the source, and what both
  servers report about their health. The connection string carries a password, so the statements with it
  are executed under a redacted description. The lemmas say that dropping a subscription always drops it,
  and that no error text depends on the connection string.
\<close>

section \<open>Connection strings\<close>

definition conninfo_params ::
  "string \<Rightarrow> int \<Rightarrow> string \<Rightarrow> string \<Rightarrow> string \<Rightarrow> string \<Rightarrow> string option \<Rightarrow> (string \<times> string) list" where
  "conninfo_params host port database user password ssl_mode ssl_root_cert =
     [(''host'', host), (''port'', show_int port), (''dbname'', database), (''user'', user), (''password'', password),
      (''sslmode'', ssl_mode), (''connect_timeout'', ''10'')] @
     (if given ssl_root_cert then [(''sslrootcert'', the ssl_root_cert)] else [])"

definition build_conninfo ::
  "string \<Rightarrow> int \<Rightarrow> string \<Rightarrow> string \<Rightarrow> string \<Rightarrow> string \<Rightarrow> string option \<Rightarrow> string m" where
  "build_conninfo host port database user password ssl_mode ssl_root_cert =
     asks (\<lambda>E. make_conninfo E (conninfo_params host port database user password ssl_mode ssl_root_cert))"

definition conninfo_fingerprint :: "string \<Rightarrow> string m" where
  "conninfo_fingerprint conninfo = asks (\<lambda>E. take 16 (sha_of E conninfo))"

section \<open>Subscriptions\<close>

record subscription_state =
  su_oid :: int
  su_name :: string
  su_owner :: string
  su_comment :: "string option"
  su_enabled :: bool
  su_binary :: bool
  su_streaming :: string
  su_slot_name :: "string option"
  su_publications :: "string list"

definition STREAMING :: "(string \<times> string) list" where
  "STREAMING = [(''f'', ''off''), (''t'', ''on''), (''p'', ''parallel'')]"

definition get_subscription :: "conn \<Rightarrow> string \<Rightarrow> subscription_state option m" where
  "get_subscription c name =
     bind_m (fetch says_subscription c (Q_Subscription name)) (\<lambda>row.
     ret_m (map_option (\<lambda>r. \<lparr>su_oid = sn_oid r, su_name = name, su_owner = sn_owner r, su_comment = sn_comment r,
        su_enabled = sn_enabled r, su_binary = sn_binary r,
        su_streaming = (case map_of STREAMING (sn_substream r) of Some t \<Rightarrow> t | None \<Rightarrow> sn_substream r),
        su_slot_name = sn_slot_name r, su_publications = sn_publications r\<rparr>) row))"

definition subscribed_tables :: "conn \<Rightarrow> int \<Rightarrow> (string \<times> string) list m" where
  "subscribed_tables c oid = bind_m (fetch says_pairs c (Q_Subscribed_Tables oid)) (\<lambda>rows. ret_m (dupdate [] rows))"

text \<open>\<open>sql.Literal\<close> of a truth value.\<close>

definition bool_literal :: "bool \<Rightarrow> composed" where
  "bool_literal b = Lit (L_Bool b)"

definition subscription_options :: "bool option \<Rightarrow> string option \<Rightarrow> composed list" where
  "subscription_options bin streaming =
     (case bin of None \<Rightarrow> [] | Some b \<Rightarrow> [Format ''binary = {}'' [bool_literal b]]) @
     (case streaming of None \<Rightarrow> [] | Some s \<Rightarrow> [Format ''streaming = {}'' [literal s]])"

definition create_subscription_statement ::
  "string \<Rightarrow> string \<Rightarrow> string \<Rightarrow> bool \<Rightarrow> bool \<Rightarrow> bool option \<Rightarrow> string option \<Rightarrow> composed" where
  "create_subscription_statement name conninfo publication copy_data enabled bin streaming =
     Format ''CREATE SUBSCRIPTION {} CONNECTION {} PUBLICATION {} WITH ({})''
       [ident name, literal conninfo, ident publication,
        Join '', '' ([SQL ''create_slot = false'', Format ''slot_name = {}'' [literal name],
          Format ''copy_data = {}'' [bool_literal copy_data], Format ''enabled = {}'' [bool_literal enabled]] @
          subscription_options bin streaming)]"

definition create_subscription ::
  "conn \<Rightarrow> string \<Rightarrow> string \<Rightarrow> string \<Rightarrow> bool \<Rightarrow> bool \<Rightarrow> bool option \<Rightarrow> string option \<Rightarrow> string \<Rightarrow> unit m" where
  "create_subscription c name conninfo publication copy_data enabled bin streaming comment =
     then_m (execute_as c (create_subscription_statement name conninfo publication copy_data enabled bin streaming)
              (Some (''CREATE SUBSCRIPTION '' @ name @ '' CONNECTION <redacted> PUBLICATION '' @ publication)))
       (execute c (Format ''COMMENT ON SUBSCRIPTION {} IS {}'' [ident name, literal comment]))"

definition connection_statement :: "string \<Rightarrow> string \<Rightarrow> composed" where
  "connection_statement name conninfo = Format ''ALTER SUBSCRIPTION {} CONNECTION {}'' [ident name, literal conninfo]"

definition set_connection :: "conn \<Rightarrow> string \<Rightarrow> string \<Rightarrow> unit m" where
  "set_connection c name conninfo =
     execute_as c (connection_statement name conninfo) (Some (''ALTER SUBSCRIPTION '' @ name @ '' CONNECTION <redacted>''))"

definition set_enabled :: "conn \<Rightarrow> string \<Rightarrow> bool \<Rightarrow> unit m" where
  "set_enabled c name enabled =
     execute c (Format ''ALTER SUBSCRIPTION {} {}'' [ident name, SQL (if enabled then ''ENABLE'' else ''DISABLE'')])"

definition set_options :: "conn \<Rightarrow> string \<Rightarrow> bool option \<Rightarrow> string option \<Rightarrow> unit m" where
  "set_options c name bin streaming =
     (let options = subscription_options bin streaming
      in when_m (options \<noteq> []) (execute c (Format ''ALTER SUBSCRIPTION {} SET ({})'' [ident name, Join '', '' options])))"

definition refresh :: "conn \<Rightarrow> string \<Rightarrow> bool \<Rightarrow> unit m" where
  "refresh c name copy_data =
     execute c (Format ''ALTER SUBSCRIPTION {} REFRESH PUBLICATION WITH (copy_data = {})'' [ident name, bool_literal copy_data])"

definition drop_subscription_statement :: "string \<Rightarrow> composed" where
  "drop_subscription_statement name = Format ''DROP SUBSCRIPTION {}'' [ident name]"

definition detach_statement :: "string \<Rightarrow> composed" where
  "detach_statement name = Format ''ALTER SUBSCRIPTION {} SET (slot_name = NONE)'' [ident name]"

definition drop_subscription :: "conn \<Rightarrow> string \<Rightarrow> bool m" where
  "drop_subscription c name =
     then_m (set_enabled c name False)
       (bind_m (catch_m ReconcileFailure
                 (then_m (execute c (drop_subscription_statement name)) (ret_m True)) (\<lambda>_. ret_m False)) (\<lambda>dropped.
        if dropped then ret_m True
        else then_m (execute c (detach_statement name))
            (then_m (execute c (drop_subscription_statement name)) (ret_m False))))"

section \<open>Slots\<close>

definition slots :: "conn \<Rightarrow> string \<Rightarrow> int option \<Rightarrow> slot_state list m" where
  "slots c name subscription_oid = fetch says_slots c (Q_Slots name subscription_oid)"

definition create_slot_statement :: "string \<Rightarrow> composed" where
  "create_slot_statement name = 
     Format (''SELECT pg_create_logical_replication_slot({}, '' @ CHR 0x27 # ''pgoutput'' @ CHR 0x27 # '')'') [literal name]"

definition create_slot :: "conn \<Rightarrow> string \<Rightarrow> unit m" where
  "create_slot c name = execute c (create_slot_statement name)"

definition drop_slot_statement :: "string \<Rightarrow> composed" where
  "drop_slot_statement name = Format ''SELECT pg_drop_replication_slot({})'' [literal name]"

definition drop_slots :: "conn \<Rightarrow> string list \<Rightarrow> unit m" where
  "drop_slots c names = each_m (\<lambda>name. execute c (drop_slot_statement name)) names"

definition terminate :: "conn \<Rightarrow> int \<Rightarrow> bool m" where
  "terminate c pid = fetch says_bool c (Q_Terminate pid)"

section \<open>Health\<close>

definition read_slot_health :: "conn \<Rightarrow> string \<Rightarrow> slot_health option m" where
  "read_slot_health c name = fetch says_slot_health c (Q_Slot_Health name)"

text \<open>\<open>int(stats.get(key) or 0)\<close>\<close>

definition counter :: "(string \<times> int option) list \<Rightarrow> string \<Rightarrow> int" where
  "counter stats key = (case map_of stats key of Some (Some n) \<Rightarrow> n | _ \<Rightarrow> 0)"

definition conflict_counters :: "(string \<times> int option) list \<Rightarrow> (string \<times> int) list" where
  "conflict_counters stats =
     dupdate [] (map (\<lambda>(key, v). (drop 6 key, case v of Some n \<Rightarrow> n | None \<Rightarrow> 0))
       (filter (\<lambda>(key, v). starts_with ''confl_'' key) stats))"

definition read_subscription_health :: "conn \<Rightarrow> int \<Rightarrow> subscription_health m" where
  "read_subscription_health c oid =
     bind_m (fetch says_worker c (Q_Apply_Worker oid)) (\<lambda>worker.
     bind_m (fetch says_stats c (Q_Subscription_Stats oid)) (\<lambda>stats.
     ret_m \<lparr>bh_worker_running = (case worker of Some (running, _) \<Rightarrow> running | None \<Rightarrow> False),
            bh_last_message_at = Option.bind worker snd,
            bh_apply_errors = counter stats ''apply_error_count'', bh_sync_errors = counter stats ''sync_error_count'',
            bh_conflicts = conflict_counters stats\<rparr>))"

section \<open>Dropping always drops\<close>

lemma execute_Inr: "execute c s E w = (Inr u, w') \<Longrightarrow> trace w' = trace w @ [Executed c s True]"
  by (drule execute_success) simp

lemma execute_Inl: "execute c s E w = (Inl e, w') \<Longrightarrow> trace w' = trace w @ [Executed c s False]"
  by (auto simp: execute_def execute_as_def run_simps split: option.splits)

text \<open>
  Dropping a subscription drops it: when the operation returns, the subscription was disabled first and the
  last statement is a DROP SUBSCRIPTION that succeeded; it answers that the slot went with it exactly when
  nothing had to be detached, and otherwise the subscription was detached from its slot before the drop,
  so the drop could not fail over the source.
\<close>

theorem drop_subscription_outcome:
  assumes "drop_subscription c n E w = (Inr took_slot, w')"
  shows "\<exists>es. trace w' = trace w @ Executed c (Format ''ALTER SUBSCRIPTION {} {}'' [ident n, SQL ''DISABLE'']) True # es @
      [Executed c (drop_subscription_statement n) True] \<and>
    es = (if took_slot then [] else [Executed c (drop_subscription_statement n) False, Executed c (detach_statement n) True])"
proof -
  obtain u where u: "trace u = trace w @ [Executed c (Format ''ALTER SUBSCRIPTION {} {}'' [ident n, SQL ''DISABLE'']) True]"
    "bind_m (catch_m ReconcileFailure (then_m (execute c (drop_subscription_statement n)) (ret_m True)) (\<lambda>_. ret_m False)) (\<lambda>dropped.
        if dropped then ret_m True
        else then_m (execute c (detach_statement n)) (then_m (execute c (drop_subscription_statement n)) (ret_m False))) E u
      = (Inr took_slot, w')"
    using assms by (auto simp: drop_subscription_def set_enabled_def then_run split: prod.splits sum.splits dest: execute_Inr)
  show ?thesis
  proof (cases "execute c (drop_subscription_statement n) E u")
    case (Pair r v)
    show ?thesis
    proof (cases r)
      case (Inr x)
      have "trace v = trace u @ [Executed c (drop_subscription_statement n) True]"
        using execute_Inr [of c "drop_subscription_statement n" E u x v] Pair Inr by simp
      then show ?thesis
        using u Pair Inr by (simp add: run_simps)
    next
      case (Inl e)
      have "trace v = trace u @ [Executed c (drop_subscription_statement n) False]"
        using execute_Inl [of c "drop_subscription_statement n" E u e v] Pair Inl by simp
      then show ?thesis
        using u Pair Inl by (auto simp: run_simps split: prod.splits sum.splits if_splits dest!: execute_Inr)
    qed
  qed
qed

definition stubborn_env :: env where
  "stubborn_env = sample_env\<lparr>on_execute := \<lambda>h c s.
     if s = drop_subscription_statement ''copy'' \<and> length h < 2 then Some (Pg_Error Pg_Other ''OperationalError'' ''busy'') else None\<rparr>"

theorem drop_subscription_outcome_witness:
  "trace (snd (drop_subscription sample_conn ''copy'' stubborn_env empty_world)) =
     [Executed sample_conn (Format ''ALTER SUBSCRIPTION {} {}'' [ident ''copy'', SQL ''DISABLE'']) True,
      Executed sample_conn (drop_subscription_statement ''copy'') False, Executed sample_conn (detach_statement ''copy'') True,
      Executed sample_conn (drop_subscription_statement ''copy'') True]"
proof -
  have "fst (drop_subscription sample_conn ''copy'' stubborn_env empty_world) = Inr False" by code_simp
  then obtain w' where "drop_subscription sample_conn ''copy'' stubborn_env empty_world = (Inr False, w')"
    by (cases "drop_subscription sample_conn ''copy'' stubborn_env empty_world") auto
  from this drop_subscription_outcome [OF this] show ?thesis by (simp add: empty_world_def)
qed

section \<open>The connection string stays out of error texts\<close>

lemma execute_as_same:
  "(\<And>h. on_execute E h c s = on_execute E h c s') \<Longrightarrow>
   fst (execute_as c s (Some (x # d)) E w) = fst (execute_as c s' (Some (x # d)) E w)"
  by (simp add: execute_as_def run_simps split: option.split)

text \<open>
  The result of creating a subscription or of changing its connection - its error text included - does not
  depend on the connection string, which carries the login's password, beyond what the server answers.
\<close>

theorem conninfo_not_in_errors:
  assumes "\<And>h. on_execute E h c (create_subscription_statement n p pub cd en b s) = on_execute E h c (create_subscription_statement n q pub cd en b s)"
    and "\<And>h. on_execute E h c (connection_statement n p) = on_execute E h c (connection_statement n q)"
    and "\<And>h h'. on_execute E h c (Format ''COMMENT ON SUBSCRIPTION {} IS {}'' [ident n, literal comment]) =
      on_execute E h' c (Format ''COMMENT ON SUBSCRIPTION {} IS {}'' [ident n, literal comment])"
  shows "fst (create_subscription c n p pub cd en b s comment E w) = fst (create_subscription c n q pub cd en b s comment E w) \<and>
    fst (set_connection c n p E w) = fst (set_connection c n q E w)"
proof
  have c: "fst (execute c (Format ''COMMENT ON SUBSCRIPTION {} IS {}'' [ident n, literal comment]) E w1) =
      fst (execute c (Format ''COMMENT ON SUBSCRIPTION {} IS {}'' [ident n, literal comment]) E w2)" for w1 w2
    using assms(3) [of "trace w1" "trace w2"] by (simp add: execute_def execute_as_def run_simps split: option.split)
  show "fst (create_subscription c n p pub cd en b s comment E w) = fst (create_subscription c n q pub cd en b s comment E w)"
    unfolding create_subscription_def then_m_def append_Cons
    by (rule fst_bind, rule execute_as_same [OF assms(1)], rule c)
  show "fst (set_connection c n p E w) = fst (set_connection c n q E w)"
    unfolding set_connection_def append_Cons by (rule execute_as_same [OF assms(2)])
qed

theorem conninfo_not_in_errors_witness:
  "fst (set_connection sample_conn ''copy'' ''password=one'' sample_env empty_world) =
   fst (set_connection sample_conn ''copy'' ''password=two'' sample_env empty_world)"
  using conninfo_not_in_errors [of sample_env sample_conn "''copy''" "''password=one''" "''pub''" True True None None "''password=two''" "''c''"]
  by (simp add: sample_env_accepts)

end
