(* ===== verification/ReplicationLogin.thy ===== *)
theory ReplicationLogin
  imports Topology Logical Secrets Publications Subscriptions
begin

text \<open>
  \<open>reconcile/replication.py\<close>: the result object of a pass, what is recorded in status while it runs, and the login
  the target streams as - generated by the operator with its Secret, or provided by the user - with the
  removal of the login it replaces. The lemmas say which statements these steps may send, that a provided
  login is never recorded as the operator's own, and two cases in which status forgets a login.
\<close>

section \<open>The result of a pass\<close>

record table_entry =
  te_table :: string
  te_reason :: string
  te_message :: string

definition issue_entry :: "string \<Rightarrow> issue \<Rightarrow> table_entry" where
  "issue_entry table i = \<lparr>te_table = table, te_reason = iu_reason i, te_message = iu_message i\<rparr>"

record repl_result =
  lr_source :: replication_end
  lr_target :: replication_end
  lr_names :: replication_names_t
  lr_source_server :: string
  lr_target_server :: string
  lr_login :: string
  lr_credentials :: "credentials_location option"
  lr_created :: "(string \<times> bool) list"
  lr_granted :: "string list"
  lr_published :: "string list"
  lr_excluded :: "table_entry list"
  lr_kept :: "table_entry list"
  lr_warnings :: "table_entry list"
  lr_row_filters :: "recorded_filter list"
  lr_changes :: "string list"
  lr_password :: string
  lr_subscription_oid :: "int option"
  lr_enabled :: bool
  lr_fingerprint :: string
  lr_subscribed :: "(string \<times> string) list"
  lr_assessment :: "assessment option"

definition new_repl_result ::
  "replication_end \<Rightarrow> replication_end \<Rightarrow> replication_names_t \<Rightarrow> (string \<times> bool) list \<Rightarrow> string list \<Rightarrow> repl_result" where
  "new_repl_result source target names created granted =
     \<lparr>lr_source = source, lr_target = target, lr_names = names, lr_source_server = [], lr_target_server = [], lr_login = [],
      lr_credentials = None, lr_created = created, lr_granted = granted, lr_published = [], lr_excluded = [], lr_kept = [],
      lr_warnings = [], lr_row_filters = [], lr_changes = [], lr_password = [], lr_subscription_oid = None, lr_enabled = True,
      lr_fingerprint = [], lr_subscribed = [], lr_assessment = None\<rparr>"

definition ready_tables :: "repl_result \<Rightarrow> nat" where
  "ready_tables r = length (filter (\<lambda>(_, st). st = ''r'') (lr_subscribed r))"

definition repl_message :: "repl_result \<Rightarrow> string" where
  "repl_message r =
     (let summary = end_display (lr_source r) @ '' -> '' @ end_display (lr_target r) @ '': '' @ show_nat (ready_tables r) @
            '' of '' @ show_nat (length (lr_subscribed r)) @ '' subscribed table(s) ready'' @
            (if \<not> lr_enabled r then ''; the subscription is disabled'' else []) @
            (if lr_excluded r \<noteq> [] then ''; '' @ show_nat (card (set (map te_table (lr_excluded r)))) @ '' held back'' else [])
      in if lr_changes r \<noteq> [] then summary @ ''; '' @ join_with ''; '' (take 6 (lr_changes r)) else summary)"

definition changed_to :: "string \<Rightarrow> repl_result \<Rightarrow> repl_result" where
  "changed_to msg r = r\<lparr>lr_changes := lr_changes r @ [msg]\<rparr>"

definition mark_created :: "string \<Rightarrow> bool \<Rightarrow> repl_result \<Rightarrow> repl_result" where
  "mark_created key b r = r\<lparr>lr_created := dset (lr_created r) key b\<rparr>"

section \<open>Recording what exists\<close>

definition PLURAL_REPLICATION :: string where
  "PLURAL_REPLICATION = ''postgresreplications''"

definition KIND_REPLICATION :: string where
  "KIND_REPLICATION = ''PostgresReplication''"

definition source_status :: "repl_result \<Rightarrow> json" where
  "source_status r = J_Obj (end_status (lr_source r) @ [(''publication'', J_Str (rp_publication (lr_names r))),
     (''slot'', J_Str (rp_subscription (lr_names r))), (''login'', J_Str (lr_login r))])"

definition target_status :: "repl_result \<Rightarrow> json" where
  "target_status r = J_Obj (end_status (lr_target r) @ [(''subscription'', J_Str (rp_subscription (lr_names r))),
     (''subscriptionOid'', case lr_subscription_oid r of None \<Rightarrow> J_Null | Some oid \<Rightarrow> J_Int oid)])"

definition credentials_json :: "credentials_location option \<Rightarrow> json" where
  "credentials_json c = J_Obj (case c of None \<Rightarrow> []
     | Some l \<Rightarrow> [(''namespace'', J_Str (cs_namespace l)), (''name'', J_Str (cs_name l)), (''generated'', J_Bool (cs_generated l))])"

definition created_json :: "(string \<times> bool) list \<Rightarrow> json" where
  "created_json created = J_Obj (map (\<lambda>(k, b). (k, J_Bool b)) created)"

definition created_status :: "repl_result \<Rightarrow> (string \<times> json) list" where
  "created_status r =
     [(''source'', source_status r), (''target'', target_status r), (''credentialsSecret'', credentials_json (lr_credentials r)),
      (''created'', created_json (lr_created r)), (''grantedMemberships'', J_List (map J_Str (sorted_set (lr_granted r))))]"

text \<open>\<open>patch_status\<close> with some fields of the status: a merge patch that tolerates a deleted resource.\<close>

definition merge_status :: "string \<Rightarrow> string \<Rightarrow> string \<Rightarrow> (string \<times> json) list \<Rightarrow> unit m" where
  "merge_status plural namespace name details =
     catch_m Base_Exception
       (k8s_do (K_Merge_Status plural (if namespace \<noteq> [] then Some namespace else None) name details))
       (\<lambda>e. if is_not_found e then ret_m () else throw_m e)"

definition record_created :: "repl_obj \<Rightarrow> repl_result \<Rightarrow> unit m" where
  "record_created obj r = merge_status PLURAL_REPLICATION (rb_namespace obj) (rb_name obj) (created_status r)"

definition ownership_marker :: "string \<Rightarrow> string \<Rightarrow> string" where
  "ownership_marker namespace name = ''pg-operator: PostgresReplication '' @ namespace @ ''/'' @ name"

section \<open>The replication login\<close>

text \<open>\<open>_grant\<close>: a membership that is missing is granted, then read back.\<close>

definition grant_group :: "conn \<Rightarrow> string \<Rightarrow> string \<Rightarrow> string \<Rightarrow> repl_result \<Rightarrow> repl_result m" where
  "grant_group c grp member privilege r =
     bind_m (fetch says_bool c (Q_Has_Role member grp privilege)) (\<lambda>has.
     if has then ret_m r
     else then_m (grant_membership c grp member False)
       (bind_m (fetch says_bool c (Q_Has_Role member grp privilege)) (\<lambda>took.
        if \<not> took
        then raise_m ReconcileFailure (''GRANT '' @ grp @ '' TO '' @ member @
               '' was accepted but did not take effect; the managing '' @ ''role needs ADMIN OPTION on '' @ grp)
        else ret_m (changed_to (''granted '' @ grp @ '' to '' @ member)
               (r\<lparr>lr_granted := (if grp \<in> set (lr_granted r) then lr_granted r else lr_granted r @ [grp])\<rparr>)))))"

definition member_of :: "conn \<Rightarrow> string \<Rightarrow> string \<Rightarrow> bool m" where
  "member_of c member grp =
     bind_m (fetch says_bool c (Q_Role_Known grp)) (\<lambda>known.
     if \<not> known then ret_m False else fetch says_bool c (Q_Has_Role member grp ''MEMBER''))"

definition role_comment :: "conn \<Rightarrow> string \<Rightarrow> string option m" where
  "role_comment c role = fetch says_text c (Q_Role_Comment role)"

definition adopt_provided_login :: "conn \<Rightarrow> credentials_ref \<Rightarrow> string \<Rightarrow> repl_result \<Rightarrow> repl_result m" where
  "adopt_provided_login c ref namespace r =
     (let ns = resolve_namespace (cr_namespace ref) namespace; resource = ns @ ''/'' @ cr_name ref
      in bind_m (read_secret ns (cr_name ref)) (\<lambda>data.
         case filter (\<lambda>key. map_of data key = None \<or> map_of data key = Some []) [cr_username_key ref, cr_password_key ref] of
           k # ks \<Rightarrow> raise_m ConfigurationError (''credentialsSecretRef '' @ resource @ '' has no '' @ join_with '', '' (k # ks))
         | [] \<Rightarrow>
             bind_m (decode_m (the (map_of data (cr_username_key ref)))) (\<lambda>user.
             let login = py_strip user
             in bind_m (get_role c login) (\<lambda>role. case role of
                  None \<Rightarrow> raise_m ConfigurationError (''credentialsSecretRef '' @ resource @ '' names login '' @ py_repr login @
                    '', '' @ ''which does not exist on '' @ en_instance (lr_source r))
                | Some st \<Rightarrow>
                    bind_m (if rs_replication st then ret_m True else member_of c login ''rds_replication'') (\<lambda>streams.
                    if \<not> streams
                    then raise_m ConfigurationError (''login '' @ py_repr login @
                           '' from credentialsSecretRef holds neither REPLICATION nor '' @
                           ''rds_replication, so the target server could not stream as it'')
                    else bind_m (decode_m (the (map_of data (cr_password_key ref)))) (\<lambda>password.
                      ret_m (mark_created ''secret'' False (mark_created ''login'' False
                        (r\<lparr>lr_login := login, lr_password := password,
                           lr_credentials := Some \<lparr>cs_namespace = ns, cs_name = cr_name ref, cs_generated = False\<rparr>\<rparr>)))))))))"

definition comment_role_statement :: "string \<Rightarrow> string \<Rightarrow> composed" where
  "comment_role_statement login marker = Format ''COMMENT ON ROLE {} IS {}'' [ident login, literal marker]"

text \<open>The attributes of a generated login: REPLICATION is named only when it is how streaming is granted.\<close>

definition generated_attributes :: "logical_info \<Rightarrow> (string \<times> bool) list" where
  "generated_attributes info =
     [(''login'', True), (''inherit'', True)] @
     (if li_replication_grant info = Grant_Attribute then [(''replication'', True)] else [])"

definition converge_generated_login ::
  "conn \<Rightarrow> logical_info \<Rightarrow> string \<Rightarrow> string \<Rightarrow> nat list option \<Rightarrow> string \<Rightarrow> repl_result \<Rightarrow> repl_result m" where
  "converge_generated_login c info login marker stored password r =
     bind_m (ensure_login_role c login (Some password) (generated_attributes info) (-1) None) (\<lambda>created.
     if created
     then then_m (execute c (comment_role_statement login marker)) (ret_m (changed_to (''created replication login '' @ login) r))
     else if stored = None
     then then_m (set_password c login password)
            (ret_m (changed_to ''credentials Secret was missing; generated and applied a new password'' r))
     else ret_m r)"

definition ensure_generated_login ::
  "conn \<Rightarrow> logical_info \<Rightarrow> string \<Rightarrow> string \<Rightarrow> string \<Rightarrow> repl_result \<Rightarrow> repl_result m" where
  "ensure_generated_login c info namespace name marker r =
     (let login = rp_login (lr_names r); secret = rp_secret (lr_names r)
      in if li_replication_grant info = Grant_None
         then raise_m ConfigurationError (''the managing role on '' @ en_instance (lr_source r) @
                '' can neither grant rds_replication '' @
                ''nor confer REPLICATION, so it cannot create a login the target could stream as; '' @
                ''provide one with source.credentialsSecretRef'')
         else bind_m (asks operator_namespace) (\<lambda>ns.
           bind_m (catch_m ReferenceNotFound (bind_m (read_secret ns secret) (\<lambda>d. ret_m (map_of d ''password'')))
                     (\<lambda>_. ret_m None)) (\<lambda>stored.
           bind_m (if stored = None \<or> stored = Some [] then generate_password 32 else decode_m (the stored)) (\<lambda>password.
           bind_m (converge_generated_login c info login marker stored password r) (\<lambda>r.
           let r = (mark_created ''login'' True r)\<lparr>lr_login := login, lr_password := password\<rparr>
           in bind_m (if li_replication_grant info = Grant_Rds_Replication
                      then grant_group c ''rds_replication'' login ''MEMBER'' r else ret_m r) (\<lambda>r.
              bind_m (apply_secret ns secret [(''username'', login), (''password'', password)]
                        (managed_labels KIND_REPLICATION name namespace (Some (en_instance (lr_source r))) []) [])
                     (\<lambda>(secret_created, secret_changed).
              let r = (if secret_created then changed_to (''created Secret '' @ ns @ ''/'' @ secret) r
                       else if secret_changed then changed_to (''updated Secret '' @ ns @ ''/'' @ secret) r else r)
              in ret_m ((mark_created ''secret'' True r)
                   \<lparr>lr_credentials := Some \<lparr>cs_namespace = ns, cs_name = secret, cs_generated = True\<rparr>\<rparr>))))))))"

definition ensure_login ::
  "conn \<Rightarrow> replication_spec \<Rightarrow> logical_info \<Rightarrow> string \<Rightarrow> string \<Rightarrow> string \<Rightarrow> string \<Rightarrow> string \<Rightarrow> repl_result \<Rightarrow> repl_result m" where
  "ensure_login c spec info namespace name marker read_group previous_login r =
     (let inherited = lr_granted r; cleared = r\<lparr>lr_granted := []\<rparr>
      in bind_m (case re_credentials spec of
             Some ref \<Rightarrow> adopt_provided_login c ref namespace cleared
           | None \<Rightarrow> ensure_generated_login c info namespace name marker cleared) (\<lambda>r.
         let r = (if lr_login r = previous_login
                  then r\<lparr>lr_granted := filter (\<lambda>g. g \<notin> set (lr_granted r)) inherited @ lr_granted r\<rparr> else r)
         in grant_group c read_group (lr_login r) ''USAGE'' r))"

section \<open>The login it replaces\<close>

text \<open>\<open>with contextlib.suppress(ReconcileFailure)\<close>\<close>

definition suppress_failure :: "unit m \<Rightarrow> unit m" where
  "suppress_failure m = catch_m ReconcileFailure m (\<lambda>_. ret_m ())"

text \<open>The four steps that end and drop a login of the operator's own.\<close>

definition retire_login :: "conn \<Rightarrow> bool \<Rightarrow> string \<Rightarrow> unit m" where
  "retire_login c per_grant_options login =
     then_m (suppress_failure (ensure_self_membership c login per_grant_options))
    (then_m (bind_m (terminate_role_sessions c login) (\<lambda>_. ret_m ()))
    (then_m (bind_m (revoke_all_memberships c login) (\<lambda>_. ret_m ()))
      (drop_role c login)))"

definition remove_superseded_role ::
  "conn \<Rightarrow> repl_status \<Rightarrow> bool \<Rightarrow> string \<Rightarrow> repl_result \<Rightarrow> repl_result m" where
  "remove_superseded_role c existing per_grant_options previous_login r =
     bind_m (role_exists c previous_login) (\<lambda>there.
     if \<not> there then ret_m r
     else if created_of (rt_created existing) ''login''
     then then_m (retire_login c per_grant_options previous_login)
            (ret_m (changed_to (''dropped the superseded replication login '' @ previous_login) r))
     else bind_m (memberships c previous_login) (\<lambda>held.
       then_m (each_m (\<lambda>grp. when_m (grp \<in> set held) (revoke_membership c grp previous_login)) (rt_granted existing))
         (ret_m (changed_to (''revoked this replication'' @ CHR 0x27 # ''s grants from the superseded login '' @ previous_login) r))))"

definition remove_superseded_secret :: "repl_status \<Rightarrow> repl_result \<Rightarrow> repl_result m" where
  "remove_superseded_secret existing r =
     (case rt_credentials existing of
        None \<Rightarrow> ret_m r
      | Some old \<Rightarrow>
          if created_of (rt_created existing) ''secret'' \<and> cs_namespace old \<noteq> [] \<and> cs_name old \<noteq> [] \<and>
             Some (cs_namespace old, cs_name old) \<noteq> map_option (\<lambda>l. (cs_namespace l, cs_name l)) (lr_credentials r)
          then bind_m (delete_secret (cs_namespace old) (cs_name old)) (\<lambda>deleted.
            ret_m (if deleted then changed_to (''deleted the superseded Secret '' @ cs_namespace old @ ''/'' @ cs_name old) r else r))
          else ret_m r)"

definition remove_superseded_login ::
  "conn \<Rightarrow> repl_status \<Rightarrow> bool \<Rightarrow> string \<Rightarrow> repl_result \<Rightarrow> repl_result m" where
  "remove_superseded_login c existing per_grant_options previous_login r =
     (if previous_login = [] \<or> previous_login = lr_login r then ret_m r
      else bind_m (remove_superseded_role c existing per_grant_options previous_login r) (\<lambda>r.
           remove_superseded_secret existing r))"

end
