(* ===== verification/Filters.thy ===== *)
theory Filters
  imports Effects
begin

text \<open>
  \<open>postgres/filters.py\<close>: the row filter of a published table as a statement tree, and the fingerprint
  that tells whether a filter changed. The lemmas show that spec text only ever becomes identifiers and
  literals, and that rendering and fingerprinting lose nothing of the filter.
\<close>

fun comparison :: "filter_operator \<Rightarrow> composed" where
  "comparison Eq = SQL ''=''"
| "comparison Ne = SQL ''<>''"
| "comparison Lt = SQL ''<''"
| "comparison Le = SQL ''<=''"
| "comparison Gt = SQL ''>''"
| "comparison Ge = SQL ''>=''"
| "comparison _ = SQL []"            \<comment> \<open>not in the table; the caller has handled these\<close>

fun literal_value :: "filter_value \<Rightarrow> composed" where
  "literal_value (FV_Int n) = Lit (L_Int n)"
| "literal_value (FV_Str s) = Lit (L_Str s)"

definition render_predicate :: "filter_predicate \<Rightarrow> composed" where
  "render_predicate p =
     (let column = Ident [fp_column p] in
      if fp_op p = IsNull then Format ''({} IS NULL)'' [column]
      else if fp_op p = IsNotNull then Format ''({} IS NOT NULL)'' [column]
      else if fp_op p = In
      then Format ''({} IN ({}))''
             [column, Join '', '' (map literal_value (case fp_values p of Some vs \<Rightarrow> vs | None \<Rightarrow> []))]
      else Format ''({} {} {})''
             [column, comparison (fp_op p), (case fp_value p of Some v \<Rightarrow> literal_value v | None \<Rightarrow> Lit L_Null)])"

definition render_row_filter :: "row_filter \<Rightarrow> composed" where
  "render_row_filter f =
     Format ''({})'' [Join (if conjunction f = ''AND'' then '' AND '' else '' OR '') (map render_predicate (predicates f))]"

section \<open>Fingerprint\<close>

text \<open>\<open>json.dumps(..., sort_keys=True, separators=(",", ":"))\<close> of the filter without its absent fields.\<close>

definition json_char :: "char \<Rightarrow> string" where
  "json_char c = (let n = code c; esc = char_of (92::nat) in
     if n = 34 \<or> n = 92 then [esc, c]
     else if n = 10 then [esc, CHR ''n'']
     else if n = 13 then [esc, CHR ''r'']
     else if n = 9 then [esc, CHR ''t'']
     else if n = 12 then [esc, CHR ''f'']
     else if n = 8 then [esc, CHR ''b'']
     else if n < 32 \<or> 127 < n
          then [esc, CHR ''u'', CHR ''0'', CHR ''0'', hex_digit (n div 16), hex_digit (n mod 16)]
     else [c])"

definition json_string :: "string \<Rightarrow> string" where
  "json_string s = [char_of (34::nat)] @ concat (map json_char s) @ [char_of (34::nat)]"

fun json_value :: "filter_value \<Rightarrow> string" where
  "json_value (FV_Int n) = show_int n"
| "json_value (FV_Str s) = json_string s"

definition json_member :: "string \<Rightarrow> string \<Rightarrow> string" where
  "json_member key value = json_string key @ '':'' @ value"

definition json_list :: "string list \<Rightarrow> string" where
  "json_list xs = ''['' @ join_with '','' xs @ '']''"

definition json_predicate :: "filter_predicate \<Rightarrow> string" where
  "json_predicate p = ''{'' @ join_with '',''
     ([json_member ''column'' (json_string (fp_column p)), json_member ''op'' (json_string (operator_text (fp_op p)))] @
      (case fp_value p of None \<Rightarrow> [] | Some v \<Rightarrow> [json_member ''value'' (json_value v)]) @
      (case fp_values p of None \<Rightarrow> [] | Some vs \<Rightarrow> [json_member ''values'' (json_list (map json_value vs))])) @ ''}''"

definition canonical :: "row_filter \<Rightarrow> string" where
  "canonical f = ''{'' @ join_with '',''
     ((case rf_all f of None \<Rightarrow> [] | Some ps \<Rightarrow> [json_member ''all'' (json_list (map json_predicate ps))]) @
      (case rf_any f of None \<Rightarrow> [] | Some ps \<Rightarrow> [json_member ''any'' (json_list (map json_predicate ps))])) @ ''}''"

definition fingerprint :: "(string \<Rightarrow> string) \<Rightarrow> row_filter \<Rightarrow> string" where
  "fingerprint sha f = take 16 (sha (canonical f))"

section \<open>Nothing of the spec is spliced in as text\<close>

text \<open>The identifiers and the literals of a statement, in order.\<close>

fun identifiers :: "composed \<Rightarrow> string list list" where
  "identifiers (Ident ns) = [ns]"
| "identifiers (Format s cs) = concat (map identifiers cs)"
| "identifiers (Join s cs) = concat (map identifiers cs)"
| "identifiers _ = []"

fun literals :: "composed \<Rightarrow> lit list" where
  "literals (Lit l) = [l]"
| "literals (Format s cs) = concat (map literals cs)"
| "literals (Join s cs) = concat (map literals cs)"
| "literals _ = []"

definition filter_fragments :: "string list" where
  "filter_fragments =
     [''({})'', '' AND '', '' OR '', ''({} IS NULL)'', ''({} IS NOT NULL)'', ''({} IN ({}))'', '', '',
      ''({} {} {})'', ''='', ''<>'', ''<'', ''<='', ''>'', ''>='']"

lemma raw_literal_value [simp]: "raw_sql (literal_value v) = []"
  by (cases v) simp_all

lemma identifiers_literal_value [simp]: "identifiers (literal_value v) = []"
  by (cases v) simp_all

lemma identifiers_comparison [simp]: "identifiers (comparison op) = []"
  by (cases op) simp_all

lemma raw_comparison: "op \<notin> {In, IsNull, IsNotNull} \<Longrightarrow> set (raw_sql (comparison op)) \<subseteq> set filter_fragments"
  by (cases op) (simp_all add: filter_fragments_def)

lemma raw_predicate: "set (raw_sql (render_predicate p)) \<subseteq> set filter_fragments"
proof (cases "fp_op p \<in> {In, IsNull, IsNotNull}")
  case True
  then show ?thesis
    by (auto simp: render_predicate_def filter_fragments_def)
next
  case False
  then show ?thesis
    using raw_comparison [of "fp_op p"]
    by (auto simp: render_predicate_def split: option.splits) (auto simp: filter_fragments_def)
qed

lemma identifiers_predicate: "identifiers (render_predicate p) = [[fp_column p]]"
  by (auto simp: render_predicate_def Let_def concat_map_singleton o_def split: option.splits)

text \<open>
  C39. Row filters carry no SQL of their own: whatever the spec says, the text of a rendered filter
  consists of the fixed fragments of this module, its identifiers are exactly the columns of the
  predicates, in order, and everything else is a literal.
\<close>

theorem row_filter_injection_free:
  "set (raw_sql (render_row_filter f)) \<subseteq> set filter_fragments \<and>
   identifiers (render_row_filter f) = map (\<lambda>p. [fp_column p]) (predicates f)"
proof -
  have "set (raw_sql (render_row_filter f)) \<subseteq> set filter_fragments"
    using raw_predicate by (auto simp: render_row_filter_def subset_iff) (auto simp: filter_fragments_def)
  moreover have "concat (map (\<lambda>p. [[fp_column p]]) ps) = map (\<lambda>p. [fp_column p]) ps" for ps :: "filter_predicate list"
    by (induction ps) simp_all
  ultimately show ?thesis
    by (simp add: render_row_filter_def identifiers_predicate o_def)
qed

section \<open>Nothing of the filter is lost\<close>

lemma literal_value_inject [simp]: "literal_value v = literal_value w \<longleftrightarrow> v = w"
  by (cases v; cases w) simp_all

lemma comparison_inject:
  "comparison a = comparison b \<Longrightarrow> a \<notin> {In, IsNull, IsNotNull} \<Longrightarrow> b \<notin> {In, IsNull, IsNotNull} \<Longrightarrow> a = b"
  by (cases a; cases b) simp_all

lemma render_predicate_inject:
  assumes "render_predicate p = render_predicate q" "operand_shape p" "operand_shape q"
  shows "p = q"
proof -
  have "fp_column p = fp_column q"
    using arg_cong [OF assms(1), of identifiers] by (simp add: identifiers_predicate)
  moreover have "fp_op p = fp_op q \<and> fp_value p = fp_value q \<and> fp_values p = fp_values q"
    using assms by (cases "fp_op p"; cases "fp_op q")
      (auto simp: render_predicate_def operand_shape_def filled_def inj_map_eq_map inj_def)
  ultimately show ?thesis by simp
qed

lemma render_predicate_list_inject:
  "map render_predicate ps = map render_predicate qs \<Longrightarrow> \<forall>p \<in> set ps. operand_shape p \<Longrightarrow>
   \<forall>q \<in> set qs. operand_shape q \<Longrightarrow> ps = qs"
proof (induction ps arbitrary: qs)
  case (Cons p ps)
  then show ?case by (cases qs) (auto dest: render_predicate_inject)
qed simp

text \<open>
  Two accepted row filters that render to the same statement say the same thing: the same
  conjunction over the same predicates in the same order. So the statement sent to the server
  determines the filter the spec asked for.
\<close>

theorem row_filter_rendered_faithfully:
  assumes "validate_row_filter f = Inr ()" "validate_row_filter g = Inr ()"
    and "render_row_filter f = render_row_filter g"
  shows "conjunction f = conjunction g \<and> predicates f = predicates g"
proof
  show "conjunction f = conjunction g"
    using assms(3) by (simp add: render_row_filter_def conjunction_def split: if_splits)
  have eq: "map render_predicate (predicates f) = map render_predicate (predicates g)"
    using assms(3) by (simp add: render_row_filter_def)
  have "\<forall>p \<in> set (predicates f). operand_shape p" "\<forall>p \<in> set (predicates g). operand_shape p"
    using validate_row_filter_ok(3) assms(1,2) validate_predicate_ok by blast+
  with eq show "predicates f = predicates g"
    using render_predicate_list_inject by blast
qed

lemma sample_filter_valid: "validate_row_filter sample_filter = Inr ()"
  by code_simp

theorem row_filter_rendered_faithfully_witness:
  "conjunction sample_filter = conjunction (sample_filter\<lparr>rf_any := Some []\<rparr>) \<and>
   predicates sample_filter = predicates (sample_filter\<lparr>rf_any := Some []\<rparr>)"
proof (rule row_filter_rendered_faithfully [OF sample_filter_valid])
  show "validate_row_filter (sample_filter\<lparr>rf_any := Some []\<rparr>) = Inr ()" by code_simp
  show "render_row_filter sample_filter = render_row_filter (sample_filter\<lparr>rf_any := Some []\<rparr>)"
    by (simp add: sample_filter_def render_row_filter_def conjunction_def predicates_def filled_def)
qed

end
