(* ===== verification/ReplicationReconcile.thy ===== *)
theory ReplicationReconcile
  imports ReplicationLogin Filters
begin

text \<open>
  \<open>reconcile/replication.py\<close>: the pass over a PostgresReplication after its first step. Names that belong to
  someone else are refused before anything is created; then the publication, the login, the publication's
  tables, the slot and the subscription converge, and health is assessed.
\<close>

section \<open>Objects of someone else\<close>

definition repr_comment :: "string option \<Rightarrow> string" where
  "repr_comment c = (case c of None \<Rightarrow> ''None'' | Some t \<Rightarrow> py_repr t)"

definition refuse_foreign_objects ::
  "conn \<Rightarrow> replication_spec \<Rightarrow> repl_result \<Rightarrow> subscription_state option \<Rightarrow> string \<Rightarrow> unit m" where
  "refuse_foreign_objects c spec r subscription marker =
     then_m (case subscription of
         None \<Rightarrow> ret_m ()
       | Some s \<Rightarrow>
           if su_comment s \<noteq> Some marker \<and> \<not> created_of (lr_created r) ''subscription''
           then raise_m ConfigurationError (''a subscription named '' @ su_name s @ '' already exists in '' @
                  end_display (lr_target r) @ '' and was not created for this replication (its comment '' @
                  ''is '' @ repr_comment (su_comment s) @ ''); the operator will not take it over'')
           else ret_m ())
       (let name = rp_publication (lr_names r); login = rp_login (lr_names r)
        in bind_m (get_publication c name) (\<lambda>state.
           then_m (case state of
               None \<Rightarrow> ret_m ()
             | Some p \<Rightarrow>
                 if pu_comment p \<noteq> Some marker \<and> \<not> created_of (lr_created r) ''publication''
                 then raise_m ConfigurationError (''a publication named '' @ name @ '' already exists in '' @
                        end_display (lr_source r) @ '' and was '' @ ''not created for this replication (its comment is '' @
                        repr_comment (pu_comment p) @ ''); the '' @ ''operator will not take it over'')
                 else ret_m ())
             (if re_credentials spec \<noteq> None \<or> created_of (lr_created r) ''login'' then ret_m ()
              else bind_m (role_exists c login) (\<lambda>there.
                if \<not> there then ret_m ()
                else bind_m (role_comment c login) (\<lambda>found.
                  if found = Some marker then ret_m ()
                  else raise_m ConfigurationError (''a role named '' @ login @ '' already exists on '' @ en_instance (lr_source r) @
                         '' and was not '' @ ''created for this replication (its comment is '' @ repr_comment found @
                         ''); the operator will not '' @ ''take it over''))))))"

section \<open>The publication\<close>

definition ensure_publication :: "conn \<Rightarrow> replication_spec \<Rightarrow> repl_result \<Rightarrow> string \<Rightarrow> (bool \<times> repl_result) m" where
  "ensure_publication c spec r marker =
     (let name = rp_publication (lr_names r); r = mark_created ''publication'' True r
      in bind_m (get_publication c name) (\<lambda>state. case state of
           None \<Rightarrow>
             then_m (create_publication c name (re_publish spec) (re_via_root spec) marker)
               (ret_m (True, changed_to (''created publication '' @ name) r))
         | Some p \<Rightarrow>
             if set (pu_operations p) \<noteq> set (re_publish spec) \<or> pu_via_root p \<noteq> re_via_root spec
             then then_m (set_publication_options c name (re_publish spec) (re_via_root spec))
                    (ret_m (False, changed_to (''set publish = '' @ join_with '', '' (map operation_text (re_publish spec))) r))
             else ret_m (False, r)))"

section \<open>The publication's tables\<close>

definition INVALID_ROW_FILTER :: string where "INVALID_ROW_FILTER = ''InvalidRowFilter''"
definition PUBLICATION_REFUSED :: string where "PUBLICATION_REFUSED = ''PublicationRefused''"

text \<open>\<open>frozenset(candidate.columns) or None\<close>, compared with the member's columns.\<close>

definition same_columns :: "string list \<Rightarrow> string list option \<Rightarrow> bool" where
  "same_columns wanted member = (case member of
      None \<Rightarrow> wanted = []
    | Some cols \<Rightarrow> wanted \<noteq> [] \<and> set wanted = set cols)"

definition member_matches ::
  "(string \<Rightarrow> string) \<Rightarrow> candidate \<Rightarrow> published_table \<Rightarrow> recorded_filter option \<Rightarrow> bool" where
  "member_matches sha c member recorded =
     (if \<not> same_columns (ca_columns c) (pt_columns member) then False
      else case ca_row_filter c of
        None \<Rightarrow> pt_row_filter member = None
      | Some f \<Rightarrow> (case recorded of
          None \<Rightarrow> False
        | Some e \<Rightarrow> rf_spec_hash e = fingerprint sha f \<and> rf_applied e = or_text (pt_row_filter member) []))"

text \<open>A member that is not selected, or neither publishable nor to be kept, is removed.\<close>

definition stays :: "verdict list \<Rightarrow> string \<Rightarrow> bool" where
  "stays verdicts table =
     (case map_of (dupdate [] (map (\<lambda>v. (ca_qualified (vd_candidate v), v)) verdicts)) table of
        None \<Rightarrow> False
      | Some v \<Rightarrow> publishable v \<or> keeps_membership v)"

definition remove_member :: "conn \<Rightarrow> string \<Rightarrow> repl_result \<Rightarrow> string \<Rightarrow> repl_result m" where
  "remove_member c name r table = (case partition_at CHR ''.'' table of
      (schema, Some relation) \<Rightarrow>
        then_m (drop_table c name schema relation) (ret_m (changed_to (''removed '' @ table @ '' from the publication'') r))
    | (schema, None) \<Rightarrow> raise_m Value_Error ''not enough values to unpack (expected 2, got 1)'')"

text \<open>What is reported of a table that is not publishable.\<close>

definition held_back :: "bool \<Rightarrow> verdict \<Rightarrow> repl_result \<Rightarrow> repl_result" where
  "held_back member v r =
     (let table = ca_qualified (vd_candidate v)
      in if member \<and> keeps_membership v
         then r\<lparr>lr_kept := lr_kept r @ map (\<lambda>i. \<lparr>te_table = table, te_reason = iu_reason i,
                te_message = iu_message i @ '' (kept published: '' @
                  ''removing it would not recall changes already sent)''\<rparr>) (vd_issues v)\<rparr>
         else r\<lparr>lr_excluded := lr_excluded r @ map (issue_entry table) (vd_issues v)\<rparr>)"

text \<open>A refusal of the server: an update leaves the previous shape published, an addition is excluded.\<close>

definition refused_member :: "bool \<Rightarrow> candidate \<Rightarrow> err \<Rightarrow> repl_result \<Rightarrow> repl_result" where
  "refused_member updating c e r =
     (let reason = (if ca_row_filter c \<noteq> None then INVALID_ROW_FILTER else PUBLICATION_REFUSED);
          message = ''the server refused it: '' @ err_text e
      in if updating
         then r\<lparr>lr_warnings := lr_warnings r @ [\<lparr>te_table = ca_qualified c, te_reason = reason,
                te_message = message @ ''; the previous shape is still published''\<rparr>]\<rparr>
         else r\<lparr>lr_excluded := lr_excluded r @ [\<lparr>te_table = ca_qualified c, te_reason = reason, te_message = message\<rparr>]\<rparr>)"

definition shape_member ::
  "conn \<Rightarrow> string \<Rightarrow> bool \<Rightarrow> candidate \<Rightarrow> repl_result \<Rightarrow> repl_result m" where
  "shape_member c name updating cand r =
     (let row_filter = map_option render_row_filter (ca_row_filter cand);
          action = (if updating then replace_table else add_table)
      in catch_m ReconcileFailure
           (then_m (action c name (ca_schema cand) (ca_name cand) (ca_columns cand) row_filter)
             (ret_m (changed_to ((if updating then ''updated '' else ''added '') @ ca_qualified cand) r)))
           (\<lambda>e. ret_m (refused_member updating cand e r)))"

definition converge_table ::
  "conn \<Rightarrow> string \<Rightarrow> (string \<times> published_table) list \<Rightarrow> (string \<times> recorded_filter) list \<Rightarrow> repl_result \<Rightarrow> verdict \<Rightarrow> repl_result m" where
  "converge_table c name current recorded r v =
     (let cand = vd_candidate v; table = ca_qualified cand;
          r = r\<lparr>lr_warnings := lr_warnings r @ map (issue_entry table) (vd_warnings v)\<rparr>
      in if \<not> publishable v then ret_m (held_back (map_of current table \<noteq> None) v r)
         else bind_m (asks sha_of) (\<lambda>sha. case map_of current table of
             None \<Rightarrow> shape_member c name False cand r
           | Some member \<Rightarrow>
               if member_matches sha cand member (map_of recorded table) then ret_m r
               else shape_member c name True cand r))"

definition recorded_filters ::
  "(string \<Rightarrow> string) \<Rightarrow> verdict list \<Rightarrow> (string \<times> published_table) list \<Rightarrow> recorded_filter list" where
  "recorded_filters sha verdicts published =
     concat (map (\<lambda>v. case (ca_row_filter (vd_candidate v), map_of published (ca_qualified (vd_candidate v))) of
         (Some f, Some member) \<Rightarrow> [\<lparr>rf_table = ca_qualified (vd_candidate v), rf_spec_hash = fingerprint sha f,
            rf_applied = or_text (pt_row_filter member) []\<rparr>]
       | _ \<Rightarrow> []) verdicts)"

definition members_of_publication :: "publication_state option \<Rightarrow> (string \<times> published_table) list" where
  "members_of_publication p = (case p of Some s \<Rightarrow> pu_tables s | None \<Rightarrow> [])"

definition converge_tables :: "conn \<Rightarrow> verdict list \<Rightarrow> repl_status \<Rightarrow> repl_result \<Rightarrow> repl_result m" where
  "converge_tables c verdicts existing r =
     (let name = rp_publication (lr_names r);
          recorded = dupdate [] (map (\<lambda>e. (rf_table e, e)) (rt_row_filters existing))
      in bind_m (get_publication c name) (\<lambda>state.
         let current = members_of_publication state
         in bind_m (fold_m (remove_member c name) r (filter (\<lambda>t. \<not> stays verdicts t) (sort (dkeys current)))) (\<lambda>r.
            bind_m (fold_m (converge_table c name current recorded) r verdicts) (\<lambda>r.
            bind_m (get_publication c name) (\<lambda>final.
            bind_m (asks sha_of) (\<lambda>sha.
            let published = members_of_publication final
            in ret_m (r\<lparr>lr_published := sort (dkeys published),
                        lr_row_filters := recorded_filters sha verdicts published\<rparr>)))))))"

section \<open>The slot\<close>

definition require_free_slot :: "logical_info \<Rightarrow> replication_end \<Rightarrow> unit m" where
  "require_free_slot info source =
     (if li_max_slots info - li_slots_in_use info < 1
      then raise_m InsufficientCapacity (''all '' @ show_int (li_max_slots info) @ '' replication slots on '' @ en_instance source @
             '' are in '' @ ''use, so the subscription'' @ CHR 0x27 # ''s slot cannot be created; free one, or raise '' @
             ''max_replication_slots in the parameter group (a static parameter)'')
      else ret_m ())"

text \<open>The endpoint of the login, and what a privilege failure of its own becomes.\<close>

definition login_endpoint :: "resolved_instance \<Rightarrow> string \<Rightarrow> string \<Rightarrow> string \<Rightarrow> endpoint" where
  "login_endpoint inst login password database =
     (ri_endpoint inst)\<lparr>ep_instance := ri_name inst @ ''#'' @ login, ep_username := login, ep_password := password,
        ep_maintenance_database := database\<rparr>"

definition slots_refused :: "string \<Rightarrow> string \<Rightarrow> err \<Rightarrow> 'a m" where
  "slots_refused inst login e =
     raise_m ReplicationRefused (''neither the managing role nor '' @ login @ '' may use replication slots on '' @ inst @
       '' ('' @ err_text e @ ''); on RDS the login needs rds_replication, on a stock '' @ ''server the REPLICATION attribute'')"

definition with_slot_privilege ::
  "resolved_instance \<Rightarrow> string \<Rightarrow> string option \<Rightarrow> string option m \<Rightarrow> (conn \<Rightarrow> unit m) \<Rightarrow> unit m" where
  "with_slot_privilege inst database login credential operation =
     bind_m (bind_m (ctx_connect inst (Some database)) (\<lambda>c.
             catch_m InsufficientPrivilege (then_m (operation c) (ret_m True))
               (\<lambda>e. if given login then ret_m False else throw_m e))) (\<lambda>done.
     if done then ret_m ()
     else bind_m credential (\<lambda>password.
       if \<not> given password
       then raise_m ReplicationRefused (''the managing role may not use replication slots on '' @ ri_name inst @ '', and no '' @
              ''password for '' @ the login @ '' is available to do it as the replication login'')
       else let as_login = login_endpoint inst (the login) (the password) database
            in finally_m
                 (catch_m InsufficientPrivilege (bind_m (connection as_login None) operation)
                   (slots_refused (ri_name inst) (the login)))
                 (close_instance (ep_instance as_login))))"

definition explain_slot_timeout :: "string \<Rightarrow> string \<Rightarrow> err \<Rightarrow> 'a m" where
  "explain_slot_timeout name inst e =
     (if \<not> contains_text ''statement timeout'' (err_text e) then throw_m e
      else raise_m ReconcileFailure (''creating slot '' @ name @ '' waits for every transaction already running on '' @ inst @
             '' to finish, and one outlasted the statement timeout; '' @
             ''look for long-running transactions in pg_stat_activity there''))"

definition obtain_slot :: "conn \<Rightarrow> resolved_instance \<Rightarrow> repl_result \<Rightarrow> repl_result m" where
  "obtain_slot src inst r =
     (let name = rp_subscription (lr_names r); source = lr_source r
      in bind_m (slots src name None) (\<lambda>found. case found of
           s # _ \<Rightarrow>
             if sl_database s \<noteq> Some (en_database source)
             then raise_m ReconcileFailure (''replication slot '' @ name @ '' already exists on '' @ en_instance source @ '' but for '' @
                    ''database '' @ repr_comment (sl_database s) @ '', not '' @ en_database source @ ''; a logical slot '' @
                    ''streams one database'' @ CHR 0x27 # ''s changes only, so it cannot be adopted - drop it'')
             else if sl_active s
             then raise_m ReconcileFailure (''replication slot '' @ name @ '' already exists on '' @ en_instance source @ '' and is in '' @
                    ''use (pid '' @ (case sl_active_pid s of None \<Rightarrow> ''None'' | Some p \<Rightarrow> show_int p) @
                    ''), but this replication has no subscription to '' @ ''hold it; it is left alone'')
             else ret_m (changed_to (''adopted idle slot '' @ name) r)
         | [] \<Rightarrow>
             then_m (catch_m ReconcileFailure
                 (with_slot_privilege inst (en_database source) (Some (lr_login r)) (ret_m (Some (lr_password r)))
                   (\<lambda>c. create_slot c name))
                 (explain_slot_timeout name (en_instance source)))
               (ret_m (changed_to (''created slot '' @ name) r))))"

definition ensure_slot :: "repl_obj \<Rightarrow> conn \<Rightarrow> resolved_instance \<Rightarrow> repl_result \<Rightarrow> repl_result m" where
  "ensure_slot obj src inst r =
     bind_m (obtain_slot src inst r) (\<lambda>r.
     if created_of (lr_created r) ''slot'' then ret_m r
     else let r = mark_created ''slot'' True r in then_m (record_created obj r) (ret_m r))"

section \<open>The subscription\<close>

definition explain :: "err \<Rightarrow> repl_result \<Rightarrow> string \<Rightarrow> int \<Rightarrow> err" where
  "explain e r host port =
     (let t = err_text e; target = en_instance (lr_target r)
      in if contains_text ''WAL sender'' t \<or> contains_text ''replication role'' t
         then Err ReplicationRefused (''the source refused '' @ lr_login r @ '' a replication connection ('' @ t @
                ''); on RDS the '' @ ''login needs rds_replication, on a stock server the REPLICATION attribute'')
         else if contains_text ''could not connect to the publisher'' t \<and> (contains_text ''SSL'' t \<or> contains_text ''certificate'' t)
         then Err SourceUnreachableFromTarget (target @ '' reached the source at '' @ host @ '':'' @ show_int port @
                '' but could not agree '' @ ''on TLS ('' @ t @ ''); set source.connection.sslMode to what the source offers - '' @
                ''verify-ca and verify-full also need sslRootCertPath on the target server'')
         else if contains_text ''could not connect to the publisher'' t
         then Err SourceUnreachableFromTarget (target @ '' could not connect to the source at '' @ host @ '':'' @ show_int port @ '' '' @
                ''('' @ t @ ''); check that the source admits connections from the target server '' @
                ''(security groups, routing, pg_hba), and that source.connection names the source '' @ ''as the target server resolves it'')
         else e)"

fun streaming_text :: "streaming \<Rightarrow> string" where
  "streaming_text Streaming_Off = ''off''"
| "streaming_text Streaming_On = ''on''"
| "streaming_text Streaming_Parallel = ''parallel''"

definition connection_host :: "replication_spec \<Rightarrow> resolved_instance \<Rightarrow> string" where
  "connection_host spec inst = or_text (rc_host (re_connection spec)) (is_host (ri_spec inst))"

definition connection_port :: "replication_spec \<Rightarrow> resolved_instance \<Rightarrow> int" where
  "connection_port spec inst = (case rc_port (re_connection spec) of
      None \<Rightarrow> is_port (ri_spec inst)
    | Some p \<Rightarrow> if p = 0 then is_port (ri_spec inst) else p)"

text \<open>No subscription yet: its slot first, then the subscription, recorded as soon as it exists.\<close>

definition make_subscription ::
  "repl_obj \<Rightarrow> conn \<Rightarrow> conn \<Rightarrow> replication_spec \<Rightarrow> resolved_instance \<Rightarrow> string \<Rightarrow> string \<Rightarrow> repl_result \<Rightarrow> repl_result m" where
  "make_subscription obj src dst spec inst info marker r =
     (let name = rp_subscription (lr_names r); host = connection_host spec inst; port = connection_port spec inst
      in bind_m (ensure_slot obj src inst r) (\<lambda>r.
         then_m (catch_m ReconcileFailure
             (create_subscription dst name info (rp_publication (lr_names r)) (re_copy_data spec) (re_enabled spec)
               (re_binary spec) (map_option streaming_text (re_streaming spec)) marker)
             (\<lambda>e. throw_m (explain e r host port)))
        (bind_m (get_subscription dst name) (\<lambda>found. case found of
            None \<Rightarrow> raise_m ReconcileFailure (''subscription '' @ name @ '' was created but cannot be found'')
          | Some s \<Rightarrow>
              let r = changed_to (''created subscription '' @ name)
                    ((mark_created ''subscription'' True r)\<lparr>lr_subscription_oid := Some (su_oid s)\<rparr>)
              in then_m (record_created obj r) (ret_m r)))))"

definition differing :: "'a option \<Rightarrow> 'a \<Rightarrow> 'a option" where
  "differing wanted held = (case wanted of None \<Rightarrow> None | Some w \<Rightarrow> if w \<noteq> held then Some w else None)"

definition adjust_subscription ::
  "conn \<Rightarrow> replication_spec \<Rightarrow> subscription_state \<Rightarrow> repl_status \<Rightarrow> string \<Rightarrow> string \<Rightarrow> repl_result \<Rightarrow> repl_result m" where
  "adjust_subscription dst spec s existing info mark r =
     (let name = rp_subscription (lr_names r);
          r = (mark_created ''subscription'' True r)\<lparr>lr_subscription_oid := Some (su_oid s)\<rparr>;
          bin = differing (re_binary spec) (su_binary s);
          streaming = differing (map_option streaming_text (re_streaming spec)) (su_streaming s)
      in bind_m (if rt_fingerprint existing \<noteq> Some mark
                 then then_m (set_connection dst name info) (ret_m (changed_to (''updated the subscription'' @ CHR 0x27 # ''s connection'') r))
                 else ret_m r) (\<lambda>r.
         bind_m (if su_enabled s \<noteq> re_enabled spec
                 then then_m (set_enabled dst name (re_enabled spec))
                   (ret_m (changed_to ((if re_enabled spec then ''enabled'' else ''disabled'') @ '' the subscription'') r))
                 else ret_m r) (\<lambda>r.
         if bin \<noteq> None \<or> streaming \<noteq> None
         then then_m (set_options dst name bin streaming)
                (ret_m (changed_to (''updated the subscription'' @ CHR 0x27 # ''s options'') r))
         else ret_m r)))"

text \<open>The tables the subscription carries: refreshed when they are not those that are published.\<close>

definition refresh_tables ::
  "conn \<Rightarrow> replication_spec \<Rightarrow> resolved_instance \<Rightarrow> string list \<Rightarrow> int \<Rightarrow> repl_result \<Rightarrow> repl_result m" where
  "refresh_tables dst spec inst published oid r =
     bind_m (subscribed_tables dst oid) (\<lambda>subscribed.
     if re_enabled spec \<and> set (dkeys subscribed) \<noteq> set published
     then then_m (catch_m ReconcileFailure (refresh dst (rp_subscription (lr_names r)) (re_copy_data spec))
              (\<lambda>e. throw_m (explain e r (connection_host spec inst) (connection_port spec inst))))
            (bind_m (subscribed_tables dst oid) (\<lambda>subscribed.
             ret_m ((changed_to (''refreshed the subscription'' @ CHR 0x27 # ''s tables'') r)\<lparr>lr_subscribed := subscribed\<rparr>)))
     else ret_m (r\<lparr>lr_subscribed := subscribed\<rparr>))"

definition converge_subscription ::
  "repl_obj \<Rightarrow> conn \<Rightarrow> conn \<Rightarrow> replication_spec \<Rightarrow> subscription_state option \<Rightarrow> string list \<Rightarrow> resolved_instance \<Rightarrow> string \<Rightarrow>
   repl_result \<Rightarrow> repl_result m" where
  "converge_subscription obj src dst spec subscription published inst marker r =
     bind_m (build_conninfo (connection_host spec inst) (connection_port spec inst) (en_database (lr_source r)) (lr_login r)
               (lr_password r) (ssl_text (rc_ssl_mode (re_connection spec))) (rc_ssl_root_cert_path (re_connection spec))) (\<lambda>info.
     bind_m (conninfo_fingerprint info) (\<lambda>mark.
     bind_m (case subscription of
         None \<Rightarrow> make_subscription obj src dst spec inst info marker r
       | Some s \<Rightarrow> adjust_subscription dst spec s (rb_status obj) info mark r) (\<lambda>r.
     refresh_tables dst spec inst published (the (lr_subscription_oid r))
       (r\<lparr>lr_fingerprint := mark, lr_enabled := re_enabled spec\<rparr>))))"

section \<open>The pass\<close>

definition require_versions :: "resolved_instance \<Rightarrow> resolved_instance \<Rightarrow> unit m" where
  "require_versions source_inst target_inst =
     each_m (\<lambda>(side, inst). if major_version (ri_server inst) < MIN_REPLICATION_VERSION
         then raise_m ConfigurationError (side @ '' '' @ ri_name inst @ '' runs PostgreSQL '' @ version_text (ri_server inst) @ ''; '' @
                ''replication requires '' @ show_int MIN_REPLICATION_VERSION @ '' or later on both servers'')
         else ret_m ())
       [(''source'', source_inst), (''target'', target_inst)]"

definition server_line :: "resolved_instance \<Rightarrow> string" where
  "server_line inst = ''PostgreSQL '' @ version_text (ri_server inst) @ '' at '' @ display inst"

text \<open>\<open>(remedy,) = (issue for issue in info.issues() if issue.startswith("wal_level"))\<close>\<close>

definition require_logical_wal :: "logical_info \<Rightarrow> replication_end \<Rightarrow> unit m" where
  "require_logical_wal info source =
     (if wal_is_logical info then ret_m ()
      else case filter (starts_with ''wal_level'') (logical_issues info) of
        [remedy] \<Rightarrow> raise_m ConfigurationError (''source '' @ end_display source @ '': '' @ remedy)
      | _ \<Rightarrow> raise_m Value_Error ''cannot unpack'')"

definition require_subscriber :: "logical_info \<Rightarrow> replication_end \<Rightarrow> unit m" where
  "require_subscriber info target =
     (if li_create_subscription info = Unavailable
      then raise_m ConfigurationError (''the managing role on '' @ en_instance target @ '' cannot create subscriptions; it needs '' @
             ''membership of pg_create_subscription (or, on RDS, rds_superuser)'')
      else ret_m ())"

text \<open>Steps 2 and 3: what both servers can do, whose the names are, the publication and the login.\<close>

definition prepare ::
  "repl_obj \<Rightarrow> conn \<Rightarrow> conn \<Rightarrow> resolved_replication \<Rightarrow> resolved_instance \<Rightarrow> resolved_instance \<Rightarrow> string \<Rightarrow> repl_result \<Rightarrow>
   (subscription_state option \<times> repl_result) m" where
  "prepare obj src dst rd source_inst target_inst read_group r =
     (let spec = rd_spec rd; existing = rb_status obj; marker = ownership_marker (rb_namespace obj) (rb_name obj)
      in bind_m (describe_logical_replication src (ri_server source_inst)) (\<lambda>info.
         then_m (require_logical_wal info (rd_source rd))
        (bind_m (describe_logical_replication dst (ri_server target_inst)) (\<lambda>target_info.
         then_m (require_subscriber target_info (rd_target rd))
        (bind_m (get_subscription dst (rp_subscription (lr_names r))) (\<lambda>subscription.
         then_m (refuse_foreign_objects src spec r subscription marker)
        (then_m (if subscription = None then require_free_slot info (rd_source rd) else ret_m ())
        (bind_m (ensure_publication src spec r marker) (\<lambda>(made, r).
         then_m (when_m made (record_created obj r))
        (bind_m (ensure_login src spec info (rb_namespace obj) (rb_name obj) marker read_group (rt_login existing) r) (\<lambda>s.
         then_m (when_m (set (lr_created s) \<noteq> set (lr_created r) \<or> set (lr_granted s) \<noteq> set (lr_granted r))
                   (record_created obj s))
           (ret_m (subscription, s)))))))))))))"

text \<open>Step 4: the candidates, judged against both catalogs.\<close>

definition wanted_targets :: "replication_spec \<Rightarrow> (string \<times> source_table) list \<Rightarrow> candidate list \<Rightarrow> (string \<times> string) list" where
  "wanted_targets spec catalog selected =
     concat (map (\<lambda>c. case map_of catalog (ca_qualified c) of
         None \<Rightarrow> []
       | Some t \<Rightarrow> map (\<lambda>rel. (rl_schema rel, rl_name rel)) (target_relations t (re_via_root spec))) selected)"

definition judge_tables ::
  "repl_obj \<Rightarrow> conn \<Rightarrow> conn \<Rightarrow> resolved_replication \<Rightarrow> resolved_instance \<Rightarrow> role_names \<Rightarrow> subscription_state option \<Rightarrow>
   repl_result \<Rightarrow> verdict list m" where
  "judge_tables obj src dst rd source_inst groups subscription r =
     (let spec = rd_spec rd
      in bind_m (describe_source_tables src (map sl_name (re_schemas spec))
                  (map (\<lambda>t. (ts_schema t, ts_name t)) (re_tables spec)) (lr_login r)) (\<lambda>catalog.
         let selected = candidates spec (map snd catalog)
         in bind_m (describe_target_tables dst (wanted_targets spec catalog selected)) (\<lambda>targets.
            bind_m (case subscription of
                None \<Rightarrow> ret_m []
              | Some s \<Rightarrow> bind_m (subscribed_tables dst (su_oid s)) (\<lambda>ts. ret_m (dkeys ts))) (\<lambda>subscribed.
            bind_m (if re_copy_data spec
                    then nonempty_tables dst (map (\<lambda>(_, t). (tt_schema t, tt_name t))
                           (filter (\<lambda>(_, t). tt_owner_settable t \<and> tt_qualified t \<notin> set subscribed) targets))
                    else ret_m []) (\<lambda>nonempty.
            bind_m (claims_elsewhere obj (rd_target rd)) (\<lambda>claims.
            ret_m (map (\<lambda>c. judge c (map_of catalog (ca_qualified c)) targets
                \<lparr>ja_keyed = publishes_keyed_changes spec, ja_via_root = re_via_root spec, ja_owner_group = rn_owner groups,
                 ja_read_group = rn_read_only groups, ja_login = lr_login r, ja_claimed_by = map_of claims (ca_qualified c),
                 ja_copy_data = re_copy_data spec, ja_subscribed = subscribed, ja_nonempty = nonempty,
                 ja_major = major_version (ri_server source_inst)\<rparr>) selected)))))))"

text \<open>Step 7: what both servers say now, and what it means.\<close>

definition suspects_of :: "repl_result \<Rightarrow> string list" where
  "suspects_of r = map (\<lambda>e. te_table e @ '' ('' @ te_reason e @ '')'') (lr_kept r)"

definition observe_health :: "repl_obj \<Rightarrow> conn \<Rightarrow> conn \<Rightarrow> replication_spec \<Rightarrow> repl_result \<Rightarrow> repl_result m" where
  "observe_health obj src dst spec r =
     bind_m (read_slot_health src (rp_subscription (lr_names r))) (\<lambda>slot.
     bind_m (case lr_subscription_oid r of
         None \<Rightarrow> ret_m None
       | Some oid \<Rightarrow> bind_m (read_subscription_health dst oid) (\<lambda>h. ret_m (Some h))) (\<lambda>subscription.
     bind_m (sample_m micros) (\<lambda>now.
     bind_m (lift_r (assess \<lparr>ob_slot = slot, ob_subscription = subscription, ob_tables = lr_subscribed r\<rparr>
               (rt_health (rb_status obj)) (rt_state (rb_status obj)) (re_enabled spec) (re_alerting spec) (suspects_of r) now))
       (\<lambda>a. ret_m (r\<lparr>lr_assessment := Some a\<rparr>)))))"

definition reconcile_replication :: "repl_obj \<Rightarrow> repl_result m" where
  "reconcile_replication obj =
     (let namespace = rb_namespace obj; existing = rb_status obj
      in bind_m (resolve_replication obj) (\<lambda>rd.
         let spec = rd_spec rd; source = rd_source rd; target = rd_target rd
         in bind_m (recorded_names existing namespace (rb_name obj) (is_role_prefix (rd_source_instance rd))) (\<lambda>names.
            let r = new_repl_result source target names (rt_created existing) (rt_granted existing)
            in bind_m (resolve_instance (en_instance source) namespace) (\<lambda>source_inst.
               bind_m (resolve_instance (en_instance target) namespace) (\<lambda>target_inst.
               then_m (require_versions source_inst target_inst)
              (let r = r\<lparr>lr_source_server := server_line source_inst, lr_target_server := server_line target_inst\<rparr>
               in bind_m (asks sha_of) (\<lambda>sha.
                  bind_m (lift_r (resolve_role_names sha (rd_source_db rd) (en_database source) (is_role_prefix (ri_spec source_inst)))) (\<lambda>groups.
                  bind_m (ctx_connect source_inst (Some (en_database source))) (\<lambda>src.
                  bind_m (ctx_connect target_inst (Some (en_database target))) (\<lambda>dst.
                  bind_m (prepare obj src dst rd source_inst target_inst (rn_read_only groups) r) (\<lambda>(subscription, r).
                  bind_m (judge_tables obj src dst rd source_inst groups subscription r) (\<lambda>verdicts.
                  bind_m (converge_tables src verdicts existing r) (\<lambda>r.
                  bind_m (published_relations src (rp_publication (lr_names r))) (\<lambda>published.
                  bind_m (converge_subscription obj src dst spec subscription published source_inst
                            (ownership_marker namespace (rb_name obj)) r) (\<lambda>r.
                  bind_m (remove_superseded_login src existing (supports_per_grant_options (ri_server source_inst)) (rt_login existing) r) (\<lambda>r.
                  observe_health obj src dst spec r))))))))))))))))"

end
