(* ===== verification/ReplicationTeardown.thy ===== *)
theory ReplicationTeardown
  imports ReplicationReconcile
begin

text \<open>
  \<open>teardown_replication\<close> of \<open>reconcile/replication.py\<close>: what a deleted PostgresReplication leaves is removed from both
  servers, from what its status recorded. Each server may be gone or out of reach on its own; only a server
  that is out of reach holds the deletion up.
\<close>

section \<open>The target\<close>

definition remove_subscription :: "resolved_instance \<Rightarrow> repl_status \<Rightarrow> string list m" where
  "remove_subscription inst st =
     (let database = rt_target_database st; name = rt_subscription st
      in bind_m (bind_m (ctx_connect inst None) (\<lambda>c.
                 if database = [] then ret_m False
                 else bind_m (get_database c database) (\<lambda>d. ret_m (d \<noteq> None)))) (\<lambda>there.
         if \<not> there then ret_m []
         else bind_m (ctx_connect inst (Some database)) (\<lambda>c.
              bind_m (get_subscription c name) (\<lambda>s.
              if s = None then ret_m []
              else bind_m (drop_subscription c name) (\<lambda>took_slot.
                ret_m [''subscription '' @ name @ (if took_slot then [] else '' (detached from its slot)'')])))))"

section \<open>The slots\<close>

text \<open>\<open>int(oid) if oid else None\<close>\<close>

definition truthy_oid :: "int option \<Rightarrow> int option" where
  "truthy_oid oid = (case oid of None \<Rightarrow> None | Some n \<Rightarrow> if n = 0 then None else Some n)"

definition busy :: "slot_state list \<Rightarrow> int list" where
  "busy found = concat (map (\<lambda>s. case sl_active_pid s of
       None \<Rightarrow> [] | Some pid \<Rightarrow> if sl_active s \<and> pid \<noteq> 0 then [pid] else []) found)"

definition SLOT_ROUNDS :: nat where
  "SLOT_ROUNDS = 20"

text \<open>The bounded loop that ends the walsenders still holding a slot, and asks again.\<close>

fun settle_slots :: "conn \<Rightarrow> string \<Rightarrow> int option \<Rightarrow> nat \<Rightarrow> slot_state list \<Rightarrow> slot_state list m" where
  "settle_slots c slot oid 0 found = ret_m found"
| "settle_slots c slot oid (Suc n) found =
     (if busy found = [] then ret_m found
      else then_m (each_m (\<lambda>pid. bind_m (terminate c pid) (\<lambda>_. ret_m ())) (busy found))
          (then_m (tell Slept)
          (bind_m (slots c slot oid) (\<lambda>found. settle_slots c slot oid n found))))"

definition released_slots ::
  "resolved_instance \<Rightarrow> conn \<Rightarrow> string \<Rightarrow> int option \<Rightarrow> string \<Rightarrow> slot_state list \<Rightarrow> string list m" where
  "released_slots inst c slot oid login found =
     then_m (when_m (list_ex sl_active found \<and> login \<noteq> [])
              (suppress_failure (ensure_self_membership c login (supports_per_grant_options (ri_server inst)))))
    (bind_m (settle_slots c slot oid SLOT_ROUNDS found) (\<lambda>found.
     let held = map sl_slot (filter sl_active found)
     in if held \<noteq> []
        then raise_m ReconcileFailure (''slot(s) '' @ join_with '', '' held @ '' on '' @ ri_name inst @ '' are still held by a walsender '' @
               ''that could not be ended; retrying'')
        else ret_m (map sl_slot found)))"

definition login_password :: "repl_obj \<Rightarrow> string option m" where
  "login_password obj = (case rt_credentials (rb_status obj) of
      None \<Rightarrow> ret_m None
    | Some l \<Rightarrow>
        if cs_name l = [] then ret_m None
        else let key = (if cs_generated l then ''password'' else or_text (rb_password_key obj) ''password'')
          in bind_m (catch_m ReferenceNotFound (bind_m (read_secret (cs_namespace l) (cs_name l)) (\<lambda>d. ret_m (map_of d key)))
                      (\<lambda>_. ret_m None)) (\<lambda>found. case found of
               Some (b # bs) \<Rightarrow> bind_m (decode_m (b # bs)) (\<lambda>password. ret_m (Some password))
             | _ \<Rightarrow> ret_m None))"

text \<open>The operator's own login gets a fresh password: the Secret's may no longer match.\<close>

definition slot_credential :: "repl_obj \<Rightarrow> resolved_instance \<Rightarrow> string \<Rightarrow> string option m" where
  "slot_credential obj inst login =
     (if \<not> created_of (rt_created (rb_status obj)) ''login'' then login_password obj
      else bind_m (generate_password 32) (\<lambda>password.
           bind_m (ctx_connect inst None) (\<lambda>c. then_m (set_password c login password) (ret_m (Some password)))))"

definition remove_slots :: "resolved_instance \<Rightarrow> repl_obj \<Rightarrow> string list m" where
  "remove_slots inst obj =
     (let st = rb_status obj; slot = rt_slot st; oid = truthy_oid (rt_subscription_oid st); login = rt_login st
      in if slot = [] then ret_m []
         else bind_m (ctx_connect inst None) (\<lambda>c.
              bind_m (slots c slot oid) (\<lambda>found.
              if found = [] then ret_m []
              else bind_m (released_slots inst c slot oid login found) (\<lambda>names.
                then_m (with_slot_privilege inst
                    (or_text (Some (rt_source_database st)) (is_maintenance_database (ri_spec inst)))
                    (if login = [] then None else Some login) (slot_credential obj inst login) (\<lambda>c. drop_slots c names))
                  (ret_m (map (\<lambda>n. ''slot '' @ n) names))))))"

section \<open>The source\<close>

definition remove_login :: "conn \<Rightarrow> bool \<Rightarrow> repl_status \<Rightarrow> string list m" where
  "remove_login c per_grant_options st =
     (let login = rt_login st
      in if created_of (rt_created st) ''login''
         then then_m (retire_login c per_grant_options login) (ret_m [''login '' @ login])
         else fold_m (\<lambda>removed grp.
             bind_m (memberships c login) (\<lambda>held.
             if grp \<notin> set held then ret_m removed
             else then_m (revoke_membership c grp login) (ret_m (removed @ [grp @ '' membership of '' @ login]))))
           [] (rt_granted st))"

definition remove_publication :: "resolved_instance \<Rightarrow> repl_status \<Rightarrow> string list m" where
  "remove_publication inst st =
     (let database = rt_source_database st
      in bind_m (bind_m (ctx_connect inst None) (\<lambda>c.
                 if database = [] then ret_m False
                 else bind_m (get_database c database) (\<lambda>d. ret_m (d \<noteq> None)))) (\<lambda>there.
         if created_of (rt_created st) ''publication'' \<and> there \<and> rt_publication st \<noteq> []
         then bind_m (ctx_connect inst (Some database)) (\<lambda>c.
              then_m (drop_publication c (rt_publication st)) (ret_m [''publication '' @ rt_publication st]))
         else ret_m []))"

definition remove_source_objects :: "resolved_instance \<Rightarrow> repl_status \<Rightarrow> string list m" where
  "remove_source_objects inst st =
     bind_m (remove_publication inst st) (\<lambda>removed.
     bind_m (ctx_connect inst None) (\<lambda>c.
     bind_m (if rt_login st = [] then ret_m False else role_exists c (rt_login st)) (\<lambda>there.
     if \<not> there then ret_m removed
     else bind_m (remove_login c (supports_per_grant_options (ri_server inst)) st) (\<lambda>objects. ret_m (removed @ objects)))))"

section \<open>Both\<close>

text \<open>A server that is gone took everything on it along; one that cannot be reached is tried again.\<close>

datatype 'a reached = Reached 'a | Gone | Out_Of_Reach string

definition reach :: "string \<Rightarrow> 'a m \<Rightarrow> 'a reached m" where
  "reach label m =
     catch_m ConnectionFailure
       (catch_m InstanceNotFound (bind_m m (\<lambda>x. ret_m (Reached x))) (\<lambda>_. ret_m Gone))
       (\<lambda>e. ret_m (Out_Of_Reach (label @ '' ('' @ err_text e @ '')'')))"

definition clear_target :: "repl_status \<Rightarrow> string list reached m" where
  "clear_target st =
     (if created_of (rt_created st) ''subscription'' \<and> rt_target_instance st \<noteq> [] \<and> rt_subscription st \<noteq> []
      then reach (''target '' @ rt_target_instance st)
             (bind_m (resolve_instance (rt_target_instance st) []) (\<lambda>inst. remove_subscription inst st))
      else ret_m (Reached []))"

text \<open>What is removed, whether the source is done, and what is out of reach.\<close>

definition clear_source :: "repl_obj \<Rightarrow> (string list \<times> bool \<times> string list) m" where
  "clear_source obj =
     (let st = rb_status obj; label = ''source '' @ rt_source_instance st
      in if rt_source_instance st = [] then ret_m ([], False, [])
         else bind_m (reach label (bind_m (resolve_instance (rt_source_instance st) []) (\<lambda>inst.
                  bind_m (if created_of (rt_created st) ''subscription'' \<or> created_of (rt_created st) ''slot''
                          then remove_slots inst obj else ret_m []) (\<lambda>removed. ret_m (inst, removed))))) (\<lambda>first.
           case first of
             Gone \<Rightarrow> ret_m ([], True, [])
           | Out_Of_Reach why \<Rightarrow> ret_m ([], False, [why])
           | Reached (inst, removed) \<Rightarrow>
               bind_m (reach label (remove_source_objects inst st)) (\<lambda>second. ret_m (case second of
                   Gone \<Rightarrow> (removed, True, [])
                 | Out_Of_Reach why \<Rightarrow> (removed, False, [why])
                 | Reached objects \<Rightarrow> (removed @ objects, True, [])))))"

definition clear_secret :: "repl_status \<Rightarrow> bool \<Rightarrow> string list m" where
  "clear_secret st source_cleared = (case rt_credentials st of
      None \<Rightarrow> ret_m []
    | Some l \<Rightarrow>
        if source_cleared \<and> created_of (rt_created st) ''secret'' \<and> cs_name l \<noteq> []
        then bind_m (delete_secret (cs_namespace l) (cs_name l)) (\<lambda>deleted.
          ret_m (if deleted then [''Secret '' @ cs_namespace l @ ''/'' @ cs_name l] else []))
        else ret_m [])"

definition teardown_replication :: "repl_obj \<Rightarrow> string m" where
  "teardown_replication obj =
     (let st = rb_status obj
      in if \<not> any_created (rt_created st) \<and> rt_granted st = []
         then ret_m ''nothing to remove; this replication created no objects''
         else bind_m (clear_target st) (\<lambda>target.
              bind_m (clear_source obj) (\<lambda>(removed, source_cleared, unreachable_source).
              bind_m (clear_secret st source_cleared) (\<lambda>secret.
              let unreachable = (case target of Out_Of_Reach why \<Rightarrow> [why] | _ \<Rightarrow> []) @ unreachable_source;
                  removed = (case target of Reached done \<Rightarrow> done | _ \<Rightarrow> []) @ removed @ secret
              in if unreachable \<noteq> []
                 then raise_m ConnectionFailure (''cannot reach '' @ join_with '' and '' unreachable @ ''; will retry'' @
                        (if removed \<noteq> [] then ''; removed so far: '' @ join_with '', '' removed else []))
                 else ret_m (if removed \<noteq> [] then ''removed '' @ join_with '', '' removed else ''nothing left to remove'')))))"

end
