(* ===== verification/Reports.thy ===== *)
theory Reports
  imports Effects
begin

text \<open>
  What a status says after a pass has merged its conditions into the recorded ones: lemmas shared by the
  status builders of databases and replications and by the handlers. \<open>shows_status\<close> is the status a reader of
  the merged conditions sees for one kind.
\<close>

lemma lookup_reported:
  "distinct (map type_key us) \<Longrightarrow> u \<in> set us \<Longrightarrow>
   lookup_condition (merge_conditions cs us) (type_key u) = Some (carry_transition (lookup_condition cs (type_key u)) u)"
  by (simp only: lookup_merge foldl_merge_one_written) (simp only: lookup_condition_def)

lemma lookup_unreported:
  "t \<notin> type_key ` set us \<Longrightarrow> lookup_condition (merge_conditions cs us) t = lookup_condition cs t"
  by (simp only: lookup_merge lookup_condition_def [of cs]) (rule foldl_merge_one_kept)

lemma carry_transition_fields [simp]:
  "c_status (carry_transition p u) = c_status u" "c_reason (carry_transition p u) = c_reason u"
  "c_message (carry_transition p u) = c_message u" "c_generation (carry_transition p u) = c_generation u"
  "c_type (carry_transition p u) = c_type u"
  by (simp_all add: carry_transition_def split: option.splits)

lemma mk_condition_fields [simp]:
  "c_status (mk_condition now t s r m g) = Some s" "c_reason (mk_condition now t s r m g) = Some r"
  "c_message (mk_condition now t s r m g) = Some (take 32000 m)" "c_generation (mk_condition now t s r m g) = g"
  by (simp_all add: mk_condition_def)

lemma condition_kinds_distinct [simp]:
  "COND_READY \<noteq> COND_REACHABLE" "COND_READY \<noteq> COND_SYNCED" "COND_READY \<noteq> COND_DRIFTED" "COND_READY \<noteq> COND_STREAMING"
  "COND_REACHABLE \<noteq> COND_READY" "COND_REACHABLE \<noteq> COND_SYNCED" "COND_REACHABLE \<noteq> COND_DRIFTED" "COND_REACHABLE \<noteq> COND_STREAMING"
  "COND_SYNCED \<noteq> COND_READY" "COND_SYNCED \<noteq> COND_REACHABLE" "COND_SYNCED \<noteq> COND_DRIFTED" "COND_SYNCED \<noteq> COND_STREAMING"
  "COND_DRIFTED \<noteq> COND_READY" "COND_DRIFTED \<noteq> COND_REACHABLE" "COND_DRIFTED \<noteq> COND_SYNCED" "COND_DRIFTED \<noteq> COND_STREAMING"
  "COND_STREAMING \<noteq> COND_READY" "COND_STREAMING \<noteq> COND_REACHABLE" "COND_STREAMING \<noteq> COND_SYNCED" "COND_STREAMING \<noteq> COND_DRIFTED"
  by (simp_all add: condition_types)

lemma constructor_kinds [simp]:
  "type_key (ready n m g) = COND_READY" "type_key (not_ready n r m g) = COND_READY" "type_key (pending n r m g) = COND_READY"
  "type_key (reachable n m g) = COND_REACHABLE" "type_key (unreachable n r m g) = COND_REACHABLE"
  "type_key (synced n m g) = COND_SYNCED" "type_key (not_synced n r m g) = COND_SYNCED"
  "type_key (drifted n m g r) = COND_DRIFTED" "type_key (no_drift n g) = COND_DRIFTED"
  by (simp_all add: constructor_defs)

lemma constructor_statuses [simp]:
  "c_status (ready n m g) = Some ''True''" "c_status (not_ready n r m g) = Some ''False''"
  "c_status (pending n r m g) = Some ''Unknown''" "c_status (reachable n m g) = Some ''True''"
  "c_status (unreachable n r m g) = Some ''False''" "c_status (synced n m g) = Some ''True''"
  "c_status (not_synced n r m g) = Some ''False''" "c_status (drifted n m g r) = Some ''True''"
  "c_status (no_drift n g) = Some ''False''"
  by (simp_all add: constructor_defs)

lemma constructor_reasons [simp]:
  "c_reason (not_ready n r m g) = Some r" "c_reason (pending n r m g) = Some r"
  "c_reason (not_synced n r m g) = Some r" "c_reason (drifted n m g r) = Some r" "c_reason (unreachable n r m g) = Some r"
  by (simp_all add: constructor_defs)

text \<open>The status and the reason a reader finds for a kind of condition.\<close>

definition status_of :: "condition list \<Rightarrow> string \<Rightarrow> string option" where
  "status_of cs t = Option.bind (lookup_condition cs t) c_status"

definition reason_of :: "condition list \<Rightarrow> string \<Rightarrow> string option" where
  "reason_of cs t = Option.bind (lookup_condition cs t) c_reason"

lemma status_of_reported:
  "distinct (map type_key us) \<Longrightarrow> u \<in> set us \<Longrightarrow> type_key u = t \<Longrightarrow>
   status_of (merge_conditions cs us) t = c_status u \<and> reason_of (merge_conditions cs us) t = c_reason u"
  using lookup_reported [of us u cs] by (auto simp: status_of_def reason_of_def)

lemma status_of_unreported:
  "t \<notin> type_key ` set us \<Longrightarrow>
   status_of (merge_conditions cs us) t = status_of cs t \<and> reason_of (merge_conditions cs us) t = reason_of cs t"
  by (simp add: status_of_def reason_of_def lookup_unreported)

lemma has_status_of: "has_status (lookup_condition cs t) s \<longleftrightarrow> status_of cs t = Some s"
  by (auto simp: has_status_def status_of_def split: option.split)

lemma has_reason_of: "has_reason_in (lookup_condition cs t) rs \<longleftrightarrow> (\<exists>r \<in> set rs. reason_of cs t = Some r)"
  by (auto simp: has_reason_in_def reason_of_def split: option.splits)

text \<open>The phase, by what a reader sees.\<close>

lemma phase_by_status:
  "status_of cs COND_READY = Some ''True'' \<Longrightarrow>
   phase_from_conditions cs =
     (if status_of cs COND_STREAMING = Some ''False'' \<and> (\<exists>r \<in> set DEGRADING_REASONS. reason_of cs COND_STREAMING = Some r)
      then Degraded else if status_of cs COND_DRIFTED = Some ''True'' then Drifted else Ready)"
  by (cases "lookup_condition cs COND_READY")
    (simp_all add: status_of_def phase_from_conditions_def has_status_of [unfolded status_of_def] has_reason_of)

lemma phase_not_ready:
  "status_of cs COND_READY = Some ''False'' \<Longrightarrow>
   phase_from_conditions cs =
     (if reason_of cs COND_READY = Some ''Paused'' then Paused
      else if status_of cs COND_REACHABLE = Some ''False'' then Unreachable else Failed)"
  by (cases "lookup_condition cs COND_READY")
    (auto simp: status_of_def reason_of_def phase_from_conditions_def has_status_of [unfolded status_of_def] has_reason_in_def split: option.splits)

section \<open>Values of the status\<close>

fun retention_text :: "retention \<Rightarrow> string" where
  "retention_text RETAIN = ''RETAIN''"
| "retention_text DROP_RESOURCES = ''DROP''"

definition j_names :: "string list \<Rightarrow> json" where
  "j_names xs = J_List (map J_Str xs)"

end
