(* ===== verification/ReplicationStatus.thy ===== *)
theory ReplicationStatus
  imports ReplicationTeardown Reports
begin

text \<open>
  \<open>build_status\<close> and \<open>observe_from_status\<close> of \<open>reconcile/replication.py\<close>: what a pass over a PostgresReplication
  reports, and what can still be said of its slot after a pass that failed. \<open>now n\<close> is the n-th reading of the
  clock.
\<close>

section \<open>Status\<close>

fun state_text :: "repl_state \<Rightarrow> string" where
  "state_text Initializing = ''Initializing''"
| "state_text Streaming = ''Streaming''"
| "state_text Lagging = ''Lagging''"
| "state_text Stalled = ''Stalled''"
| "state_text SlotLost = ''SlotLost''"
| "state_text Disabled = ''Disabled''"

definition held :: "repl_result \<Rightarrow> table_entry list" where
  "held r = lr_excluded r @ lr_kept r"

definition held_reason :: "repl_result \<Rightarrow> string" where
  "held_reason r = (case sorted_set (map te_reason (held r)) of [reason] \<Rightarrow> reason | _ \<Rightarrow> ''MultipleIssues'')"

definition held_message :: "repl_result \<Rightarrow> string" where
  "held_message r =
     join_with ''; '' (map (\<lambda>e. te_table e @ '': '' @ te_message e) (take 10 (held r))) @
     (if 10 < length (held r)
      then ''; and '' @ show_nat (length (held r) - 10) @ '' more in status.excludedTables'' else [])"

definition streaming_condition :: "assessment \<Rightarrow> string \<Rightarrow> int option \<Rightarrow> condition" where
  "streaming_condition a now generation =
     mk_condition now COND_STREAMING (if as_streaming a then ''True'' else ''False'') (state_text (as_state a)) (as_message a) generation"

definition repl_conditions :: "repl_result \<Rightarrow> int option \<Rightarrow> (nat \<Rightarrow> string) \<Rightarrow> condition list" where
  "repl_conditions r generation now =
     [reachable (now 0) (''source '' @ lr_source_server r @ ''; target '' @ lr_target_server r) generation] @
     (if held r \<noteq> []
      then [drifted (now 1) (held_message r) generation (held_reason r),
            not_synced (now 2) (held_reason r) (held_message r) generation]
      else [no_drift (now 1) generation, synced (now 2) (repl_message r) generation]) @
     [ready (now 3) (repl_message r) generation] @
     (case lr_assessment r of None \<Rightarrow> [] | Some a \<Rightarrow> [streaming_condition a (now 4) generation])"

definition optional :: "('a \<Rightarrow> json) \<Rightarrow> 'a option \<Rightarrow> json" where
  "optional f x = (case x of None \<Rightarrow> J_Null | Some v \<Rightarrow> f v)"

definition health_json :: "health \<Rightarrow> json" where
  "health_json h = J_Obj
     [(''observedAt'', J_Str (he_observed_at h)), (''slotActive'', optional J_Bool (he_slot_active h)),
      (''walStatus'', optional J_Str (he_wal_status h)), (''safeWalSizeBytes'', optional J_Int (he_safe_wal_size h)),
      (''lagBytes'', optional J_Int (he_lag_bytes h)), (''lag'', optional J_Str (he_lag h)),
      (''retainedWalBytes'', optional J_Int (he_retained_bytes h)), (''retainedWal'', optional J_Str (he_retained h)),
      (''inactiveSince'', optional J_Str (he_inactive_since h)), (''workerRunning'', optional J_Bool (he_worker_running h)),
      (''lastMessageAt'', optional J_Str (he_last_message_at h)), (''applyErrorCount'', optional J_Int (he_apply_errors h)),
      (''syncErrorCount'', optional J_Int (he_sync_errors h)),
      (''conflicts'', optional (\<lambda>cs. J_Obj (map (\<lambda>(k, n). (k, J_Int n)) cs)) (he_conflicts h))]"

definition entry_json :: "table_entry \<Rightarrow> json" where
  "entry_json e = J_Obj [(''table'', J_Str (te_table e)), (''reason'', J_Str (te_reason e)), (''message'', J_Str (te_message e))]"

definition filter_json :: "recorded_filter \<Rightarrow> json" where
  "filter_json e = J_Obj [(''table'', J_Str (rf_table e)), (''specHash'', J_Str (rf_spec_hash e)), (''applied'', J_Str (rf_applied e))]"

definition excluded_count :: "repl_result \<Rightarrow> nat" where
  "excluded_count r = card (set (map te_table (lr_excluded r)))"

definition tables_json :: "repl_result \<Rightarrow> json" where
  "tables_json r = J_Obj
     [(''published'', J_Int (int (length (lr_published r)))), (''subscribed'', J_Int (int (length (lr_subscribed r)))),
      (''ready'', J_Int (int (ready_tables r))), (''syncing'', J_Int (int (length (lr_subscribed r)) - int (ready_tables r))),
      (''excluded'', J_Int (int (excluded_count r))),
      (''display'', J_Str (show_nat (ready_tables r) @ ''/'' @ show_nat (length (lr_subscribed r))))]"

definition repl_details :: "repl_result \<Rightarrow> string \<Rightarrow> (string \<times> json) list" where
  "repl_details r now =
     [(''replicationState'', optional (\<lambda>a. J_Str (state_text (as_state a))) (lr_assessment r)),
      (''health'', optional (\<lambda>a. health_json (as_health a)) (lr_assessment r)),
      (''source'', source_status r), (''target'', target_status r),
      (''connectionFingerprint'', J_Str (lr_fingerprint r)), (''credentialsSecret'', credentials_json (lr_credentials r)),
      (''created'', created_json (lr_created r)), (''grantedMemberships'', J_List (map J_Str (sorted_set (lr_granted r)))),
      (''publishedTables'', J_List (map J_Str (lr_published r))),
      (''subscribedTables'', J_List (map (\<lambda>(t, st). J_Obj [(''table'', J_Str t), (''state'', J_Str st)]) (sort (lr_subscribed r)))),
      (''excludedTables'', J_List (map entry_json (lr_excluded r))),
      (''tableWarnings'', J_List (map entry_json (lr_kept r @ lr_warnings r))),
      (''rowFilters'', J_List (map filter_json (lr_row_filters r))), (''tables'', tables_json r), (''lastReconciledAt'', J_Str now)]"

definition build_repl_status :: "repl_result \<Rightarrow> condition list \<Rightarrow> int \<Rightarrow> (nat \<Rightarrow> string) \<Rightarrow> status_patch" where
  "build_repl_status r existing generation now =
     (let merged = merge_conditions existing (repl_conditions r (Some generation) now)
      in \<lparr>sp_generation = generation, sp_conditions = merged, sp_phase = phase_from_conditions merged,
          sp_details = repl_details r (now 5)\<rparr>)"

section \<open>Health from what is recorded\<close>

definition default_alerting :: alerting_spec where
  "default_alerting = \<lparr>al_max_lag = Q_Str ''1Gi'', al_max_retained_wal = Q_Str ''10Gi'', al_max_slot_inactive = ''10m''\<rparr>"

text \<open>\<open>except OperatorError: log; return None\<close>\<close>

definition or_none :: "'a m \<Rightarrow> 'a option m" where
  "or_none m = catch_m OperatorError (bind_m m (\<lambda>x. ret_m (Some x))) (\<lambda>_. ret_m None)"

definition observe_source :: "repl_status \<Rightarrow> slot_health option option m" where
  "observe_source st =
     or_none (bind_m (resolve_instance (rt_source_instance st) []) (\<lambda>inst.
              bind_m (ctx_connect inst None) (\<lambda>c. read_slot_health c (rt_slot st))))"

text \<open>The two reads of the target; the first survives a failure of the second, as an assignment does.\<close>

definition observe_target :: "repl_status \<Rightarrow> int \<Rightarrow> (subscription_health option \<times> (string \<times> string) list) m" where
  "observe_target st oid =
     bind_m (or_none (bind_m (resolve_instance (rt_target_instance st) []) (\<lambda>inst.
              bind_m (ctx_connect inst (Some (rt_target_database st))) (\<lambda>c.
              bind_m (read_subscription_health c oid) (\<lambda>h. ret_m (c, h)))))) (\<lambda>first. case first of
       None \<Rightarrow> ret_m (None, [])
     | Some (c, h) \<Rightarrow> bind_m (or_none (subscribed_tables c oid)) (\<lambda>tables.
         ret_m (Some h, case tables of None \<Rightarrow> [] | Some ts \<Rightarrow> ts)))"

definition observe_from_status :: "repl_obj \<Rightarrow> assessment option m" where
  "observe_from_status obj =
     (let st = rb_status obj
      in if \<not> created_of (rt_created st) ''slot'' \<or> rt_source_instance st = [] \<or> rt_slot st = [] then ret_m None
         else bind_m (case parse_replication_spec (rb_spec obj) of
                Inr s \<Rightarrow> ret_m (re_alerting s)
              | Inl e \<Rightarrow> if instance_of e Value_Error then ret_m default_alerting else throw_m e) (\<lambda>alerting.
           bind_m (observe_source st) (\<lambda>slot. case slot of
             None \<Rightarrow> ret_m None
           | Some slot \<Rightarrow>
               bind_m (case truthy_oid (rt_subscription_oid st) of
                   None \<Rightarrow> ret_m (None, [])
                 | Some oid \<Rightarrow> if rt_target_instance st \<noteq> [] \<and> rt_target_database st \<noteq> [] then observe_target st oid
                     else ret_m (None, [])) (\<lambda>(subscription, tables).
               bind_m (sample_m micros) (\<lambda>now.
               bind_m (lift_r (assess \<lparr>ob_slot = slot, ob_subscription = subscription, ob_tables = tables\<rparr> (rt_health st) (rt_state st)
                         (rb_enabled obj) alerting [] now)) (\<lambda>a. ret_m (Some a)))))))"

end
