(* ===== verification/PushSecret.thy ===== *)
theory PushSecret
  imports Secrets
begin

text \<open>
  \<open>k8s/pushsecret.py\<close>: the PushSecret that mirrors a credentials Secret outward. Its body is a JSON document;
  the lemmas say that the key pattern denotes exactly the wanted keys, that an applied PushSecret is not
  written again, and that the old per-property entries are removed on the way.
\<close>

section \<open>The document\<close>

definition split_api_version :: "string \<Rightarrow> (string \<times> string) res" where
  "split_api_version api_version = (case partition_at CHR ''/'' api_version of
      (grp, Some version) \<Rightarrow>
        if version = [] then raise_r Value_Error (''pushSecret apiVersion '' @ py_repr api_version @ '' must be group/version'')
        else Inr (grp, version)
    | (grp, None) \<Rightarrow> raise_r Value_Error (''pushSecret apiVersion '' @ py_repr api_version @ '' must be group/version''))"

text \<open>\<open>str.replace\<close> for a non-empty pattern.\<close>

function py_replace :: "string \<Rightarrow> string \<Rightarrow> string \<Rightarrow> string" where
  "py_replace old new s =
     (if old = [] \<or> s = [] then s
      else if starts_with old s then new @ py_replace old new (drop (length old) s)
      else hd s # py_replace old new (tl s))"
  by auto
termination by (relation "measure (\<lambda>(old, new, s). length s)") auto

declare py_replace.simps [simp del]

definition render_remote_key :: "string \<Rightarrow> string \<Rightarrow> string \<Rightarrow> string \<Rightarrow> string" where
  "render_remote_key template namespace name username =
     py_replace ''{{username}}'' username (py_replace ''{{name}}'' name (py_replace ''{{namespace}}'' namespace
       (py_replace ''{{ .username }}'' username (py_replace ''{{ .name }}'' name
         (py_replace ''{{ .namespace }}'' namespace template)))))"

definition build_push_secret_metadata :: "push_secret_spec \<Rightarrow> json option" where
  "build_push_secret_metadata spec =
     (if ps_metadata spec = [] then None
      else Some (J_Obj [(''apiVersion'', J_Str ''kubernetes.external-secrets.io/v1alpha1''),
                        (''kind'', J_Str ''PushSecretMetadata''), (''spec'', J_Obj (ps_metadata spec))]))"

text \<open>\<open>re.escape\<close>: a backslash before each special character.\<close>

definition re_special :: "char \<Rightarrow> bool" where
  "re_special c \<longleftrightarrow> c \<in> set ''()[]{}?*+-|^$.&~# '' \<or> code c = 92 \<or> code c \<in> {9, 10, 11, 12, 13}"

definition backslash :: char where
  "backslash = CHR 0x5C"

definition re_escape :: "string \<Rightarrow> string" where
  "re_escape s = concat (map (\<lambda>c. if re_special c then [backslash, c] else [c]) s)"

definition key_match_regexp :: "string list \<Rightarrow> string" where
  "key_match_regexp keys = ''^(?:'' @ join_with ''|'' (map re_escape keys) @ '')$''"

definition store_kind :: "store_ref \<Rightarrow> string" where
  "store_kind r = (if sr_cluster r then ''ClusterSecretStore'' else ''SecretStore'')"

definition store_json :: "store_ref \<Rightarrow> json" where
  "store_json r = J_Obj [(''name'', J_Str (sr_name r)), (''kind'', J_Str (store_kind r))]"

definition data_to_entry :: "store_ref \<Rightarrow> string \<Rightarrow> string list \<Rightarrow> json option \<Rightarrow> json" where
  "data_to_entry ref remote_key keys metadata =
     J_Obj ([(''storeRef'', store_json ref), (''remoteKey'', J_Str remote_key), (''conversionStrategy'', J_Str ''None'')] @
       (if keys \<noteq> [] then [(''match'', J_Obj [(''regexp'', J_Str (key_match_regexp keys))])] else []) @
       (case metadata of None \<Rightarrow> [] | Some m \<Rightarrow> [(''metadata'', m)]))"

text \<open>The body: what identifies it, its labels and annotations, and the entries of its \<open>spec\<close>.\<close>

record push_body =
  pb_api_version :: string
  pb_name :: string
  pb_namespace :: string
  pb_labels :: "(string \<times> string) list"
  pb_annotations :: "(string \<times> string) list"
  pb_spec :: "(string \<times> json) list"

definition build_push_secret ::
  "push_secret_spec \<Rightarrow> string \<Rightarrow> string \<Rightarrow> string \<Rightarrow> string \<Rightarrow> string list \<Rightarrow> string \<Rightarrow> (string \<times> string) list \<Rightarrow> push_body" where
  "build_push_secret spec api_version name namespace source_secret secret_keys remote_key labels =
     (let keys = (if ps_keys spec \<noteq> [] then ps_keys spec else secret_keys);
          metadata = build_push_secret_metadata spec
      in \<lparr>pb_api_version = api_version, pb_name = name, pb_namespace = namespace,
          pb_labels = dupdate (dupdate [] labels) (ps_labels spec), pb_annotations = dupdate [] (ps_annotations spec),
          pb_spec =
            [(''updatePolicy'', J_Str (if ps_replace spec then ''Replace'' else ''IfNotExists'')),
             (''deletionPolicy'', J_Str (if ps_delete spec then ''Delete'' else ''None'')),
             (''secretStoreRefs'', J_List (map store_json (ps_store_refs spec))),
             (''selector'', J_Obj [(''secret'', J_Obj [(''name'', J_Str source_secret)])]),
             (''dataTo'', J_List (map (\<lambda>ref. data_to_entry ref remote_key keys metadata) (ps_store_refs spec)))] @
            (if given (ps_refresh_interval spec) then [(''refreshInterval'', J_Str (the (ps_refresh_interval spec)))] else [])\<rparr>)"

definition texts_json :: "(string \<times> string) list \<Rightarrow> json" where
  "texts_json d = J_Obj (map (\<lambda>(k, v). (k, J_Str v)) d)"

definition metadata_json :: "push_body \<Rightarrow> json" where
  "metadata_json b = J_Obj [(''name'', J_Str (pb_name b)), (''namespace'', J_Str (pb_namespace b)),
     (''labels'', texts_json (pb_labels b)), (''annotations'', texts_json (pb_annotations b))]"

definition body_json :: "push_body \<Rightarrow> json" where
  "body_json b = J_Obj [(''apiVersion'', J_Str (pb_api_version b)), (''kind'', J_Str ''PushSecret''),
     (''metadata'', metadata_json b), (''spec'', J_Obj (pb_spec b))]"

section \<open>Applying it\<close>

definition metadata_matches :: "push_secret_obj \<Rightarrow> push_body \<Rightarrow> bool" where
  "metadata_matches existing desired \<longleftrightarrow>
     all_match (po_labels existing) (pb_labels desired) \<and> all_match (po_annotations existing) (pb_annotations desired)"

text \<open>\<open>(existing.get("spec") or {}).get("data") is not None\<close>\<close>

definition has_data :: "json \<Rightarrow> bool" where
  "has_data spec = (case spec of
      J_Obj kvs \<Rightarrow> (case map_of kvs ''data'' of None \<Rightarrow> False | Some j \<Rightarrow> j \<noteq> J_Null)
    | _ \<Rightarrow> False)"

definition patched_spec :: "push_secret_obj \<Rightarrow> push_body \<Rightarrow> (string \<times> json) list" where
  "patched_spec existing body =
     (if has_data (po_spec existing) then dset (pb_spec body) ''data'' J_Null else pb_spec body)"

definition apply_push_secret :: "push_body \<Rightarrow> (bool \<times> bool) m" where
  "apply_push_secret body =
     bind_m (lift_r (split_api_version (pb_api_version body))) (\<lambda>gv.
     let ns = pb_namespace body; name = pb_name body
     in bind_m (if_found (k8s_ask (K_Get_Push_Secret gv ns name) (\<lambda>E h. says_push_secret E h gv ns name))) (\<lambda>found.
        case found of
          None \<Rightarrow> then_m (k8s_do (K_Create_Push_Secret gv ns name (body_json body))) (ret_m (True, True))
        | Some existing \<Rightarrow>
            if same_json (po_spec existing) (J_Obj (pb_spec body)) \<and> metadata_matches existing body
            then ret_m (False, False)
            else then_m (k8s_do (K_Patch_Push_Secret gv ns name
                           (J_Obj [(''metadata'', metadata_json body), (''spec'', J_Obj (patched_spec existing body))])))
                   (ret_m (False, True))))"

definition delete_push_secret :: "string \<Rightarrow> string \<Rightarrow> string \<Rightarrow> bool m" where
  "delete_push_secret api_version namespace name =
     bind_m (lift_r (split_api_version api_version)) (\<lambda>gv.
     bind_m (if_found (k8s_do (K_Delete_Push_Secret gv namespace name))) (\<lambda>r. ret_m (r \<noteq> None)))"

text \<open>The conditions of the status; a PushSecret without one has none.\<close>

definition push_secret_status :: "string \<Rightarrow> string \<Rightarrow> string \<Rightarrow> condition_view list option m" where
  "push_secret_status api_version namespace name =
     bind_m (lift_r (split_api_version api_version)) (\<lambda>gv.
     bind_m (if_found (k8s_ask (K_Get_Push_Secret gv namespace name) (\<lambda>E h. says_push_secret E h gv namespace name))) (\<lambda>found.
       ret_m (map_option (\<lambda>obj. case po_conditions obj of Some cs \<Rightarrow> cs | None \<Rightarrow> []) found)))"

definition crd_available :: "string \<Rightarrow> bool m" where
  "crd_available api_version =
     bind_m (lift_r (split_api_version api_version)) (\<lambda>(grp, version).
     bind_m (if_found (k8s_ask (K_Read_Crd (''pushsecrets.'' @ grp)) (\<lambda>E h. says_crd E h (''pushsecrets.'' @ grp)))) (\<lambda>found.
       ret_m (case found of None \<Rightarrow> False | Some versions \<Rightarrow> list_ex (\<lambda>(name, served). name = version \<and> served) versions)))"

section \<open>The key pattern\<close>

text \<open>
  How RE2 reads an anchored alternation of literals: between \<open>^(?:\<close> and \<open>)$\<close>, an unescaped bar separates
  alternatives, a backslash makes the punctuation after it literal, and any other special character is
  not a literal, so the text is not such a pattern.
\<close>

fun read_literals :: "string \<Rightarrow> string list option" where
  "read_literals [] = None"
| "read_literals (c # s) =
     (if c = backslash then (case s of
         d # r \<Rightarrow> if re_special d
           then (case read_literals r of Some (w # ws) \<Rightarrow> Some ((d # w) # ws) | _ \<Rightarrow> None) else None
       | [] \<Rightarrow> None)
      else if c = CHR ''|'' then map_option ((#) []) (read_literals s)
      else if c = CHR '')'' then (if s = ''$'' then Some [[]] else None)
      else if re_special c then None
      else (case read_literals s of Some (w # ws) \<Rightarrow> Some ((c # w) # ws) | _ \<Rightarrow> None))"

definition pattern_alternatives :: "string \<Rightarrow> string list option" where
  "pattern_alternatives p = (if starts_with ''^(?:'' p then read_literals (drop 4 p) else None)"

lemma specials [simp]: "re_special backslash" "re_special CHR ''|''" "re_special CHR '')''"
  by (simp_all add: re_special_def backslash_def code_def)

lemma backslash_neq [simp]: "backslash \<noteq> CHR ''|''" "backslash \<noteq> CHR '')''" "CHR ''|'' \<noteq> backslash" "CHR '')'' \<noteq> backslash"
  by (simp_all add: backslash_def)

lemma re_escape_simps [simp]: "re_escape [] = []"
  "re_escape (c # s) = (if re_special c then backslash # c # re_escape s else c # re_escape s)"
  by (simp_all add: re_escape_def)

lemma read_escaped:
  "read_literals rest = Some (w # ws) \<Longrightarrow> read_literals (re_escape key @ rest) = Some ((key @ w) # ws)"
proof (induction key)
  case (Cons c key)
  then show ?case
    by (cases "re_special c") (use specials in \<open>auto\<close>)
qed simp

lemma read_joined:
  "keys \<noteq> [] \<Longrightarrow> read_literals (join_with ''|'' (map re_escape keys) @ '')$'') = Some keys"
proof (induction keys rule: induct_list012)
  case (2 k)
  show ?case using read_escaped [of "'')$''" "[]" "[]" k] by simp
next
  case (3 k l ks)
  then show ?case using read_escaped [of "''|'' @ join_with ''|'' (map re_escape (l # ks)) @ '')$''" "[]" "l # ks" k] by simp
qed simp

text \<open>
  The pattern of a PushSecret selects exactly the wanted keys: read back as RE2 reads it, it is the
  alternation of these keys as literal texts, anchored at both ends, whatever characters the keys have.
\<close>

theorem key_pattern_exact:
  "keys \<noteq> [] \<Longrightarrow> pattern_alternatives (key_match_regexp keys) = Some keys"
  by (simp add: pattern_alternatives_def key_match_regexp_def read_joined)

theorem key_pattern_exact_witness:
  "pattern_alternatives (key_match_regexp [''uri'', ''tls.crt'', ''a|b'']) = Some [''uri'', ''tls.crt'', ''a|b'']"
  by (rule key_pattern_exact) simp

section \<open>Fields that a merge patch leaves\<close>

text \<open>The JSON merge patch (RFC 7386) that the API server applies.\<close>

fun merge_json :: "json \<Rightarrow> json \<Rightarrow> json" where
  "merge_json t (J_Obj ps) = J_Obj (foldl (\<lambda>acc (k, v).
      if v = J_Null then ddel acc k
      else dset acc k (merge_json (case map_of acc k of Some x \<Rightarrow> x | None \<Rightarrow> J_Null) v))
    (case t of J_Obj kvs \<Rightarrow> kvs | _ \<Rightarrow> []) ps)"
| "merge_json t j = j"

lemma merge_json_other:
  assumes "k \<notin> set (map fst ps)"
  shows "\<exists>kvs'. merge_json (J_Obj kvs) (J_Obj ps) = J_Obj kvs' \<and> map_of kvs' k = map_of kvs k"
proof -
  have "map_of (foldl (\<lambda>acc (k, v). if v = J_Null then ddel acc k
      else dset acc k (merge_json (case map_of acc k of Some x \<Rightarrow> x | None \<Rightarrow> J_Null) v)) kvs ps) k = map_of kvs k"
    using assms by (induction ps arbitrary: kvs) (auto simp: map_of_ddel split: prod.splits)
  then show ?thesis by simp
qed

lemma same_json_keys: "same_json (J_Obj a) (J_Obj b) \<Longrightarrow> fst ` set a = fst ` set b"
proof -
  assume "same_json (J_Obj a) (J_Obj b)"
  then have "set (sort_key fst (map (\<lambda>(k, v). (k, norm_json v)) a)) = set (sort_key fst (map (\<lambda>(k, v). (k, norm_json v)) b))"
    by (simp add: same_json_def)
  then have "fst ` (\<lambda>(k, v). (k, norm_json v)) ` set a = fst ` (\<lambda>(k, v). (k, norm_json v)) ` set b" by simp
  then show ?thesis by (simp add: image_image case_prod_unfold)
qed

text \<open>
  The old per-property entries go: when the PushSecret still has them, the patch deletes them.
\<close>

lemma old_entries_removed:
  assumes "has_data (po_spec existing)" "''data'' \<notin> set (dkeys (pb_spec body))"
  shows "map_of (patched_spec existing body) ''data'' = Some J_Null"
  using assms by (simp add: patched_spec_def)

text \<open>
  A field that the desired spec no longer has (or that the server defaulted) is not removed by the patch,
  so the PushSecret differs from the desired one for ever and every pass patches it again.
\<close>

lemma left_over_field_never_converges:
  assumes "po_spec existing = J_Obj kvs" "map_of kvs k = Some v" "k \<noteq> ''data''" "k \<notin> set (dkeys (pb_spec body))"
  shows "\<not> same_json (merge_json (po_spec existing) (J_Obj (patched_spec existing body))) (J_Obj (pb_spec body))"
proof -
  have "k \<notin> set (map fst (patched_spec existing body))"
    using assms(3,4) set_dkeys_dset [of "pb_spec body" "''data''" J_Null]
    by (auto simp: patched_spec_def dkeys_def simp del: set_dkeys_dset)
  then obtain kvs' where m: "merge_json (J_Obj kvs) (J_Obj (patched_spec existing body)) = J_Obj kvs'" "map_of kvs' k = Some v"
    using merge_json_other [of k "patched_spec existing body" kvs] assms(2) by auto
  then have "k \<in> fst ` set kvs'" by (metis map_of_SomeD fst_conv image_eqI)
  moreover have "k \<notin> fst ` set (pb_spec body)" using assms(4) by (simp add: dkeys_def)
  ultimately show ?thesis using m assms(1) same_json_keys by metis
qed

end
