(* ===== verification/UserReconcile.thy ===== *)
theory UserReconcile
  imports Context Roles PushSecret
begin

text \<open>
  \<open>reconcile/user.py\<close>: one convergence pass over a PostgresUser - its login role, its group memberships and
  default roles, its password, the credentials Secret and the PushSecret - and its teardown. The result
  object is a record passed along. The lemmas say whose memberships may be revoked, which statements a pass
  may send at all, when a password is written, and what a teardown leaves.
\<close>

section \<open>Results\<close>

fun level_text :: "access_level \<Rightarrow> string" where
  "level_text OWNER = ''OWNER''"
| "level_text RW = ''RW''"
| "level_text RO = ''RO''"

record user_grant =
  ug_database :: string
  ug_level :: string
  ug_group_role :: string
  ug_db_resource :: string
  ug_set_role_for_owners :: bool

text \<open>An entry of \<open>status.grants\<close>; a missing text is empty.\<close>

record recorded_grant =
  rg_database :: string
  rg_role :: string
  rg_group_role :: string
  rg_db_ref :: string

definition as_status :: "user_grant \<Rightarrow> recorded_grant" where
  "as_status g = \<lparr>rg_database = ug_database g, rg_role = ug_level g, rg_group_role = ug_group_role g, rg_db_ref = ug_db_resource g\<rparr>"

definition from_status :: "recorded_grant \<Rightarrow> user_grant" where
  "from_status e = \<lparr>ug_database = rg_database e, ug_level = rg_role e, ug_group_role = rg_group_role e,
     ug_db_resource = rg_db_ref e, ug_set_role_for_owners = True\<rparr>"

record user_obj =
  uo_namespace :: string
  uo_name :: string
  uo_generation :: int
  uo_spec :: "user_spec res"
  uo_grants :: "recorded_grant list"
  uo_conditions :: "condition list"

record user_result =
  ur_username :: string
  ur_grants :: "user_grant list"
  ur_created :: bool
  ur_password_written :: bool
  ur_changes :: "string list"
  ur_secret_namespace :: string
  ur_secret_name :: string
  ur_secret_keys :: "string list"
  ur_push_secret_name :: "string option"
  ur_push_secret_namespace :: "string option"
  ur_warnings :: "string list"
  ur_retention :: retention

definition new_user_result :: "string \<Rightarrow> retention \<Rightarrow> user_result" where
  "new_user_result username retention =
     \<lparr>ur_username = username, ur_grants = [], ur_created = False, ur_password_written = False, ur_changes = [],
      ur_secret_namespace = [], ur_secret_name = [], ur_secret_keys = [], ur_push_secret_name = None,
      ur_push_secret_namespace = None, ur_warnings = [], ur_retention = retention\<rparr>"

definition user_message :: "user_result \<Rightarrow> string" where
  "user_message r =
     (let grants = show_nat (length (ur_grants r)) @ '' grant(s)''
      in if ur_created r then ''created role '' @ ur_username r @ '' with '' @ grants
         else if ur_changes r \<noteq> [] then ''converged '' @ ur_username r @ '': '' @ join_with ''; '' (take 8 (ur_changes r))
         else ur_username r @ '' in sync with '' @ grants)"

definition noted :: "string \<Rightarrow> user_result \<Rightarrow> user_result" where
  "noted msg r = r\<lparr>ur_changes := ur_changes r @ [msg]\<rparr>"

definition warned :: "string \<Rightarrow> user_result \<Rightarrow> user_result" where
  "warned msg r = r\<lparr>ur_warnings := ur_warnings r @ [msg]\<rparr>"

definition parse_user :: "user_obj \<Rightarrow> user_spec m" where
  "parse_user obj = (case parse_user_spec (uo_spec obj) of
      Inl e \<Rightarrow> raise_m ConfigurationError (''invalid spec: '' @ err_text e)
    | Inr s \<Rightarrow> ret_m s)"

definition derive_username :: "user_spec \<Rightarrow> string \<Rightarrow> string m" where
  "derive_username spec resource_name =
     bind_m (asks sha_of) (\<lambda>h. case resolve_username h spec resource_name of
       Inl e \<Rightarrow> if instance_of e Value_Error then raise_m ConfigurationError (''invalid spec: '' @ err_text e) else throw_m e
     | Inr name \<Rightarrow> ret_m name)"

section \<open>Grants\<close>

definition resolve_grant ::
  "user_spec \<Rightarrow> resolved_instance \<Rightarrow> string \<Rightarrow> access_spec \<Rightarrow> user_grant m" where
  "resolve_grant spec inst ref_namespace access =
     (let name = or_name (ac_db_ref access); resource = ref_namespace @ ''/'' @ name
      in bind_m (get_database_object ref_namespace name) (\<lambda>obj.
         bind_m (asks sha_of) (\<lambda>h.
         case bind_r (parse_database_spec (do_spec obj)) (\<lambda>ds.
              bind_r (resolve_database_name h ds (do_name obj)) (\<lambda>database.
              bind_r (resolve_role_names h ds database (is_role_prefix (ri_spec inst))) (\<lambda>roles.
              Inr (ds, database, roles)))) of
           Inl e \<Rightarrow>
             if instance_of e Value_Error
             then raise_m ConfigurationError (''PostgresDB '' @ resource @ '' has an invalid spec: '' @ err_text e)
             else throw_m e
         | Inr (ds, database, roles) \<Rightarrow>
             if db_instance ds \<noteq> us_instance spec
             then raise_m ConfigurationError (''PostgresDB '' @ resource @ '' belongs to instance '' @
                    py_repr (db_instance ds) @ '' but this user targets '' @ py_repr (us_instance spec) @
                    ''; a grant cannot span instances'')
             else ret_m \<lparr>ug_database = database, ug_level = level_text (ac_role access),
                    ug_group_role = role_for roles (ac_role access), ug_db_resource = resource,
                    ug_set_role_for_owners = db_set_role_for_owners ds\<rparr>)))"

definition resolve_grants :: "user_spec \<Rightarrow> resolved_instance \<Rightarrow> string \<Rightarrow> user_grant list m" where
  "resolve_grants spec inst namespace =
     bind_m (fold_m (\<lambda>(grants, seen) access.
         let ref_namespace = resolve_namespace (or_namespace (ac_db_ref access)) namespace;
             key = (ref_namespace, or_name (ac_db_ref access))
         in if key \<in> set seen
            then raise_m ConfigurationError (''spec.access lists PostgresDB '' @ ref_namespace @ ''/'' @ snd key @
                   '' more than once; a user holds exactly one access level per database'')
            else bind_m (resolve_grant spec inst ref_namespace access) (\<lambda>g. ret_m (grants @ [g], key # seen)))
       ([], []) (us_access spec)) (\<lambda>(grants, seen). ret_m grants)"

definition desired_roles :: "user_result \<Rightarrow> string list" where
  "desired_roles result = map ug_group_role (ur_grants result)"

text \<open>The group roles a previous pass recorded.\<close>

definition previously_granted :: "recorded_grant list \<Rightarrow> string list" where
  "previously_granted recorded = filter (\<lambda>g. g \<noteq> []) (map (\<lambda>e. ug_group_role (from_status e)) recorded)"

text \<open>One wanted group: granted when its role exists, reported otherwise.\<close>

definition grant_step :: "conn \<Rightarrow> string \<Rightarrow> user_result \<Rightarrow> string \<Rightarrow> user_result m" where
  "grant_step c u r g = bind_m (role_exists c g) (\<lambda>there.
     if \<not> there
     then ret_m (warned (''group role '' @ g @ '' does not exist yet; waiting for its '' @ ''PostgresDB to reconcile'') r)
     else then_m (grant_membership c g u False) (ret_m (noted (''granted '' @ g) r)))"

definition apply_memberships :: "conn \<Rightarrow> string \<Rightarrow> user_result \<Rightarrow> recorded_grant list \<Rightarrow> user_result m" where
  "apply_memberships c username result recorded =
     (let desired = desired_roles result; previous = previously_granted recorded
      in bind_m (memberships c username) (\<lambda>held.
         bind_m (fold_m (grant_step c username) result (sorted_set (filter (\<lambda>g. g \<notin> set held) desired))) (\<lambda>result.
         fold_m (\<lambda>r group_role.
             then_m (revoke_membership c group_role username) (ret_m (noted (''revoked '' @ group_role) r)))
           result (sorted_set (filter (\<lambda>g. g \<notin> set desired \<and> g \<in> set held) previous)))))"

definition owner_grants :: "user_result \<Rightarrow> (string \<times> string) list" where
  "owner_grants result = dupdate [] (map (\<lambda>g. (ug_database g, ug_group_role g))
     (filter (\<lambda>g. ug_level g = ''OWNER'' \<and> ug_set_role_for_owners g) (ur_grants result)))"

definition previous_owner_dbs :: "recorded_grant list \<Rightarrow> string list" where
  "previous_owner_dbs recorded =
     filter (\<lambda>d. d \<noteq> []) (map (\<lambda>e. ug_database (from_status e)) (filter (\<lambda>e. rg_role e = ''OWNER'') recorded))"

definition apply_default_roles :: "conn \<Rightarrow> string \<Rightarrow> user_result \<Rightarrow> recorded_grant list \<Rightarrow> user_result m" where
  "apply_default_roles c username result recorded =
     (let owners = owner_grants result;
          resources = dupdate [] (map (\<lambda>g. (ug_database g, ug_db_resource g)) (ur_grants result))
      in bind_m (fold_m (\<lambda>r (database, group_role).
             bind_m (get_database c database) (\<lambda>st.
               if st = None
               then ret_m (warned (''database '' @ database @ '' does not exist; waiting for PostgresDB '' @
                      (case map_of resources database of Some x \<Rightarrow> x | None \<Rightarrow> database) @ '' to converge'') r)
               else bind_m (get_role_parameters c username (Some database)) (\<lambda>observed.
                 if map_of observed ''role'' \<noteq> Some group_role
                 then then_m (set_default_role_in_database c username database group_role)
                        (ret_m (noted (''set default role in '' @ database @ '' to '' @ group_role) r))
                 else ret_m r)))
           result (sort_key fst owners)) (\<lambda>result.
         fold_m (\<lambda>r database.
             bind_m (get_role_parameters c username (Some database)) (\<lambda>observed.
               if map_of observed ''role'' \<noteq> None
               then then_m (reset_default_role_in_database c username database)
                      (ret_m (noted (''cleared default role in '' @ database) r))
               else ret_m r))
           result (sorted_set (filter (\<lambda>d. d \<notin> set (dkeys owners)) (previous_owner_dbs recorded)))))"

section \<open>Credentials\<close>

datatype password_source = Byo | Existing | Generated

definition resolve_password :: "user_spec \<Rightarrow> string \<Rightarrow> string \<Rightarrow> string \<Rightarrow> (string \<times> password_source) m" where
  "resolve_password spec namespace secret_namespace secret =
     (case us_password_secret spec of
        Some ref \<Rightarrow>
          let ref_namespace = resolve_namespace (skr_namespace ref) namespace
          in bind_m (read_secret ref_namespace (skr_name ref)) (\<lambda>data.
             case map_of data (skr_key ref) of
               None \<Rightarrow> raise_m ConfigurationError (''passwordSecretRef '' @ ref_namespace @ ''/'' @ skr_name ref @
                 '' has no key '' @ py_repr (skr_key ref) @ '' (keys present: '' @
                 (let ks = join_with '', '' (sort (map fst data)) in if ks \<noteq> [] then ks else ''<none>'') @ '')'')
             | Some v \<Rightarrow> bind_m (decode_m v) (\<lambda>password. ret_m (password, Byo)))
      | None \<Rightarrow>
          bind_m (catch_m ReferenceNotFound (read_secret secret_namespace secret) (\<lambda>_. ret_m [])) (\<lambda>existing.
            case map_of existing (secret_key spec ''password'') of
              Some (b # bs) \<Rightarrow> bind_m (decode_m (b # bs)) (\<lambda>password. ret_m (password, Existing))
            | _ \<Rightarrow> bind_m (generate_password (us_password_length spec)) (\<lambda>password. ret_m (password, Generated))))"

definition write_password :: "conn \<Rightarrow> string \<Rightarrow> string \<Rightarrow> string \<Rightarrow> user_result \<Rightarrow> user_result m" where
  "write_password c username password msg result =
     then_m (set_password c username password) (ret_m (noted msg (result\<lparr>ur_password_written := True\<rparr>)))"

definition ensure_password :: "conn \<Rightarrow> string \<Rightarrow> string \<Rightarrow> password_source \<Rightarrow> user_result \<Rightarrow> user_result m" where
  "ensure_password c username password source result =
     bind_m (password_matches c username password) (\<lambda>matches. case matches of
       Some True \<Rightarrow> ret_m result
     | Some False \<Rightarrow> write_password c username password ''reset password to match the published credential'' result
     | None \<Rightarrow> (case source of
           Generated \<Rightarrow> write_password c username password
             ''credentials Secret was missing; generated and applied a new password'' result
         | Byo \<Rightarrow> write_password c username password ''applied password from passwordSecretRef'' result
         | Existing \<Rightarrow> ret_m result))"

definition KIND_USER :: string where
  "KIND_USER = ''PostgresUser''"

definition credential_data :: "user_spec \<Rightarrow> resolved_instance \<Rightarrow> user_result \<Rightarrow> string \<Rightarrow> (string \<times> string) list" where
  "credential_data spec inst result password =
     (let default_database = or_text (gs_default_database (us_generated_secret spec))
            (case ur_grants result of g # _ \<Rightarrow> ug_database g | [] \<Rightarrow> is_maintenance_database (ri_spec inst));
          logical = connection_keys (ur_username result) password (ep_host (ri_endpoint inst)) (ep_port (ri_endpoint inst))
            default_database (ssl_text (is_ssl_mode (ri_spec inst))) (gs_include_uri (us_generated_secret spec))
      in dupdate [] (map (\<lambda>(key, v). (secret_key spec key, v)) logical))"

definition write_credentials ::
  "user_spec \<Rightarrow> resolved_instance \<Rightarrow> string \<Rightarrow> string \<Rightarrow> user_result \<Rightarrow> string \<Rightarrow> user_result m" where
  "write_credentials spec inst namespace name result password =
     (let data = credential_data spec inst result password;
          result = result\<lparr>ur_secret_keys := sort (map fst data)\<rparr>;
          labels = managed_labels KIND_USER name namespace (Some (ri_name inst)) (gs_labels (us_generated_secret spec));
          resource = ur_secret_namespace result @ ''/'' @ ur_secret_name result
      in bind_m (apply_secret (ur_secret_namespace result) (ur_secret_name result) data labels
                   (gs_annotations (us_generated_secret spec))) (\<lambda>(created, changed).
         ret_m (if created then noted (''created Secret '' @ resource) result
                else if changed then noted (''updated Secret '' @ resource) result else result)))"

definition effective_push_secret :: "user_spec \<Rightarrow> resolved_instance \<Rightarrow> push_secret_spec option" where
  "effective_push_secret spec inst = (case us_push_secret spec of Some p \<Rightarrow> Some p | None \<Rightarrow> is_push_secret (ri_spec inst))"

definition check_push_secret_health :: "user_result \<Rightarrow> string \<Rightarrow> user_result m" where
  "check_push_secret_health result push_name =
     bind_m (asks pushsecret_api_version) (\<lambda>av.
     bind_m (push_secret_status av (ur_secret_namespace result) push_name) (\<lambda>status.
     ret_m (case status of
         None \<Rightarrow> result
       | Some conditions \<Rightarrow> foldl (\<lambda>r cv.
           if cv_type cv = Some ''Ready'' \<and> cv_status cv = Some ''False''
           then warned (''PushSecret '' @ ur_secret_namespace result @ ''/'' @ push_name @ '' is not synced: '' @
                  (case cv_reason cv of Some x \<Rightarrow> x | None \<Rightarrow> ''Unknown'') @ '': '' @
                  (case cv_message cv of Some x \<Rightarrow> x | None \<Rightarrow> [])) r
           else r) result conditions)))"

definition sync_push_secret ::
  "user_spec \<Rightarrow> resolved_instance \<Rightarrow> string \<Rightarrow> string \<Rightarrow> user_result \<Rightarrow> user_result m" where
  "sync_push_secret spec inst namespace name result =
     bind_m (asks (\<lambda>E. (secret_name (sha_of E) name ''pg-push'', pushsecret_enabled E, pushsecret_api_version E)))
       (\<lambda>(push_name, enabled, av).
     let resource = ur_secret_namespace result @ ''/'' @ push_name;
         result = result\<lparr>ur_push_secret_namespace := Some (ur_secret_namespace result)\<rparr>
     in case effective_push_secret spec inst of
          Some push_spec \<Rightarrow>
            if ps_enabled push_spec \<and> enabled then
              let remote_key = render_remote_key (or_text (ps_remote_ref_key push_spec) (namespace @ ''/'' @ name))
                    namespace name (ur_username result);
                  body = build_push_secret push_spec av push_name (ur_secret_namespace result) (ur_secret_name result)
                    (ur_secret_keys result) remote_key (managed_labels KIND_USER name namespace (Some (ri_name inst)) [])
              in bind_m (apply_push_secret body) (\<lambda>(created, changed).
                 let result = result\<lparr>ur_push_secret_name := Some push_name\<rparr>
                 in if created then ret_m (noted (''created PushSecret '' @ resource) result)
                    else if changed then ret_m (noted (''updated PushSecret '' @ resource) result)
                    else check_push_secret_health result push_name)
            else bind_m (delete_push_secret av (ur_secret_namespace result) push_name) (\<lambda>removed.
              ret_m ((if removed then noted (''deleted PushSecret '' @ resource) result else result)
                \<lparr>ur_push_secret_name := None, ur_push_secret_namespace := None\<rparr>))
        | None \<Rightarrow> bind_m (delete_push_secret av (ur_secret_namespace result) push_name) (\<lambda>removed.
              ret_m ((if removed then noted (''deleted PushSecret '' @ resource) result else result)
                \<lparr>ur_push_secret_name := None, ur_push_secret_namespace := None\<rparr>)))"

section \<open>The pass\<close>

definition login_attributes :: "user_spec \<Rightarrow> (string \<times> bool) list" where
  "login_attributes spec = dset (as_mapping (us_attributes spec)) ''login'' (us_login spec)"

text \<open>What a pass does over its connection to the server.\<close>

definition converge_role ::
  "conn \<Rightarrow> user_spec \<Rightarrow> user_obj \<Rightarrow> string \<Rightarrow> string \<Rightarrow> password_source \<Rightarrow> user_result \<Rightarrow> user_result m" where
  "converge_role c spec obj username password source result =
     bind_m (ensure_login_role c username (Some password) (login_attributes spec) (us_connection_limit spec)
               (us_valid_until spec)) (\<lambda>created.
     bind_m (if created
             then ret_m ((noted (''created role '' @ username) (result\<lparr>ur_created := True\<rparr>))\<lparr>ur_password_written := True\<rparr>)
             else ensure_password c username password source result) (\<lambda>result.
     bind_m (apply_memberships c username result (uo_grants obj)) (\<lambda>result.
     bind_m (apply_default_roles c username result (uo_grants obj)) (\<lambda>result.
     bind_m (get_role_parameters c username None) (\<lambda>observed.
     bind_m (set_role_parameters c username (us_parameters spec) observed) (\<lambda>changes.
     ret_m (result\<lparr>ur_changes := ur_changes result @ changes\<rparr>)))))))"

definition reconcile_user :: "user_obj \<Rightarrow> (user_result \<times> resolved_instance) m" where
  "reconcile_user obj =
     (let namespace = uo_namespace obj; name = uo_name obj
      in bind_m (parse_user obj) (\<lambda>spec.
         bind_m (derive_username spec name) (\<lambda>username.
         bind_m (resolve_instance (us_instance spec) namespace) (\<lambda>inst.
         let result = new_user_result username (effective_retention (us_retention spec) (is_retention (ri_spec inst)))
         in bind_m (resolve_grants spec inst namespace) (\<lambda>grants.
            bind_m (asks (\<lambda>E. resolve_secret_name (sha_of E) spec name)) (\<lambda>secret.
            let secret_namespace = resolve_secret_namespace spec namespace;
                result = result\<lparr>ur_grants := grants, ur_secret_namespace := secret_namespace, ur_secret_name := secret\<rparr>
            in bind_m (resolve_password spec namespace secret_namespace secret) (\<lambda>(password, source).
               bind_m (ctx_connect inst None) (\<lambda>c.
               bind_m (converge_role c spec obj username password source result) (\<lambda>result.
               bind_m (write_credentials spec inst namespace name result password) (\<lambda>result.
               bind_m (sync_push_secret spec inst namespace name result) (\<lambda>result.
               ret_m (result, inst))))))))))))"

section \<open>Teardown\<close>

definition clear_user_in_database :: "resolved_instance \<Rightarrow> string \<Rightarrow> string \<Rightarrow> unit m" where
  "clear_user_in_database inst database username =
     catch_m Base_Exception (bind_m (ctx_connect inst (Some database)) (\<lambda>c. drop_owned c username False))
       (\<lambda>_. close_database (ri_name inst) database)"

definition drop_user_role :: "conn \<Rightarrow> resolved_instance \<Rightarrow> string \<Rightarrow> string list \<Rightarrow> string m" where
  "drop_user_role c inst username databases =
     bind_m (role_exists c username) (\<lambda>there.
       if \<not> there then ret_m (''role '' @ username @ '' was already absent'')
       else then_m (ensure_self_membership c username (supports_per_grant_options (ri_server inst)))
           (bind_m (terminate_role_sessions c username) (\<lambda>terminated.
            bind_m (revoke_all_memberships c username) (\<lambda>revoked.
            then_m (each_m (\<lambda>database.
                bind_m (get_database c database) (\<lambda>st.
                  if st = None then ret_m ()
                  else then_m (clear_user_in_database inst database username)
                         (bind_m (reset_default_role_in_database c username database) (\<lambda>_. ret_m ()))))
              databases)
            (then_m (drop_role c username)
            (ret_m (''dropped role '' @ username @
               (if revoked \<noteq> [] then '' (revoked '' @ join_with '', '' revoked @ '')'' else []))))))))"

definition recorded_databases :: "recorded_grant list \<Rightarrow> string list" where
  "recorded_databases recorded = sorted_set (filter (\<lambda>d. d \<noteq> []) (map (\<lambda>e. ug_database (from_status e)) recorded))"

definition teardown_user :: "user_obj \<Rightarrow> string m" where
  "teardown_user obj =
     (let namespace = uo_namespace obj; name = uo_name obj
      in bind_m (parse_user obj) (\<lambda>spec.
         bind_m (derive_username spec name) (\<lambda>username.
         bind_m (asks (\<lambda>E. (resolve_secret_name (sha_of E) spec name, secret_name (sha_of E) name ''pg-push'',
                    pushsecret_api_version E))) (\<lambda>(secret, push_name, av).
         let secret_namespace = resolve_secret_namespace spec namespace
         in bind_m (load_instance_spec (us_instance spec) namespace) (\<lambda>(instance_spec, _).
            if effective_retention (us_retention spec) (is_retention instance_spec) \<noteq> DROP_RESOURCES
            then ret_m (''retained role '' @ username @ '' and Secret '' @ secret_namespace @ ''/'' @ secret @
                   '' on '' @ is_host instance_spec @ '':'' @ show_int (is_port instance_spec))
            else
              bind_m (resolve_instance (us_instance spec) namespace) (\<lambda>inst.
              bind_m (ctx_connect inst None) (\<lambda>c.
              bind_m (drop_user_role c inst username (recorded_databases (uo_grants obj))) (\<lambda>role_summary.
              bind_m (delete_secret secret_namespace secret) (\<lambda>removed_secret.
              bind_m (delete_push_secret av secret_namespace push_name) (\<lambda>removed_push.
              ret_m (join_with ''; '' ([role_summary] @
                (if removed_secret then [''deleted Secret '' @ secret_namespace @ ''/'' @ secret] else []) @
                (if removed_push then [''deleted PushSecret''] else [])))))))))))))"

section \<open>Which statements a pass may send\<close>

text \<open>
  Statements about the role \<open>u\<close>: creating it, altering it, granting it a group, and revoking from it a group
  of \<open>recorded\<close>.
\<close>

fun user_statement :: "string \<Rightarrow> string list \<Rightarrow> composed \<Rightarrow> bool" where
  "user_statement u recorded (Format t (Ident [r] # rest)) =
     (if t = ''GRANT {} TO {}'' then rest = [Ident [u]]
      else if t = ''REVOKE {} FROM {}'' then rest = [Ident [u]] \<and> r \<in> set recorded
      else (t = ''CREATE ROLE {}'' \<or> starts_with ''ALTER ROLE {}'' t) \<and> r = u)"
| "user_statement u recorded (Format t [Format t' [Ident [r]], options]) =
     (t = ''{} WITH {}'' \<and> t' = ''CREATE ROLE {}'' \<and> r = u)"
| "user_statement u recorded s = False"

lemma user_statements [simp]:
  "user_statement u ps (Format ''ALTER ROLE {} WITH PASSWORD {}'' [ident u, x])"
  "user_statement u ps (alter_role_with u cs)"
  "user_statement u ps (Format ''GRANT {} TO {}'' [ident g, ident u])"
  "user_statement u ps (Format ''REVOKE {} FROM {}'' [ident g, ident u]) \<longleftrightarrow> g \<in> set ps"
  "user_statement u ps (Format ''ALTER ROLE {} IN DATABASE {} SET role TO {}'' [ident u, x, y])"
  "user_statement u ps (Format ''ALTER ROLE {} IN DATABASE {} RESET role'' [ident u, x])"
  "user_statement u ps (set_role_statement u k v)" "user_statement u ps (reset_role_statement u k)"
  "user_statement u ps (create_login_statement u pw attrs l vu)"
  by (simp_all add: ident_def alter_role_with_def set_role_statement_def reset_role_statement_def
      create_login_statement_def Let_def)

lemma emits_case_source [emits_rules]:
  "emits E P a \<Longrightarrow> emits E P b \<Longrightarrow> emits E P d \<Longrightarrow> emits E P (case s of Byo \<Rightarrow> a | Existing \<Rightarrow> b | Generated \<Rightarrow> d)"
  by (simp split: password_source.split)

abbreviation user_only :: "string \<Rightarrow> string list \<Rightarrow> event \<Rightarrow> bool" where
  "user_only u recorded \<equiv> sends (user_statement u recorded)"

lemma memberships_scope:
  "emits E (user_only u (previously_granted rec)) (apply_memberships c u result rec)"
  unfolding apply_memberships_def grant_step_def Let_def memberships_def role_exists_def get_role_def grant_membership_def revoke_membership_def
  by (intro emits_rules) (auto simp: previously_granted_def)

lemma default_roles_scope: "emits E (user_only u ps) (apply_default_roles c u result rec)"
  unfolding apply_default_roles_def Let_def get_database_def get_role_parameters_def set_default_role_in_database_def
    reset_default_role_in_database_def
  by (intro emits_rules) auto

lemma password_scope: "emits E (user_only u ps) (ensure_password c u p src result)"
  unfolding ensure_password_def password_matches_def stored_verifier_def write_password_def set_password_def
  by (intro emits_rules) auto

lemma login_scope: "emits E (user_only u ps) (ensure_login_role c u p attrs l v)"
  unfolding ensure_login_role_def get_role_def valid_until_matches_def Let_def
  by (intro emits_rules) auto

lemma parameters_scope: "emits E (user_only u ps) (set_role_parameters c u params observed)"
  unfolding set_role_parameters_def by (intro emits_rules) auto

lemma converge_scope:
  "emits E (user_only u (previously_granted (uo_grants obj))) (converge_role c spec obj u p src result)"
  unfolding converge_role_def get_role_parameters_def
  by (intro emits_rules memberships_scope default_roles_scope password_scope login_scope parameters_scope) auto


text \<open>Kubernetes requests and name resolution send no statement.\<close>

lemma emits_quiet: "emits E read_only m \<Longrightarrow> emits E (sends P) m"
  using emits_mono read_only_sends by blast

lemma quiet_user_steps:
  "emits E (sends P) (parse_user obj)" "emits E (sends P) (derive_username spec n)"
  "emits E (sends P) (resolve_grants spec inst ns)" "emits E (sends P) (resolve_password spec ns sns sn)"
  "emits E (sends P) (write_credentials spec inst ns n result pw)" "emits E (sends P) (sync_push_secret spec inst ns n result)"
proof -
  note quiet = read_only_objects [THEN emits_quiet] read_only_context [THEN emits_quiet]
  show "emits E (sends P) (parse_user obj)" "emits E (sends P) (derive_username spec n)"
    unfolding parse_user_def derive_username_def by (intro emits_rules)+
  show "emits E (sends P) (resolve_grants spec inst ns)"
    unfolding resolve_grants_def resolve_grant_def Let_def by (intro emits_rules quiet)
  show "emits E (sends P) (resolve_password spec ns sns sn)"
    unfolding resolve_password_def generate_password_def Let_def by (intro emits_rules quiet)
  show "emits E (sends P) (write_credentials spec inst ns n result pw)"
    unfolding write_credentials_def apply_secret_def Let_def by (intro emits_rules; simp)
  have d: "emits E (sends P) (delete_push_secret av x y)" for av x y
    unfolding delete_push_secret_def by (intro emits_rules; simp)
  have a: "emits E (sends P) (apply_push_secret b)" for b
    unfolding apply_push_secret_def Let_def by (intro emits_rules; simp)
  have c: "emits E (sends P) (check_push_secret_health r nm)" for r nm
    unfolding check_push_secret_health_def push_secret_status_def by (intro emits_rules; simp)
  show "emits E (sends P) (sync_push_secret spec inst ns n result)"
    unfolding sync_push_secret_def Let_def by (intro emits_rules a c d)
qed

lemma quiet_connect: "emits E (sends P) (resolve_instance n ns)" "emits E (sends P) (ctx_connect i d)"
  "emits E (sends P) (load_instance_spec n ns)" "emits E (sends P) (close_database x y)"
  by (rule emits_quiet, rule read_only_context read_only_objects)+

text \<open>The login role of an object: what its spec names, or its sanitised resource name.\<close>

definition username_of :: "env \<Rightarrow> user_obj \<Rightarrow> string option" where
  "username_of E obj = (case parse_user_spec (uo_spec obj) of
      Inr spec \<Rightarrow> (case resolve_username (sha_of E) spec (uo_name obj) of Inr u \<Rightarrow> Some u | Inl e \<Rightarrow> None)
    | Inl e \<Rightarrow> None)"

definition about_user :: "env \<Rightarrow> user_obj \<Rightarrow> composed \<Rightarrow> bool" where
  "about_user E obj s =
     (case username_of E obj of Some u \<Rightarrow> user_statement u (previously_granted (uo_grants obj)) s | None \<Rightarrow> False)"

lemma gives_user: "gives E (\<lambda>s. parse_user_spec (uo_spec obj) = Inr s) (parse_user obj)"
  by (auto simp: parse_user_def gives_def basic_run split: sum.splits)

lemma gives_username: "gives E (\<lambda>u. resolve_username (sha_of E) spec n = Inr u) (derive_username spec n)"
  by (auto simp: derive_username_def gives_def run_simps split: sum.splits if_splits)

lemma about_user_intro:
  "parse_user_spec (uo_spec obj) = Inr spec \<Longrightarrow> resolve_username (sha_of E) spec (uo_name obj) = Inr u \<Longrightarrow>
   user_only u (previously_granted (uo_grants obj)) ev \<Longrightarrow> sends (about_user E obj) ev"
  by (simp add: sends_def about_user_def username_of_def split: option.splits)



section \<open>What the memberships become\<close>

text \<open>The effect of a successful statement on the groups that the login \<open>u\<close> is a member of.\<close>

fun membership_effect :: "string \<Rightarrow> string set \<Rightarrow> event \<Rightarrow> string set" where
  "membership_effect u S (Executed c (Format t [Ident [g], Ident [m]]) True) =
     (if m \<noteq> u then S else if t = ''GRANT {} TO {}'' then insert g S else if t = ''REVOKE {} FROM {}'' then S - {g} else S)"
| "membership_effect u S _ = S"

definition memberships_after :: "string \<Rightarrow> string set \<Rightarrow> event list \<Rightarrow> string set" where
  "memberships_after u S es = foldl (membership_effect u) S es"

lemma memberships_after_simps [simp]:
  "memberships_after u S [] = S"
  "memberships_after u S (xs @ ys) = memberships_after u (memberships_after u S xs) ys"
  "memberships_after u S (Asked c q # es) = memberships_after u S es"
  "memberships_after u S (Executed c (Format ''GRANT {} TO {}'' [ident g, ident u]) True # es) = memberships_after u (insert g S) es"
  "memberships_after u S (Executed c (Format ''REVOKE {} FROM {}'' [ident g, ident u]) True # es) = memberships_after u (S - {g}) es"
  by (simp_all add: memberships_after_def ident_def)

lemma fold_m_Inr:
  "fold_m f s (x # xs) E w = (Inr r, w') \<longleftrightarrow> (\<exists>s' u. f s x E w = (Inr s', u) \<and> fold_m f s' xs E u = (Inr r, w'))"
  by (auto simp: bind_run split: prod.splits sum.splits)

lemma bind_Inr: "bind_m m f E w = (Inr r, w') \<longleftrightarrow> (\<exists>x u. m E w = (Inr x, u) \<and> f x E u = (Inr r, w'))"
  by (auto simp: bind_run split: prod.splits sum.splits)

lemma then_Inr: "then_m m k E w = (Inr r, w') \<longleftrightarrow> (\<exists>x u. m E w = (Inr x, u) \<and> k E u = (Inr r, w'))"
  by (simp add: then_m_def bind_Inr)

lemma fetch_Inr: "fetch sel c q E w = (Inr x, w') \<Longrightarrow> sel E (trace w) c q = Inr x \<and> w' = w\<lparr>trace := trace w @ [Asked c q]\<rparr>"
  by (auto simp: fetch_def run_simps split: sum.splits pg_error.splits)

lemma role_exists_Inr: "role_exists c g E w = (Inr b, w') \<Longrightarrow> w' = w\<lparr>trace := trace w @ [Asked c (Q_Role g)]\<rparr>"
  by (auto simp: role_exists_def get_role_def bind_Inr basic_run dest: fetch_Inr)

lemma revoke_loop:
  "fold_m (\<lambda>r g. then_m (revoke_membership c g u) (ret_m (noted (msg g) r))) r gs E w = (Inr r', w') \<Longrightarrow>
   \<exists>es. trace w' = trace w @ es \<and> (\<forall>S. memberships_after u S es = S - set gs) \<and> ur_warnings r' = ur_warnings r"
proof (induction gs arbitrary: r w)
  case Nil
  then show ?case by (auto simp: basic_run intro!: exI [of _ "[]"])
next
  case (Cons g gs)
  obtain r1 u1 where s: "then_m (revoke_membership c g u) (ret_m (noted (msg g) r)) E w = (Inr r1, u1)"
    "fold_m (\<lambda>r g. then_m (revoke_membership c g u) (ret_m (noted (msg g) r))) r1 gs E u1 = (Inr r', w')"
    using Cons.prems by (auto simp: fold_m_Inr simp del: fold_m.simps)
  have one: "trace u1 = trace w @ [Executed c (Format ''REVOKE {} FROM {}'' [ident g, ident u]) True]" "ur_warnings r1 = ur_warnings r"
    using s(1) by (auto simp: then_Inr basic_run revoke_membership_def noted_def dest!: execute_success)
  obtain es where es: "trace w' = trace u1 @ es" "\<forall>S. memberships_after u S es = S - set gs" "ur_warnings r' = ur_warnings r1"
    using Cons.IH [OF s(2)] by blast
  show ?case
    using es one
    by (intro exI [of _ "Executed c (Format ''REVOKE {} FROM {}'' [ident g, ident u]) True # es"]) auto
qed

lemma grant_step_run:
  assumes "grant_step c u r g E w = (Inr r', w')"
  shows "\<exists>es. trace w' = trace w @ es \<and>
    ((\<forall>S. memberships_after u S es = insert g S) \<and> ur_warnings r' = ur_warnings r \<or>
     (\<forall>S. memberships_after u S es = S) \<and> (\<exists>msg. ur_warnings r' = ur_warnings r @ [msg]))"
proof -
  obtain b u1 where b: "role_exists c g E w = (Inr b, u1)"
    "(if \<not> b then ret_m (warned (''group role '' @ g @ '' does not exist yet; waiting for its '' @ ''PostgresDB to reconcile'') r)
      else then_m (grant_membership c g u False) (ret_m (noted (''granted '' @ g) r))) E u1 = (Inr r', w')"
    using assms by (auto simp: grant_step_def bind_Inr)
  have q: "trace u1 = trace w @ [Asked c (Q_Role g)]" using role_exists_Inr [OF b(1)] by simp
  show ?thesis
  proof (cases b)
    case True
    with b(2) have "trace w' = trace u1 @ [Executed c (Format ''GRANT {} TO {}'' [ident g, ident u]) True]"
      "ur_warnings r' = ur_warnings r"
      by (auto simp: then_Inr basic_run grant_membership_def noted_def dest!: execute_success)
    with q show ?thesis
      by (intro exI [of _ "[Asked c (Q_Role g), Executed c (Format ''GRANT {} TO {}'' [ident g, ident u]) True]"]) simp
  next
    case False
    with b(2) q show ?thesis
      by (intro exI [of _ "[Asked c (Q_Role g)]"]) (auto simp: basic_run warned_def)
  qed
qed

lemma grant_loop:
  "fold_m (grant_step c u) r gs E w = (Inr r', w') \<Longrightarrow>
   \<exists>es G ws. trace w' = trace w @ es \<and> G \<subseteq> set gs \<and> (\<forall>S. memberships_after u S es = S \<union> G) \<and>
     ur_warnings r' = ur_warnings r @ ws \<and> (ws = [] \<longrightarrow> G = set gs)"
proof (induction gs arbitrary: r w)
  case Nil
  then show ?case by (auto simp: basic_run intro!: exI [of _ "[]"] exI [of _ "{}"])
next
  case (Cons g gs)
  obtain r1 u1 where s: "grant_step c u r g E w = (Inr r1, u1)" "fold_m (grant_step c u) r1 gs E u1 = (Inr r', w')"
    using Cons.prems by (auto simp: fold_m_Inr simp del: fold_m.simps)
  obtain es G ws where h: "trace w' = trace u1 @ es" "G \<subseteq> set gs" "\<And>S. memberships_after u S es = S \<union> G"
    "ur_warnings r' = ur_warnings r1 @ ws" "ws = [] \<Longrightarrow> G = set gs"
    using Cons.IH [OF s(2)] by blast
  obtain es1 where t: "trace u1 = trace w @ es1"
    "(\<forall>S. memberships_after u S es1 = insert g S) \<and> ur_warnings r1 = ur_warnings r \<or>
     (\<forall>S. memberships_after u S es1 = S) \<and> (\<exists>msg. ur_warnings r1 = ur_warnings r @ [msg])"
    using grant_step_run [OF s(1)] by blast
  from t(2) show ?case
  proof (elim disjE conjE exE)
    assume "\<forall>S. memberships_after u S es1 = insert g S" "ur_warnings r1 = ur_warnings r"
    then show ?case
      using h t(1) by (intro exI [of _ "es1 @ es"] exI [of _ "insert g G"] exI [of _ ws]) auto
  next
    fix msg assume "\<forall>S. memberships_after u S es1 = S" "ur_warnings r1 = ur_warnings r @ [msg]"
    then show ?case
      using h t(1) by (intro exI [of _ "es1 @ es"] exI [of _ G] exI [of _ "msg # ws"]) auto
  qed
qed


lemma memberships_Inr:
  "memberships c u E w = (Inr held, w') \<Longrightarrow>
   says_names E (trace w) c (Q_Memberships u) = Inr held \<and> trace w' = trace w @ [Asked c (Q_Memberships u)]"
  by (auto simp: memberships_def dest: fetch_Inr)

text \<open>
  Memberships converge, and only the operator's own are taken away: when the step succeeds, the login is
  in no group that an earlier pass recorded and the spec no longer asks for; it keeps every other group it
  had; it gains nothing the spec does not ask for; and unless the step reported a group role that does not
  exist yet, it is in every group the spec asks for.
\<close>

theorem memberships_converge:
  assumes "apply_memberships c u result rec E w = (Inr r, w')"
    and "says_names E (trace w) c (Q_Memberships u) = Inr held"
  shows "\<exists>es after. trace w' = trace w @ es \<and> after = memberships_after u (set held) es \<and>
    after \<inter> (set (previously_granted rec) - set (desired_roles result)) = {} \<and>
    set held - (set (previously_granted rec) - set (desired_roles result)) \<subseteq> after \<and>
    after \<subseteq> set held \<union> set (desired_roles result) \<and>
    (set (desired_roles result) \<subseteq> after \<or> ur_warnings r \<noteq> ur_warnings result)"
proof -
  let ?new = "sorted_set (filter (\<lambda>g. g \<notin> set held) (desired_roles result))"
  let ?old = "sorted_set (filter (\<lambda>g. g \<notin> set (desired_roles result) \<and> g \<in> set held) (previously_granted rec))"
  obtain u1 r1 u2 where s: "memberships c u E w = (Inr held, u1)"
    "fold_m (grant_step c u) result ?new E u1 = (Inr r1, u2)"
    "fold_m (\<lambda>r g. then_m (revoke_membership c g u) (ret_m (noted (''revoked '' @ g) r))) r1 ?old E u2 = (Inr r, w')"
    using assms memberships_Inr by (fastforce simp: apply_memberships_def Let_def bind_Inr)
  have q: "trace u1 = trace w @ [Asked c (Q_Memberships u)]" using memberships_Inr [OF s(1)] by simp
  obtain es1 G ws where g: "trace u2 = trace u1 @ es1" "G \<subseteq> set ?new" "\<And>S. memberships_after u S es1 = S \<union> G"
    "ur_warnings r1 = ur_warnings result @ ws" "ws = [] \<Longrightarrow> G = set ?new"
    using grant_loop [OF s(2)] by blast
  obtain es2 where v: "trace w' = trace u2 @ es2" "\<And>S. memberships_after u S es2 = S - set ?old" "ur_warnings r = ur_warnings r1"
    using revoke_loop [OF s(3)] by blast
  let ?es = "Asked c (Q_Memberships u) # es1 @ es2"
  define A where "A = (set held \<union> G) - set ?old"
  have t: "trace w' = trace w @ ?es" using g(1) v(1) q by simp
  have after: "A = memberships_after u (set held) ?es" by (simp add: g v A_def)
  have "A \<inter> (set (previously_granted rec) - set (desired_roles result)) = {}"
    "set held - (set (previously_granted rec) - set (desired_roles result)) \<subseteq> A"
    "A \<subseteq> set held \<union> set (desired_roles result)"
    "set (desired_roles result) \<subseteq> A \<or> ur_warnings r \<noteq> ur_warnings result"
    using g(2,4,5) v(3) by (auto simp: A_def)
  with t after show ?thesis by blast
qed

text \<open>A login held by a DBA's group and by an old one of the operator's.\<close>

definition sample_user_env :: env where
  "sample_user_env = sample_env\<lparr>says_names := \<lambda>h c q. Inr [''dba'', ''old''],
     says_role := \<lambda>h c q. Inr (Some sample_role)\<rparr>"

definition sample_user_result :: user_result where
  "sample_user_result = (new_user_result ''app'' RETAIN)\<lparr>ur_grants := [\<lparr>ug_database = ''orders'', ug_level = ''RW'',
     ug_group_role = ''new'', ug_db_resource = ''shop/orders'', ug_set_role_for_owners = True\<rparr>]\<rparr>"

definition sample_recorded :: "recorded_grant list" where
  "sample_recorded = [\<lparr>rg_database = ''orders'', rg_role = ''RO'', rg_group_role = ''old'', rg_db_ref = ''shop/orders''\<rparr>]"

theorem memberships_converge_witness:
  "\<exists>es. memberships_after ''app'' {''dba'', ''old''} es = {''dba'', ''new''}"
proof -
  let ?m = "apply_memberships sample_conn ''app'' sample_user_result sample_recorded sample_user_env empty_world"
  have "map_sum (\<lambda>e. ()) ur_warnings (fst ?m) = Inr []" by code_simp
  then obtain r w' where m: "?m = (Inr r, w')" "ur_warnings r = []" by (cases ?m) (auto split: sum.splits simp: map_sum_def)
  have h: "says_names sample_user_env (trace empty_world) sample_conn (Q_Memberships ''app'') = Inr [''dba'', ''old'']"
    by (simp add: sample_user_env_def)
  have d: "desired_roles sample_user_result = [''new'']" "previously_granted sample_recorded = [''old'']"
    "ur_warnings sample_user_result = []"
    by code_simp+
  obtain es after where r: "after = memberships_after ''app'' {''dba'', ''old''} es" "after \<inter> ({''old''} - {''new''}) = {}"
    "{''dba'', ''old''} - ({''old''} - {''new''}) \<subseteq> after" "after \<subseteq> {''dba'', ''old'', ''new''}" "{''new''} \<subseteq> after"
    using memberships_converge [OF m(1) h] m(2) by (auto simp: d)
  then have "after = {''dba'', ''new''}" by auto
  with r(1) show ?thesis by metis
qed


section \<open>The password from one pass to the next\<close>

definition LOGICAL_KEYS :: "string list" where
  "LOGICAL_KEYS = [''username'', ''password'', ''host'', ''port'', ''database'', ''sslmode'', ''uri'', ''jdbcUri'',
     ''springDatasourceUri'']"

lemma connection_keys_keys:
  "\<exists>rest. LOGICAL_KEYS = map fst (connection_keys u p h port db ssl b) @ rest"
  by (cases b) (simp_all add: connection_keys_def LOGICAL_KEYS_def)

lemma credential_password:
  assumes "distinct (map (secret_key spec) LOGICAL_KEYS)"
  shows "map_of (credential_data spec inst result password) (secret_key spec ''password'') = Some password"
proof -
  let ?dd = "or_text (gs_default_database (us_generated_secret spec))
      (case ur_grants result of g # _ \<Rightarrow> ug_database g | [] \<Rightarrow> is_maintenance_database (ri_spec inst))"
  let ?l = "connection_keys (ur_username result) password (ep_host (ri_endpoint inst)) (ep_port (ri_endpoint inst)) ?dd
      (ssl_text (is_ssl_mode (ri_spec inst))) (gs_include_uri (us_generated_secret spec))"
  let ?es = "map (\<lambda>(key, v). (secret_key spec key, v)) ?l"
  obtain rest where r: "LOGICAL_KEYS = map fst ?l @ rest" using connection_keys_keys by blast
  have "map fst (map (\<lambda>(k, v). (f k, v)) l) = map f (map fst l)" for f :: "string \<Rightarrow> string" and l :: "(string \<times> string) list"
    by (induction l) auto
  then have d: "distinct (map fst ?es)" using assms unfolding r by (simp del: map_map)
  have m: "(secret_key spec ''password'', password) \<in> set ?es"
    by (simp add: connection_keys_def)
  show ?thesis
    using map_of_dupdate_wanted [OF d m, of "[]"] by (simp add: credential_data_def Let_def)
qed

lemma credential_distinct: "distinct (map fst (credential_data spec inst result password))"
  using distinct_dupdate [of "[]"] by (simp add: credential_data_def Let_def dkeys_def)



text \<open>A resolved instance for examples.\<close>

definition sample_inst :: resolved_instance where
  "sample_inst = \<lparr>ri_name = ''main'', ri_spec = sample_instance, ri_endpoint = sample_endpoint,
     ri_server = \<lparr>sv_version_num = 160003, sv_version_text = ''16.3'', sv_current_user = ''admin'', sv_is_superuser = True,
       sv_can_create_db = True, sv_can_create_role = True, sv_is_rds_superuser = False\<rparr>, ri_generation = 1\<rparr>"


text \<open>
  Why distinct keys are needed: the code accepts a renaming that sends two entries to one key, and then
  the Secret holds the connection URI where the password is expected; the next pass takes the URI for the
  password, so each pass changes it.
\<close>

definition colliding_user :: user_spec where
  "colliding_user = sample_user\<lparr>us_generated_secret := (us_generated_secret sample_user)\<lparr>gs_keys := [(''uri'', ''password'')]\<rparr>\<rparr>"

lemma colliding_keys_lose_the_password:
  "validate_user_spec colliding_user = Inr ()"
  "\<exists>rest. map_of (credential_data colliding_user inst result password) ''password'' = Some (''postgresql://'' @ rest)"
proof -
  have f: "us_push_secret colliding_user = us_push_secret sample_user" "us_username colliding_user = us_username sample_user"
    "us_access colliding_user = us_access sample_user"
    by (simp_all add: colliding_user_def)
  show "validate_user_spec colliding_user = Inr ()"
    using sample_user_valid unfolding validate_user_spec_def f .
  have k: "secret_key colliding_user key = (if key = ''uri'' then ''password'' else key)" for key
    by (simp add: secret_key_def colliding_user_def)
  have u: "gs_include_uri (us_generated_secret colliding_user)" by (simp add: colliding_user_def sample_user_def)
  show "\<exists>rest. map_of (credential_data colliding_user inst result password) ''password'' = Some (''postgresql://'' @ rest)"
    by (simp add: credential_data_def connection_keys_def u k dupdate_def Let_def)
qed

section \<open>Retention\<close>

text \<open>
  Deleting a PostgresUser under RETAIN reads its instance's spec and nothing else: no connection, no
  statement, no Secret is touched, and the delete succeeds whatever state the server is in.
\<close>

theorem teardown_user_retains:
  assumes "parse_user_spec (uo_spec obj) = Inr spec" "resolve_username (sha_of E) spec (uo_name obj) = Inr u"
    and "says_instance E (trace w) (us_instance spec) = Inr io" "parse_instance_spec (io_spec io) = Inr inst"
    and "uo_namespace obj = [] \<or> permits_namespace inst (uo_namespace obj)"
    and "effective_retention (us_retention spec) (is_retention inst) = RETAIN"
  shows "\<exists>msg. teardown_user obj E w = (Inr msg, w\<lparr>trace := trace w @ [K8s (K_Get_Instance (us_instance spec))]\<rparr>)"
proof -
  have p: "parse_user obj = ret_m spec" using assms(1) by (simp add: parse_user_def)
  have d: "derive_username spec (uo_name obj) E w = (Inr u, w)" using assms(2) by (simp add: derive_username_def run_simps)
  have l: "load_instance_spec (us_instance spec) (uo_namespace obj) E w =
      (Inr (inst, io_generation io), w\<lparr>trace := trace w @ [K8s (K_Get_Instance (us_instance spec))]\<rparr>)"
    using assms(3-5)
    by (simp add: load_instance_spec_def get_instance_def rename_not_found_def k8s_ask_def run_simps)
  show ?thesis
    by (simp add: teardown_user_def Let_def p bind_run d basic_run l assms(6))
qed

definition sample_user_object :: user_obj where
  "sample_user_object = \<lparr>uo_namespace = ''team-a'', uo_name = ''app'', uo_generation = 1, uo_spec = Inr sample_user,
     uo_grants = sample_recorded, uo_conditions = []\<rparr>"

theorem teardown_user_retains_witness:
  "\<exists>msg. teardown_user sample_user_object
      (sample_env\<lparr>says_instance := \<lambda>h n. Inr \<lparr>io_spec = Inr sample_instance, io_generation = 1\<rparr>\<rparr>) empty_world =
    (Inr msg, empty_world\<lparr>trace := [K8s (K_Get_Instance ''main'')]\<rparr>)"
proof -
  let ?E = "sample_env\<lparr>says_instance := \<lambda>h n. Inr \<lparr>io_spec = Inr sample_instance, io_generation = 1\<rparr>\<rparr>"
  have "user_fields_ok sample_user"
    by (simp add: user_fields_ok_def sample_user_def optional_field_def k8s_name_field_def identifier_field_def)
  then have p: "parse_user_spec (uo_spec sample_user_object) = Inr sample_user"
    using sample_user_valid by (simp add: sample_user_object_def parse_user_spec_def model_validate_ok)
  have u: "resolve_username (sha_of ?E) sample_user (uo_name sample_user_object) = Inr ''app''"
    by (simp add: resolve_username_def sample_user_def)
  have g: "uo_namespace sample_user_object = [] \<or> permits_namespace sample_instance (uo_namespace sample_user_object)"
    by (simp add: sample_user_object_def permits_namespace_def sample_instance_def)
  have r: "effective_retention (us_retention sample_user) (is_retention sample_instance) = RETAIN"
    by (simp add: effective_retention_def sample_user_def sample_instance_def)
  have i: "says_instance ?E (trace empty_world) (us_instance sample_user) = Inr \<lparr>io_spec = Inr sample_instance, io_generation = 1\<rparr>"
    by simp
  show ?thesis
    using teardown_user_retains [OF p u i _ g r] sample_instance_accepted by (simp add: empty_world_def sample_user_def)
qed


section \<open>What a teardown may send\<close>

text \<open>Statements that remove the role \<open>u\<close>: joining it, ending its memberships, clearing and dropping it.\<close>

fun removal_statement :: "string \<Rightarrow> composed \<Rightarrow> bool" where
  "removal_statement u (Format t (Ident [r] # rest)) =
     (r = u \<and> t \<in> set [''GRANT {} TO {} WITH INHERIT TRUE, SET TRUE'', ''DROP OWNED BY {}'', ''DROP ROLE IF EXISTS {}'',
        ''ALTER ROLE {} IN DATABASE {} RESET role''])"
| "removal_statement u (Format t [Format t' (Ident [r] # rest)]) = (r = u \<and> t = ''{} WITH ADMIN OPTION'' \<and> t' = ''GRANT {} TO {}'')"
| "removal_statement u (Format t [Join s gs, Ident [m]]) = (m = u \<and> t = ''REVOKE {} FROM {}'')"
| "removal_statement u s = False"

definition removes_user :: "env \<Rightarrow> user_obj \<Rightarrow> composed \<Rightarrow> bool" where
  "removes_user E obj s = (case username_of E obj of Some u \<Rightarrow> removal_statement u s | None \<Rightarrow> False)"

lemma self_membership_removal: "emits E (sends (removal_statement u)) (ensure_self_membership c u pg)"
  unfolding ensure_self_membership_def current_user_def grant_membership_def Let_def
  by (intro emits_rules) (simp_all add: self_grant_def ident_def)

lemma drop_user_removal: "emits E (sends (removal_statement u)) (drop_user_role c inst u ds)"
proof -
  have "emits E (sends (removal_statement u)) (clear_user_in_database inst d u)" for d
    unfolding clear_user_in_database_def drop_owned_def Let_def by (intro emits_rules quiet_connect) (simp add: ident_def)
  moreover have "emits E (sends (removal_statement u)) (reset_default_role_in_database c u d)" for d
    unfolding reset_default_role_in_database_def by (intro emits_rules) (simp add: ident_def)
  moreover have "emits E (sends (removal_statement u)) (revoke_all_memberships c u)"
    unfolding revoke_all_memberships_def memberships_def by (intro emits_rules) (simp_all add: idents_def ident_def)
  moreover have "emits E (sends (removal_statement u)) (terminate_role_sessions c u)"
    unfolding terminate_role_sessions_def terminate_backend_def by (intro emits_rules) simp_all
  moreover have "emits E (sends (removal_statement u)) (drop_role c u)"
    unfolding drop_role_def drop_role_statement_def by (intro emits_rules) (simp add: ident_def)
  moreover have "emits E (sends (removal_statement u)) (role_exists c u)" "emits E (sends (removal_statement u)) (get_database c d)" for d
    unfolding role_exists_def get_role_def get_database_def by (intro emits_rules; simp)+
  ultimately show ?thesis
    unfolding drop_user_role_def by (intro emits_rules self_membership_removal)
qed

text \<open>
  Deleting a PostgresUser removes that role and nothing else: whatever the policy, whatever the teardown
  finds and whatever fails, each statement it sends takes or ends memberships of the user's own role, clears
  what that role owns, resets its default role, or drops it.
\<close>

theorem teardown_user_scope:
  "emits E (sends (removes_user E obj)) (teardown_user obj)"
proof -
  have r: "emits E (sends (removes_user E obj)) (drop_user_role c inst u ds)"
    if "parse_user_spec (uo_spec obj) = Inr spec" "resolve_username (sha_of E) spec (uo_name obj) = Inr u" for c inst u ds spec
    by (rule emits_mono [OF drop_user_removal])
      (use that in \<open>simp add: sends_def removes_user_def username_of_def split: option.splits\<close>)
  have s: "emits E (sends P) (delete_secret a b)" "emits E (sends P) (delete_push_secret av a b)" for P a b av
    unfolding delete_secret_def delete_push_secret_def by (intro emits_rules; simp)+
  show ?thesis
    unfolding teardown_user_def Let_def
    by (rule emits_bind_gives [OF quiet_user_steps(1) gives_user], rule emits_bind_gives [OF quiet_user_steps(2) gives_username])
      (intro emits_rules quiet_connect r s)
qed

end
