(* ===== verification/UserStatus.thy ===== *)
theory UserStatus
  imports UserReconcile Reports
begin

text \<open>
  \<open>build_status\<close> of \<open>reconcile/user.py\<close>: what a pass over a PostgresUser reports. \<open>now n\<close> is the n-th reading of
  the clock.
\<close>

definition user_conditions ::
  "user_result \<Rightarrow> resolved_instance \<Rightarrow> int option \<Rightarrow> (nat \<Rightarrow> string) \<Rightarrow> condition list" where
  "user_conditions r inst generation now =
     [reachable (now 0) (''PostgreSQL '' @ version_text (ri_server inst) @ '' at '' @ display inst) generation] @
     (if ur_warnings r \<noteq> []
      then [not_synced (now 1) ''PendingDependency'' (join_with ''; '' (ur_warnings r)) generation,
            not_ready (now 2) ''PendingDependency'' (join_with ''; '' (ur_warnings r)) generation]
      else [synced (now 1) (user_message r) generation, ready (now 2) (user_message r) generation]) @
     [no_drift (now 3) generation]"

definition grant_json :: "recorded_grant \<Rightarrow> json" where
  "grant_json g = J_Obj [(''database'', J_Str (rg_database g)), (''role'', J_Str (rg_role g)),
     (''groupRole'', J_Str (rg_group_role g)), (''dbRef'', J_Str (rg_db_ref g))]"

definition user_details :: "user_result \<Rightarrow> resolved_instance \<Rightarrow> string \<Rightarrow> (string \<times> json) list" where
  "user_details r inst now =
     [(''instance'', J_Str (ri_name inst)), (''endpoint'', J_Str (display inst)), (''username'', J_Str (ur_username r)),
      (''retentionPolicy'', J_Str (retention_text (ur_retention r))), (''grantCount'', J_Int (int (length (ur_grants r)))),
      (''grants'', J_List (map (\<lambda>g. grant_json (as_status g)) (ur_grants r))),
      (''secretRef'', J_Obj [(''name'', J_Str (ur_secret_name r)), (''namespace'', J_Str (ur_secret_namespace r))]),
      (''secretKeys'', j_names (ur_secret_keys r)), (''lastReconciledAt'', J_Str now)] @
     (if given (ur_push_secret_name r)
      then [(''pushSecretRef'', J_Obj [(''name'', J_Str (the (ur_push_secret_name r))),
              (''namespace'', case ur_push_secret_namespace r of Some ns \<Rightarrow> J_Str ns | None \<Rightarrow> J_Null)])]
      else [])"

definition build_user_status ::
  "user_result \<Rightarrow> resolved_instance \<Rightarrow> condition list \<Rightarrow> int \<Rightarrow> (nat \<Rightarrow> string) \<Rightarrow> status_patch" where
  "build_user_status r inst existing generation now =
     (let merged = merge_conditions existing (user_conditions r inst (Some generation) now)
      in \<lparr>sp_generation = generation, sp_conditions = merged, sp_phase = phase_from_conditions merged,
          sp_details = user_details r inst (now 4)\<rparr>)"

lemma user_conditions_distinct: "distinct (map type_key (user_conditions r inst g now))"
  by (simp add: user_conditions_def)

text \<open>
  A PostgresUser is Ready exactly when its pass had nothing left to wait for: with a warning - a group role
  or a database that does not exist yet, a PushSecret that is not synced - it is neither ready nor synced
  and its phase is Failed, otherwise it is both and its phase is Ready; it is reachable and never drifted.
\<close>

theorem user_status_truthful:
  assumes "status_of existing COND_STREAMING = None" "build_user_status r inst existing g now = p"
  shows "sp_phase p = (if ur_warnings r = [] then Ready else Failed) \<and>
    status_of (sp_conditions p) COND_READY = Some (if ur_warnings r = [] then ''True'' else ''False'') \<and>
    status_of (sp_conditions p) COND_SYNCED = Some (if ur_warnings r = [] then ''True'' else ''False'') \<and>
    status_of (sp_conditions p) COND_REACHABLE = Some ''True'' \<and>
    status_of (sp_conditions p) COND_DRIFTED = Some ''False''"
proof -
  let ?us = "user_conditions r inst (Some g) now"
  let ?cs = "merge_conditions existing ?us"
  have d: "status_of ?cs COND_DRIFTED = Some ''False''"
    using status_of_reported [OF user_conditions_distinct, of "no_drift (now 3) (Some g)" r inst "Some g" now COND_DRIFTED]
    by (simp add: user_conditions_def)
  have a: "status_of ?cs COND_REACHABLE = Some ''True''"
    using status_of_reported [OF user_conditions_distinct, of "hd ?us" r inst "Some g" now COND_REACHABLE]
    by (simp add: user_conditions_def)
  have s: "status_of ?cs COND_STREAMING = None"
    using status_of_unreported [of COND_STREAMING ?us existing] assms(1) by (simp add: user_conditions_def)
  show ?thesis
  proof (cases "ur_warnings r = []")
    case True
    have y: "status_of ?cs COND_SYNCED = Some ''True''" "status_of ?cs COND_READY = Some ''True''"
      using True status_of_reported [OF user_conditions_distinct, of "synced (now 1) (user_message r) (Some g)" r inst "Some g" now COND_SYNCED]
        status_of_reported [OF user_conditions_distinct, of "ready (now 2) (user_message r) (Some g)" r inst "Some g" now COND_READY]
      by (simp_all add: user_conditions_def)
    show ?thesis
      using True y d a s phase_by_status [OF y(2)] assms(2) by (auto simp: build_user_status_def Let_def)
  next
    case False
    let ?w = "join_with ''; '' (ur_warnings r)"
    have y: "status_of ?cs COND_SYNCED = Some ''False''"
      "status_of ?cs COND_READY = Some ''False'' \<and> reason_of ?cs COND_READY = Some ''PendingDependency''"
      using False status_of_reported [OF user_conditions_distinct, of "not_synced (now 1) ''PendingDependency'' ?w (Some g)" r inst "Some g" now COND_SYNCED]
        status_of_reported [OF user_conditions_distinct, of "not_ready (now 2) ''PendingDependency'' ?w (Some g)" r inst "Some g" now COND_READY]
      by (simp_all add: user_conditions_def)
    show ?thesis
      using False y d a s phase_not_ready [of ?cs] assms(2) by (auto simp: build_user_status_def Let_def)
  qed
qed

theorem user_status_truthful_witness:
  "sp_phase (build_user_status (warned ''group role new does not exist yet'' sample_user_result) sample_inst [] 3 (\<lambda>n. ''now'')) = Failed"
  using user_status_truthful [of "[]", OF _ refl, of "warned ''group role new does not exist yet'' sample_user_result" sample_inst 3 "\<lambda>n. ''now''"]
  by (simp add: status_of_def lookup_condition_def by_type_def warned_def)

end
