(* ===== verification/Privileges.thy ===== *)
theory Privileges
  imports Effects
begin

text \<open>
  \<open>postgres/privileges.py\<close>: the OWNER / RW / RO model. The privilege tables, the grants on one schema and
  on what is in it, the default privileges for what will be, and the schema grants read back. A level is
  the key \<open>readWrite\<close> or \<open>readOnly\<close> under which the code looks a table up.
\<close>

datatype level = Level_Owner | Level_Read_Write | Level_Read_Only

fun TABLE_PRIVILEGES :: "level \<Rightarrow> string list" where
  "TABLE_PRIVILEGES Level_Owner = [''ALL'']"
| "TABLE_PRIVILEGES Level_Read_Write =
     [''SELECT'', ''INSERT'', ''UPDATE'', ''DELETE'', ''TRUNCATE'', ''REFERENCES'']"
| "TABLE_PRIVILEGES Level_Read_Only = [''SELECT'']"

fun SEQUENCE_PRIVILEGES :: "level \<Rightarrow> string list" where
  "SEQUENCE_PRIVILEGES Level_Owner = [''ALL'']"
| "SEQUENCE_PRIVILEGES Level_Read_Write = [''USAGE'', ''SELECT'', ''UPDATE'']"
| "SEQUENCE_PRIVILEGES Level_Read_Only = [''SELECT'']"

fun ROUTINE_PRIVILEGES :: "level \<Rightarrow> string list" where
  "ROUTINE_PRIVILEGES Level_Owner = [''ALL'']"
| "ROUTINE_PRIVILEGES Level_Read_Write = [''EXECUTE'']"
| "ROUTINE_PRIVILEGES Level_Read_Only = [''EXECUTE'']"

fun TYPE_PRIVILEGES :: "level \<Rightarrow> string list" where
  "TYPE_PRIVILEGES Level_Owner = [''ALL'']"
| "TYPE_PRIVILEGES Level_Read_Write = [''USAGE'']"
| "TYPE_PRIVILEGES Level_Read_Only = [''USAGE'']"

text \<open>\<open>GroupRoles.all\<close> and \<open>GroupRoles.readers\<close>\<close>

definition all_roles :: "role_names \<Rightarrow> string list" where
  "all_roles r = [rn_owner r, rn_read_write r, rn_read_only r]"

definition readers :: "role_names \<Rightarrow> string list" where
  "readers r = [rn_read_write r, rn_read_only r]"

record grant_options =
  go_revoke_public_schema_create :: bool
  go_grant_execute_to_read_only :: bool
  go_public_schema_locked :: bool

definition privilege_list :: "string list \<Rightarrow> composed" where
  "privilege_list ps = Join '', '' (map SQL ps)"

definition grant_on_all :: "string list \<Rightarrow> string \<Rightarrow> string \<Rightarrow> string \<Rightarrow> composed" where
  "grant_on_all ps objects schema role =
     Format (''GRANT {} ON ALL '' @ objects @ '' IN SCHEMA {} TO {}'') [privilege_list ps, ident schema, ident role]"

text \<open>The level loop \<open>(("readWrite", roles.read_write), ("readOnly", roles.read_only))\<close>.\<close>

definition reader_levels :: "role_names \<Rightarrow> (level \<times> string) list" where
  "reader_levels r = [(Level_Read_Write, rn_read_write r), (Level_Read_Only, rn_read_only r)]"

definition grant_existing_objects ::
  "conn \<Rightarrow> string \<Rightarrow> string \<Rightarrow> level \<Rightarrow> grant_options \<Rightarrow> unit m" where
  "grant_existing_objects c schema role level_key options =
     then_m (execute c (grant_on_all (TABLE_PRIVILEGES level_key) ''TABLES'' schema role))
    (then_m (execute c (grant_on_all (SEQUENCE_PRIVILEGES level_key) ''SEQUENCES'' schema role))
     (when_m (level_key = Level_Read_Write \<or> go_grant_execute_to_read_only options)
        (execute c (grant_on_all (ROUTINE_PRIVILEGES level_key) ''FUNCTIONS'' schema role))))"

definition apply_schema_privileges :: "conn \<Rightarrow> string \<Rightarrow> role_names \<Rightarrow> grant_options \<Rightarrow> unit m" where
  "apply_schema_privileges c schema roles options =
     then_m (when_m (go_revoke_public_schema_create options \<and>
                     \<not> (schema = ''public'' \<and> go_public_schema_locked options))
              (execute c (Format ''REVOKE CREATE ON SCHEMA {} FROM PUBLIC'' [ident schema])))
    (then_m (execute c (Format ''GRANT ALL ON SCHEMA {} TO {}'' [ident schema, ident (rn_owner roles)]))
    (then_m (execute c (Format ''GRANT USAGE ON SCHEMA {} TO {}'' [ident schema, idents (readers roles)]))
     (each_m (\<lambda>(level_key, role). grant_existing_objects c schema role level_key options) (reader_levels roles))))"

definition default_grant :: "string \<Rightarrow> string \<Rightarrow> string list \<Rightarrow> string \<Rightarrow> string \<Rightarrow> composed" where
  "default_grant creator schema ps objects role =
     Format (''{} GRANT {} ON '' @ objects @ '' TO {}'')
       [Format ''ALTER DEFAULT PRIVILEGES FOR ROLE {} IN SCHEMA {}'' [ident creator, ident schema],
        privilege_list ps, ident role]"

definition default_privileges_for ::
  "conn \<Rightarrow> string \<Rightarrow> string \<Rightarrow> string \<Rightarrow> level \<Rightarrow> grant_options \<Rightarrow> unit m" where
  "default_privileges_for c schema creator role level_key options =
     then_m (execute c (default_grant creator schema (TABLE_PRIVILEGES level_key) ''TABLES'' role))
    (then_m (execute c (default_grant creator schema (SEQUENCE_PRIVILEGES level_key) ''SEQUENCES'' role))
    (then_m (when_m (level_key = Level_Read_Write \<or> go_grant_execute_to_read_only options)
              (execute c (default_grant creator schema (ROUTINE_PRIVILEGES level_key) ''FUNCTIONS'' role)))
     (execute c (default_grant creator schema (TYPE_PRIVILEGES level_key) ''TYPES'' role))))"

text \<open>\<open>creators or [roles.owner]\<close>\<close>

definition apply_default_privileges ::
  "conn \<Rightarrow> string \<Rightarrow> role_names \<Rightarrow> grant_options \<Rightarrow> string list option \<Rightarrow> unit m" where
  "apply_default_privileges c schema roles options creators =
     each_m (\<lambda>creator. each_m (\<lambda>(level_key, role).
         default_privileges_for c schema creator role level_key options) (reader_levels roles))
       (case creators of Some (x # xs) \<Rightarrow> x # xs | _ \<Rightarrow> [rn_owner roles])"

text \<open>\<open>grants.setdefault(schema, []).append("role:A+B")\<close>, over the rows that carry a privilege.\<close>

fun collect_grants :: "(string \<times> string list) list \<Rightarrow> (string \<times> string \<times> string list) list \<Rightarrow>
    (string \<times> string list) list" where
  "collect_grants acc [] = acc"
| "collect_grants acc ((schema, role, privileges) # rows) =
     (if privileges = [] then collect_grants acc rows
      else collect_grants (dset acc schema
             ((case map_of acc schema of Some xs \<Rightarrow> xs | None \<Rightarrow> []) @ [role @ '':'' @ join_with ''+'' privileges])) rows)"

definition observed_schema_grants :: "conn \<Rightarrow> role_names \<Rightarrow> (string \<times> string list) list m" where
  "observed_schema_grants c roles =
     bind_m (fetch says_grants c (Q_Schema_Grants (all_roles roles))) (\<lambda>rows. ret_m (collect_grants [] rows))"

section \<open>Straight-line statement sequences\<close>

text \<open>The statements of each operation as a list: the operations run exactly these, in this order, until
  one fails.\<close>

definition object_statements :: "string \<Rightarrow> string \<Rightarrow> level \<Rightarrow> grant_options \<Rightarrow> composed list" where
  "object_statements schema role level_key options =
     [grant_on_all (TABLE_PRIVILEGES level_key) ''TABLES'' schema role,
      grant_on_all (SEQUENCE_PRIVILEGES level_key) ''SEQUENCES'' schema role] @
     (if level_key = Level_Read_Write \<or> go_grant_execute_to_read_only options
      then [grant_on_all (ROUTINE_PRIVILEGES level_key) ''FUNCTIONS'' schema role] else [])"

definition schema_statements :: "string \<Rightarrow> role_names \<Rightarrow> grant_options \<Rightarrow> composed list" where
  "schema_statements schema roles options =
     (if go_revoke_public_schema_create options \<and> \<not> (schema = ''public'' \<and> go_public_schema_locked options)
      then [Format ''REVOKE CREATE ON SCHEMA {} FROM PUBLIC'' [ident schema]] else []) @
     [Format ''GRANT ALL ON SCHEMA {} TO {}'' [ident schema, ident (rn_owner roles)],
      Format ''GRANT USAGE ON SCHEMA {} TO {}'' [ident schema, idents (readers roles)]] @
     concat (map (\<lambda>(level_key, role). object_statements schema role level_key options) (reader_levels roles))"

definition default_statements :: "string \<Rightarrow> string \<Rightarrow> string \<Rightarrow> level \<Rightarrow> grant_options \<Rightarrow> composed list" where
  "default_statements schema creator role level_key options =
     [default_grant creator schema (TABLE_PRIVILEGES level_key) ''TABLES'' role,
      default_grant creator schema (SEQUENCE_PRIVILEGES level_key) ''SEQUENCES'' role] @
     (if level_key = Level_Read_Write \<or> go_grant_execute_to_read_only options
      then [default_grant creator schema (ROUTINE_PRIVILEGES level_key) ''FUNCTIONS'' role] else []) @
     [default_grant creator schema (TYPE_PRIVILEGES level_key) ''TYPES'' role]"

definition creator_statements :: "string \<Rightarrow> role_names \<Rightarrow> grant_options \<Rightarrow> string list option \<Rightarrow> composed list" where
  "creator_statements schema roles options creators =
     concat (map (\<lambda>creator. concat (map (\<lambda>(level_key, role).
         default_statements schema creator role level_key options) (reader_levels roles)))
       (case creators of Some (x # xs) \<Rightarrow> x # xs | _ \<Rightarrow> [rn_owner roles]))"

lemma object_statements_run:
  "grant_existing_objects c schema role level_key options =
     each_m (execute c) (object_statements schema role level_key options)"
  by (simp add: grant_existing_objects_def object_statements_def when_m_def)

lemma schema_statements_run:
  "apply_schema_privileges c schema roles options = each_m (execute c) (schema_statements schema roles options)"
  unfolding apply_schema_privileges_def schema_statements_def reader_levels_def
  by (auto simp: object_statements_run each_m_append when_m_def)

lemma default_statements_run:
  "default_privileges_for c schema creator role level_key options =
     each_m (execute c) (default_statements schema creator role level_key options)"
  by (simp add: default_privileges_for_def default_statements_def when_m_def)

lemma creator_statements_run:
  "apply_default_privileges c schema roles options creators =
     each_m (execute c) (creator_statements schema roles options creators)"
  unfolding apply_default_privileges_def creator_statements_def each_m_concat
  by (intro each_m_cong) (auto simp: default_statements_run)

section \<open>What the statements grant\<close>

text \<open>An abstract reading of the grants: a privilege on a class of objects in a schema, now or (default
  privileges) on what a creator will create, and the role that receives it.\<close>

datatype grant =
    Grant_Now (g_objects: string) (g_privilege: string) (g_schema: string) (g_role: string)
  | Grant_Later string (g_objects: string) (g_privilege: string) (g_schema: string) (g_role: string)

fun as_ident :: "composed \<Rightarrow> string option" where
  "as_ident (Ident [s]) = Some s"
| "as_ident _ = None"

fun privilege_word :: "composed \<Rightarrow> string list" where
  "privilege_word (SQL p) = [p]"
| "privilege_word _ = []"

fun privilege_words :: "composed \<Rightarrow> string list" where
  "privilege_words (Join s cs) = concat (map privilege_word cs)"
| "privilege_words _ = []"

definition object_kinds :: "string list" where
  "object_kinds = [''TABLES'', ''SEQUENCES'', ''FUNCTIONS'', ''TYPES'']"

fun default_target :: "composed \<Rightarrow> (string \<times> string) option" where
  "default_target (Format t cs) =
     (if t = ''ALTER DEFAULT PRIVILEGES FOR ROLE {} IN SCHEMA {}''
      then (case map as_ident cs of [Some creator, Some schema] \<Rightarrow> Some (creator, schema) | _ \<Rightarrow> None) else None)"
| "default_target _ = None"

fun grants_of :: "composed \<Rightarrow> grant list" where
  "grants_of (Format t cs) =
     (case cs of
        [x, y, z] \<Rightarrow>
          (case (as_ident y, as_ident z) of
             (Some s, Some r) \<Rightarrow> concat (map (\<lambda>k.
                if t = ''GRANT {} ON ALL '' @ k @ '' IN SCHEMA {} TO {}''
                then map (\<lambda>p. Grant_Now k p s r) (privilege_words x) else []) object_kinds)
           | (None, Some r) \<Rightarrow>
               (case default_target x of
                  Some (creator, s) \<Rightarrow> concat (map (\<lambda>k.
                    if t = ''{} GRANT {} ON '' @ k @ '' TO {}''
                    then map (\<lambda>p. Grant_Later creator k p s r) (privilege_words y) else []) object_kinds)
                | None \<Rightarrow> [])
           | _ \<Rightarrow> [])
      | _ \<Rightarrow> [])"
| "grants_of _ = []"

lemma keywords_privilege_list [simp]: "privilege_words (privilege_list ps) = ps"
  by (induction ps) (simp_all add: privilege_list_def)

lemma as_ident_ident [simp]: "as_ident (ident n) = Some n" "as_ident (privilege_list ps) = None"
  by (simp_all add: ident_def privilege_list_def)

lemma grants_of_now:
  "k \<in> {''TABLES'', ''SEQUENCES'', ''FUNCTIONS''} \<Longrightarrow>
   grants_of (grant_on_all ps k s r) = map (\<lambda>p. Grant_Now k p s r) ps"
  by (auto simp: grant_on_all_def object_kinds_def)

lemma grants_of_later:
  "k \<in> set object_kinds \<Longrightarrow> grants_of (default_grant cr s ps k r) = map (\<lambda>p. Grant_Later cr k p s r) ps"
  by (auto simp: default_grant_def object_kinds_def)

lemma grants_of_other:
  "grants_of (Format t [a]) = []" "grants_of (Format t [a, b]) = []"
  by simp_all

section \<open>The model is enforced\<close>

text \<open>The pass over one schema, as \<open>_ensure_schemas\<close> runs it once the schema exists.\<close>

definition schema_grant_pass ::
  "conn \<Rightarrow> string \<Rightarrow> role_names \<Rightarrow> grant_options \<Rightarrow> string list option \<Rightarrow> unit m" where
  "schema_grant_pass c schema roles options creators =
     then_m (apply_schema_privileges c schema roles options)
            (apply_default_privileges c schema roles options creators)"

definition creators_of :: "role_names \<Rightarrow> string list option \<Rightarrow> string list" where
  "creators_of roles creators = (case creators of Some (x # xs) \<Rightarrow> x # xs | _ \<Rightarrow> [rn_owner roles])"

lemma schema_grant_pass_run:
  "schema_grant_pass c schema roles options creators =
     each_m (execute c) (schema_statements schema roles options @ creator_statements schema roles options creators)"
  by (simp add: schema_grant_pass_def schema_statements_run creator_statements_run each_m_append)

lemmas grants_of_pass = grants_of_now grants_of_later grants_of_other

text \<open>What read-only access may consist of.\<close>

definition read_only_grant :: "grant_options \<Rightarrow> grant \<Rightarrow> bool" where
  "read_only_grant options g \<longleftrightarrow>
     (g_objects g \<in> {''TABLES'', ''SEQUENCES''} \<and> g_privilege g = ''SELECT'') \<or>
     (g_objects g = ''FUNCTIONS'' \<and> g_privilege g = ''EXECUTE'' \<and> go_grant_execute_to_read_only options) \<or>
     (g_objects g = ''TYPES'' \<and> g_privilege g = ''USAGE'')"

lemma object_grants_read_only:
  "st \<in> set (object_statements schema role Level_Read_Only options) \<Longrightarrow> g \<in> set (grants_of st) \<Longrightarrow>
     read_only_grant options g"
  by (auto simp: object_statements_def grants_of_now read_only_grant_def split: if_splits)

lemma object_grants_role:
  "st \<in> set (object_statements schema role lv options) \<Longrightarrow> g \<in> set (grants_of st) \<Longrightarrow> g_role g = role"
  by (auto simp: object_statements_def grants_of_now split: if_splits)

lemma default_grants_read_only:
  "st \<in> set (default_statements schema cr role Level_Read_Only options) \<Longrightarrow> g \<in> set (grants_of st) \<Longrightarrow>
     read_only_grant options g"
  by (auto simp: default_statements_def grants_of_later object_kinds_def read_only_grant_def split: if_splits)

lemma default_grants_role:
  "st \<in> set (default_statements schema cr role lv options) \<Longrightarrow> g \<in> set (grants_of st) \<Longrightarrow> g_role g = role"
  by (auto simp: default_statements_def grants_of_later object_kinds_def split: if_splits)

lemma pass_grants_to_reader:
  assumes st: "st \<in> set (schema_statements schema roles options @ creator_statements schema roles options creators)"
    and g: "g \<in> set (grants_of st)" "g_role g = rn_read_only roles" "rn_read_only roles \<noteq> rn_read_write roles"
  shows "read_only_grant options g"
proof -
  have "(\<exists>lv role. (lv, role) \<in> set (reader_levels roles) \<and>
      (st \<in> set (object_statements schema role lv options) \<or>
       (\<exists>cr. st \<in> set (default_statements schema cr role lv options))))"
  proof (cases "st \<in> set (creator_statements schema roles options creators)")
    case True
    then show ?thesis unfolding creator_statements_def by fastforce
  next
    case False
    with st have "st \<in> set (schema_statements schema roles options)" by simp
    moreover have "grants_of (Format t [a]) = []" "grants_of (Format t [a, b]) = []" for t a b
      by (rule grants_of_other)+
    ultimately show ?thesis
      using g(1) unfolding schema_statements_def
      by (auto simp del: grants_of.simps simp: reader_levels_def split: if_splits)
  qed
  then obtain lv role where lv: "(lv, role) \<in> set (reader_levels roles)"
    and in_level: "st \<in> set (object_statements schema role lv options) \<or>
       (\<exists>cr. st \<in> set (default_statements schema cr role lv options))" by blast
  have "g_role g = role"
    using in_level object_grants_role [OF _ g(1)] default_grants_role [OF _ g(1)] by blast
  with lv g(2,3) have "lv = Level_Read_Only" by (auto simp: reader_levels_def)
  with in_level show ?thesis
    using object_grants_read_only [OF _ g(1)] default_grants_read_only [OF _ g(1)] by blast
qed


definition granted :: "conn \<Rightarrow> event list \<Rightarrow> grant \<Rightarrow> bool" where
  "granted c es g \<longleftrightarrow> (\<exists>st. Executed c st True \<in> set es \<and> g \<in> set (grants_of st))"

text \<open>The privileges of a level on each class of objects.\<close>

definition level_privileges :: "grant_options \<Rightarrow> level \<Rightarrow> (string \<times> string list) list" where
  "level_privileges options lv =
     [(''TABLES'', TABLE_PRIVILEGES lv), (''SEQUENCES'', SEQUENCE_PRIVILEGES lv),
      (''FUNCTIONS'', if lv = Level_Read_Write \<or> go_grant_execute_to_read_only options
                      then ROUTINE_PRIVILEGES lv else [])]"

lemma object_grants_complete:
  assumes "(k, ps) \<in> set (level_privileges options lv)" "p \<in> set ps"
  shows "\<exists>st \<in> set (object_statements schema role lv options). Grant_Now k p schema role \<in> set (grants_of st)"
  using assms by (auto simp: level_privileges_def object_statements_def grants_of_now split: if_splits)

lemma default_grants_complete:
  assumes "(k, ps) \<in> set (level_privileges options lv @ [(''TYPES'', TYPE_PRIVILEGES lv)])" "p \<in> set ps"
  shows "\<exists>st \<in> set (default_statements schema cr role lv options).
           Grant_Later cr k p schema role \<in> set (grants_of st)"
  using assms by (auto simp: level_privileges_def default_statements_def grants_of_later object_kinds_def split: if_splits)

text \<open>
  A pass that succeeds has granted the whole matrix: each reader group holds every privilege of its
  level on the existing tables, sequences and functions of the schema, and by default privileges on those
  (and the types) every creator will make.
\<close>

theorem grant_pass_complete:
  assumes "schema_grant_pass c schema roles options creators E w = (Inr u, w')"
  shows "\<exists>es. trace w' = trace w @ es \<and>
    (\<forall>(lv, role) \<in> set (reader_levels roles).
       (\<forall>(k, ps) \<in> set (level_privileges options lv). \<forall>p \<in> set ps. granted c es (Grant_Now k p schema role)) \<and>
       (\<forall>cr \<in> set (creators_of roles creators).
          \<forall>(k, ps) \<in> set (level_privileges options lv @ [(''TYPES'', TYPE_PRIVILEGES lv)]). \<forall>p \<in> set ps.
            granted c es (Grant_Later cr k p schema role)))"
proof -
  let ?ss = "schema_statements schema roles options @ creator_statements schema roles options creators"
  have tr: "trace w' = trace w @ map (\<lambda>s. Executed c s True) ?ss"
    using each_execute_success [OF assms [unfolded schema_grant_pass_run]] by simp
  have run: "granted c (map (\<lambda>s. Executed c s True) ?ss) g" if "st \<in> set ?ss" "g \<in> set (grants_of st)" for st g
    using that unfolding granted_def by auto
  have now: "granted c (map (\<lambda>s. Executed c s True) ?ss) (Grant_Now k p schema role)"
    if "(lv, role) \<in> set (reader_levels roles)" "(k, ps) \<in> set (level_privileges options lv)" "p \<in> set ps" for lv role k ps p
  proof -
    from object_grants_complete [OF that(2,3)] obtain st where "st \<in> set (object_statements schema role lv options)"
      "Grant_Now k p schema role \<in> set (grants_of st)" by blast
    with that(1) show ?thesis by (intro run [of st]) (auto simp: schema_statements_def)
  qed
  have later: "granted c (map (\<lambda>s. Executed c s True) ?ss) (Grant_Later cr k p schema role)"
    if "(lv, role) \<in> set (reader_levels roles)" "cr \<in> set (creators_of roles creators)"
      "(k, ps) \<in> set (level_privileges options lv @ [(''TYPES'', TYPE_PRIVILEGES lv)])" "p \<in> set ps" for lv role cr k ps p
  proof -
    from default_grants_complete [OF that(3,4)] obtain st where "st \<in> set (default_statements schema cr role lv options)"
      "Grant_Later cr k p schema role \<in> set (grants_of st)" by blast
    with that(1,2) show ?thesis by (intro run [of st]) (auto simp: creator_statements_def creators_of_def)
  qed
  show ?thesis
    by (intro exI conjI, rule tr, safe; (rule now | rule later); assumption)
qed

section \<open>Examples\<close>

definition sample_roles :: role_names where
  "sample_roles = \<lparr>rn_owner = ''orders_owner'', rn_read_write = ''orders_rw'', rn_read_only = ''orders_ro''\<rparr>"

definition sample_options :: grant_options where
  "sample_options = \<lparr>go_revoke_public_schema_create = True, go_grant_execute_to_read_only = True,
     go_public_schema_locked = True\<rparr>"


theorem grant_pass_complete_witness:
  "\<exists>w' es. schema_grant_pass sample_conn ''app'' sample_roles sample_options None sample_env empty_world = (Inr (), w') \<and>
     trace w' = trace empty_world @ es \<and>
     granted sample_conn es (Grant_Now ''TABLES'' ''SELECT'' ''app'' ''orders_ro'') \<and>
     granted sample_conn es (Grant_Later ''orders_owner'' ''TABLES'' ''INSERT'' ''app'' ''orders_rw'')"
proof -
  obtain w' where w: "schema_grant_pass sample_conn ''app'' sample_roles sample_options None sample_env empty_world = (Inr (), w')"
    unfolding schema_grant_pass_run using each_execute_ok [of sample_env] by (metis sample_env_accepts)
  show ?thesis
    using grant_pass_complete [OF w] w
    by (auto simp: reader_levels_def sample_roles_def level_privileges_def creators_of_def)
qed

end
