(* ===== verification/DatabaseReconcile.thy ===== *)
theory DatabaseReconcile
  imports Context Roles Privileges
begin

text \<open>
  \<open>reconcile/database.py\<close>: one convergence pass over a PostgresDB, its teardown and its status. The result
  object that the code fills in is a record passed along; a pass that raises has no result. The lemmas say
  what is created and granted, that nothing is dropped under RETAIN, which orphans may be dropped under
  DROP, and how a database is dropped.
\<close>

section \<open>Results\<close>

record database_result =
  dr_database :: string
  dr_roles :: role_names
  dr_created :: bool
  dr_changes :: "string list"
  dr_orphaned_schemas :: "string list"
  dr_orphaned_extensions :: "string list"
  dr_unmanaged_schemas :: "string list"
  dr_unowned_schemas :: "string list"
  dr_denied_parameters :: "string list"
  dr_immutable_drift :: "string list"
  dr_unmanageable_creators :: "string list"
  dr_managed_schemas :: "string list"
  dr_managed_extensions :: "string list"
  dr_observed :: database_observation
  dr_schema_grants :: "(string \<times> string list) list"
  dr_retention :: retention

definition new_result :: "string \<Rightarrow> role_names \<Rightarrow> retention \<Rightarrow> database_result" where
  "new_result database roles retention =
     \<lparr>dr_database = database, dr_roles = roles, dr_created = False, dr_changes = [], dr_orphaned_schemas = [],
      dr_orphaned_extensions = [], dr_unmanaged_schemas = [], dr_unowned_schemas = [], dr_denied_parameters = [],
      dr_immutable_drift = [], dr_unmanageable_creators = [], dr_managed_schemas = [], dr_managed_extensions = [],
      dr_observed = \<lparr>ob_schemas = [], ob_extensions = [], ob_parameters = []\<rparr>, dr_schema_grants = [],
      dr_retention = retention\<rparr>"

definition result_message :: "database_result \<Rightarrow> string" where
  "result_message r =
     (if dr_created r then ''created database '' @ dr_database r
      else if dr_changes r \<noteq> [] then ''converged '' @ dr_database r @ '': '' @ join_with ''; '' (take 8 (dr_changes r))
      else dr_database r @ '' in sync'')"

definition changed :: "string \<Rightarrow> database_result \<Rightarrow> database_result" where
  "changed msg r = r\<lparr>dr_changes := dr_changes r @ [msg]\<rparr>"

definition drift :: "string \<Rightarrow> database_result \<Rightarrow> database_result" where
  "drift msg r = r\<lparr>dr_immutable_drift := dr_immutable_drift r @ [msg]\<rparr>"

definition BASELINE_EXTENSIONS :: "string list" where
  "BASELINE_EXTENSIONS = [''plpgsql'']"

definition normalise_encoding :: "string \<Rightarrow> string" where
  "normalise_encoding value = filter (\<lambda>c. c \<noteq> CHR ''-'' \<and> \<not> is_underscore c) (map upper_char value)"

text \<open>\<open>_parse_spec\<close> and \<open>_derive_names\<close>: failures are configuration errors.\<close>

definition parse_spec :: "database_obj \<Rightarrow> database_spec m" where
  "parse_spec obj = (case parse_database_spec (do_spec obj) of
      Inl e \<Rightarrow> raise_m ConfigurationError (''invalid spec: '' @ err_text e)
    | Inr s \<Rightarrow> ret_m s)"

definition derive_names :: "database_spec \<Rightarrow> string \<Rightarrow> string \<Rightarrow> (string \<times> role_names) m" where
  "derive_names spec resource_name prefix =
     bind_m (asks sha_of) (\<lambda>h.
       case bind_r (resolve_database_name h spec resource_name) (\<lambda>database.
            bind_r (resolve_role_names h spec database prefix) (\<lambda>roles. Inr (database, roles))) of
         Inl e \<Rightarrow> if instance_of e Value_Error then raise_m ConfigurationError (''invalid spec: '' @ err_text e)
                  else throw_m e
       | Inr p \<Rightarrow> ret_m p)"

section \<open>Phase 1: cluster-wide objects\<close>

definition owner_creators ::
  "conn \<Rightarrow> role_names \<Rightarrow> database_result \<Rightarrow> bool \<Rightarrow> (string list \<times> database_result) m" where
  "owner_creators c roles result per_grant_options =
     bind_m (current_user c) (\<lambda>current.
     bind_m (members_of c (rn_owner roles)) (\<lambda>members.
     fold_m (\<lambda>(creators, result) member.
         catch_m ReconcileFailure
           (then_m (ensure_self_membership c member per_grant_options) (ret_m (creators @ [member], result)))
           (\<lambda>_. ret_m (creators,
              result\<lparr>dr_unmanageable_creators := dr_unmanageable_creators result @ [member]\<rparr>)))
       ([], result) (sorted_set (filter (\<lambda>m. m \<notin> set (current # all_roles roles)) members))))"

definition ensure_group_roles :: "conn \<Rightarrow> role_names \<Rightarrow> database_result \<Rightarrow> bool \<Rightarrow> database_result m" where
  "ensure_group_roles c roles result per_grant_options =
     bind_m (fold_m (\<lambda>result role.
         bind_m (ensure_group_role c role) (\<lambda>created.
           ret_m (if created then changed (''created group role '' @ role) result else result)))
       result (all_roles roles)) (\<lambda>result.
     then_m (ensure_self_membership c (rn_owner roles) per_grant_options) (ret_m result))"

text \<open>Encoding and locale cannot be altered: a difference is reported.\<close>

definition note_immutable :: "database_spec \<Rightarrow> database_state \<Rightarrow> database_result \<Rightarrow> database_result" where
  "note_immutable spec state result =
     (let result = (if normalise_encoding (ds_encoding state) \<noteq> normalise_encoding (db_encoding spec)
            then drift (''encoding is '' @ ds_encoding state @ '', spec requests '' @ db_encoding spec @
                        '' (fixed at creation; requires a dump and reload to change)'') result else result);
          result = (if given (db_lc_collate spec) \<and> given (ds_collate state) \<and> ds_collate state \<noteq> db_lc_collate spec
            then drift (''lc_collate is '' @ the (ds_collate state) @ '', spec requests '' @ the (db_lc_collate spec) @
                        '' (fixed at creation)'') result else result)
      in (if given (db_lc_ctype spec) \<and> given (ds_ctype state) \<and> ds_ctype state \<noteq> db_lc_ctype spec
            then drift (''lc_ctype is '' @ the (ds_ctype state) @ '', spec requests '' @ the (db_lc_ctype spec) @
                        '' (fixed at creation)'') result else result))"

definition ensure_database ::
  "conn \<Rightarrow> database_spec \<Rightarrow> string \<Rightarrow> role_names \<Rightarrow> database_result \<Rightarrow> database_result m" where
  "ensure_database c spec database roles result =
     bind_m (get_database c database) (\<lambda>state. case state of
       None \<Rightarrow>
         then_m (create_database c database (rn_owner roles) (db_encoding spec) (db_template spec)
                   (db_lc_collate spec) (db_lc_ctype spec) (db_connection_limit spec))
           (ret_m (changed (''created database '' @ database) (result\<lparr>dr_created := True\<rparr>)))
     | Some st \<Rightarrow>
         let result = note_immutable spec st result
         in bind_m (if ds_owner st \<noteq> rn_owner roles
              then then_m (set_database_owner c database (rn_owner roles))
                     (ret_m (changed (''reassigned database owner to '' @ rn_owner roles) result))
              else ret_m result) (\<lambda>result.
            if ds_connection_limit st \<noteq> db_connection_limit spec
            then then_m (set_database_connection_limit c database (db_connection_limit spec))
                   (ret_m (changed (''set connection limit to '' @ show_int (db_connection_limit spec)) result))
            else ret_m result))"

definition apply_database_privileges :: "conn \<Rightarrow> database_spec \<Rightarrow> string \<Rightarrow> role_names \<Rightarrow> unit m" where
  "apply_database_privileges c spec database roles =
     then_m (when_m (db_revoke_public_connect spec) (revoke_public_database_privileges c database))
    (then_m (grant_database_connect c database [rn_owner roles, rn_read_write roles] True)
            (grant_database_connect c database [rn_read_only roles] False))"

definition apply_database_attributes ::
  "conn \<Rightarrow> database_spec \<Rightarrow> string \<Rightarrow> database_result \<Rightarrow> database_result m" where
  "apply_database_attributes c spec database result =
     bind_m (get_database_parameters c database) (\<lambda>observed.
     bind_m (apply_database_parameters c database (db_parameters spec) observed) (\<lambda>outcome.
     let result = result\<lparr>dr_changes := dr_changes result @ po_changes outcome,
                         dr_denied_parameters := dr_denied_parameters result @ po_denied outcome\<rparr>
     in then_m (case db_comment spec of None \<Rightarrow> ret_m () | Some text \<Rightarrow> comment_on_database c database text)
          (ret_m result)))"

section \<open>Phase 2: objects in the database\<close>

definition ensure_one_schema ::
  "conn \<Rightarrow> role_names \<Rightarrow> grant_options \<Rightarrow> string list \<Rightarrow> database_result \<Rightarrow> schema_spec \<Rightarrow> database_result m" where
  "ensure_one_schema c roles options creators result schema =
     bind_m (ensure_schema c (sc_name schema) (rn_owner roles)) (\<lambda>outcome.
     let result = (case outcome of
           CREATED \<Rightarrow> changed (''created schema '' @ sc_name schema) result
         | OWNER_CHANGED \<Rightarrow> changed (''reassigned schema '' @ sc_name schema @ '' to '' @ rn_owner roles) result
         | OWNER_DENIED \<Rightarrow> result\<lparr>dr_unowned_schemas := dr_unowned_schemas result @ [sc_name schema]\<rparr>
         | UNCHANGED \<Rightarrow> result)
     in then_m (if outcome \<noteq> OWNER_DENIED
                then (case sc_comment schema of None \<Rightarrow> ret_m () | Some text \<Rightarrow> comment_on_schema c (sc_name schema) text)
                else ret_m ())
       (then_m (apply_schema_privileges c (sc_name schema) roles options)
       (then_m (apply_default_privileges c (sc_name schema) roles options (Some (rn_owner roles # creators)))
          (ret_m result))))"

definition ensure_schemas ::
  "conn \<Rightarrow> schema_spec list \<Rightarrow> role_names \<Rightarrow> grant_options \<Rightarrow> database_result \<Rightarrow> string list \<Rightarrow> database_result m" where
  "ensure_schemas c desired roles options result creators =
     fold_m (ensure_one_schema c roles options creators) result desired"

definition ensure_one_extension ::
  "conn \<Rightarrow> extension_state list \<Rightarrow> string list \<Rightarrow> database_result \<Rightarrow> extension_spec \<Rightarrow> database_result m" where
  "ensure_one_extension c installed available result wanted =
     (if ex_name wanted \<notin> set available
      then ret_m (drift (''extension '' @ py_repr (ex_name wanted) @ '' is not available on this server '' @
             ''(on RDS it must first be added to shared_preload_libraries or included in rds.allowed_extensions)'') result)
      else case find (\<lambda>e. es_name e = ex_name wanted) (rev installed) of
             None \<Rightarrow>
               then_m (create_extension c (ex_name wanted) (ex_schema wanted) (ex_version wanted) (ex_cascade wanted))
                 (ret_m (changed (''created extension '' @ ex_name wanted) result))
           | Some current \<Rightarrow>
               if given (ex_version wanted) \<and> es_version current \<noteq> the (ex_version wanted)
               then then_m (update_extension c (ex_name wanted) (ex_version wanted))
                      (ret_m (changed (''updated extension '' @ ex_name wanted @ '' '' @ es_version current @ '' -> '' @
                         the (ex_version wanted)) result))
               else ret_m result)"

definition ensure_extensions :: "conn \<Rightarrow> database_spec \<Rightarrow> database_result \<Rightarrow> database_result m" where
  "ensure_extensions c spec result =
     (if db_extensions spec = [] then ret_m result
      else bind_m (list_extensions c) (\<lambda>installed.
           bind_m (available_extensions c) (\<lambda>available.
             fold_m (ensure_one_extension c installed available) result (db_extensions spec))))"

text \<open>\<open>sorted((previous - desired) & live)\<close>\<close>

definition orphans :: "string list \<Rightarrow> string list \<Rightarrow> string list \<Rightarrow> string list" where
  "orphans previous desired live = sorted_set (filter (\<lambda>x. x \<notin> set desired \<and> x \<in> set live) previous)"

definition handle_orphans ::
  "conn \<Rightarrow> database_spec \<Rightarrow> schema_spec list \<Rightarrow> database_obj \<Rightarrow> retention \<Rightarrow> database_result \<Rightarrow> database_result m" where
  "handle_orphans c spec desired_schemas obj retention result =
     bind_m (list_schemas c) (\<lambda>live_schemas.
     bind_m (list_extensions c) (\<lambda>live_extensions.
     let orphan_schemas = orphans (do_managed_schemas obj) (map sc_name desired_schemas) (map ss_name live_schemas);
         orphan_extensions = orphans (do_managed_extensions obj) (map ex_name (db_extensions spec))
           (filter (\<lambda>e. e \<notin> set BASELINE_EXTENSIONS) (map es_name live_extensions))
     in if retention = DROP_RESOURCES
        then bind_m (fold_m (\<lambda>result schema.
               bind_m (schema_is_empty c schema) (\<lambda>empty.
               then_m (drop_schema c schema True)
                 (ret_m (changed (''dropped orphaned schema '' @ schema @
                    (if empty then [] else '' (CASCADE, schema was not empty)'')) result))))
               result orphan_schemas) (\<lambda>result.
             fold_m (\<lambda>result extension.
               then_m (drop_extension c extension True)
                 (ret_m (changed (''dropped orphaned extension '' @ extension) result)))
               result orphan_extensions)
        else ret_m (result\<lparr>dr_orphaned_schemas := orphan_schemas, dr_orphaned_extensions := orphan_extensions\<rparr>)))"

section \<open>The pass\<close>

text \<open>What the next pass will find recorded as managed, and what is reported as unmanaged.\<close>

definition record_managed :: "database_spec \<Rightarrow> schema_spec list \<Rightarrow> database_result \<Rightarrow> database_result" where
  "record_managed spec desired_schemas result =
     (let managed = sorted_set (map sc_name desired_schemas @ dr_orphaned_schemas result);
          extensions = sorted_set (map ex_name (db_extensions spec) @ dr_orphaned_extensions result);
          unmanaged = sorted_set (filter (\<lambda>s. s \<notin> set managed \<and> s \<notin> set (dr_orphaned_schemas result))
                        (map ss_name (ob_schemas (dr_observed result))))
      in result\<lparr>dr_managed_schemas := managed, dr_managed_extensions := extensions, dr_unmanaged_schemas := unmanaged\<rparr>)"

definition reconcile_database :: "database_obj \<Rightarrow> (database_result \<times> resolved_instance) m" where
  "reconcile_database obj =
     bind_m (parse_spec obj) (\<lambda>spec.
     bind_m (resolve_instance (db_instance spec) (do_namespace obj)) (\<lambda>inst.
     bind_m (derive_names spec (do_name obj) (is_role_prefix (ri_spec inst))) (\<lambda>(database, roles).
     let retention = effective_retention (db_retention spec) (is_retention (ri_spec inst));
         result = new_result database roles retention;
         options = \<lparr>go_revoke_public_schema_create = db_revoke_public_schema_create spec,
                    go_grant_execute_to_read_only = db_grant_execute_to_read_only spec,
                    go_public_schema_locked = public_schema_is_locked_down (ri_server inst)\<rparr>;
         per_grant = supports_per_grant_options (ri_server inst);
         desired_schemas = resolve_schemas spec
     in bind_m (ctx_connect inst None) (\<lambda>c.
        bind_m (ensure_group_roles c roles result per_grant) (\<lambda>result.
        bind_m (ensure_database c spec database roles result) (\<lambda>result.
        then_m (apply_database_privileges c spec database roles)
       (bind_m (apply_database_attributes c spec database result) (\<lambda>result.
        bind_m (if \<not> db_set_role_for_owners spec then owner_creators c roles result per_grant
                else ret_m ([], result)) (\<lambda>(creators, result).
        bind_m (ctx_connect inst (Some database)) (\<lambda>c.
        bind_m (ensure_schemas c desired_schemas roles options result creators) (\<lambda>result.
        bind_m (ensure_extensions c spec result) (\<lambda>result.
        bind_m (handle_orphans c spec desired_schemas obj retention result) (\<lambda>result.
        bind_m (observe c database) (\<lambda>observed.
        bind_m (observed_schema_grants c roles) (\<lambda>grants.
          ret_m (record_managed spec desired_schemas (result\<lparr>dr_observed := observed, dr_schema_grants := grants\<rparr>),
                 inst))))))))))))))))"

section \<open>Teardown\<close>

text \<open>\<open>replications_using\<close> of \<open>reconcile/replication.py\<close>, over raw specs.\<close>

definition uses :: "string \<Rightarrow> string \<Rightarrow> replication_obj \<Rightarrow> raw_ref \<Rightarrow> bool" where
  "uses namespace name r ref \<longleftrightarrow>
     rr_name ref = Some name \<and> or_text (rr_namespace ref) (lo_namespace r) = namespace"

definition replications_using :: "string \<Rightarrow> string \<Rightarrow> string list m" where
  "replications_using namespace name =
     bind_m (k8s_ask K_List_Replications says_replications) (\<lambda>all.
       ret_m (concat (map (\<lambda>r.
         map (\<lambda>(side, _). lo_namespace r @ ''/'' @ lo_name r @ '' ('' @ side @ '')'')
           (filter (\<lambda>(_, ref). uses namespace name r ref) [(''source'', lo_source r), (''target'', lo_target r)])) all)))"

definition evict_sessions :: "conn \<Rightarrow> string \<Rightarrow> server_info \<Rightarrow> (nat \<times> string list) m" where
  "evict_sessions c database server =
     bind_m (connection_roles c database) (\<lambda>roles.
     then_m (each_m (\<lambda>role. catch_m ReconcileFailure
               (ensure_self_membership c role (supports_per_grant_options server)) (\<lambda>_. ret_m ())) roles)
       (terminate_connections c database))"

definition drop_with_fallback :: "conn \<Rightarrow> string \<Rightarrow> server_info \<Rightarrow> unit m" where
  "drop_with_fallback c database server =
     catch_m ReconcileFailure
       (drop_database c database (supports_drop_database_force server))
       (\<lambda>e. if \<not> supports_drop_database_force server then throw_m e else drop_database c database False)"

definition drop_database_safely :: "conn \<Rightarrow> string \<Rightarrow> server_info \<Rightarrow> unit m" where
  "drop_database_safely c database server =
     then_m (set_allow_connections c database False)
      (catch_m Base_Exception
        (bind_m (evict_sessions c database server) (\<lambda>_. drop_with_fallback c database server))
        (\<lambda>e. then_m (set_allow_connections c database True) (throw_m e)))"

definition drop_roles :: "conn \<Rightarrow> string list \<Rightarrow> (string list \<times> string list) m" where
  "drop_roles c roles =
     fold_m (\<lambda>(dropped, blocked) role.
       bind_m (role_exists c role) (\<lambda>present.
         if \<not> present then ret_m (dropped, blocked)
         else bind_m (owned_objects_exist c role) (\<lambda>owns.
           if owns then ret_m (dropped, blocked @ [role])
           else then_m (drop_role c role) (ret_m (dropped @ [role], blocked)))))
       ([], []) roles"

definition teardown_database :: "database_obj \<Rightarrow> string m" where
  "teardown_database obj =
     bind_m (parse_spec obj) (\<lambda>spec.
     bind_m (load_instance_spec (db_instance spec) (do_namespace obj)) (\<lambda>(instance_spec, _).
     bind_m (derive_names spec (do_name obj) (is_role_prefix instance_spec)) (\<lambda>(database, roles).
     if effective_retention (db_retention spec) (is_retention instance_spec) \<noteq> DROP_RESOURCES
     then ret_m (''retained database '' @ database @ '' and group roles '' @ join_with '', '' (all_roles roles) @
            '' on '' @ is_host instance_spec @ '':'' @ show_int (is_port instance_spec))
     else bind_m (replications_using (do_namespace obj) (do_name obj)) (\<lambda>using.
       if using \<noteq> []
       then raise_m ReconcileFailure (''PostgresReplication '' @ join_with '', '' using @ '' still uses database '' @ database @
              ''; delete it first - this teardown retries until it is gone'')
       else bind_m (resolve_instance (db_instance spec) (do_namespace obj)) (\<lambda>inst.
         then_m (close_database (ri_name inst) database)
        (bind_m (ctx_connect inst None) (\<lambda>c.
         bind_m (get_database c database) (\<lambda>state.
         then_m (when_m (state \<noteq> None) (drop_database_safely c database (ri_server inst)))
        (bind_m (drop_roles c (all_roles roles)) (\<lambda>(dropped, blocked).
         ret_m (''dropped database '' @ database @
           (if dropped \<noteq> [] then '' and role(s) '' @ join_with '', '' dropped else []) @
           (if blocked \<noteq> [] then ''; retained role(s) '' @ join_with '', '' blocked @
              '' because they still own other databases'' else []))))))))))))"

section \<open>Statements that drop\<close>

text \<open>The text a statement begins with; a DROP statement is one that begins with DROP.\<close>

fun head_text :: "composed \<Rightarrow> string" where
  "head_text (SQL t) = t"
| "head_text (Format t cs) = (case cs of c # _ \<Rightarrow> if starts_with ''{}'' t then head_text c else t | [] \<Rightarrow> t)"
| "head_text (Join s cs) = (case cs of c # _ \<Rightarrow> head_text c | [] \<Rightarrow> [])"
| "head_text _ = []"

definition drops :: "composed \<Rightarrow> bool" where
  "drops st \<longleftrightarrow> starts_with ''DROP'' (head_text st)"

definition no_drop :: "event \<Rightarrow> bool" where
  "no_drop e \<longleftrightarrow> (\<forall>st. statement_of e = Some st \<longrightarrow> \<not> drops st)"

lemma no_drop_simps [simp]: "no_drop (Executed c st ok) \<longleftrightarrow> \<not> drops st" "no_drop (Asked c q)"
  "no_drop (Connected c ok)" "no_drop (Opened_Pool i d)" "no_drop (Closed_Pool i d)" "no_drop (Wrote_File f)" "no_drop (K8s r)"
  by (simp_all add: no_drop_def)

lemma drops_simps [simp]:
  "drops (drop_schema_statement n b)" "drops (drop_extension_statement n b)" "drops (drop_database_statement n b)"
  "drops (drop_role_statement n)"
  by (simp_all add: drops_def drop_schema_statement_def drop_extension_statement_def drop_database_statement_def
      drop_role_statement_def Let_def)

text \<open>Role, membership and setting operations.\<close>

named_theorems quiet \<open>operations that send no DROP statement\<close>

lemma quiet_roles [quiet]:
  "emits E no_drop (get_role c n)" "emits E no_drop (role_exists c n)" "emits E no_drop (ensure_group_role c n)"
  "emits E no_drop (members_of c n)" "emits E no_drop (current_user c)" "emits E no_drop (ensure_self_membership c n pg)"
  "emits E no_drop (owned_objects_exist c n)"
proof -
  show r: "emits E no_drop (get_role c n)" for n
    unfolding get_role_def by (intro emits_rules) simp
  show "emits E no_drop (role_exists c n)"
    unfolding role_exists_def by (intro emits_rules r)
  show "emits E no_drop (ensure_group_role c n)"
    unfolding ensure_group_role_def by (intro emits_rules r) (simp_all add: drops_def alter_role_with_def)
  show "emits E no_drop (members_of c n)"
    unfolding members_of_def by (intro emits_rules) simp
  show u: "emits E no_drop (current_user c)"
    unfolding current_user_def by (intro emits_rules) simp
  show "emits E no_drop (ensure_self_membership c n pg)"
    unfolding ensure_self_membership_def grant_membership_def Let_def
    by (intro emits_rules u) (simp_all add: drops_def self_grant_def)
  show "emits E no_drop (owned_objects_exist c n)"
    unfolding owned_objects_exist_def by (intro emits_rules) simp
qed

lemma quiet_database [quiet]:
  "emits E no_drop (get_database c n)" "emits E no_drop (create_database c n o' e t lc lt l)"
  "emits E no_drop (set_database_owner c n o')" "emits E no_drop (set_database_connection_limit c n l)"
  "emits E no_drop (comment_on_database c n cm)" "emits E no_drop (get_database_parameters c n)"
  "emits E no_drop (apply_database_parameters c n ps obs)" "emits E no_drop (revoke_public_database_privileges c n)"
  "emits E no_drop (grant_database_connect c n rs b)" "emits E no_drop (connection_roles c n)"
  "emits E no_drop (terminate_connections c n)" "emits E no_drop (set_allow_connections c n b)"
  unfolding get_database_def create_database_def set_database_owner_def set_database_connection_limit_def
    comment_on_database_def get_database_parameters_def apply_database_parameters_def try_parameter_def
    revoke_public_database_privileges_def grant_database_connect_def connection_roles_def terminate_connections_def
    set_allow_connections_def
  by (intro emits_rules; simp add: drops_def create_database_statement_def set_database_statement_def
      reset_database_statement_def allow_connections_statement_def Let_def split: prod.split)+

lemma quiet_objects [quiet]:
  "emits E no_drop (list_schemas c)" "emits E no_drop (list_extensions c)" "emits E no_drop (available_extensions c)"
  "emits E no_drop (ensure_schema c n o')" "emits E no_drop (comment_on_schema c n cm)"
  "emits E no_drop (schema_is_empty c n)" "emits E no_drop (create_extension c n s v b)"
  "emits E no_drop (update_extension c n v)" "emits E no_drop (observed_schema_grants c roles)"
  unfolding list_schemas_def list_extensions_def available_extensions_def ensure_schema_def comment_on_schema_def
    schema_is_empty_def create_extension_def update_extension_def observed_schema_grants_def Let_def
  by (intro emits_rules; simp add: drops_def create_extension_statement_def Let_def)+

lemma quiet_grants [quiet]:
  "emits E no_drop (apply_schema_privileges c s roles options)"
  "emits E no_drop (apply_default_privileges c s roles options creators)"
  unfolding apply_schema_privileges_def grant_existing_objects_def apply_default_privileges_def default_privileges_for_def
  by (intro emits_rules; simp add: drops_def grant_on_all_def default_grant_def)+

lemma quiet_cluster [quiet]:
  "emits E no_drop (get_instance n)" "emits E no_drop (read_secret ns n)" "emits E no_drop (read_secret_key ns n k)"
  "emits E no_drop (decode_m bs)" "emits E no_drop (materialise_ca_bundle n pem)"
  "emits E no_drop (pool_for ep d)" "emits E no_drop (close_database i d)" "emits E no_drop (describe_server c)"
proof -
  show "emits E no_drop (get_instance n)"
    unfolding get_instance_def rename_not_found_def by (intro emits_rules) simp_all
  show s: "emits E no_drop (read_secret ns n)"
    unfolding read_secret_def rename_not_found_def by (intro emits_rules) simp_all
  show "emits E no_drop (read_secret_key ns n k)"
    unfolding read_secret_key_def by (intro emits_rules s)
  show "emits E no_drop (decode_m bs)"
    unfolding decode_m_def by (intro emits_rules)
  show "emits E no_drop (materialise_ca_bundle n pem)"
    unfolding materialise_ca_bundle_def by (intro emits_rules) simp
  show "emits E no_drop (pool_for ep d)"
    unfolding pool_for_def Let_def by (intro emits_rules) simp_all
  show "emits E no_drop (close_database i d)"
    unfolding close_database_def by (intro emits_rules) simp
  show "emits E no_drop (describe_server c)"
    unfolding describe_server_def by (intro emits_rules) simp_all
qed

lemma quiet_connection [quiet]: "emits E no_drop (connection ep d)"
  unfolding connection_def Let_def
  by (intro emits_rules quiet; simp split: connect_error.split add: emits_rules)

lemma quiet_context [quiet]:
  "emits E no_drop (load_instance_spec n ns)" "emits E no_drop (build_endpoint n spec)"
  "emits E no_drop (describe_cached ep)" "emits E no_drop (resolve_instance n ns)" "emits E no_drop (ctx_connect i d)"
proof -
  show l: "emits E no_drop (load_instance_spec n ns)" for n ns
    unfolding load_instance_spec_def by (intro emits_rules quiet)
  show b: "emits E no_drop (build_endpoint n spec)" for n spec
    unfolding build_endpoint_def Let_def by (intro emits_rules quiet)
  show d: "emits E no_drop (describe_cached ep)" for ep
    unfolding describe_cached_def by (intro emits_rules quiet)
  show "emits E no_drop (resolve_instance n ns)"
    unfolding resolve_instance_def by (intro emits_rules l b d)
  show "emits E no_drop (ctx_connect i d)"
    unfolding ctx_connect_def by (intro quiet)
qed

lemma quiet_phases [quiet]:
  "emits E no_drop (parse_spec obj)" "emits E no_drop (derive_names spec n p)"
  "emits E no_drop (owner_creators c roles r pg)" "emits E no_drop (ensure_group_roles c roles r pg)"
  "emits E no_drop (ensure_database c spec d roles r)" "emits E no_drop (apply_database_privileges c spec d roles)"
  "emits E no_drop (apply_database_attributes c spec d r)" "emits E no_drop (ensure_schemas c ds roles options r cs)"
  "emits E no_drop (ensure_extensions c spec r)" "emits E no_drop (observe c d)"
  "emits E no_drop (replications_using ns n)"
proof -
  show "emits E no_drop (parse_spec obj)" "emits E no_drop (derive_names spec n p)"
    unfolding parse_spec_def derive_names_def
    by (intro emits_rules)+
  show "emits E no_drop (owner_creators c roles r pg)"
    unfolding owner_creators_def by (intro emits_rules quiet)
  show "emits E no_drop (ensure_group_roles c roles r pg)"
    unfolding ensure_group_roles_def by (intro emits_rules quiet)
  show "emits E no_drop (ensure_database c spec d roles r)"
    unfolding ensure_database_def Let_def by (intro emits_rules quiet)
  show "emits E no_drop (apply_database_privileges c spec d roles)"
    unfolding apply_database_privileges_def by (intro emits_rules quiet)
  show "emits E no_drop (apply_database_attributes c spec d r)"
    unfolding apply_database_attributes_def Let_def by (intro emits_rules quiet)
  show "emits E no_drop (ensure_schemas c ds roles options r cs)"
    unfolding ensure_schemas_def ensure_one_schema_def Let_def by (intro emits_rules quiet)
  show "emits E no_drop (ensure_extensions c spec r)"
    unfolding ensure_extensions_def ensure_one_extension_def by (intro emits_rules quiet)
  show "emits E no_drop (observe c d)"
    unfolding observe_def by (intro emits_rules quiet)
  show "emits E no_drop (replications_using ns n)"
    unfolding replications_using_def by (intro emits_rules) simp
qed

section \<open>What may be dropped\<close>

text \<open>The drops a reconcile pass is entitled to: recorded as managed, no longer declared, and neither the
  \<open>public\<close> schema nor a baseline extension.\<close>

definition entitled_drop :: "database_obj \<Rightarrow> database_spec \<Rightarrow> composed \<Rightarrow> bool" where
  "entitled_drop obj spec st \<longleftrightarrow>
     (\<exists>s. st = drop_schema_statement s True \<and> s \<in> set (do_managed_schemas obj) \<and>
        s \<notin> sc_name ` set (db_schemas spec) \<and> s \<noteq> ''public'') \<or>
     (\<exists>e. st = drop_extension_statement e True \<and> e \<in> set (do_managed_extensions obj) \<and>
        e \<notin> ex_name ` set (db_extensions spec) \<and> e \<notin> set BASELINE_EXTENSIONS)"

definition drops_entitled :: "database_obj \<Rightarrow> database_spec \<Rightarrow> event \<Rightarrow> bool" where
  "drops_entitled obj spec e \<longleftrightarrow> (\<forall>st. statement_of e = Some st \<longrightarrow> drops st \<longrightarrow> entitled_drop obj spec st)"

lemma no_drop_entitled: "no_drop e \<Longrightarrow> drops_entitled obj spec e"
  by (simp add: no_drop_def drops_entitled_def)

lemma orphans_iff: "x \<in> set (orphans previous desired live) \<longleftrightarrow> x \<in> set previous \<and> x \<notin> set desired \<and> x \<in> set live"
  by (auto simp: orphans_def)

lemma resolve_schemas_names: "sc_name ` set (resolve_schemas spec) = insert ''public'' (sc_name ` set (db_schemas spec))"
  by (auto simp: resolve_schemas_def intro: rev_image_eqI)

lemma orphan_schema_entitled:
  "s \<in> set (orphans (do_managed_schemas obj) (map sc_name (resolve_schemas spec)) live) \<Longrightarrow>
   drops_entitled obj spec (Executed c (drop_schema_statement s True) ok)"
  by (auto simp: drops_entitled_def entitled_drop_def orphans_iff resolve_schemas_names)

lemma orphan_extension_entitled:
  "e \<in> set (orphans (do_managed_extensions obj) (map ex_name (db_extensions spec)) (filter (\<lambda>e. e \<notin> set BASELINE_EXTENSIONS) live)) \<Longrightarrow>
   drops_entitled obj spec (Executed c (drop_extension_statement e True) ok)"
  by (auto simp: drops_entitled_def entitled_drop_def orphans_iff)

lemma handle_orphans_entitled:
  "emits E (drops_entitled obj spec) (handle_orphans c spec (resolve_schemas spec) obj retention result)"
proof -
  note q = quiet [THEN emits_mono [OF _ no_drop_entitled]]
  show ?thesis
    unfolding handle_orphans_def Let_def drop_schema_def drop_extension_def
    by (intro emits_rules q orphan_schema_entitled orphan_extension_entitled)
qed

lemma handle_orphans_retained: "emits E no_drop (handle_orphans c spec ds obj RETAIN result)"
  unfolding handle_orphans_def Let_def by (simp, intro emits_rules quiet)

lemma parse_spec_ok: "parse_database_spec (do_spec obj) = Inr spec \<Longrightarrow> parse_spec obj = ret_m spec"
  by (simp add: parse_spec_def)

text \<open>Everything but the treatment of orphans sends no DROP.\<close>

lemma reconcile_emits:
  assumes spec: "parse_database_spec (do_spec obj) = Inr spec"
    and P: "\<And>e. no_drop e \<Longrightarrow> P e"
    and policy: "gives E (\<lambda>i. Q (effective_retention (db_retention spec) (is_retention (ri_spec i))))
                   (resolve_instance (db_instance spec) (do_namespace obj))"
    and orphans: "\<And>c ret r. Q ret \<Longrightarrow> emits E P (handle_orphans c spec (resolve_schemas spec) obj ret r)"
  shows "emits E P (reconcile_database obj)"
proof -
  note q = quiet [THEN emits_mono [OF _ P]]
  show ?thesis
    unfolding reconcile_database_def parse_spec_ok [OF spec] bind_ret Let_def
    by (rule emits_bind_gives [OF _ policy]) (intro emits_rules q orphans; assumption)+
qed

lemma get_instance_gives: "gives E (\<lambda>io. \<exists>h. says_instance E h n = Inr io) (get_instance n)"
  by (auto simp: gives_def get_instance_def rename_not_found_def k8s_ask_def run_simps split: if_splits sum.splits prod.splits)

lemma load_instance_gives_spec:
  "gives E (\<lambda>(s, g). \<exists>h io. says_instance E h n = Inr io \<and> parse_instance_spec (io_spec io) = Inr s) (load_instance_spec n ns)"
  unfolding load_instance_spec_def
  by (rule gives_bindI [OF get_instance_gives]) (auto intro!: gives_ret gives_raise split: sum.split)

lemma resolve_instance_gives_spec:
  "gives E (\<lambda>i. \<exists>h io. says_instance E h n = Inr io \<and> parse_instance_spec (io_spec io) = Inr (ri_spec i)) (resolve_instance n ns)"
  unfolding resolve_instance_def
  by (rule gives_bindI [OF load_instance_gives_spec], clarify, rule gives_bindI [OF gives_True], rule gives_bindI [OF gives_True])
    (auto intro!: gives_ret gives_raise split: option.split, blast+)

text \<open>The policy in force is RETAIN, whatever the instance says at the time.\<close>

definition retains :: "env \<Rightarrow> database_spec \<Rightarrow> bool" where
  "retains E spec \<longleftrightarrow> (\<forall>h io inst. says_instance E h (db_instance spec) = Inr io \<longrightarrow>
     parse_instance_spec (io_spec io) = Inr inst \<longrightarrow> effective_retention (db_retention spec) (is_retention inst) = RETAIN)"

lemma retains_explicit: "db_retention spec = Some RETAIN \<Longrightarrow> retains E spec"
  by (simp add: retains_def effective_retention_def)

lemma emits_get_instance: "emits E (\<lambda>e. e = K8s (K_Get_Instance n)) (get_instance n)"
  unfolding get_instance_def rename_not_found_def by (intro emits_rules) simp

text \<open>
  C4. RETAIN destroys nothing: while the policy in force is RETAIN, no reconcile pass - whatever it finds,
  whatever fails - sends a DROP statement, and deleting the resource reads its instance's spec and touches
  nothing at all on the server.
\<close>

theorem retain_never_drops:
  assumes "parse_database_spec (do_spec obj) = Inr spec" "retains E spec"
  shows "emits E no_drop (reconcile_database obj) \<and>
    emits E (\<lambda>e. e = K8s (K_Get_Instance (db_instance spec))) (teardown_database obj)"
proof
  have policy: "gives E (\<lambda>i. effective_retention (db_retention spec) (is_retention (ri_spec i)) = RETAIN)
      (resolve_instance (db_instance spec) ns)" for ns
    using resolve_instance_gives_spec assms(2) unfolding gives_def retains_def by metis
  show "emits E no_drop (reconcile_database obj)"
    by (rule reconcile_emits [OF assms(1) _ policy [where ns = "do_namespace obj"]]) (simp_all add: handle_orphans_retained)
  have load: "gives E (\<lambda>(s, g). effective_retention (db_retention spec) (is_retention s) = RETAIN)
      (load_instance_spec (db_instance spec) ns)" for ns
    using load_instance_gives_spec [of E "db_instance spec" ns] assms(2) unfolding gives_def retains_def by fast
  have l: "emits E (\<lambda>e. e = K8s (K_Get_Instance n)) (load_instance_spec n ns)" for n ns
    unfolding load_instance_spec_def by (intro emits_rules emits_get_instance)
  have d: "emits E P (derive_names s n p)" for P s n p
    unfolding derive_names_def by (intro emits_rules)
  show "emits E (\<lambda>e. e = K8s (K_Get_Instance (db_instance spec))) (teardown_database obj)"
    unfolding teardown_database_def parse_spec_ok [OF assms(1)] bind_ret
    by (rule emits_bind_gives [OF l load], clarify, intro emits_rules d; simp add: emits_rules)
qed

definition sample_object :: database_obj where
  "sample_object = \<lparr>do_namespace = ''team-a'', do_name = ''orders'', do_generation = 1,
     do_spec = Inr (sample_database\<lparr>db_retention := Some RETAIN\<rparr>), do_managed_schemas = [''old''],
     do_managed_extensions = [], do_conditions = []\<rparr>"

lemma sample_object_spec: "parse_database_spec (do_spec sample_object) = Inr (sample_database\<lparr>db_retention := Some RETAIN\<rparr>)"
  using sample_database_valid
  by (simp add: sample_object_def parse_database_spec_def model_validate_ok validate_database_spec_def)
    (code_simp)

theorem retain_never_drops_witness:
  "emits sample_env no_drop (reconcile_database sample_object)"
  by (rule retain_never_drops [OF sample_object_spec, THEN conjunct1]) (simp add: retains_explicit)



section \<open>Dropping a database\<close>

lemma evict_appends:
  assumes "evict_sessions c d sv E w = (r, u)"
  shows "\<exists>es. trace u = trace w @ es"
proof -
  note q = quiet [THEN emits_mono [where Q = "\<lambda>_. True", OF _ TrueI]]
  have "emits E (\<lambda>_. True) (evict_sessions c d sv)"
    unfolding evict_sessions_def by (intro emits_rules q TrueI)
  from emits_runD [OF this assms] show ?thesis by blast
qed

text \<open>The drop itself: one or two attempts, and success only with an accepted one.\<close>

lemma drop_with_fallback_run:
  assumes "drop_with_fallback c d sv E w = (r, u)"
  shows "\<exists>es. trace u = trace w @ es \<and>
    (is_ok r \<longrightarrow> es \<noteq> [] \<and> (\<exists>f. last es = Executed c (drop_database_statement d f) True))"
proof -
  let ?f = "supports_drop_database_force sv"
  obtain r1 v1 where d1: "execute c (drop_database_statement d ?f) E w = (r1, v1)"
    by (cases "execute c (drop_database_statement d ?f) E w")
  obtain r2 v2 where d2: "execute c (drop_database_statement d False) E v1 = (r2, v2)"
    by (cases "execute c (drop_database_statement d False) E v1")
  have "(r = r1 \<and> u = v1) \<or> (r = r2 \<and> u = v2)"
    using assms d1 d2 unfolding drop_with_fallback_def drop_database_def
    by (auto simp: catch_run basic_run split: sum.splits if_splits)
  then show ?thesis
  proof
    assume "r = r1 \<and> u = v1"
    then show ?thesis using execute_cases [OF d1] by auto
  next
    assume "r = r2 \<and> u = v2"
    then show ?thesis using execute_cases [OF d1] execute_cases [OF d2] by auto
  qed
qed

lemma drop_body_run:
  assumes "bind_m (evict_sessions c d sv) (\<lambda>_. drop_with_fallback c d sv) E w = (r, u)"
  shows "\<exists>es. trace u = trace w @ es \<and>
    (is_ok r \<longrightarrow> es \<noteq> [] \<and> (\<exists>f. last es = Executed c (drop_database_statement d f) True))"
proof -
  obtain r1 v where v: "evict_sessions c d sv E w = (r1, v)" by (cases "evict_sessions c d sv E w")
  obtain es1 where es1: "trace v = trace w @ es1" using evict_appends [OF v] by blast
  show ?thesis
  proof (cases r1)
    case (Inl e)
    with assms v es1 show ?thesis by (auto simp: bind_run)
  next
    case (Inr x)
    with assms v have "drop_with_fallback c d sv E v = (r, u)" by (simp add: bind_run)
    from drop_with_fallback_run [OF this] es1 show ?thesis by (metis append_assoc append_is_Nil_conv last_append)
  qed
qed

text \<open>
  C15. A database is never left closed without an attempt to reopen it: dropping begins by refusing new
  connections; if that is accepted and anything after it fails, the last thing done is to allow them
  again, and the error is still raised; if the drop returns normally, its last statement was an accepted
  DROP DATABASE.
\<close>

theorem drop_database_safely_outcomes:
  assumes "drop_database_safely c d sv E w = (r, w')"
  shows "\<exists>closed es. trace w' = trace w @ [Executed c (allow_connections_statement d False) closed] @ es \<and>
    (case r of
       Inr _ \<Rightarrow> closed \<and> (\<exists>f. es \<noteq> [] \<and> last es = Executed c (drop_database_statement d f) True)
     | Inl _ \<Rightarrow> if closed then es \<noteq> [] \<and> (\<exists>ok. last es = Executed c (allow_connections_statement d True) ok) else es = [])"
proof -
  obtain r0 w0 where a: "execute c (allow_connections_statement d False) E w = (r0, w0)"
    by (cases "execute c (allow_connections_statement d False) E w")
  have t0: "trace w0 = trace w @ [Executed c (allow_connections_statement d False) (is_ok r0)]"
    by (rule execute_cases [OF a])
  let ?body = "bind_m (evict_sessions c d sv) (\<lambda>_. drop_with_fallback c d sv)"
  note unfolded = drop_database_safely_def set_allow_connections_def
  show ?thesis
  proof (cases r0)
    case (Inl e)
    with assms a show ?thesis using t0 unfolding unfolded
      by (intro exI [of _ False] exI [of _ "[]"]) (auto simp: then_run)
  next
    case r0: (Inr x)
    obtain r1 w1 where b: "?body E w0 = (r1, w1)" by (cases "?body E w0")
    obtain es where es: "trace w1 = trace w0 @ es"
      "is_ok r1 \<longrightarrow> es \<noteq> [] \<and> (\<exists>f. last es = Executed c (drop_database_statement d f) True)"
      using drop_body_run [OF b] by blast
    show ?thesis
    proof (cases r1)
      case (Inr y)
      have "r = Inr y" "w' = w1" using assms a b r0 Inr unfolding unfolded by (simp_all add: then_run catch_run)
      then show ?thesis using t0 r0 es Inr by (intro exI [of _ True] exI [of _ es]) auto
    next
      case (Inl e)
      have inst: "instance_of e Base_Exception" by (simp add: instance_of_def)
      obtain r2 w2 where o: "execute c (allow_connections_statement d True) E w1 = (r2, w2)"
        by (cases "execute c (allow_connections_statement d True) E w1")
      have "w' = w2 \<and> (\<exists>e'. r = Inl e')" using assms a b o r0 Inl inst unfolding unfolded
        by (auto simp: then_run catch_run basic_run split: sum.splits)
      then show ?thesis using t0 r0 es(1) execute_cases [OF o]
        by (intro exI [of _ True] exI [of _ "es @ [Executed c (allow_connections_statement d True) (is_ok r2)]"]) auto
    qed
  qed
qed

theorem drop_database_safely_outcomes_witness:
  "\<exists>closed es. trace (snd (drop_database_safely sample_conn ''orders''
      \<lparr>sv_version_num = 160002, sv_version_text = ''16.2'', sv_current_user = ''admin'', sv_is_superuser = False,
       sv_can_create_db = True, sv_can_create_role = True, sv_is_rds_superuser = False\<rparr> sample_env empty_world)) =
     trace empty_world @ [Executed sample_conn (allow_connections_statement ''orders'' False) closed] @ es"
  using drop_database_safely_outcomes [OF prod.collapse [symmetric]] by blast

section \<open>Replications in use\<close>

text \<open>Whenever the replications are listed, one of them names the database as its source or target.\<close>

definition in_use :: "env \<Rightarrow> string \<Rightarrow> string \<Rightarrow> bool" where
  "in_use E namespace name \<longleftrightarrow> (\<forall>h. \<exists>all r. says_replications E h = Inr all \<and> r \<in> set all \<and>
     (uses namespace name r (lo_source r) \<or> uses namespace name r (lo_target r)))"

lemma replications_using_found:
  assumes "in_use E ns n"
  shows "gives E (\<lambda>using. using \<noteq> []) (replications_using ns n)"
  unfolding gives_def
proof (intro allI impI)
  fix w x u
  assume run: "replications_using ns n E w = (Inr x, u)"
  obtain all r where a: "says_replications E (trace w) = Inr all" "r \<in> set all"
    "uses ns n r (lo_source r) \<or> uses ns n r (lo_target r)"
    using assms unfolding in_use_def by blast
  have x: "x = concat (map (\<lambda>r. map (\<lambda>(side, _). lo_namespace r @ ''/'' @ lo_name r @ '' ('' @ side @ '')'')
         (filter (\<lambda>(_, ref). uses ns n r ref) [(''source'', lo_source r), (''target'', lo_target r)])) all)"
    using run a(1) by (simp add: replications_using_def k8s_ask_def run_simps)
  have "map (\<lambda>(side, _). lo_namespace r @ ''/'' @ lo_name r @ '' ('' @ side @ '')'')
      (filter (\<lambda>(_, ref). uses ns n r ref) [(''source'', lo_source r), (''target'', lo_target r)]) \<noteq> []"
    using a(3) by auto
  with a(2) show "x \<noteq> []" unfolding x concat_eq_Nil_conv by fastforce
qed

text \<open>
  C31. Deleting a database waits for the replications that use it: while a PostgresReplication names it as
  source or target - even one whose own spec is invalid - its teardown reads the instance and the list of
  replications and does nothing else: no pool is closed, no connection made, no statement sent.
\<close>

theorem teardown_waits_for_replications:
  assumes "in_use E (do_namespace obj) (do_name obj)"
  shows "emits E (\<lambda>e. e = K8s K_List_Replications \<or> (\<exists>n. e = K8s (K_Get_Instance n))) (teardown_database obj)"
proof -
  let ?P = "\<lambda>e. e = K8s K_List_Replications \<or> (\<exists>n. e = K8s (K_Get_Instance n))"
  have l: "emits E ?P (load_instance_spec n ns)" for n ns
    unfolding load_instance_spec_def
    by (intro emits_rules emits_get_instance [THEN emits_mono]) auto
  have d: "emits E ?P (derive_names s n p)" "emits E ?P (parse_spec obj)" for s n p
    unfolding derive_names_def parse_spec_def by (intro emits_rules)+
  have r: "emits E ?P (replications_using (do_namespace obj) (do_name obj))"
    unfolding replications_using_def by (intro emits_rules) simp
  have wait: "emits E ?P (bind_m (replications_using (do_namespace obj) (do_name obj))
      (\<lambda>using. if using \<noteq> [] then raise_m c (msg using) else k using))" for c msg and k :: "string list \<Rightarrow> string m"
    by (rule emits_bind_gives [OF r replications_using_found [OF assms]]) (simp add: emits_raise)
  show ?thesis
    unfolding teardown_database_def
    by (rule emits_bind [OF d(2)], rule emits_bind [OF l], rule emits_case_prod, rule emits_bind [OF d(1)],
        rule emits_case_prod, rule emits_if, rule emits_ret, rule wait)
qed

theorem teardown_waits_for_replications_witness:
  "emits (sample_env\<lparr>says_replications := \<lambda>h. Inr [\<lparr>lo_namespace = ''team-a'', lo_name = ''copy'',
       lo_source = \<lparr>rr_name = Some ''orders'', rr_namespace = None\<rparr>, lo_target = \<lparr>rr_name = Some ''reports'', rr_namespace = None\<rparr>,
       lo_spec = Inl (Err Value_Error []), lo_created_at = [], lo_deleting = False, lo_target_instance = None,
       lo_target_database = None, lo_published = []\<rparr>]\<rparr>)
     (\<lambda>e. e = K8s K_List_Replications \<or> (\<exists>n. e = K8s (K_Get_Instance n)))
     (teardown_database (sample_object\<lparr>do_spec := Inr (sample_database\<lparr>db_retention := Some DROP_RESOURCES\<rparr>)\<rparr>))"
  by (rule teardown_waits_for_replications) (simp add: in_use_def uses_def or_text_def sample_object_def)

end
