(* ===== verification/DatabaseStatus.thy ===== *)
theory DatabaseStatus
  imports DatabaseReconcile Reports
begin

text \<open>
  \<open>build_status\<close> of \<open>reconcile/database.py\<close>: what a pass over a PostgresDB reports. The clock is read once per
  condition, so \<open>now n\<close> is the n-th reading. The divergences are kept by reason, as the code keeps them; the
  lemmas say when the resource is shown as drifted and when its spec counts as applied.
\<close>

definition orphan_notes :: "database_result \<Rightarrow> string list" where
  "orphan_notes r =
     (if dr_orphaned_schemas r \<noteq> []
      then [''schema(s) '' @ join_with '', '' (dr_orphaned_schemas r) @ '' no longer declared''] else []) @
     (if dr_orphaned_extensions r \<noteq> []
      then [''extension(s) '' @ join_with '', '' (dr_orphaned_extensions r) @ '' no longer declared''] else [])"

definition unowned_notes :: "database_result \<Rightarrow> string list" where
  "unowned_notes r =
     (if dr_unowned_schemas r \<noteq> []
      then [''cannot take ownership of schema(s) '' @ join_with '', '' (dr_unowned_schemas r) @
            ''; grants for '' @ rn_read_write (dr_roles r) @ '' and '' @ rn_read_only (dr_roles r) @
            '' on them will not apply. Before PostgreSQL 15 the public schema '' @
            ''belongs to the bootstrap superuser and a non-superuser managing '' @
            ''role cannot reassign it: either run '' @
            ''ALTER SCHEMA public OWNER TO '' @ rn_owner (dr_roles r) @ '' as a superuser, '' @
            ''declare application schemas instead of using public, or upgrade to '' @
            ''PostgreSQL 15 or later where public belongs to pg_database_owner'']
      else [])"

definition creator_notes :: "database_result \<Rightarrow> string list" where
  "creator_notes r =
     [''setRoleForOwners is off but the managing role cannot act as '' @
      ''owner-group member(s) '' @ join_with '', '' (dr_unmanageable_creators r) @
      '', so default privileges for '' @ rn_read_write (dr_roles r) @ '' and '' @ rn_read_only (dr_roles r) @
      '' on objects they create cannot be set; '' @
      ''grant the managing role membership of those roles, or manage '' @ ''them as PostgresUsers'']"

definition divergence :: "database_result \<Rightarrow> (string \<times> string list) list" where
  "divergence r =
     (if orphan_notes r \<noteq> [] then [(''RetainedOrphans'', orphan_notes r)] else []) @
     (if dr_unowned_schemas r \<noteq> [] then [(''SchemaNotOwned'', unowned_notes r)] else []) @
     (if dr_immutable_drift r \<noteq> [] then [(''ImmutableFieldDrift'', dr_immutable_drift r)] else []) @
     (if dr_denied_parameters r \<noteq> [] then [(''ParameterDenied'', dr_denied_parameters r)] else []) @
     (if dr_unmanageable_creators r \<noteq> [] then [(''DefaultPrivilegesDenied'', creator_notes r)] else [])"

definition collapse :: "(string \<times> string list) list \<Rightarrow> string \<times> string" where
  "collapse entries =
     (if length entries = 1 then fst (hd entries) else ''MultipleIssues'',
      join_with ''; '' (concat (map snd entries)))"

definition blocking :: "database_result \<Rightarrow> (string \<times> string list) list" where
  "blocking r = filter (\<lambda>entry. fst entry \<noteq> ''RetainedOrphans'') (divergence r)"

definition drift_condition :: "database_result \<Rightarrow> string \<Rightarrow> int option \<Rightarrow> condition" where
  "drift_condition r now generation =
     (if divergence r \<noteq> []
      then (case collapse (divergence r) of (drift_reason, drift_message) \<Rightarrow>
        drifted now (drift_message @ (if orphan_notes r \<noteq> [] \<and> dr_retention r \<noteq> DROP_RESOURCES
                                       then ''; retentionPolicy is RETAIN so nothing was dropped'' else []))
          generation drift_reason)
      else no_drift now generation)"

definition sync_condition :: "database_result \<Rightarrow> string \<Rightarrow> int option \<Rightarrow> condition" where
  "sync_condition r now generation =
     (if blocking r \<noteq> []
      then (case collapse (blocking r) of (reason, message) \<Rightarrow> not_synced now reason message generation)
      else synced now (result_message r) generation)"

definition status_details :: "database_result \<Rightarrow> resolved_instance \<Rightarrow> string \<Rightarrow> (string \<times> json) list" where
  "status_details r inst now =
     [(''instance'', J_Str (ri_name inst)), (''endpoint'', J_Str (display inst)), (''databaseName'', J_Str (dr_database r)),
      (''retentionPolicy'', J_Str (retention_text (dr_retention r))),
      (''roles'', J_Obj [(''owner'', J_Str (rn_owner (dr_roles r))), (''readWrite'', J_Str (rn_read_write (dr_roles r))),
                        (''readOnly'', J_Str (rn_read_only (dr_roles r)))]),
      (''schemaCount'', J_Int (int (length (dr_managed_schemas r)))),
      (''extensionCount'', J_Int (int (length (dr_managed_extensions r)))),
      (''managedSchemas'', j_names (dr_managed_schemas r)), (''managedExtensions'', j_names (dr_managed_extensions r)),
      (''observedSchemas'', j_names (sorted_set (map ss_name (ob_schemas (dr_observed r))))),
      (''observedExtensions'', j_names (map (\<lambda>e. es_name e @ ''@'' @ es_version e)
         (sort_key es_name (ob_extensions (dr_observed r))))),
      (''orphanedSchemas'', j_names (dr_orphaned_schemas r)), (''orphanedExtensions'', j_names (dr_orphaned_extensions r)),
      (''unmanagedSchemas'', j_names (dr_unmanaged_schemas r)), (''unownedSchemas'', j_names (dr_unowned_schemas r)),
      (''deniedParameters'', j_names (dr_denied_parameters r)),
      (''unmanageableCreators'', j_names (dr_unmanageable_creators r)),
      (''schemaGrants'', J_Obj (map (\<lambda>(s, ps). (s, j_names ps)) (dr_schema_grants r))), (''lastReconciledAt'', J_Str now)]"

definition reported_conditions ::
  "database_result \<Rightarrow> resolved_instance \<Rightarrow> int option \<Rightarrow> (nat \<Rightarrow> string) \<Rightarrow> condition list" where
  "reported_conditions r inst generation now =
     [reachable (now 0) (''PostgreSQL '' @ version_text (ri_server inst) @ '' at '' @ display inst) generation,
      drift_condition r (now 1) generation, sync_condition r (now 2) generation,
      ready (now 3) (result_message r) generation]"

definition build_status ::
  "database_result \<Rightarrow> resolved_instance \<Rightarrow> condition list \<Rightarrow> int \<Rightarrow> (nat \<Rightarrow> string) \<Rightarrow> status_patch" where
  "build_status r inst existing generation now =
     (let merged = merge_conditions existing (reported_conditions r inst (Some generation) now)
      in \<lparr>sp_generation = generation, sp_conditions = merged, sp_phase = phase_from_conditions merged,
          sp_details = status_details r inst (now 4)\<rparr>)"

section \<open>What the status says\<close>

lemma drift_condition_kind [simp]: "type_key (drift_condition r n g) = COND_DRIFTED"
  by (simp add: drift_condition_def split: prod.split)

lemma sync_condition_kind [simp]: "type_key (sync_condition r n g) = COND_SYNCED"
  by (simp add: sync_condition_def split: prod.split)

lemma drift_condition_status:
  "c_status (drift_condition r n g) = Some (if divergence r \<noteq> [] then ''True'' else ''False'')"
  by (simp add: drift_condition_def split: prod.split)

lemma sync_condition_status:
  "c_status (sync_condition r n g) = Some (if blocking r \<noteq> [] then ''False'' else ''True'')"
  by (simp add: sync_condition_def split: prod.split)

lemma reported_distinct: "distinct (map type_key (reported_conditions r inst g now))"
  by (simp add: reported_conditions_def)

lemma divergence_none:
  "divergence r = [] \<longleftrightarrow> dr_orphaned_schemas r = [] \<and> dr_orphaned_extensions r = [] \<and> dr_unowned_schemas r = [] \<and>
     dr_immutable_drift r = [] \<and> dr_denied_parameters r = [] \<and> dr_unmanageable_creators r = []"
  by (simp add: divergence_def orphan_notes_def)

lemma blocking_none:
  "blocking r = [] \<longleftrightarrow> dr_unowned_schemas r = [] \<and> dr_immutable_drift r = [] \<and> dr_denied_parameters r = [] \<and>
     dr_unmanageable_creators r = []"
  by (simp add: blocking_def divergence_def)

text \<open>
  C37. The status tells the truth about a pass that returned: the resource is Ready and Reachable; it is
  shown as drifted exactly when something diverges (an orphan that was kept, a schema that is not owned, a
  field fixed at creation, a refused parameter, a creator that cannot be managed); its spec counts as
  applied exactly when every divergence is an orphan the policy keeps; and the phase is Drifted or Ready
  accordingly, on a resource with no replication condition.
\<close>

theorem build_status_truthful:
  assumes "status_of existing COND_STREAMING = None" "build_status r inst existing g now = p"
  shows "status_of (sp_conditions p) COND_READY = Some ''True'' \<and>
    status_of (sp_conditions p) COND_REACHABLE = Some ''True'' \<and>
    (status_of (sp_conditions p) COND_DRIFTED = Some ''True'' \<longleftrightarrow>
       dr_orphaned_schemas r \<noteq> [] \<or> dr_orphaned_extensions r \<noteq> [] \<or> dr_unowned_schemas r \<noteq> [] \<or>
       dr_immutable_drift r \<noteq> [] \<or> dr_denied_parameters r \<noteq> [] \<or> dr_unmanageable_creators r \<noteq> []) \<and>
    (status_of (sp_conditions p) COND_SYNCED = Some ''True'' \<longleftrightarrow>
       dr_unowned_schemas r = [] \<and> dr_immutable_drift r = [] \<and> dr_denied_parameters r = [] \<and>
       dr_unmanageable_creators r = []) \<and>
    sp_phase p = (if status_of (sp_conditions p) COND_DRIFTED = Some ''True'' then Drifted else Ready)"
proof -
  let ?us = "reported_conditions r inst (Some g) now"
  have p: "sp_conditions p = merge_conditions existing ?us" "sp_phase p = phase_from_conditions (merge_conditions existing ?us)"
    using assms(2) by (auto simp: build_status_def Let_def)
  note seen = status_of_reported [OF reported_distinct, of _ r inst "Some g" now _ existing]
  have ready: "status_of (sp_conditions p) COND_READY = Some ''True''"
    using seen [of "?us ! 3" COND_READY] by (simp add: p reported_conditions_def)
  have reach: "status_of (sp_conditions p) COND_REACHABLE = Some ''True''"
    using seen [of "?us ! 0" COND_REACHABLE] by (simp add: p reported_conditions_def)
  have drift: "status_of (sp_conditions p) COND_DRIFTED = Some (if divergence r \<noteq> [] then ''True'' else ''False'')"
    using seen [of "?us ! 1" COND_DRIFTED] by (simp add: p reported_conditions_def drift_condition_status)
  have sync: "status_of (sp_conditions p) COND_SYNCED = Some (if blocking r \<noteq> [] then ''False'' else ''True'')"
    using seen [of "?us ! 2" COND_SYNCED] by (simp add: p reported_conditions_def sync_condition_status)
  have "status_of (sp_conditions p) COND_STREAMING = None"
    using status_of_unreported [of COND_STREAMING ?us existing] assms(1) by (simp add: p reported_conditions_def)
  with phase_by_status [of "sp_conditions p"] ready
  have phase: "sp_phase p = (if status_of (sp_conditions p) COND_DRIFTED = Some ''True'' then Drifted else Ready)"
    by (simp add: p)
  show ?thesis
    by (intro conjI ready reach phase) (simp_all add: drift sync divergence_none [symmetric] blocking_none [symmetric],
        use divergence_none [of r] in blast)
qed

definition sample_result :: database_result where
  "sample_result = (new_result ''orders'' sample_roles RETAIN)\<lparr>dr_orphaned_schemas := [''old'']\<rparr>"

definition sample_resolved :: resolved_instance where
  "sample_resolved = \<lparr>ri_name = ''main'', ri_spec = sample_instance, ri_endpoint = sample_endpoint,
     ri_server = \<lparr>sv_version_num = 160002, sv_version_text = ''16.2'', sv_current_user = ''admin'', sv_is_superuser = False,
       sv_can_create_db = True, sv_can_create_role = True, sv_is_rds_superuser = False\<rparr>, ri_generation = 1\<rparr>"

theorem build_status_truthful_witness:
  "sp_phase (build_status sample_result sample_resolved [] 3 (\<lambda>n. ''2025-01-01T00:00:00Z'')) = Drifted \<and>
   status_of (sp_conditions (build_status sample_result sample_resolved [] 3 (\<lambda>n. ''2025-01-01T00:00:00Z''))) COND_SYNCED =
     Some ''True''"
proof -
  have "status_of [] COND_STREAMING = None" by (simp add: status_of_def lookup_condition_def by_type_def)
  from build_status_truthful [OF this refl, of sample_result sample_resolved 3 "\<lambda>n. ''2025-01-01T00:00:00Z''"]
  show ?thesis by (simp add: sample_result_def new_result_def)
qed

end
