(* ===== verification/Handlers.thy ===== *)
theory Handlers
  imports UserStatus DatabaseStatus
begin

text \<open>
  \<open>handlers/common.py\<close> and the handlers of PostgresDB and PostgresUser, with \<open>patch_status\<close> of
  \<open>k8s/resources.py\<close>: running a pass under the resource's lock, mapping its error onto kopf's retry
  semantics, publishing the status of a failure, pausing, and releasing a finalizer. The lock is the one of
  \<open>Locks\<close>; here its acquisition and release are events of the history.
\<close>

section \<open>Bodies\<close>

text \<open>What a handler reads from the raw resource; \<open>spec.paused\<close> is read before the spec is validated.\<close>

record body =
  bo_namespace :: "string option"
  bo_name :: string
  bo_generation :: int
  bo_paused :: bool
  bo_conditions :: "condition list"

definition is_paused :: "body \<Rightarrow> bool" where
  "is_paused b = bo_paused b"

definition metric_namespace :: "body \<Rightarrow> string" where
  "metric_namespace b = or_text (bo_namespace b) ''-''"

section \<open>Status writes\<close>

definition patch_status :: "string \<Rightarrow> string \<Rightarrow> status_patch \<Rightarrow> string option \<Rightarrow> unit m" where
  "patch_status plural name status namespace =
     catch_m Base_Exception
       (k8s_do (K_Patch_Status plural (if given namespace then namespace else None) name status))
       (\<lambda>e. if is_not_found e then ret_m () else throw_m e)"

definition as_kopf_error :: "int \<Rightarrow> err \<Rightarrow> err" where
  "as_kopf_error backoff e =
     (if instance_of e ReferenceNotFound then Err (Temporary_Error backoff) (err_text e)
      else if instance_of e ConfigurationError then Err Permanent_Error (err_text e)
      else if instance_of e ConnectionFailure then Err (Temporary_Error backoff) (err_text e)
      else if instance_of e ReconcileFailure \<or> instance_of e OperatorError then Err (Temporary_Error backoff) (err_text e)
      else if is_conflict e then Err (Temporary_Error 5) (''conflicting update: '' @ err_text e)
      else Err (Temporary_Error backoff) (if err_text e \<noteq> [] then err_text e else class_name (err_cls e)))"

text \<open>\<open>str.removesuffix\<close>\<close>

definition remove_suffix :: "string \<Rightarrow> string \<Rightarrow> string" where
  "remove_suffix suffix s =
     (if suffix \<noteq> [] \<and> length suffix \<le> length s \<and> drop (length s - length suffix) s = suffix
      then take (length s - length suffix) s else s)"

definition failure_reason :: "err \<Rightarrow> string" where
  "failure_reason e = (let r = remove_suffix ''Error'' (class_name (err_cls e)) in if r \<noteq> [] then r else ''ReconcileFailed'')"

definition failure_conditions :: "err \<Rightarrow> int \<Rightarrow> string \<Rightarrow> condition list" where
  "failure_conditions e generation now =
     (if instance_of e ConnectionFailure
      then [not_ready now ''ConnectionFailed'' (err_text e) (Some generation),
            unreachable now ''ConnectionFailed'' (err_text e) (Some generation)]
      else [not_ready now (failure_reason e) (err_text e) (Some generation)])"

definition failure_patch :: "body \<Rightarrow> err \<Rightarrow> string \<Rightarrow> status_patch" where
  "failure_patch b e now =
     (let conditions = merge_conditions (bo_conditions b) (failure_conditions e (bo_generation b) now)
      in \<lparr>sp_generation = bo_generation b, sp_conditions = conditions, sp_phase = phase_from_conditions conditions,
          sp_details = [(''lastReconciledAt'', J_Str now)]\<rparr>)"

definition publish_failure :: "string \<Rightarrow> body \<Rightarrow> err \<Rightarrow> unit m" where
  "publish_failure plural b e =
     bind_m now_m (\<lambda>now.
     catch_m Base_Exception (patch_status plural (bo_name b) (failure_patch b e now) (bo_namespace b)) (\<lambda>_. ret_m ()))"

definition paused_patch :: "body \<Rightarrow> string \<Rightarrow> status_patch" where
  "paused_patch b now =
     (let conditions = merge_conditions (bo_conditions b)
            [mk_condition now ''Ready'' ''False'' ''Paused'' ''spec.paused is true; reconciliation is suspended''
               (Some (bo_generation b))]
      in \<lparr>sp_generation = bo_generation b, sp_conditions = conditions, sp_phase = phase_from_conditions conditions,
          sp_details = []\<rparr>)"

definition publish_paused :: "string \<Rightarrow> string \<Rightarrow> body \<Rightarrow> string m" where
  "publish_paused kind plural b =
     bind_m now_m (\<lambda>now.
     then_m (patch_status plural (bo_name b) (paused_patch b now) (bo_namespace b))
    (then_m (tell (Gauge kind (metric_namespace b) (bo_name b) (Some 0)))
    (ret_m ''paused'')))"

section \<open>Running a pass\<close>

text \<open>\<open>async with ctx.locks.hold(...)\<close>: the lock is released on every way out.\<close>

definition hold :: "string \<Rightarrow> body \<Rightarrow> 'a m \<Rightarrow> 'a m" where
  "hold kind b m =
     then_m (tell (Locked kind (bo_namespace b) (bo_name b)))
       (finally_m m (tell (Unlocked kind (bo_namespace b) (bo_name b))))"

definition ready_value :: "phase \<Rightarrow> int" where
  "ready_value p = (if p = Ready \<or> p = Drifted then 1 else 0)"

text \<open>The message of a condition, or the pass's own when there is none.\<close>

definition condition_message :: "condition option \<Rightarrow> string \<Rightarrow> string" where
  "condition_message c message = or_text (Option.bind c c_message) message"

definition post_events :: "status_patch \<Rightarrow> string \<Rightarrow> unit m" where
  "post_events status message =
     (let conditions = sp_conditions status
      in then_m (when_m (sp_phase status = Degraded)
           (tell (Posted ''Degraded'' (condition_message (lookup_condition conditions COND_STREAMING) message))))
        (when_m (has_status (lookup_condition conditions COND_DRIFTED) ''True'')
           (tell (Posted ''Drifted'' (condition_message (lookup_condition conditions COND_DRIFTED) message)))))"

definition run_reconcile :: "string \<Rightarrow> string \<Rightarrow> body \<Rightarrow> (string \<times> status_patch) m \<Rightarrow> string m" where
  "run_reconcile kind plural b pass =
     bind_m (hold kind b
       (bind_m (catch_m Base_Exception pass (\<lambda>e.
            then_m (tell (Counted ''reconcile'' kind ''failure''))
           (then_m (tell (Gauge kind (metric_namespace b) (bo_name b) (Some 0)))
           (then_m (publish_failure plural b e)
           (bind_m (asks retry_backoff) (\<lambda>backoff. throw_m (as_kopf_error backoff e)))))))
         (\<lambda>(message, status).
            then_m (patch_status plural (bo_name b) status (bo_namespace b)) (ret_m (message, status)))))
     (\<lambda>(message, status).
       then_m (tell (Counted ''reconcile'' kind ''success''))
      (then_m (tell (Gauge kind (metric_namespace b) (bo_name b) (Some (ready_value (sp_phase status)))))
      (then_m (post_events status message)
      (ret_m message))))"

definition forget_resource_metrics :: "string \<Rightarrow> body \<Rightarrow> unit m" where
  "forget_resource_metrics kind b = tell (Gauge kind (metric_namespace b) (bo_name b) None)"

definition skip_teardown :: "string \<Rightarrow> body \<Rightarrow> err \<Rightarrow> string m" where
  "skip_teardown kind b e =
     then_m (tell (Counted ''teardown'' kind ''skipped''))
    (then_m (forget_resource_metrics kind b)
    (ret_m (''cleanup skipped: '' @ err_text e)))"

definition fail_teardown :: "string \<Rightarrow> err \<Rightarrow> string m" where
  "fail_teardown kind e =
     then_m (tell (Counted ''teardown'' kind ''failure''))
    (bind_m (asks retry_backoff) (\<lambda>backoff. throw_m (as_kopf_error backoff e)))"

definition run_teardown :: "string \<Rightarrow> body \<Rightarrow> string m \<Rightarrow> string m" where
  "run_teardown kind b teardown =
     bind_m (attempt_m (hold kind b teardown)) (\<lambda>outcome. case outcome of
       Inl e \<Rightarrow>
         if instance_of e InstanceNotFound then skip_teardown kind b e
         else if instance_of e ReferenceNotFound then fail_teardown kind e
         else if instance_of e ConfigurationError then skip_teardown kind b e
         else fail_teardown kind e
     | Inr message \<Rightarrow>
         then_m (tell (Counted ''teardown'' kind ''success''))
        (then_m (forget_resource_metrics kind b) (ret_m message)))"

section \<open>The handlers of two kinds\<close>

definition user_body :: "user_obj \<Rightarrow> bool \<Rightarrow> body" where
  "user_body obj paused = \<lparr>bo_namespace = Some (uo_namespace obj), bo_name = uo_name obj, bo_generation = uo_generation obj,
     bo_paused = paused, bo_conditions = uo_conditions obj\<rparr>"

definition PLURAL_USER :: string where "PLURAL_USER = ''postgresusers''"

definition reconcile_user_handler :: "user_obj \<Rightarrow> bool \<Rightarrow> string m" where
  "reconcile_user_handler obj paused =
     (let b = user_body obj paused
      in if is_paused b then publish_paused KIND_USER PLURAL_USER b
         else run_reconcile KIND_USER PLURAL_USER b
           (bind_m (reconcile_user obj) (\<lambda>(result, inst).
            bind_m now_m (\<lambda>now.
              ret_m (user_message result, build_user_status result inst (uo_conditions obj) (uo_generation obj) (\<lambda>_. now))))))"

definition teardown_user_handler :: "user_obj \<Rightarrow> bool \<Rightarrow> string m" where
  "teardown_user_handler obj paused = run_teardown KIND_USER (user_body obj paused) (teardown_user obj)"

definition database_body :: "database_obj \<Rightarrow> bool \<Rightarrow> body" where
  "database_body obj paused = \<lparr>bo_namespace = Some (do_namespace obj), bo_name = do_name obj, bo_generation = do_generation obj,
     bo_paused = paused, bo_conditions = do_conditions obj\<rparr>"

definition KIND_DATABASE :: string where "KIND_DATABASE = ''PostgresDB''"
definition PLURAL_DATABASE :: string where "PLURAL_DATABASE = ''postgresdbs''"

definition reconcile_database_handler :: "database_obj \<Rightarrow> bool \<Rightarrow> string m" where
  "reconcile_database_handler obj paused =
     (let b = database_body obj paused
      in if is_paused b then publish_paused KIND_DATABASE PLURAL_DATABASE b
         else run_reconcile KIND_DATABASE PLURAL_DATABASE b
           (bind_m (reconcile_database obj) (\<lambda>(result, inst).
            bind_m now_m (\<lambda>now.
              ret_m (result_message result, build_status result inst (do_conditions obj) (do_generation obj) (\<lambda>_. now))))))"

definition teardown_database_handler :: "database_obj \<Rightarrow> bool \<Rightarrow> string m" where
  "teardown_database_handler obj paused = run_teardown KIND_DATABASE (database_body obj paused) (teardown_database obj)"

section \<open>Retry semantics\<close>

text \<open>An error stops the retries exactly when the spec or a referenced object is wrong, not merely missing.\<close>

lemma permanent_iff:
  "err_cls (as_kopf_error backoff e) = Permanent_Error \<longleftrightarrow>
     instance_of e ConfigurationError \<and> \<not> instance_of e ReferenceNotFound"
  by (auto simp: as_kopf_error_def)

text \<open>
  When a pass fails, its error is what kopf sees - with the retry its class calls for - even when the status
  cannot be written; the status that is sent says not ready, and the reader is sent to the network
  (Unreachable) for a connection failure; the ready gauge is cleared; and the lock is released last.
\<close>

lemma failure_conditions_ready:
  "status_of (sp_conditions (failure_patch b e now)) COND_READY = Some ''False''"
  "reason_of (sp_conditions (failure_patch b e now)) COND_READY =
     Some (if instance_of e ConnectionFailure then ''ConnectionFailed'' else failure_reason e)"
proof -
  let ?us = "failure_conditions e (bo_generation b) now"
  have d: "distinct (map type_key ?us)" by (simp add: failure_conditions_def)
  have "status_of (merge_conditions (bo_conditions b) ?us) COND_READY = c_status (hd ?us) \<and>
      reason_of (merge_conditions (bo_conditions b) ?us) COND_READY = c_reason (hd ?us)"
    by (rule status_of_reported [OF d]) (simp_all add: failure_conditions_def)
  then show "status_of (sp_conditions (failure_patch b e now)) COND_READY = Some ''False''"
    "reason_of (sp_conditions (failure_patch b e now)) COND_READY =
       Some (if instance_of e ConnectionFailure then ''ConnectionFailed'' else failure_reason e)"
    by (simp_all add: failure_patch_def failure_conditions_def Let_def)
qed

lemma failure_unreachable:
  "instance_of e ConnectionFailure \<Longrightarrow> sp_phase (failure_patch b e now) = Unreachable"
proof -
  assume c: "instance_of e ConnectionFailure"
  let ?us = "failure_conditions e (bo_generation b) now"
  have "status_of (merge_conditions (bo_conditions b) ?us) COND_REACHABLE = Some ''False''"
    using status_of_reported [of ?us "unreachable now ''ConnectionFailed'' (err_text e) (Some (bo_generation b))" COND_REACHABLE]
    by (simp add: failure_conditions_def c)
  then show ?thesis
    using phase_not_ready [OF failure_conditions_ready(1) [of b e now]] failure_conditions_ready(2) [of b e now] c
    by (simp add: failure_patch_def Let_def)
qed

lemma failure_other:
  "\<not> instance_of e ConnectionFailure \<Longrightarrow> failure_reason e \<noteq> ''Paused'' \<Longrightarrow>
   sp_phase (failure_patch b e now) = (if status_of (bo_conditions b) COND_REACHABLE = Some ''False'' then Unreachable else Failed)"
proof -
  assume c: "\<not> instance_of e ConnectionFailure" "failure_reason e \<noteq> ''Paused''"
  let ?us = "failure_conditions e (bo_generation b) now"
  have "status_of (merge_conditions (bo_conditions b) ?us) COND_REACHABLE = status_of (bo_conditions b) COND_REACHABLE"
    using status_of_unreported [of COND_REACHABLE ?us "bo_conditions b"] c by (simp add: failure_conditions_def)
  then show ?thesis
    using phase_not_ready [OF failure_conditions_ready(1) [of b e now]] failure_conditions_ready(2) [of b e now] c
    by (simp add: failure_patch_def Let_def)
qed


lemma publish_failure_run:
  "\<exists>patch. publish_failure plural b e E w =
     (Inr (), w\<lparr>trace := trace w @ [K8s (K_Patch_Status plural (if given (bo_namespace b) then bo_namespace b else None) (bo_name b) patch)]\<rparr>) \<and>
     patch = failure_patch b e (clock E (trace w))"
  by (auto simp: publish_failure_def patch_status_def k8s_do_def now_m_def run_simps instance_of_def split: option.split)

text \<open>
  A failure is reported and never masked: the error of the pass is what kopf sees - with the retry its
  class calls for - even when the status cannot be written; the status sent is not ready, its phase is
  Unreachable for a connection failure, and otherwise Failed unless the recorded conditions already call
  the server unreachable; the ready gauge is cleared; and the lock is released last.
\<close>

theorem failed_pass_reported:
  assumes "pass E (w\<lparr>trace := trace w @ [Locked kind (bo_namespace b) (bo_name b)]\<rparr>) = (Inl e, u)"
    and "failure_reason e \<noteq> ''Paused''"
  shows "\<exists>patch. run_reconcile kind plural b pass E w = (Inl (as_kopf_error (retry_backoff E) e),
      u\<lparr>trace := trace u @ [Counted ''reconcile'' kind ''failure'', Gauge kind (metric_namespace b) (bo_name b) (Some 0),
        K8s (K_Patch_Status plural (if given (bo_namespace b) then bo_namespace b else None) (bo_name b) patch),
        Unlocked kind (bo_namespace b) (bo_name b)]\<rparr>) \<and>
    status_of (sp_conditions patch) COND_READY = Some ''False'' \<and>
    sp_phase patch = (if instance_of e ConnectionFailure \<or> status_of (bo_conditions b) COND_REACHABLE = Some ''False''
      then Unreachable else Failed)"
proof -
  let ?u = "u\<lparr>trace := trace u @ [Counted ''reconcile'' kind ''failure'', Gauge kind (metric_namespace b) (bo_name b) (Some 0)]\<rparr>"
  let ?patch = "failure_patch b e (clock E (trace ?u))"
  have p: "publish_failure plural b e E ?u = (Inr (), ?u\<lparr>trace := trace ?u @
      [K8s (K_Patch_Status plural (if given (bo_namespace b) then bo_namespace b else None) (bo_name b) ?patch)]\<rparr>)"
    using publish_failure_run by blast
  have base: "instance_of e Base_Exception" by (simp add: instance_of_def)
  have "run_reconcile kind plural b pass E w = (Inl (as_kopf_error (retry_backoff E) e),
      u\<lparr>trace := trace u @ [Counted ''reconcile'' kind ''failure'', Gauge kind (metric_namespace b) (bo_name b) (Some 0),
        K8s (K_Patch_Status plural (if given (bo_namespace b) then bo_namespace b else None) (bo_name b) ?patch),
        Unlocked kind (bo_namespace b) (bo_name b)]\<rparr>)"
    using p by (simp add: run_reconcile_def hold_def finally_run bind_run then_run catch_run basic_run assms(1) base)
  moreover have "sp_phase ?patch = (if instance_of e ConnectionFailure \<or> status_of (bo_conditions b) COND_REACHABLE = Some ''False''
      then Unreachable else Failed)"
    using failure_unreachable failure_other [OF _ assms(2)] by (cases "instance_of e ConnectionFailure") simp_all
  ultimately show ?thesis using failure_conditions_ready(1) by blast
qed

definition sample_body :: body where
  "sample_body = \<lparr>bo_namespace = Some ''team-a'', bo_name = ''app'', bo_generation = 2, bo_paused = False, bo_conditions = []\<rparr>"

theorem failed_pass_reported_witness:
  "\<exists>(patch :: status_patch) v. run_reconcile ''PostgresUser'' ''postgresusers'' sample_body (raise_m ConnectionFailure ''refused'') sample_env empty_world =
      (Inl (Err (Temporary_Error 30) ''refused''), v) \<and> sp_phase patch = Unreachable"
proof -
  let ?w = "empty_world\<lparr>trace := trace empty_world @ [Locked ''PostgresUser'' (bo_namespace sample_body) (bo_name sample_body)]\<rparr>"
  have "(raise_m ConnectionFailure ''refused'' :: (string \<times> status_patch) m) sample_env ?w = (Inl (Err ConnectionFailure ''refused''), ?w)"
    by (simp add: basic_run)
  moreover have "failure_reason (Err ConnectionFailure ''refused'') \<noteq> ''Paused''"
    by (simp add: failure_reason_def remove_suffix_def Let_def)
  moreover have "as_kopf_error (retry_backoff sample_env) (Err ConnectionFailure ''refused'') = Err (Temporary_Error 30) ''refused''"
    "instance_of (Err ConnectionFailure ''refused'') ConnectionFailure"
    by (simp_all add: as_kopf_error_def instance_of_def sample_env_def)
  ultimately show ?thesis
    using failed_pass_reported [of "raise_m ConnectionFailure ''refused''" sample_env empty_world "''PostgresUser''" sample_body
        "Err ConnectionFailure ''refused''" ?w "''postgresusers''"]
    by auto
qed

text \<open>The comment on the failure path promises that a wrong spec does not read as a network problem; after an
  outage it does, because the recorded \<open>Reachable\<close> condition is only ever replaced by a connection failure.\<close>

lemma stale_unreachable:
  "status_of (bo_conditions b) COND_REACHABLE = Some ''False'' \<Longrightarrow>
   sp_phase (failure_patch b (Err ConfigurationError ''invalid spec'') now) = Unreachable"
  by (subst failure_other) (simp_all add: instance_of_def failure_reason_def remove_suffix_def Let_def)

section \<open>Finalizers\<close>

text \<open>
  A finalizer is released - the teardown handler returns - exactly when the teardown succeeded, when its
  PostgresInstance is gone, or when the spec itself is at fault; a reference that is merely missing, a
  server that cannot be reached and every other error keep it, so nothing is left on a server unnoticed.
\<close>

theorem finalizer_released_iff:
  "is_ok (fst (run_teardown kind b teardown E w)) =
     (case fst (teardown E (w\<lparr>trace := trace w @ [Locked kind (bo_namespace b) (bo_name b)]\<rparr>)) of
        Inr _ \<Rightarrow> True
      | Inl e \<Rightarrow> instance_of e InstanceNotFound \<or> (instance_of e ConfigurationError \<and> \<not> instance_of e ReferenceNotFound))"
proof -
  obtain r u where t: "teardown E (w\<lparr>trace := trace w @ [Locked kind (bo_namespace b) (bo_name b)]\<rparr>) = (r, u)"
    by (cases "teardown E (w\<lparr>trace := trace w @ [Locked kind (bo_namespace b) (bo_name b)]\<rparr>)")
  show ?thesis
    by (cases r) (auto simp: run_teardown_def hold_def attempt_run finally_run bind_run then_run basic_run t
        skip_teardown_def fail_teardown_def forget_resource_metrics_def)
qed

section \<open>Pausing\<close>

lemma paused_phase: "sp_phase (paused_patch b now) = Paused"
proof -
  let ?us = "[mk_condition now ''Ready'' ''False'' ''Paused'' ''spec.paused is true; reconciliation is suspended'' (Some (bo_generation b))]"
  have k: "type_key (hd ?us) = COND_READY" by (simp add: type_key_def mk_condition_def condition_types)
  have "status_of (merge_conditions (bo_conditions b) ?us) COND_READY = Some ''False'' \<and>
      reason_of (merge_conditions (bo_conditions b) ?us) COND_READY = Some ''Paused''"
    using status_of_reported [of ?us "hd ?us" COND_READY "bo_conditions b"] k by simp
  then show ?thesis by (simp add: paused_patch_def Let_def phase_not_ready)
qed

definition status_only :: "string \<Rightarrow> string \<Rightarrow> body \<Rightarrow> event \<Rightarrow> bool" where
  "status_only kind plural b ev =
     (case ev of
        K8s (K_Patch_Status p ns n patch) \<Rightarrow> p = plural \<and> n = bo_name b \<and> sp_phase patch = Paused
      | Gauge k ns n v \<Rightarrow> k = kind \<and> n = bo_name b \<and> v = Some 0
      | _ \<Rightarrow> False)"

lemma publish_paused_emits: "emits E (status_only kind plural b) (publish_paused kind plural b)"
  unfolding publish_paused_def patch_status_def
  by (intro emits_rules) (simp_all add: status_only_def paused_phase)

text \<open>
  A paused resource is left alone: the handler connects to nothing, reads nothing and sends no statement; it
  writes the status of that resource, with phase Paused, clears its ready gauge, and that is all.
\<close>

theorem paused_touches_status_only:
  "emits E (status_only KIND_USER PLURAL_USER (user_body uobj True)) (reconcile_user_handler uobj True) \<and>
   emits E (status_only KIND_DATABASE PLURAL_DATABASE (database_body dobj True)) (reconcile_database_handler dobj True)"
  by (simp add: reconcile_user_handler_def reconcile_database_handler_def is_paused_def user_body_def database_body_def
      publish_paused_emits)

section \<open>Locking\<close>

text \<open>Metrics and events of the resource: what a handler does outside the lock.\<close>

fun afterthought :: "event \<Rightarrow> bool" where
  "afterthought (Counted m k out) = True"
| "afterthought (Gauge k ns n v) = True"
| "afterthought (Posted why msg) = True"
| "afterthought _ = False"

lemma hold_trace:
  assumes "emits E P m"
  shows "\<exists>es. trace (snd (hold kind b m E w)) =
      trace w @ Locked kind (bo_namespace b) (bo_name b) # es @ [Unlocked kind (bo_namespace b) (bo_name b)] \<and> (\<forall>e \<in> set es. P e)"
proof -
  let ?w = "w\<lparr>trace := trace w @ [Locked kind (bo_namespace b) (bo_name b)]\<rparr>"
  obtain r u where m: "m E ?w = (r, u)" by (cases "m E ?w")
  obtain es where "trace u = trace ?w @ es" "\<forall>e \<in> set es. P e" using emits_runD [OF assms m] by blast
  then show ?thesis by (auto simp: hold_def finally_run then_run basic_run m)
qed

lemma post_events_after: "emits E afterthought (post_events status message)"
  unfolding post_events_def Let_def by (intro emits_rules) simp_all

text \<open>
  Everything a pass does, its status write included, happens between taking the resource's lock and
  releasing it, and the lock is released whatever happens; after that only metrics and events follow. With
  the mutual exclusion of the lock table, no two passes over one resource overlap.
\<close>

theorem pass_runs_under_lock:
  assumes "emits E P pass"
  shows "\<exists>es rest. trace (snd (run_reconcile kind plural b pass E w)) =
      trace w @ Locked kind (bo_namespace b) (bo_name b) # es @ Unlocked kind (bo_namespace b) (bo_name b) # rest \<and>
    list_all (\<lambda>e. P e \<or> afterthought e \<or> (\<exists>ns patch. e = K8s (K_Patch_Status plural ns (bo_name b) patch))) es \<and>
    list_all afterthought rest"
proof -
  let ?Q = "\<lambda>e. P e \<or> afterthought e \<or> (\<exists>ns patch. e = K8s (K_Patch_Status plural ns (bo_name b) patch))"
  let ?inner = "bind_m (catch_m Base_Exception pass (\<lambda>e.
            then_m (tell (Counted ''reconcile'' kind ''failure''))
           (then_m (tell (Gauge kind (metric_namespace b) (bo_name b) (Some 0)))
           (then_m (publish_failure plural b e)
           (bind_m (asks retry_backoff) (\<lambda>backoff. throw_m (as_kopf_error backoff e)))))))
         (\<lambda>(message, status).
            then_m (patch_status plural (bo_name b) status (bo_namespace b)) (ret_m (message, status)))"
  have p: "emits E ?Q pass" by (rule emits_mono [OF assms]) simp
  have "emits E ?Q ?inner"
    unfolding publish_failure_def patch_status_def by (intro emits_rules p) auto
  then obtain es where es: "trace (snd (hold kind b ?inner E w)) =
      trace w @ Locked kind (bo_namespace b) (bo_name b) # es @ [Unlocked kind (bo_namespace b) (bo_name b)]" "\<forall>e \<in> set es. ?Q e"
    using hold_trace by blast
  have k: "emits E afterthought (case x of (message, status) \<Rightarrow>
       then_m (tell (Counted ''reconcile'' kind ''success''))
      (then_m (tell (Gauge kind (metric_namespace b) (bo_name b) (Some (ready_value (sp_phase status)))))
      (then_m (post_events status message)
      (ret_m message))))" for x
    by (intro emits_rules post_events_after) simp_all
  have "\<exists>rest. trace (snd (run_reconcile kind plural b pass E w)) = trace (snd (hold kind b ?inner E w)) @ rest \<and> list_all afterthought rest"
  proof (cases "hold kind b ?inner E w")
    case (Pair r u)
    show ?thesis
    proof (cases r)
      case (Inl e)
      with Pair show ?thesis by (auto simp: run_reconcile_def bind_run intro!: exI [of _ "[]"])
    next
      case (Inr x)
      obtain q v where "(case x of (message, status) \<Rightarrow>
         then_m (tell (Counted ''reconcile'' kind ''success''))
        (then_m (tell (Gauge kind (metric_namespace b) (bo_name b) (Some (ready_value (sp_phase status)))))
        (then_m (post_events status message)
        (ret_m message)))) E u = (q, v)" by fastforce
      with emits_runD [OF k this] Pair Inr show ?thesis
        by (auto simp: run_reconcile_def bind_run list_all_iff)
    qed
  qed
  with es show ?thesis by (auto simp: list_all_iff)
qed

theorem pass_runs_under_lock_witness:
  "\<exists>es rest. trace (snd (run_reconcile ''PostgresUser'' ''postgresusers'' sample_body (raise_m ReconcileFailure ''no'') sample_env empty_world)) =
     trace empty_world @ Locked ''PostgresUser'' (Some ''team-a'') ''app'' # es @ Unlocked ''PostgresUser'' (Some ''team-a'') ''app'' # rest"
  using pass_runs_under_lock [where P = "\<lambda>e. False" and E = sample_env and kind = "''PostgresUser''" and
      plural = "''postgresusers''" and b = sample_body and w = empty_world, OF emits_raise [of _ _ ReconcileFailure "''no''"]]
  by (auto simp: sample_body_def)

end
