(* ===== verification/Ordering.thy ===== *)
theory Ordering
  imports Effects
begin

text \<open>
  What must come before what. \<open>guarded\<close> reads a list of events from left to right: an event that \<open>needs\<close> something
  may only come once an event that \<open>marks\<close> it has come, or when it was there from the start. \<open>orders\<close> lifts this
  to computations; the rules compose it like those of \<open>emits\<close>.
\<close>

primrec guarded :: "(event \<Rightarrow> bool) \<Rightarrow> (event \<Rightarrow> bool) \<Rightarrow> bool \<Rightarrow> event list \<Rightarrow> bool" where
  "guarded marks needs b [] = True"
| "guarded marks needs b (e # es) = ((\<not> needs e \<or> b) \<and> guarded marks needs (b \<or> marks e) es)"

lemma guarded_True [simp]: "guarded marks needs True es"
  by (induction es) simp_all

lemma guarded_append: "guarded marks needs b (xs @ ys) \<longleftrightarrow> guarded marks needs b xs \<and> guarded marks needs (b \<or> list_ex marks xs) ys"
  by (induction xs arbitrary: b) (auto simp: disj_assoc)

lemma guarded_mono: "guarded marks needs b es \<Longrightarrow> guarded marks needs (b \<or> c) es"
  by (cases b; cases c) simp_all

lemma guarded_quiet: "\<forall>e \<in> set es. \<not> needs e \<Longrightarrow> guarded marks needs b es"
  by (induction es arbitrary: b) simp_all

definition orders :: "(event \<Rightarrow> bool) \<Rightarrow> (event \<Rightarrow> bool) \<Rightarrow> env \<Rightarrow> bool \<Rightarrow> 'a m \<Rightarrow> bool" where
  "orders marks needs E b m \<longleftrightarrow> (\<forall>w. \<exists>es. trace (snd (m E w)) = trace w @ es \<and> guarded marks needs b es)"

text \<open>A computation after which the mark is there, whenever it returns.\<close>

definition leaves :: "(event \<Rightarrow> bool) \<Rightarrow> env \<Rightarrow> bool \<Rightarrow> 'a m \<Rightarrow> bool" where
  "leaves marks E b m \<longleftrightarrow> (\<forall>w x u es. m E w = (Inr x, u) \<longrightarrow> trace u = trace w @ es \<longrightarrow> b \<or> list_ex marks es)"

lemma orders_quiet: "emits E (\<lambda>e. \<not> needs e) m \<Longrightarrow> orders marks needs E b m"
  unfolding orders_def emits_def using guarded_quiet by blast

lemma orders_True: "emits E (\<lambda>_. True) m \<Longrightarrow> orders marks needs E True m"
  unfolding orders_def emits_def by auto

lemma orders_bind_gives:
  assumes "orders marks needs E b m" "gives E Q m" "\<And>x. Q x \<Longrightarrow> orders marks needs E b (f x)"
  shows "orders marks needs E b (bind_m m f)"
  unfolding orders_def
proof
  fix w
  obtain q u where mu: "m E w = (q, u)" by (cases "m E w")
  obtain es where es: "trace u = trace w @ es" "guarded marks needs b es"
    using assms(1) mu unfolding orders_def by (metis snd_conv)
  show "\<exists>es. trace (snd (bind_m m f E w)) = trace w @ es \<and> guarded marks needs b es"
  proof (cases q)
    case (Inl e) with mu es show ?thesis by (simp add: bind_run)
  next
    case (Inr x)
    with mu assms(2) have "Q x" by (auto simp: gives_def)
    from assms(3) [OF this] obtain fs where "trace (snd (f x E u)) = trace u @ fs" "guarded marks needs b fs"
      unfolding orders_def by blast
    with mu es Inr guarded_mono show ?thesis by (auto simp: bind_run guarded_append)
  qed
qed

lemma orders_bind: "orders marks needs E b m \<Longrightarrow> (\<And>x. orders marks needs E b (f x)) \<Longrightarrow> orders marks needs E b (bind_m m f)"
  by (rule orders_bind_gives [where Q = "\<lambda>_. True"]) simp_all

lemma orders_then: "orders marks needs E b m \<Longrightarrow> orders marks needs E b k \<Longrightarrow> orders marks needs E b (then_m m k)"
  by (simp add: then_m_def orders_bind)

text \<open>After a step that leaves the mark, everything is allowed.\<close>

lemma orders_bind_marked:
  assumes "orders marks needs E b m" "leaves marks E b m" "\<And>x. emits E (\<lambda>_. True) (f x)"
  shows "orders marks needs E b (bind_m m f)"
  unfolding orders_def
proof
  fix w
  obtain q u where mu: "m E w = (q, u)" by (cases "m E w")
  obtain es where es: "trace u = trace w @ es" "guarded marks needs b es"
    using assms(1) mu unfolding orders_def by (metis snd_conv)
  show "\<exists>es. trace (snd (bind_m m f E w)) = trace w @ es \<and> guarded marks needs b es"
  proof (cases q)
    case (Inl e) with mu es show ?thesis by (simp add: bind_run)
  next
    case (Inr x)
    with mu es(1) assms(2) have marked: "b \<or> list_ex marks es" by (simp add: leaves_def)
    obtain fs where "trace (snd (f x E u)) = trace u @ fs" using assms(3) unfolding emits_def by blast
    moreover have "guarded marks needs (b \<or> list_ex marks es) fs" using marked by simp
    ultimately show ?thesis using mu es Inr by (auto simp: bind_run guarded_append)
  qed
qed

lemma leaves_True: "leaves marks E True m"
  by (simp add: leaves_def)

lemma gives_mono: "gives E Q m \<Longrightarrow> (\<And>x. Q x \<Longrightarrow> R x) \<Longrightarrow> gives E R m"
  unfolding gives_def by blast

lemma gives_if: "(b \<Longrightarrow> gives E Q m) \<Longrightarrow> (\<not> b \<Longrightarrow> gives E Q n) \<Longrightarrow> gives E Q (if b then m else n)"
  by simp

end
