(* ===== verification/Instances.thy ===== *)
theory Instances
  imports Handlers Logical Ordering
begin

text \<open>
  \<open>reconcile/instance.py\<close> and \<open>handlers/instance.py\<close>: a pass over a PostgresInstance proves that its credentials
  work, records what the server can do and counts what depends on it; deleting one closes its connections and
  touches nothing else. The clock is read where the code reads it.
\<close>

section \<open>The resource and the result of a pass\<close>

definition PLURAL_INSTANCE :: string where "PLURAL_INSTANCE = ''postgresinstances''"
definition KIND_INSTANCE :: string where "KIND_INSTANCE = ''PostgresInstance''"

record instance_resource =
  nb_name :: string
  nb_generation :: int
  nb_spec :: "instance_spec res"
  nb_conditions :: "condition list"

record instance_result =
  ir_reachable :: bool
  ir_conditions :: "condition list"
  ir_generation :: int
  ir_status :: "(string \<times> json) list"
  ir_message :: string

definition endpoint_text :: "instance_spec \<Rightarrow> string" where
  "endpoint_text spec = is_host spec @ '':'' @ show_int (is_port spec)"

definition credentials_text :: "instance_spec \<Rightarrow> string \<Rightarrow> string" where
  "credentials_text spec own =
     (let ref = is_credentials spec in resolve_namespace (cr_namespace ref) own @ ''/'' @ cr_name ref)"

section \<open>Probes\<close>

definition count_dependents :: "string \<Rightarrow> string \<Rightarrow> nat m" where
  "count_dependents inst plural =
     bind_m (k8s_ask (K_List plural) (\<lambda>E h. says_instance_refs E h plural)) (\<lambda>refs.
     ret_m (length (filter (\<lambda>r. r = Some inst) refs)))"

definition probe_push_secret_crd :: "string \<Rightarrow> bool m" where
  "probe_push_secret_crd api_version =
     catch_m Base_Exception (crd_available api_version)
       (\<lambda>e. if instance_of e OperatorError then throw_m e else ret_m False)"

definition probe_logical_replication :: "resolved_instance \<Rightarrow> logical_info option m" where
  "probe_logical_replication inst =
     catch_m Base_Exception
       (bind_m (ctx_connect inst None) (\<lambda>c.
        bind_m (describe_logical_replication c (ri_server inst)) (\<lambda>info. ret_m (Some info))))
       (\<lambda>e. if instance_of e ConnectionFailure \<or> instance_of e ReconcileFailure then ret_m None else throw_m e)"

definition privilege_warnings :: "server_info \<Rightarrow> string list" where
  "privilege_warnings s =
     (if \<not> (sv_is_superuser s \<or> sv_is_rds_superuser s)
      then [''managing role '' @ sv_current_user s @ '' holds only '' @
            ''['' @ describe_privileges s @ '']; database and role creation '' @
            ''requires SUPERUSER, or rds_superuser with CREATEDB and CREATEROLE''] else []) @
     (if \<not> sv_can_create_db s then [sv_current_user s @ '' lacks CREATEDB''] else []) @
     (if \<not> sv_can_create_role s then [sv_current_user s @ '' lacks CREATEROLE''] else [])"

text \<open>The probe of the PushSecret CRD, when it is enabled: what it found, with its warning.\<close>

definition push_secret_probe :: "(bool option \<times> string list) m" where
  "push_secret_probe =
     bind_m (asks pushsecret_enabled) (\<lambda>enabled.
     bind_m (asks pushsecret_api_version) (\<lambda>api_version.
     if \<not> enabled then ret_m (None, [])
     else bind_m (probe_push_secret_crd api_version) (\<lambda>available.
       ret_m (Some available, if available then [] else
         [api_version @ '' PushSecret CRD is not '' @ ''installed; users requesting pushSecret will not sync'']))))"

section \<open>The pass\<close>

definition unreachable_result :: "instance_resource \<Rightarrow> instance_spec \<Rightarrow> string \<Rightarrow> err \<Rightarrow> string \<Rightarrow> instance_result" where
  "unreachable_result obj spec credentials e now =
     (let g = nb_generation obj
      in \<lparr>ir_reachable = False,
          ir_conditions = [unreachable now ''ConnectionFailed'' (err_text e) (Some g), not_ready now ''ConnectionFailed'' (err_text e) (Some g)],
          ir_generation = g,
          ir_status = [(''endpoint'', J_Str (endpoint_text spec)), (''credentialsSecret'', J_Str credentials),
                       (''phase'', J_Str ''Unreachable'')],
          ir_message = err_text e\<rparr>)"

definition reached_conditions :: "server_info \<Rightarrow> nat \<Rightarrow> nat \<Rightarrow> int \<Rightarrow> string \<Rightarrow> condition list" where
  "reached_conditions server databases users g now =
     [reachable now (''connected to PostgreSQL '' @ version_text server @ '' as '' @ sv_current_user server) (Some g),
      ready now (show_nat databases @ '' database(s) and '' @ show_nat users @ '' user(s) reference this instance'') (Some g)]"

definition warning_condition :: "string list \<Rightarrow> int \<Rightarrow> string \<Rightarrow> condition" where
  "warning_condition warnings g now =
     (if warnings \<noteq> [] then not_synced now ''PrivilegeWarning'' (join_with ''; '' warnings) (Some g)
      else synced now ''credentials and privileges verified'' (Some g))"

definition instance_details :: "instance_spec \<Rightarrow> string \<Rightarrow> server_info \<Rightarrow> nat \<Rightarrow> nat \<Rightarrow> string \<Rightarrow> (string \<times> json) list" where
  "instance_details spec credentials server databases users now =
     [(''endpoint'', J_Str (endpoint_text spec)), (''credentialsSecret'', J_Str credentials),
      (''managingRole'', J_Str (sv_current_user server)), (''serverVersion'', J_Str (version_text server)),
      (''serverVersionText'', J_Str (sv_version_text server)), (''privileges'', J_Str (describe_privileges server)),
      (''sslMode'', J_Str (ssl_text (is_ssl_mode spec))), (''retentionPolicy'', J_Str (retention_text (is_retention spec))),
      (''databases'', J_Int (int databases)), (''users'', J_Int (int users)), (''lastConnectedAt'', J_Str now)]"

definition reached_result :: "instance_resource \<Rightarrow> instance_spec \<Rightarrow> string \<Rightarrow> resolved_instance \<Rightarrow> instance_result m" where
  "reached_result obj spec credentials inst =
     (let server = ri_server inst; g = nb_generation obj; name = nb_name obj
      in bind_m (count_dependents name PLURAL_DATABASE) (\<lambda>databases.
         bind_m (count_dependents name PLURAL_USER) (\<lambda>users.
         bind_m now_m (\<lambda>now.
         bind_m push_secret_probe (\<lambda>(available, missing).
         bind_m now_m (\<lambda>later.
         bind_m (probe_logical_replication inst) (\<lambda>info.
         ret_m \<lparr>ir_reachable = True,
                ir_conditions = reached_conditions server databases users g now @
                  [warning_condition (privilege_warnings server @ missing) g later],
                ir_generation = g,
                ir_status = instance_details spec credentials server databases users later @
                  (case available of None \<Rightarrow> [] | Some b \<Rightarrow> [(''pushSecretsAvailable'', J_Bool b)]) @
                  (case info of None \<Rightarrow> [] | Some i \<Rightarrow> [(''logicalReplication'', logical_status i)]),
                ir_message = ''PostgreSQL '' @ version_text server @ '' at '' @ display inst\<rparr>)))))))"

definition reconcile_instance :: "instance_resource \<Rightarrow> instance_result m" where
  "reconcile_instance obj = (case parse_instance_spec (nb_spec obj) of
      Inl e \<Rightarrow> raise_m ConfigurationError (''invalid spec: '' @ err_text e)
    | Inr spec \<Rightarrow>
        bind_m (asks operator_namespace) (\<lambda>own.
        let credentials = credentials_text spec own
        in bind_m (catch_m Base_Exception
             (bind_m (resolve_instance (nb_name obj) []) (\<lambda>inst. ret_m (Inr inst)))
             (\<lambda>e. if instance_of e ConnectionFailure \<or> instance_of e ConfigurationError then ret_m (Inl e) else throw_m e)) (\<lambda>found.
           case found of
             Inl e \<Rightarrow> bind_m now_m (\<lambda>now. ret_m (unreachable_result obj spec credentials e now))
           | Inr inst \<Rightarrow> reached_result obj spec credentials inst)))"

text \<open>\<open>dict(result.status)\<close> with \<open>conditions\<close> and \<open>phase\<close> set over it.\<close>

definition build_instance_status :: "instance_result \<Rightarrow> condition list \<Rightarrow> status_patch" where
  "build_instance_status r existing =
     (let conditions = merge_conditions existing (ir_conditions r)
      in \<lparr>sp_generation = ir_generation r, sp_conditions = conditions, sp_phase = phase_from_conditions conditions,
          sp_details = filter (\<lambda>(k, _). k \<noteq> ''phase'') (ir_status r)\<rparr>)"

section \<open>Deletion\<close>

definition teardown_instance :: "instance_resource \<Rightarrow> string m" where
  "teardown_instance obj =
     (let name = nb_name obj
      in then_m (close_instance name)
        (then_m (invalidate name)
        (bind_m (count_dependents name PLURAL_DATABASE) (\<lambda>databases.
         bind_m (count_dependents name PLURAL_USER) (\<lambda>users.
         ret_m (if databases \<noteq> 0 \<or> users \<noteq> 0
                then ''closed connections; '' @ show_nat databases @ '' database(s) and '' @ show_nat users @ '' user(s) '' @
                     ''still reference this instance''
                else ''closed connections''))))))"

section \<open>Handlers\<close>

definition instance_body :: "instance_resource \<Rightarrow> bool \<Rightarrow> body" where
  "instance_body obj paused = \<lparr>bo_namespace = None, bo_name = nb_name obj, bo_generation = nb_generation obj,
     bo_paused = paused, bo_conditions = nb_conditions obj\<rparr>"

definition instance_pass :: "instance_resource \<Rightarrow> (string \<times> status_patch) m" where
  "instance_pass obj =
     bind_m (reconcile_instance obj) (\<lambda>result. ret_m (ir_message result, build_instance_status result (nb_conditions obj)))"

text \<open>The timer, and the handler of a created, changed or resumed resource, which first forgets what it knows.\<close>

definition reconcile_instance_periodically :: "instance_resource \<Rightarrow> bool \<Rightarrow> string m" where
  "reconcile_instance_periodically obj paused =
     (let b = instance_body obj paused
      in if is_paused b then publish_paused KIND_INSTANCE PLURAL_INSTANCE b
         else run_reconcile KIND_INSTANCE PLURAL_INSTANCE b (instance_pass obj))"

definition reconcile_instance_handler :: "instance_resource \<Rightarrow> bool \<Rightarrow> string m" where
  "reconcile_instance_handler obj paused =
     (let b = instance_body obj paused
      in if is_paused b then publish_paused KIND_INSTANCE PLURAL_INSTANCE b
         else then_m (invalidate (nb_name obj))
             (then_m (close_instance (nb_name obj))
               (run_reconcile KIND_INSTANCE PLURAL_INSTANCE b (instance_pass obj))))"

definition teardown_instance_handler :: "instance_resource \<Rightarrow> bool \<Rightarrow> string m" where
  "teardown_instance_handler obj paused = run_teardown KIND_INSTANCE (instance_body obj paused) (teardown_instance obj)"

section \<open>Scope\<close>

lemma read_only_probes:
  "emits E read_only (count_dependents n p)" "emits E read_only (probe_push_secret_crd v)"
  "emits E read_only (probe_logical_replication inst)" "emits E read_only push_secret_probe"
proof -
  show "emits E read_only (count_dependents n p)"
    unfolding count_dependents_def by (intro emits_rules) simp
  show c: "emits E read_only (probe_push_secret_crd v)" for v
    unfolding probe_push_secret_crd_def crd_available_def by (intro emits_rules) simp_all
  show "emits E read_only (probe_logical_replication inst)"
    unfolding probe_logical_replication_def by (intro emits_rules read_only_context read_only_logical)
  show "emits E read_only push_secret_probe"
    unfolding push_secret_probe_def by (intro emits_rules c)
qed

lemma read_only_instance: "emits E read_only (reconcile_instance obj)"
  unfolding reconcile_instance_def reached_result_def Let_def
  by (intro emits_rules read_only_context read_only_probes)

text \<open>What a deleted instance's teardown does: it closes pools of that instance and asks for lists.\<close>

fun lets_go :: "string \<Rightarrow> event \<Rightarrow> bool" where
  "lets_go name (Closed_Pool i d) = (i = name)"
| "lets_go name (K8s r) = (case r of K_List p \<Rightarrow> True | _ \<Rightarrow> False)"
| "lets_go name _ = False"

lemma close_instance_lets_go: "emits E (lets_go name) (close_instance name)"
  unfolding close_instance_def Let_def by (intro emits_rules) auto

lemma invalidate_emits: "emits E P (invalidate name)"
  unfolding invalidate_def by (intro emits_rules)

text \<open>
  C33. The operator never changes a server for the sake of its PostgresInstance. A pass over it only reads, from
  the server and from Kubernetes; deleting it does not even connect: it closes the pools of that
  instance and counts what still refers to it, so no database, role or row is touched, whatever depends on it.
\<close>

theorem instance_left_untouched:
  "emits E read_only (reconcile_instance obj) \<and> emits E (lets_go (nb_name obj)) (teardown_instance obj)"
proof
  show "emits E read_only (reconcile_instance obj)" by (rule read_only_instance)
  show "emits E (lets_go (nb_name obj)) (teardown_instance obj)"
    unfolding teardown_instance_def count_dependents_def Let_def
    by (intro emits_rules close_instance_lets_go invalidate_emits) simp_all
qed

section \<open>What the status says\<close>

lemma map_of_filter_key: "map_of (filter (\<lambda>(k, _). k \<noteq> x) xs) y = (if x = y then None else map_of xs y)"
  by (induction xs) auto

lemma push_secret_probe_gives: "gives E (\<lambda>(available, missing). missing = [] \<longleftrightarrow> available \<noteq> Some False) push_secret_probe"
  unfolding push_secret_probe_def
  by (rule gives_bindI [OF gives_True], rule gives_bindI [OF gives_True], rule gives_if)
    (auto intro!: gives_ret gives_bindI [OF gives_True])

definition reports :: "resolved_instance \<Rightarrow> instance_result \<Rightarrow> bool" where
  "reports inst r \<longleftrightarrow> (\<exists>ds us g now later missing.
     ir_conditions r = reached_conditions (ri_server inst) ds us g now @
       [warning_condition (privilege_warnings (ri_server inst) @ missing) g later] \<and>
     (missing = [] \<longleftrightarrow> map_of (ir_status r) ''pushSecretsAvailable'' \<noteq> Some (J_Bool False)) \<and>
     map_of (ir_status r) ''databases'' = Some (J_Int (int ds)) \<and> map_of (ir_status r) ''users'' = Some (J_Int (int us)))"

lemma reached_result_reports: "gives E (reports inst) (reached_result obj spec credentials inst)"
  unfolding reached_result_def Let_def
  apply (rule gives_bindI [OF gives_True], rule gives_bindI [OF gives_True], rule gives_bindI [OF gives_True])
  apply (rule gives_bindI [OF push_secret_probe_gives], clarify, rule gives_bindI [OF gives_True], rule gives_bindI [OF gives_True])
  apply (rule gives_ret)
  apply (simp only: reports_def instance_result.simps)
  apply (intro exI conjI, rule refl)
    apply (auto simp: instance_details_def split: option.splits)
  done

lemma reported_kinds:
  "map type_key (reached_conditions s ds us g now @ [warning_condition ws g later]) = [COND_REACHABLE, COND_READY, COND_SYNCED]"
  by (simp add: reached_conditions_def warning_condition_def)

lemma reached_report:
  assumes "reports inst r" and cs_def: "cs = merge_conditions existing (ir_conditions r)"
  shows "status_of cs COND_READY = Some ''True'' \<and> status_of cs COND_REACHABLE = Some ''True'' \<and>
    status_of cs COND_SYNCED = Some (if privilege_warnings (ri_server inst) = [] \<and>
       map_of (ir_status r) ''pushSecretsAvailable'' \<noteq> Some (J_Bool False) then ''True'' else ''False'') \<and>
    status_of cs COND_DRIFTED = status_of existing COND_DRIFTED \<and> status_of cs COND_STREAMING = status_of existing COND_STREAMING"
proof -
  obtain ds us g now later missing where r: "ir_conditions r = reached_conditions (ri_server inst) ds us g now @
      [warning_condition (privilege_warnings (ri_server inst) @ missing) g later]"
    "missing = [] \<longleftrightarrow> map_of (ir_status r) ''pushSecretsAvailable'' \<noteq> Some (J_Bool False)"
    using assms(1) unfolding reports_def by blast
  have k: "map type_key (ir_conditions r) = [COND_REACHABLE, COND_READY, COND_SYNCED]"
    unfolding r(1) by (rule reported_kinds)
  then have d: "distinct (map type_key (ir_conditions r))" by simp
  have kept: "status_of cs t = status_of existing t" if "t \<notin> {COND_REACHABLE, COND_READY, COND_SYNCED}" for t
    using status_of_unreported [of t "ir_conditions r" existing] that k by (simp add: cs_def flip: set_map)
  have shown: "status_of cs (type_key u) = c_status u" if "u \<in> set (ir_conditions r)" for u
    using status_of_reported [OF d that refl] by (simp add: cs_def)
  let ?w = "warning_condition (privilege_warnings (ri_server inst) @ missing) g later"
  have "type_key ?w = COND_SYNCED" "c_status ?w = Some (if privilege_warnings (ri_server inst) = [] \<and> missing = [] then ''True'' else ''False'')"
    by (simp_all add: warning_condition_def)
  with shown [of ?w] shown [of "hd (ir_conditions r)"] shown [of "ir_conditions r ! 1"] kept [of COND_DRIFTED] kept [of COND_STREAMING] r(2)
  show ?thesis unfolding r(1) by (simp add: reached_conditions_def)
qed

lemma instance_pass_cases:
  assumes "reconcile_instance obj E w = (Inr r, u)"
  shows "case fst (resolve_instance (nb_name obj) [] E w) of
      Inr inst \<Rightarrow> reports inst r \<and> ir_reachable r
    | Inl e \<Rightarrow> (instance_of e ConnectionFailure \<or> instance_of e ConfigurationError) \<and>
        (\<exists>spec credentials now. r = unreachable_result obj spec credentials e now)"
proof -
  obtain spec where s: "parse_instance_spec (nb_spec obj) = Inr spec"
    using assms by (cases "parse_instance_spec (nb_spec obj)") (simp_all add: reconcile_instance_def basic_run)
  obtain q v where q: "resolve_instance (nb_name obj) [] E w = (q, v)" by (cases "resolve_instance (nb_name obj) [] E w")
  show ?thesis
  proof (cases q)
    case (Inl e)
    with assms s q show ?thesis
      by (auto simp: reconcile_instance_def Let_def now_m_def run_simps instance_of_def split: if_splits)
  next
    case (Inr inst)
    with assms s q have run: "reached_result obj spec (credentials_text spec (operator_namespace E)) inst E v = (Inr r, u)"
      by (simp add: reconcile_instance_def Let_def run_simps)
    have "reports inst r" using reached_result_reports run unfolding gives_def by blast
    moreover have "gives E ir_reachable (reached_result obj spec c inst)" for c
      unfolding reached_result_def Let_def
      by (intro gives_bindI [OF gives_True]) (auto intro!: gives_ret gives_bindI [OF gives_True] split: prod.split)
    ultimately show ?thesis using run Inr q unfolding gives_def by auto
  qed
qed

lemma instance_status_unreachable:
  assumes "reconcile_instance obj E w = (Inr r, u)" "fst (resolve_instance (nb_name obj) [] E w) = Inl e"
    and "p = build_instance_status r existing"
  shows "\<not> ir_reachable r \<and> sp_phase p = Unreachable \<and> status_of (sp_conditions p) COND_READY = Some ''False'' \<and>
    status_of (sp_conditions p) COND_REACHABLE = Some ''False'' \<and> ir_message r = err_text e"
proof -
  obtain spec credentials now where r: "r = unreachable_result obj spec credentials e now"
    using instance_pass_cases [OF assms(1)] assms(2) by auto
  let ?us = "ir_conditions r"
  have k: "map type_key ?us = [COND_REACHABLE, COND_READY]" by (simp add: r unreachable_result_def Let_def)
  have shown: "status_of (sp_conditions p) (type_key c) = c_status c \<and> reason_of (sp_conditions p) (type_key c) = c_reason c"
    if "c \<in> set ?us" for c
    using status_of_reported [OF _ that refl, of existing] k assms(3) by (auto simp: build_instance_status_def Let_def)
  have "status_of (sp_conditions p) COND_REACHABLE = Some ''False''" "status_of (sp_conditions p) COND_READY = Some ''False''"
    "reason_of (sp_conditions p) COND_READY = Some ''ConnectionFailed''"
    using shown [of "hd ?us"] shown [of "?us ! 1"] by (simp_all add: r unreachable_result_def Let_def)
  moreover have "sp_phase p = phase_from_conditions (sp_conditions p)"
    using assms(3) by (auto simp: build_instance_status_def Let_def)
  ultimately show ?thesis using phase_not_ready by (simp add: r unreachable_result_def Let_def)
qed

lemma resolve_then:
  assumes "reconcile_instance obj E w = (Inr r, u)" "resolve_instance (nb_name obj) [] E w = (Inr inst, x)"
  shows "\<exists>es. trace u = trace x @ es"
proof -
  obtain spec where "reached_result obj spec (credentials_text spec (operator_namespace E)) inst E x = (Inr r, u)"
    using assms by (cases "parse_instance_spec (nb_spec obj)") (auto simp: reconcile_instance_def Let_def run_simps)
  moreover have "emits E read_only (reached_result obj spec c inst)" for spec c
    unfolding reached_result_def Let_def by (intro emits_rules read_only_probes)
  ultimately show ?thesis using emits_runD by blast
qed

text \<open>
  What the status of a PostgresInstance says. The pass reports, and does not fail, exactly when the instance could
  be resolved or could not for a reason of the network, the Secret or the spec. Then the phase is Ready when it
  was reached and Unreachable otherwise - whatever was recorded before - and a reached instance is Synced
  exactly when its role may do what the operator needs and no wanted PushSecret CRD is missing.
\<close>

theorem instance_status_truthful:
  assumes "reconcile_instance obj E w = (Inr r, u)" "build_instance_status r existing = p"
    and "status_of existing COND_DRIFTED = None" "status_of existing COND_STREAMING = None"
  shows "case fst (resolve_instance (nb_name obj) [] E w) of
      Inr inst \<Rightarrow> ir_reachable r \<and> sp_phase p = Ready \<and> status_of (sp_conditions p) COND_REACHABLE = Some ''True'' \<and>
        (status_of (sp_conditions p) COND_SYNCED = Some ''True'' \<longleftrightarrow>
           privilege_warnings (ri_server inst) = [] \<and> map_of (sp_details p) ''pushSecretsAvailable'' \<noteq> Some (J_Bool False))
    | Inl e \<Rightarrow> \<not> ir_reachable r \<and> sp_phase p = Unreachable \<and> status_of (sp_conditions p) COND_READY = Some ''False'' \<and>
        status_of (sp_conditions p) COND_REACHABLE = Some ''False'' \<and> ir_message r = err_text e"
proof (cases "fst (resolve_instance (nb_name obj) [] E w)")
  case (Inl e)
  then show ?thesis using instance_status_unreachable [OF assms(1) Inl refl, of existing] assms(2) by simp
next
  case (Inr inst)
  then have r: "reports inst r" "ir_reachable r" using instance_pass_cases [OF assms(1)] by auto
  have p: "sp_conditions p = merge_conditions existing (ir_conditions r)" "sp_phase p = phase_from_conditions (sp_conditions p)"
    "map_of (sp_details p) ''pushSecretsAvailable'' = map_of (ir_status r) ''pushSecretsAvailable''"
    using assms(2) by (auto simp: build_instance_status_def Let_def map_of_filter_key)
  from reached_report [OF r(1) p(1)] assms(3,4) r(2) Inr p(2,3) phase_by_status [of "sp_conditions p"]
  show ?thesis by auto
qed

definition sample_resource :: instance_resource where
  "sample_resource = \<lparr>nb_name = ''main'', nb_generation = 3, nb_spec = Inr sample_instance, nb_conditions = []\<rparr>"

text \<open>A server that answers, whose logical settings may not be read, in a cluster without the PushSecret CRD.\<close>

definition probe_env :: env where
  "probe_env = sample_env\<lparr>says_instance := \<lambda>h n. Inr \<lparr>io_spec = Inr sample_instance, io_generation = 1\<rparr>,
     says_secret := \<lambda>h ns n. Inr \<lparr>so_data = [(''username'', [97]), (''password'', [98])], so_string_data = [], so_labels = [], so_annotations = []\<rparr>,
     says_server := \<lambda>h c q. Inr (Some \<lparr>sv_version_num = 160003, sv_version_text = ''16.3'', sv_current_user = ''a'', sv_is_superuser = True,
       sv_can_create_db = True, sv_can_create_role = True, sv_is_rds_superuser = False\<rparr>),
     says_logical := \<lambda>h c q. Inl (Pg_Error Pg_Other ''e'' ''denied'')\<rparr>"

lemma probe_load: "load_instance_spec n [] probe_env w = (Inr (sample_instance, 1), w\<lparr>trace := trace w @ [K8s (K_Get_Instance n)]\<rparr>)"
  by (simp add: load_instance_spec_def get_instance_def rename_not_found_def k8s_ask_def run_simps probe_env_def sample_instance_accepted)

lemma probe_decode: "decode_m [97] E w = (Inr ''a'', w)" "decode_m [98] E w = (Inr ''b'', w)"
proof -
  have "utf8_decode [97] = Some ''a''" "utf8_decode [98] = Some ''b''" by code_simp+
  then show "decode_m [97] E w = (Inr ''a'', w)" "decode_m [98] E w = (Inr ''b'', w)" by (simp_all add: decode_m_def basic_run)
qed

lemma probe_secret:
  "read_secret_key ns n ''username'' probe_env w = (Inr [97], w\<lparr>trace := trace w @ [K8s (K_Read_Secret ns n)]\<rparr>)"
  "read_secret_key ns n ''password'' probe_env w = (Inr [98], w\<lparr>trace := trace w @ [K8s (K_Read_Secret ns n)]\<rparr>)"
  by (simp_all add: read_secret_key_def read_secret_def rename_not_found_def k8s_ask_def run_simps probe_env_def dupdate_def)

lemma sample_instance_fields:
  "cr_username_key (is_credentials sample_instance) = ''username''" "cr_password_key (is_credentials sample_instance) = ''password''"
  "is_ssl_root_cert sample_instance = None" "is_min_server_version sample_instance = None"
  by (simp_all add: sample_instance_def)

lemma probe_answers:
  "says_bool probe_env h c q = Inr False" "monotonic probe_env h = 0" "pushsecret_enabled probe_env"
  "says_logical probe_env h c q = Inl (Pg_Error Pg_Other ''e'' ''denied'')" "says_instance_refs probe_env h p = Inr []"
  "pushsecret_api_version probe_env = ''external-secrets.io/v1alpha1''" "says_crd probe_env h n = Inl (Err (Api_Exception 404) [])"
  by (simp_all add: probe_env_def sample_env_def)

lemma probe_server: "\<exists>i. says_server probe_env h c q = Inr (Some i)"
  by (simp add: probe_env_def)

lemma probe_build: "\<exists>ep u. build_endpoint n sample_instance probe_env w = (Inr ep, u) \<and> server_cache u = server_cache w"
  by (simp add: build_endpoint_def run_simps Let_def probe_secret probe_decode sample_instance_fields)

lemma pool_taken: "\<exists>u. pool_for ep d E w = (Inr (), u) \<and> server_cache u = server_cache w"
  by (auto simp: pool_for_def set_pools_def run_simps Let_def split: option.split)

lemma probe_connection: "\<exists>c u. connection ep d probe_env w = (Inr c, u) \<and> server_cache u = server_cache w"
proof -
  have n: "on_connect probe_env h c = None" for h c by (simp add: probe_env_def sample_env_def)
  obtain u where "pool_for ep (or_text d (ep_maintenance_database ep)) probe_env w = (Inr (), u)" "server_cache u = server_cache w"
    using pool_taken by blast
  then show ?thesis by (simp add: connection_def Let_def run_simps n)
qed

lemma probe_describe:
  assumes "server_cache w = []"
  shows "\<exists>i u. describe_cached ep probe_env w = (Inr i, u)"
proof -
  obtain c v where c: "connection ep None probe_env w = (Inr c, v)" using probe_connection by blast
  let ?v = "v\<lparr>trace := trace v @ [Asked c Q_Has_Rds_Role]\<rparr>"
  obtain i where i: "says_server probe_env (trace ?v) c (Q_Server_Info False) = Inr (Some i)" using probe_server by blast
  have "describe_server c probe_env v = (Inr i, ?v\<lparr>trace := trace ?v @ [Asked c (Q_Server_Info False)]\<rparr>)"
    using i by (simp add: describe_server_def fetch_def run_simps probe_answers)
  then show ?thesis
    by (simp add: describe_cached_def run_simps fresh_info_def assms c set_server_cache_def probe_answers)
qed

lemma probe_resolve: "\<exists>i u. resolve_instance n [] probe_env empty_world = (Inr i, u)"
proof -
  let ?w = "empty_world\<lparr>trace := trace empty_world @ [K8s (K_Get_Instance n)]\<rparr>"
  obtain ep v where b: "build_endpoint n sample_instance probe_env ?w = (Inr ep, v)" "server_cache v = server_cache ?w"
    using probe_build by blast
  obtain i u where d: "describe_cached ep probe_env v = (Inr i, u)"
    using probe_describe [of v ep] b(2) by (auto simp: empty_world_def)
  show ?thesis using b d by (simp add: resolve_instance_def bind_run probe_load basic_run sample_instance_fields)
qed

lemma probe_crd: "\<exists>a ms u. push_secret_probe probe_env v = (Inr (a, ms), u)"
proof -
  have "split_api_version ''external-secrets.io/v1alpha1'' = Inr (''external-secrets.io'', ''v1alpha1'')" by code_simp
  then show ?thesis
    by (simp add: push_secret_probe_def probe_push_secret_crd_def crd_available_def k8s_ask_def run_simps if_found_run
      probe_answers is_not_found_def)
qed

lemma probe_logical: "\<exists>i u. probe_logical_replication inst probe_env v = (Inr i, u)"
proof -
  obtain c u where "connection (ri_endpoint inst) None probe_env v = (Inr c, u)" using probe_connection by blast
  then show ?thesis
    by (simp add: probe_logical_replication_def ctx_connect_def describe_logical_replication_def fetch_def run_simps instance_of_def
      probe_answers)
qed

lemma probe_reached: "\<exists>r u. reached_result obj spec cr inst probe_env w = (Inr r, u)"
proof -
  have c: "count_dependents n p probe_env v = (Inr 0, v\<lparr>trace := trace v @ [K8s (K_List p)]\<rparr>)" for n p v
    by (simp add: count_dependents_def k8s_ask_def run_simps probe_answers)
  let ?v = "w\<lparr>trace := trace w @ [K8s (K_List PLURAL_DATABASE), K8s (K_List PLURAL_USER)]\<rparr>"
  obtain a ms u where 1: "push_secret_probe probe_env ?v = (Inr (a, ms), u)" using probe_crd by blast
  obtain i x where 2: "probe_logical_replication inst probe_env u = (Inr i, x)" using probe_logical by blast
  show ?thesis by (simp add: reached_result_def Let_def bind_run c now_m_def basic_run 1 2)
qed

theorem instance_status_truthful_witness:
  "\<exists>r u. reconcile_instance sample_resource probe_env empty_world = (Inr r, u) \<and> ir_reachable r \<and>
     sp_phase (build_instance_status r []) = Ready"
proof -
  obtain inst v where inst: "resolve_instance ''main'' [] probe_env empty_world = (Inr inst, v)" using probe_resolve by blast
  obtain r u where "reached_result sample_resource sample_instance (credentials_text sample_instance (operator_namespace probe_env)) inst probe_env v
      = (Inr r, u)" using probe_reached by blast
  then have run: "reconcile_instance sample_resource probe_env empty_world = (Inr r, u)"
    using inst by (simp add: reconcile_instance_def sample_resource_def sample_instance_accepted Let_def run_simps)
  have "status_of [] COND_DRIFTED = None" "status_of [] COND_STREAMING = None"
    by (simp_all add: status_of_def lookup_condition_def by_type_def dupdate_def)
  from instance_status_truthful [OF run refl this] run inst show ?thesis by (auto simp: sample_resource_def)
qed

section \<open>A changed resource\<close>

text \<open>Computations that leave the cache of server information alone.\<close>

definition keeps_cache :: "env \<Rightarrow> 'a m \<Rightarrow> bool" where
  "keeps_cache E m \<longleftrightarrow> (\<forall>w. server_cache (snd (m E w)) = server_cache w)"

lemma keeps_cacheD: "keeps_cache E m \<Longrightarrow> m E w = (r, u) \<Longrightarrow> server_cache u = server_cache w"
  unfolding keeps_cache_def by (metis snd_conv)

lemma keeps_bind: "keeps_cache E m \<Longrightarrow> (\<And>x. keeps_cache E (f x)) \<Longrightarrow> keeps_cache E (bind_m m f)"
  unfolding keeps_cache_def by (auto simp: bind_run split: prod.split sum.split) (metis snd_conv)+

lemma keeps_basic:
  "keeps_cache E (ret_m x)" "keeps_cache E (throw_m e)" "keeps_cache E (raise_m c msg)" "keeps_cache E (asks f)"
  "keeps_cache E (gets g)" "keeps_cache E (sample_m h)" "keeps_cache E (tell ev)" "keeps_cache E (k8s_ask q s)"
  by (simp_all add: keeps_cache_def basic_run k8s_ask_def then_run bind_run split: sum.split)

lemma keeps_catch: "keeps_cache E m \<Longrightarrow> (\<And>e. keeps_cache E (h e)) \<Longrightarrow> keeps_cache E (catch_m c m h)"
  unfolding keeps_cache_def by (auto simp: catch_run split: prod.split sum.split) (metis snd_conv)+

lemma keeps_reads:
  "keeps_cache E (load_instance_spec n ns)" "keeps_cache E (build_endpoint n spec)"
proof -
  note [intro] = keeps_bind keeps_basic keeps_catch
  have r: "keeps_cache E (rename_not_found (k8s_ask q s) c msg)" for q and s :: "env \<Rightarrow> history \<Rightarrow> err + 'b" and c msg
    unfolding rename_not_found_def by (rule keeps_catch) (auto split: if_splits)
  show "keeps_cache E (load_instance_spec n ns)"
    unfolding load_instance_spec_def get_instance_def
    by (rule keeps_bind [OF r]) (auto split: sum.split)
  have d: "keeps_cache E (decode_m bs)" for bs unfolding decode_m_def by (auto split: option.split)
  have k: "keeps_cache E (read_secret_key a b c)" for a b c
    unfolding read_secret_key_def read_secret_def
    by (intro keeps_bind r) (auto split: option.split)
  have m: "keeps_cache E (materialise_ca_bundle a b)" for a b
    unfolding materialise_ca_bundle_def then_m_def when_m_def by (intro keeps_bind keeps_basic) (simp add: keeps_basic)
  show "keeps_cache E (build_endpoint n spec)"
    unfolding build_endpoint_def Let_def
    by (intro keeps_bind keeps_basic k d) (auto split: option.split intro!: keeps_bind k m)
qed

definition asks_server :: "string \<Rightarrow> event \<Rightarrow> bool" where
  "asks_server name ev \<longleftrightarrow> (\<exists>c b. ev = Asked c (Q_Server_Info b) \<and> cn_instance c = name)"

definition reports_unreachable :: "string \<Rightarrow> event \<Rightarrow> bool" where
  "reports_unreachable name ev \<longleftrightarrow> (case ev of
      K8s (K_Patch_Status plural ns n patch) \<Rightarrow> plural = PLURAL_INSTANCE \<and> n = name \<and> sp_phase patch = Unreachable
    | _ \<Rightarrow> False)"

lemma connection_names: "gives E (\<lambda>c. cn_instance c = ep_instance ep) (connection ep d)"
  unfolding connection_def Let_def then_m_def
  by (rule gives_bindI [OF gives_True])+ (auto intro!: gives_ret gives_raise gives_bindI [OF gives_True] split: option.split connect_error.split)

text \<open>A description that the cache cannot answer asks the server.\<close>

lemma described_anew:
  assumes "ep_instance ep = name" "name \<notin> fst ` fst ` set (server_cache w)"
    and "describe_cached ep E w = (Inr info, u)" "trace u = trace w @ es"
  shows "list_ex (asks_server name) es"
proof -
  let ?key = "(ep_instance ep, fingerprint_of E ep)"
  have none: "fresh_info (server_cache w) ?key now = None" for now
  proof -
    have "map_of (server_cache w) ?key = None" using assms(1,2) by (force simp: map_of_eq_None_iff)
    then show ?thesis by (simp add: fresh_info_def)
  qed
  obtain c v where c: "connection ep None E w = (Inr c, v)"
    using assms(3) by (cases "connection ep None E w") (auto simp: describe_cached_def run_simps none split: sum.splits)
  obtain xs where xs: "trace v = trace w @ xs" using emits_runD [OF read_only_connection c] by blast
  have n: "cn_instance c = name" using givesD [OF connection_names c] assms(1) by simp
  obtain i x where d: "describe_server c E v = (Inr i, x)" "trace u = trace x"
    using assms(3) by (cases "describe_server c E v") (auto simp: describe_cached_def run_simps none c set_server_cache_def split: sum.splits)
  obtain b where "trace x = trace v @ [Asked c Q_Has_Rds_Role, Asked c (Q_Server_Info b)]"
    using d(1) by (auto simp: describe_server_def fetch_def run_simps split: sum.splits pg_error.splits option.splits)
  then have "es = xs @ [Asked c Q_Has_Rds_Role, Asked c (Q_Server_Info b)]" using assms(4) d(2) xs by simp
  then show ?thesis using n by (auto simp: asks_server_def)
qed

lemma endpoint_names: "gives E (\<lambda>ep. ep_instance ep = name) (build_endpoint name spec)"
  unfolding build_endpoint_def Let_def by (intro gives_bindI [OF gives_True] gives_ret) simp

lemma resolved_anew:
  assumes "name \<notin> fst ` fst ` set (server_cache w)" "resolve_instance name ns E w = (Inr inst, u)" "trace u = trace w @ es"
  shows "list_ex (asks_server name) es"
proof -
  obtain spec g v where l: "load_instance_spec name ns E w = (Inr (spec, g), v)"
    using assms(2) by (cases "load_instance_spec name ns E w") (auto simp: resolve_instance_def bind_run split: sum.splits)
  obtain ep x where b: "build_endpoint name spec E v = (Inr ep, x)"
    using assms(2) l by (cases "build_endpoint name spec E v") (auto simp: resolve_instance_def bind_run split: sum.splits)
  obtain info y where d: "describe_cached ep E x = (Inr info, y)" "u = y"
    using assms(2) l b
    by (cases "describe_cached ep E x") (auto simp: resolve_instance_def bind_run basic_run split: sum.splits option.splits if_splits)
  obtain xs where xs: "trace v = trace w @ xs" using emits_runD [OF read_only_context(1) l] by blast
  obtain ys where ys: "trace x = trace v @ ys" using emits_runD [OF read_only_context(4) b] by blast
  obtain zs where zs: "trace y = trace x @ zs" using emits_runD [OF read_only_context(5) d(1)] by blast
  have "server_cache x = server_cache w" using keeps_cacheD [OF keeps_reads(1) l] keeps_cacheD [OF keeps_reads(2) b] by simp
  then have "list_ex (asks_server name) zs"
    using described_anew [OF givesD [OF endpoint_names b] _ d(1) zs] assms(1) by simp
  then show ?thesis using assms(3) d(2) xs ys zs by auto
qed

lemma run_reconcile_ok:
  assumes "run_reconcile kind plural b pass E w = (Inr msg, u)"
  obtains status v rest where
    "pass E (w\<lparr>trace := trace w @ [Locked kind (bo_namespace b) (bo_name b)]\<rparr>) = (Inr (msg, status), v)"
    "trace u = trace v @ K8s (K_Patch_Status plural (if given (bo_namespace b) then bo_namespace b else None) (bo_name b) status) # rest"
proof -
  let ?w = "w\<lparr>trace := trace w @ [Locked kind (bo_namespace b) (bo_name b)]\<rparr>"
  obtain r v where p: "pass E ?w = (r, v)" by (cases "pass E ?w")
  have base: "instance_of e Base_Exception" for e by (simp add: instance_of_def)
  show thesis
  proof (cases r)
    case (Inl e)
    then show ?thesis using assms p base
      by (auto simp: run_reconcile_def hold_def finally_run bind_run then_run catch_run basic_run split: prod.splits sum.splits)
  next
    case (Inr ms)
    obtain m status where ms: "ms = (m, status)" by (cases ms)
    let ?ev = "K8s (K_Patch_Status plural (if given (bo_namespace b) then bo_namespace b else None) (bo_name b) status)"
    obtain q x where k: "patch_status plural (bo_name b) status (bo_namespace b) E v = (q, x)"
      by (cases "patch_status plural (bo_name b) status (bo_namespace b) E v")
    then have x: "x = v\<lparr>trace := trace v @ [?ev]\<rparr>"
      by (auto simp: patch_status_def k8s_do_def run_simps split: option.splits if_splits)
    obtain y where after: "m = msg" "post_events status m E y = (Inr (), u)" "\<exists>fs. trace y = trace x @ fs"
      using assms p Inr ms k
      by (auto simp: run_reconcile_def hold_def finally_run bind_run then_run catch_run basic_run split: prod.splits sum.splits)
    obtain gs where "trace u = trace y @ gs" using emits_runD [OF post_events_after after(2)] by blast
    with that [of status v] p Inr ms after x show ?thesis by auto
  qed
qed

lemma cleared_run:
  "\<exists>es. then_m (invalidate name) (then_m (close_instance name) m) E w =
     m E (w\<lparr>server_cache := filter (\<lambda>(k, _). fst k \<noteq> name) (server_cache w),
            pools := filter (\<lambda>(k, _). fst k \<noteq> name) (pools w), trace := trace w @ es\<rparr>)"
proof -
  have each: "\<exists>es. each_m (\<lambda>(i, d). tell (Closed_Pool i d)) ks E v = (Inr (), v\<lparr>trace := trace v @ es\<rparr>)" for ks v
  proof (induction ks arbitrary: v)
    case Nil
    then show ?case by (intro exI [of _ "[]"]) (simp add: basic_run)
  next
    case (Cons k ks)
    obtain i d where k: "k = (i, d)" by (cases k)
    let ?v = "v\<lparr>trace := trace v @ [Closed_Pool i d]\<rparr>"
    obtain es where "each_m (\<lambda>(i, d). tell (Closed_Pool i d)) ks E ?v = (Inr (), ?v\<lparr>trace := trace ?v @ es\<rparr>)"
      using Cons.IH by blast
    then show ?case by (intro exI [of _ "Closed_Pool i d # es"]) (simp add: then_run k tell_def)
  qed
  obtain es where "each_m (\<lambda>(i, d). tell (Closed_Pool i d)) (filter (\<lambda>k. fst k = name) (map fst (pools w))) E
      (w\<lparr>server_cache := filter (\<lambda>(k, _). fst k \<noteq> name) (server_cache w), pools := filter (\<lambda>(k, _). fst k \<noteq> name) (pools w)\<rparr>) =
      (Inr (), w\<lparr>server_cache := filter (\<lambda>(k, _). fst k \<noteq> name) (server_cache w),
            pools := filter (\<lambda>(k, _). fst k \<noteq> name) (pools w), trace := trace w @ es\<rparr>)"
    using each [of "filter (\<lambda>k. fst k = name) (map fst (pools w))"
      "w\<lparr>server_cache := filter (\<lambda>(k, _). fst k \<noteq> name) (server_cache w), pools := filter (\<lambda>(k, _). fst k \<noteq> name) (pools w)\<rparr>"] by auto
  then show ?thesis
    by (intro exI [of _ es]) (simp add: invalidate_def close_instance_def Let_def run_simps set_server_cache_def set_pools_def)
qed


lemma absent_instance:
  "\<exists>r u. reconcile_instance sample_resource sample_env w = (Inr r, u)"
proof -
  have "\<exists>e u. resolve_instance ''main'' [] sample_env w = (Inl (Err InstanceNotFound e), u)"
    by (simp add: resolve_instance_def load_instance_spec_def get_instance_def rename_not_found_def k8s_ask_def run_simps
      sample_env_def is_not_found_def instance_of_def)
  then obtain e u where "resolve_instance ''main'' [] sample_env w = (Inl (Err InstanceNotFound e), u)" by blast
  then show ?thesis
    by (simp add: reconcile_instance_def sample_resource_def sample_instance_accepted Let_def now_m_def run_simps instance_of_def)
qed

lemma accepted_pass_returns:
  assumes "pass E (w\<lparr>trace := trace w @ [Locked kind (bo_namespace b) (bo_name b)]\<rparr>) = (Inr (msg, status), v)" "\<And>h r. k8s_fails E h r = None"
  shows "\<exists>u. run_reconcile kind plural b pass E w = (Inr msg, u)"
proof -
  have post: "\<exists>u. post_events status msg E x = (Inr (), u)" for x
    by (auto simp: post_events_def Let_def when_m_def then_run basic_run)
  have post: "\<exists>u. (case post_events status msg E x of (Inl e, u) \<Rightarrow> (Inl e, u) | (Inr y, u) \<Rightarrow> ret_m msg E u) = (Inr msg, u)" for x
    using post [of x] by (auto simp: basic_run)
  show ?thesis
    using assms(1) by (simp add: post run_reconcile_def hold_def finally_run bind_run then_run catch_run basic_run patch_status_def
      k8s_do_def assms(2))
qed


end
