(* ===== verification/ApiDocuments.thy ===== *)
theory ApiDocuments
  imports ReplicationStatus Instances
begin

text \<open>
  \<open>api/schemas.py\<close> and the projections of \<open>api/store.py\<close>: how a custom resource, as the Kubernetes API returns it, becomes
  a response of the read-only API. A resource is a JSON document that satisfies the schema of its CRD; a field
  that is missing or null reads as \<open>None\<close>. The laws say that the phase and the message shown are those the
  operator meant, and that nothing of a Secret but its name and keys can be shown.
\<close>

section \<open>Reading documents\<close>

text \<open>\<open>document.get(key)\<close>, on a document that may be missing; \<open>bool(x)\<close>; \<open>a or b\<close>.\<close>

fun field_of :: "json \<Rightarrow> string \<Rightarrow> json" where
  "field_of (J_Obj kvs) k = (case map_of kvs k of Some v \<Rightarrow> v | None \<Rightarrow> J_Null)"
| "field_of _ k = J_Null"

fun truthy :: "json \<Rightarrow> bool" where
  "truthy J_Null = False"
| "truthy (J_Bool b) = b"
| "truthy (J_Int n) = (n \<noteq> 0)"
| "truthy (J_Str s) = (s \<noteq> [])"
| "truthy (J_List xs) = (xs \<noteq> [])"
| "truthy (J_Obj kvs) = (kvs \<noteq> [])"

definition or_json :: "json \<Rightarrow> json \<Rightarrow> json" where
  "or_json a b = (if truthy a then a else b)"

fun repr_json :: "json \<Rightarrow> string" where
  "repr_json J_Null = ''None''"
| "repr_json (J_Bool b) = (if b then ''True'' else ''False'')"
| "repr_json (J_Int n) = show_int n"
| "repr_json (J_Str s) = py_repr s"
| "repr_json (J_List xs) = ''['' @ join_with '', '' (map repr_json xs) @ '']''"
| "repr_json (J_Obj kvs) = ''{'' @ join_with '', '' (map (\<lambda>(k, v). py_repr k @ '': '' @ repr_json v) kvs) @ ''}''"

definition str_json :: "json \<Rightarrow> string" where
  "str_json j = (case j of J_Str s \<Rightarrow> s | _ \<Rightarrow> repr_json j)"

text \<open>An optional field of a response, by its type.\<close>

definition text_field :: "json \<Rightarrow> string option" where
  "text_field j = (case j of J_Str s \<Rightarrow> Some s | _ \<Rightarrow> None)"

definition int_field :: "json \<Rightarrow> int option" where
  "int_field j = (case j of J_Int n \<Rightarrow> Some n | _ \<Rightarrow> None)"

definition bool_field :: "json \<Rightarrow> bool option" where
  "bool_field j = (case j of J_Bool b \<Rightarrow> Some b | _ \<Rightarrow> None)"

definition elements :: "json \<Rightarrow> json list" where
  "elements j = (case j of J_List xs \<Rightarrow> xs | _ \<Rightarrow> [])"

definition object_members :: "json \<Rightarrow> (string \<times> json) list" where
  "object_members j = (case j of J_Obj kvs \<Rightarrow> kvs | _ \<Rightarrow> [])"

text \<open>\<open>int(x or 0)\<close>, on a field whose schema is integer, and \<open>_strings\<close>.\<close>

definition count_field :: "json \<Rightarrow> int" where
  "count_field j = (case j of J_Int n \<Rightarrow> n | _ \<Rightarrow> 0)"

definition strings_of :: "json \<Rightarrow> string list" where
  "strings_of j = map str_json (elements j)"

text \<open>\<open>str(document.get(key, ""))\<close>\<close>

definition text_or_empty :: "json \<Rightarrow> string \<Rightarrow> string" where
  "text_or_empty j k = (case j of J_Obj kvs \<Rightarrow> (case map_of kvs k of Some v \<Rightarrow> str_json v | None \<Rightarrow> []) | _ \<Rightarrow> [])"

section \<open>Phases and conditions\<close>

fun phase_text :: "phase \<Rightarrow> string" where
  "phase_text Ready = ''Ready''"
| "phase_text Drifted = ''Drifted''"
| "phase_text Degraded = ''Degraded''"
| "phase_text Pending = ''Pending''"
| "phase_text Paused = ''Paused''"
| "phase_text Failed = ''Failed''"
| "phase_text Unreachable = ''Unreachable''"

datatype shown_phase = Shown phase | Unknown

fun shown_text :: "shown_phase \<Rightarrow> string" where
  "shown_text (Shown p) = phase_text p"
| "shown_text Unknown = ''Unknown''"

definition KNOWN_PHASES :: "phase list" where
  "KNOWN_PHASES = [Ready, Drifted, Degraded, Pending, Paused, Failed, Unreachable]"

definition phase_of :: "json \<Rightarrow> shown_phase" where
  "phase_of status =
     (let value = str_json (or_json (field_of status ''phase'') (J_Str ''Unknown''))
      in case map_of (map (\<lambda>p. (phase_text p, Shown p)) KNOWN_PHASES) value of Some p \<Rightarrow> p | None \<Rightarrow> Unknown)"

record shown_condition =
  sc_type :: string
  sc_status :: string
  sc_reason :: string
  sc_message :: string
  sc_transition :: "string option"
  sc_generation :: "int option"

definition condition_of :: "json \<Rightarrow> shown_condition" where
  "condition_of c = \<lparr>sc_type = str_json (field_of c ''type''), sc_status = str_json (field_of c ''status''),
     sc_reason = or_text (text_field (field_of c ''reason'')) [], sc_message = or_text (text_field (field_of c ''message'')) [],
     sc_transition = text_field (field_of c ''lastTransitionTime''), sc_generation = int_field (field_of c ''observedGeneration'')\<rparr>"

definition conditions_of :: "json \<Rightarrow> shown_condition list" where
  "conditions_of status = map condition_of (elements (field_of status ''conditions''))"

text \<open>\<open>str(c.get("message") or "") or None\<close>\<close>

definition message_of :: "json \<Rightarrow> string option" where
  "message_of c = (let t = str_json (or_json (field_of c ''message'') (J_Str []))
     in if t = [] then None else Some t)"

definition phase_message :: "json \<Rightarrow> string option" where
  "phase_message status =
     (let conditions = dupdate [] (map (\<lambda>c. (str_json (field_of c ''type''), c)) (elements (field_of status ''conditions'')));
          ready = map_of conditions ''Ready'';
          streaming = map_of conditions ''Streaming'';
          drift = map_of conditions ''Drifted''
      in if ready \<noteq> None \<and> field_of (the ready) ''status'' \<noteq> J_Str ''True'' then message_of (the ready)
         else if streaming \<noteq> None \<and> field_of (the streaming) ''reason'' \<in> set (map J_Str DEGRADING_REASONS)
         then message_of (the streaming)
         else if drift \<noteq> None \<and> field_of (the drift) ''status'' = J_Str ''True'' then message_of (the drift)
         else message_of (case ready of Some r \<Rightarrow> r | None \<Rightarrow> J_Obj []))"

section \<open>Responses\<close>

record resource_ref =
  ref_name :: string
  ref_namespace :: "string option"

definition ref_of :: "json \<Rightarrow> resource_ref option" where
  "ref_of r = (if truthy (field_of r ''name'')
     then Some \<lparr>ref_name = str_json (field_of r ''name''), ref_namespace = text_field (field_of r ''namespace'')\<rparr> else None)"

record logical_summary =
  ls_wal :: "string option"
  ls_slots :: "int option"
  ls_in_use :: "int option"
  ls_senders :: "int option"
  ls_keep :: "string option"
  ls_subscribe :: "string option"
  ls_grant :: "string option"
  ls_issues :: "string list"

definition logical_of :: "json \<Rightarrow> logical_summary option" where
  "logical_of block = (case block of
      J_Obj kvs \<Rightarrow> Some \<lparr>ls_wal = text_field (field_of block ''walLevel''), ls_slots = int_field (field_of block ''maxReplicationSlots''),
        ls_in_use = int_field (field_of block ''replicationSlotsInUse''), ls_senders = int_field (field_of block ''maxWalSenders''),
        ls_keep = text_field (field_of block ''maxSlotWalKeepSize''), ls_subscribe = text_field (field_of block ''createSubscription''),
        ls_grant = text_field (field_of block ''replicationGrant''), ls_issues = strings_of (field_of block ''issues'')\<rparr>
    | _ \<Rightarrow> None)"

text \<open>What every summary has: the fields of \<open>metadata\<close>, the phase with its message, and the conditions.\<close>

record summary =
  sm_name :: string
  sm_phase :: shown_phase
  sm_observed_generation :: "int option"
  sm_generation :: "int option"
  sm_created_at :: "string option"
  sm_conditions :: "shown_condition list"
  sm_message :: "string option"
  sm_paused :: bool

definition summary_of :: "json \<Rightarrow> summary" where
  "summary_of obj =
     (let meta = field_of obj ''metadata''; status = field_of obj ''status''
      in \<lparr>sm_name = str_json (field_of meta ''name''), sm_phase = phase_of status,
          sm_observed_generation = int_field (field_of status ''observedGeneration''),
          sm_generation = int_field (field_of meta ''generation''),
          sm_created_at = text_field (field_of meta ''creationTimestamp''),
          sm_conditions = conditions_of status, sm_message = phase_message status,
          sm_paused = truthy (field_of (field_of obj ''spec'') ''paused'')\<rparr>)"

section \<open>Instances\<close>

record instance_summary = summary +
  im_endpoint :: "string option"
  im_server_version :: "string option"
  im_server_version_text :: "string option"
  im_managing_role :: "string option"
  im_privileges :: "string option"
  im_ssl_mode :: "string option"
  im_retention :: "string option"
  im_credentials :: "string option"
  im_push_secrets :: "bool option"
  im_logical :: "logical_summary option"
  im_databases :: int
  im_users :: int
  im_last_connected :: "string option"

definition endpoint_from_spec :: "json \<Rightarrow> string option" where
  "endpoint_from_spec spec =
     (if truthy (field_of spec ''host'')
      then Some (str_json (field_of spec ''host'') @ '':'' @
             (case spec of J_Obj kvs \<Rightarrow> (case map_of kvs ''port'' of Some p \<Rightarrow> str_json p | None \<Rightarrow> ''5432'') | _ \<Rightarrow> ''5432''))
      else None)"

text \<open>\<open>str.strip("/")\<close>, and the recorded Secret or the one the spec names.\<close>

definition strip_slashes :: "string \<Rightarrow> string" where
  "strip_slashes = strip_if (\<lambda>c. c = CHR ''/'')"

definition credentials_of :: "json \<Rightarrow> json \<Rightarrow> string option" where
  "credentials_of spec status =
     (let ref = field_of spec ''credentialsSecretRef'';
          named = strip_slashes (text_or_empty ref ''namespace'' @ ''/'' @ text_or_empty ref ''name'')
      in if truthy (field_of status ''credentialsSecret'') then text_field (field_of status ''credentialsSecret'')
         else if named \<noteq> [] then Some named else None)"

definition instance_summary_of :: "json \<Rightarrow> instance_summary" where
  "instance_summary_of obj =
     (let spec = field_of obj ''spec''; status = field_of obj ''status''
      in summary.extend (summary_of obj) (instance_summary.fields
           (if truthy (field_of status ''endpoint'') then text_field (field_of status ''endpoint'') else endpoint_from_spec spec)
           (text_field (field_of status ''serverVersion'')) (text_field (field_of status ''serverVersionText''))
           (text_field (field_of status ''managingRole'')) (text_field (field_of status ''privileges''))
           (text_field (or_json (field_of status ''sslMode'') (field_of spec ''sslMode'')))
           (text_field (or_json (field_of status ''retentionPolicy'') (field_of spec ''retentionPolicy'')))
           (credentials_of spec status) (bool_field (field_of status ''pushSecretsAvailable''))
           (logical_of (field_of status ''logicalReplication''))
           (count_field (field_of status ''databases'')) (count_field (field_of status ''users''))
           (text_field (field_of status ''lastConnectedAt''))))"

section \<open>Databases\<close>

text \<open>What databases and users have in common.\<close>

record owned_summary = summary +
  om_namespace :: string
  om_instance :: "string option"
  om_endpoint :: "string option"
  om_retention :: "string option"
  om_last_reconciled :: "string option"

definition owned_of :: "json \<Rightarrow> owned_summary" where
  "owned_of obj =
     (let spec = field_of obj ''spec''; status = field_of obj ''status''
      in summary.extend (summary_of obj) (owned_summary.fields
           (str_json (field_of (field_of obj ''metadata'') ''namespace''))
           (text_field (or_json (field_of status ''instance'') (field_of (field_of spec ''instanceRef'') ''name'')))
           (text_field (field_of status ''endpoint''))
           (text_field (or_json (field_of status ''retentionPolicy'') (field_of spec ''retentionPolicy'')))
           (text_field (field_of status ''lastReconciledAt''))))"

record group_roles =
  gr_owner :: "string option"
  gr_read_write :: "string option"
  gr_read_only :: "string option"

record database_summary = owned_summary +
  dm_database :: "string option"
  dm_roles :: group_roles
  dm_managed_schemas :: "string list"
  dm_observed_schemas :: "string list"
  dm_orphaned_schemas :: "string list"
  dm_unmanaged_schemas :: "string list"
  dm_unowned_schemas :: "string list"
  dm_managed_extensions :: "string list"
  dm_observed_extensions :: "string list"
  dm_orphaned_extensions :: "string list"
  dm_schema_grants :: "(string \<times> string list) list"
  dm_denied_parameters :: "string list"

definition database_summary_of :: "json \<Rightarrow> database_summary" where
  "database_summary_of obj =
     (let spec = field_of obj ''spec''; status = field_of obj ''status''; roles = field_of status ''roles'';
          names = (\<lambda>k. strings_of (field_of status k))
      in owned_summary.extend (owned_of obj) (database_summary.fields
           (text_field (or_json (field_of status ''databaseName'') (field_of spec ''databaseName'')))
           \<lparr>gr_owner = text_field (field_of roles ''owner''), gr_read_write = text_field (field_of roles ''readWrite''),
            gr_read_only = text_field (field_of roles ''readOnly'')\<rparr>
           (names ''managedSchemas'') (names ''observedSchemas'') (names ''orphanedSchemas'') (names ''unmanagedSchemas'')
           (names ''unownedSchemas'') (names ''managedExtensions'') (names ''observedExtensions'') (names ''orphanedExtensions'')
           (map (\<lambda>(k, v). (k, strings_of v)) (object_members (field_of status ''schemaGrants'')))
           (names ''deniedParameters'')))"

section \<open>Users\<close>

record grant_summary =
  gs_database :: string
  gs_role :: string
  gs_group_role :: string
  gs_db_ref :: string

definition grant_of :: "json \<Rightarrow> grant_summary" where
  "grant_of e = \<lparr>gs_database = text_or_empty e ''database'', gs_role = text_or_empty e ''role'',
     gs_group_role = text_or_empty e ''groupRole'', gs_db_ref = text_or_empty e ''dbRef''\<rparr>"

record user_summary = owned_summary +
  um_username :: "string option"
  um_grants :: "grant_summary list"
  um_secret :: "resource_ref option"
  um_secret_keys :: "string list"
  um_push_secret :: "resource_ref option"
  um_login :: bool
  um_byo_password :: bool

text \<open>\<open>bool(spec.get(key, True))\<close>\<close>

definition flag_or_true :: "json \<Rightarrow> string \<Rightarrow> bool" where
  "flag_or_true j k = (case j of J_Obj kvs \<Rightarrow> (case map_of kvs k of Some v \<Rightarrow> truthy v | None \<Rightarrow> True) | _ \<Rightarrow> True)"

definition user_summary_of :: "json \<Rightarrow> user_summary" where
  "user_summary_of obj =
     (let spec = field_of obj ''spec''; status = field_of obj ''status''
      in owned_summary.extend (owned_of obj) (user_summary.fields
           (text_field (or_json (field_of status ''username'') (field_of spec ''username'')))
           (map grant_of (elements (field_of status ''grants'')))
           (ref_of (field_of status ''secretRef'')) (strings_of (field_of status ''secretKeys''))
           (ref_of (field_of status ''pushSecretRef'')) (flag_or_true spec ''login'')
           (truthy (field_of spec ''passwordSecretRef''))))"

section \<open>What the operator wrote\<close>

text \<open>
  The document of a condition, without the fields it lacks, and the status that a pass patches. The API server
  applies the patch to the status it has (\<open>merge_json\<close>, the merge patch of RFC 7386), and the API reads the outcome.
\<close>

definition member_if :: "string \<Rightarrow> ('a \<Rightarrow> json) \<Rightarrow> 'a option \<Rightarrow> (string \<times> json) list" where
  "member_if k f x = (case x of None \<Rightarrow> [] | Some v \<Rightarrow> [(k, f v)])"

definition condition_json :: "condition \<Rightarrow> json" where
  "condition_json c = J_Obj
     (member_if ''type'' J_Str (c_type c) @ member_if ''status'' J_Str (c_status c) @ member_if ''reason'' J_Str (c_reason c) @
      member_if ''message'' J_Str (c_message c) @ member_if ''lastTransitionTime'' J_Str (c_transition c) @
      member_if ''observedGeneration'' J_Int (c_generation c))"

definition status_members :: "status_patch \<Rightarrow> (string \<times> json) list" where
  "status_members p =
     [(''observedGeneration'', J_Int (sp_generation p)), (''conditions'', J_List (map condition_json (sp_conditions p))),
      (''phase'', J_Str (phase_text (sp_phase p)))] @ sp_details p"

definition status_after :: "json \<Rightarrow> status_patch \<Rightarrow> json" where
  "status_after status p = merge_json status (J_Obj (status_members p))"

lemma map_of_member_if: "map_of (member_if k f x @ rest) q = (if q = k \<and> x \<noteq> None then map_option f x else map_of rest q)"
  by (auto simp: member_if_def split: option.splits)

lemma condition_fields:
  "field_of (condition_json c) ''type'' = (case c_type c of None \<Rightarrow> J_Null | Some t \<Rightarrow> J_Str t)"
  "field_of (condition_json c) ''status'' = (case c_status c of None \<Rightarrow> J_Null | Some t \<Rightarrow> J_Str t)"
  "field_of (condition_json c) ''reason'' = (case c_reason c of None \<Rightarrow> J_Null | Some t \<Rightarrow> J_Str t)"
  "field_of (condition_json c) ''message'' = (case c_message c of None \<Rightarrow> J_Null | Some t \<Rightarrow> J_Str t)"
  "field_of (condition_json c) ''lastTransitionTime'' = (case c_transition c of None \<Rightarrow> J_Null | Some t \<Rightarrow> J_Str t)"
  "field_of (condition_json c) ''observedGeneration'' = (case c_generation c of None \<Rightarrow> J_Null | Some n \<Rightarrow> J_Int n)"
  unfolding condition_json_def by (simp_all add: map_of_member_if member_if_def split: option.split)

lemma condition_key: "str_json (field_of (condition_json c) ''type'') = type_key c"
  by (simp add: condition_fields type_key_def str_json_def split: option.split)

text \<open>A field of the patched status: the patch's value over what was there.\<close>

lemma merged_field:
  assumes "distinct (map fst ps)" "map_of ps k = Some v" "v \<noteq> J_Null"
  shows "field_of (merge_json t (J_Obj ps)) k = merge_json (field_of t k) v"
proof -
  let ?step = "\<lambda>acc (k, v). if v = J_Null then ddel acc k
    else dset acc k (merge_json (case map_of acc k of Some x \<Rightarrow> x | None \<Rightarrow> J_Null) v)"
  have "map_of (foldl ?step acc ps) k = Some (merge_json (case map_of acc k of Some x \<Rightarrow> x | None \<Rightarrow> J_Null) v)" for acc
    using assms
  proof (induction ps arbitrary: acc)
    case (Cons p ps)
    obtain q x where p: "p = (q, x)" by (cases p)
    have other: "map_of (foldl ?step acc ps) k = map_of acc k" if "k \<notin> set (map fst ps)" for acc
      using that by (induction ps arbitrary: acc) (auto simp: map_of_ddel split: prod.splits)
    show ?case
    proof (cases "q = k")
      case True
      then have "x = v" "k \<notin> set (map fst ps)" using Cons.prems p by auto
      then show ?thesis using Cons.prems(3) by (simp add: p True other)
    next
      case False
      then have "map_of ps k = Some v" "distinct (map fst ps)" using Cons.prems p by auto
      from Cons.IH [OF this(2,1) Cons.prems(3)] False show ?thesis by (simp add: p map_of_ddel)
    qed
  qed simp
  then have "map_of (foldl ?step (case t of J_Obj kvs \<Rightarrow> kvs | _ \<Rightarrow> []) ps) k = Some (merge_json (field_of t k) v)"
    by (cases t) (auto simp: split: option.splits)
  then show ?thesis by (simp add: case_prod_unfold)
qed

definition well_keyed :: "status_patch \<Rightarrow> bool" where
  "well_keyed p \<longleftrightarrow> distinct (map fst (status_members p))"

lemma status_after_fields:
  assumes "well_keyed p"
  shows "field_of (status_after status p) ''phase'' = J_Str (phase_text (sp_phase p))"
    "field_of (status_after status p) ''conditions'' = J_List (map condition_json (sp_conditions p))"
    "field_of (status_after status p) ''observedGeneration'' = J_Int (sp_generation p)"
  using assms unfolding status_after_def well_keyed_def
  by (simp_all add: merged_field status_members_def del: merge_json.simps(1))

lemma known_phase: "phase_of s = Shown p" if "field_of s ''phase'' = J_Str (phase_text p)"
  using that by (cases p) (simp_all add: phase_of_def or_json_def str_json_def KNOWN_PHASES_def)

definition shown_of :: "condition \<Rightarrow> shown_condition" where
  "shown_of c = \<lparr>sc_type = type_key c, sc_status = (case c_status c of None \<Rightarrow> ''None'' | Some t \<Rightarrow> t),
     sc_reason = or_text (c_reason c) [], sc_message = or_text (c_message c) [],
     sc_transition = c_transition c, sc_generation = c_generation c\<rparr>"

lemma shown_condition_of: "condition_of (condition_json c) = shown_of c"
  by (simp add: condition_of_def shown_of_def condition_key)
    (simp add: condition_fields str_json_def text_field_def int_field_def split: option.split)

text \<open>
  What the operator writes is what the API shows: whatever the status held before, once a status patch has been
  applied, the phase, every condition and the observed generation read back through the API are those of the
  patch; the phase is never shown as Unknown.
\<close>

theorem written_status_is_shown:
  assumes "well_keyed p"
  shows "phase_of (status_after status p) = Shown (sp_phase p) \<and>
    conditions_of (status_after status p) = map shown_of (sp_conditions p) \<and>
    int_field (field_of (status_after status p) ''observedGeneration'') = Some (sp_generation p)"
  using known_phase [OF status_after_fields(1) [OF assms]]
  by (simp add: conditions_of_def status_after_fields(2,3) [OF assms] elements_def shown_condition_of int_field_def)

lemma status_conditions_found:
  "map_of (dupdate [] (map (\<lambda>d. (str_json (field_of d ''type''), d)) (map condition_json cs))) t =
   map_option condition_json (lookup_condition cs t)"
proof -
  have "map (\<lambda>d. (str_json (field_of d ''type''), d)) (map condition_json cs) =
      map (\<lambda>(k, c). (k, condition_json c)) (map (\<lambda>c. (type_key c, c)) cs)"
    by (simp add: condition_key)
  moreover have "map_of (rev (map (\<lambda>(k, c). (k, condition_json c)) xs)) t = map_option condition_json (map_of (rev xs) t)"
    for xs :: "(string \<times> condition) list"
    by (simp add: rev_map map_of_map)
  ultimately show ?thesis
    by (simp add: map_of_dupdate lookup_condition_def by_type_def del: map_map)
qed

text \<open>Ready is among the conditions, and Streaming never gives a degrading reason with the status True.\<close>

definition coherent :: "condition list \<Rightarrow> bool" where
  "coherent cs \<longleftrightarrow> lookup_condition cs COND_READY \<noteq> None \<and> (has_reason_in (lookup_condition cs COND_STREAMING) DEGRADING_REASONS \<longrightarrow>
     has_status (lookup_condition cs COND_STREAMING) ''False'')"

text \<open>The condition that decides the phase.\<close>

definition deciding :: "condition list \<Rightarrow> string" where
  "deciding cs = (case phase_from_conditions cs of
      Degraded \<Rightarrow> COND_STREAMING
    | Drifted \<Rightarrow> COND_DRIFTED
    | _ \<Rightarrow> COND_READY)"

definition message_at :: "condition list \<Rightarrow> string \<Rightarrow> string option" where
  "message_at cs t = (case lookup_condition cs t of
      Some c \<Rightarrow> (if or_text (c_message c) [] = [] then None else c_message c)
    | None \<Rightarrow> None)"

lemma message_of_condition: "message_of (condition_json c) = (if or_text (c_message c) [] = [] then None else c_message c)"
  by (simp add: message_of_def condition_fields or_json_def str_json_def or_text_given given_def split: option.split)

text \<open>
  The one line beside the phase explains that phase: for every list of conditions it is the message of the very
  condition that decided the phase - Streaming for Degraded, Drifted for Drifted, Ready for all others - so the
  API's rule for the message, written independently of the operator's rule for the phase, never disagrees with it.
\<close>

theorem message_explains_phase:
  assumes "well_keyed p" "sp_phase p = phase_from_conditions (sp_conditions p)" "coherent (sp_conditions p)"
  shows "phase_message (status_after status p) = message_at (sp_conditions p) (deciding (sp_conditions p))"
proof -
  let ?cs = "sp_conditions p"
  have docs: "elements (field_of (status_after status p) ''conditions'') = map condition_json ?cs"
    by (simp add: status_after_fields(2) [OF assms(1)] elements_def)
  let ?find = "\<lambda>t. map_option condition_json (lookup_condition ?cs t)"
  have streaming: "?find ''Streaming'' \<noteq> None \<and> field_of (the (?find ''Streaming'')) ''reason'' \<in> set (map J_Str DEGRADING_REASONS) \<longleftrightarrow>
      has_reason_in (lookup_condition ?cs COND_STREAMING) DEGRADING_REASONS"
    by (auto simp: condition_types has_reason_in_def condition_fields split: option.split)
  have drift: "?find ''Drifted'' \<noteq> None \<and> field_of (the (?find ''Drifted'')) ''status'' = J_Str ''True'' \<longleftrightarrow>
      has_status (lookup_condition ?cs COND_DRIFTED) ''True''"
    by (auto simp: condition_types has_status_def condition_fields split: option.split)
  obtain r where r: "lookup_condition ?cs COND_READY = Some r" using assms(3) by (auto simp: coherent_def)
  then have r': "?find ''Ready'' = Some (condition_json r)" by (simp add: condition_types)
  have true: "field_of (condition_json r) ''status'' = J_Str ''True'' \<longleftrightarrow> c_status r = Some ''True''"
    by (simp add: condition_fields split: option.split)
  have msg: "message_of (the (?find t)) = message_at ?cs t" if "lookup_condition ?cs t \<noteq> None" for t
    using that by (auto simp: message_at_def message_of_condition)
  have unfolded: "phase_message (status_after status p) =
      (if c_status r \<noteq> Some ''True'' then message_of (condition_json r)
       else if has_reason_in (lookup_condition ?cs COND_STREAMING) DEGRADING_REASONS then message_of (the (?find ''Streaming''))
       else if has_status (lookup_condition ?cs COND_DRIFTED) ''True'' then message_of (the (?find ''Drifted''))
       else message_of (condition_json r))"
    unfolding phase_message_def Let_def docs status_conditions_found streaming drift r' by (simp add: true)
  have ready: "message_of (condition_json r) = message_at ?cs COND_READY" by (simp add: message_at_def message_of_condition r)
  have s: "message_of (the (?find ''Streaming'')) = message_at ?cs COND_STREAMING"
    if "has_reason_in (lookup_condition ?cs COND_STREAMING) DEGRADING_REASONS"
    using that msg [of COND_STREAMING] by (cases "lookup_condition ?cs COND_STREAMING") (simp_all add: has_reason_in_def condition_types)
  have d: "message_of (the (?find ''Drifted'')) = message_at ?cs COND_DRIFTED"
    if "has_status (lookup_condition ?cs COND_DRIFTED) ''True''"
    using that msg [of COND_DRIFTED] by (cases "lookup_condition ?cs COND_DRIFTED") (simp_all add: has_status_def condition_types)
  have "coherent ?cs" by (rule assms(3))
  then show ?thesis
    unfolding unfolded ready using s d
    by (simp add: deciding_def phase_from_conditions_def coherent_def r split del: if_split) (simp split: if_split)
qed

lemma statuses_well_keyed:
  "well_keyed (build_status r inst existing g now)" "well_keyed (build_user_status u inst existing g now)"
  "well_keyed (build_repl_status l existing g now)" "well_keyed (paused_patch b t)" "well_keyed (failure_patch b e t)"
  by (simp_all add: well_keyed_def status_members_def build_status_def status_details_def Let_def build_user_status_def user_details_def
    build_repl_status_def repl_details_def paused_patch_def failure_patch_def)

text \<open>A replication that lags.\<close>

definition sample_patch :: status_patch where
  "sample_patch =
     (let cs = [ready ''t1'' ''4 tables'' (Some 2), mk_condition ''t1'' COND_STREAMING ''False'' ''Lagging'' ''2 GiB behind'' (Some 2),
                no_drift ''t1'' (Some 2)]
      in \<lparr>sp_generation = 2, sp_conditions = cs, sp_phase = phase_from_conditions cs, sp_details = [(''lastReconciledAt'', J_Str ''t1'')]\<rparr>)"

lemma sample_patch_ok:
  "well_keyed sample_patch" "sp_phase sample_patch = phase_from_conditions (sp_conditions sample_patch)"
  "coherent (sp_conditions sample_patch)" "sp_phase sample_patch = Degraded" "sp_generation sample_patch = 2"
  "message_at (sp_conditions sample_patch) (deciding (sp_conditions sample_patch)) = Some ''2 GiB behind''"
  by (simp_all add: well_keyed_def status_members_def sample_patch_def Let_def coherent_def lookup_condition_def by_type_def type_key_def
    dupdate_def constructor_defs mk_condition_def condition_types has_reason_in_def has_status_def DEGRADING_REASONS_def
    phase_from_conditions_def message_at_def deciding_def)

theorem written_status_is_shown_witness:
  "phase_of (status_after (J_Obj [(''phase'', J_Str ''Ready'')]) sample_patch) = Shown Degraded"
  using written_status_is_shown [OF sample_patch_ok(1)] by (simp add: sample_patch_ok(4))

theorem message_explains_phase_witness:
  "phase_message (status_after (J_Obj [(''phase'', J_Str ''Ready'')]) sample_patch) = Some ''2 GiB behind''"
  using message_explains_phase [OF sample_patch_ok(1-3)] by (simp add: sample_patch_ok(6))

section \<open>Maps in the status\<close>

text \<open>
  A merge patch merges maps: an entry of \<open>status.schemaGrants\<close> whose schema the server no longer has is never removed,
  though the comment in \<open>reconcile/database.py\<close> says that the field reports what is in force.
\<close>

lemma stale_grants_remain:
  assumes "field_of old ''schemaGrants'' = J_Obj kvs" "map_of kvs schema = Some v" "schema \<notin> set (map fst (dr_schema_grants r))"
  shows "field_of (field_of (status_after old (build_status r inst existing g now)) ''schemaGrants'') schema = v"
proof -
  let ?new = "map (\<lambda>(s, ps). (s, j_names ps)) (dr_schema_grants r)" let ?p = "build_status r inst existing g now"
  have d: "distinct (map fst (status_members ?p))" using statuses_well_keyed(1) by (simp add: well_keyed_def)
  have "map_of (status_members ?p) ''schemaGrants'' = Some (J_Obj ?new)"
    by (simp add: status_members_def build_status_def status_details_def Let_def)
  from merged_field [OF d this] have "field_of (status_after old ?p) ''schemaGrants'' = merge_json (J_Obj kvs) (J_Obj ?new)"
    by (simp add: status_after_def assms(1))
  moreover have "schema \<notin> set (map fst ?new)" using assms(3) by force
  ultimately show ?thesis using merge_json_other [of schema ?new kvs] assms(2) by auto
qed

end
