(* ===== verification/ApiStore.thy ===== *)
theory ApiStore
  imports ApiDocuments
begin

text \<open>
  The rest of \<open>api/store.py\<close> and the routes of \<open>api/routers\<close>: replications as the API shows them, the overview, the
  health of the API, lookups and filters. What the Kubernetes API answers is an argument of each definition; how
  answers are kept for a while is the theory \<open>ApiCache\<close>.
\<close>

section \<open>Replications\<close>

record end_summary =
  ed_instance :: "string option"
  ed_database :: "string option"
  ed_postgres_db :: "string option"
  ed_display :: "string option"

definition end_of :: "json \<Rightarrow> json \<Rightarrow> string \<Rightarrow> end_summary" where
  "end_of recorded ref namespace =
     (let fallback = (if truthy (field_of ref ''name'')
            then Some (str_json (or_json (field_of ref ''namespace'') (J_Str namespace)) @ ''/'' @ str_json (field_of ref ''name''))
            else None)
      in \<lparr>ed_instance = text_field (field_of recorded ''instance''), ed_database = text_field (field_of recorded ''database''),
          ed_postgres_db = (if truthy (field_of recorded ''postgresDB'') then text_field (field_of recorded ''postgresDB'') else fallback),
          ed_display = text_field (field_of recorded ''display'')\<rparr>)"

record tables_summary =
  tc_published :: int
  tc_subscribed :: int
  tc_ready :: int
  tc_syncing :: int
  tc_excluded :: int

definition counts_of :: "json \<Rightarrow> tables_summary" where
  "counts_of tables = (let n = (\<lambda>k. count_field (field_of tables k))
     in \<lparr>tc_published = n ''published'', tc_subscribed = n ''subscribed'', tc_ready = n ''ready'', tc_syncing = n ''syncing'',
         tc_excluded = n ''excluded''\<rparr>)"

record health_summary =
  hs_observed_at :: "string option"
  hs_lag :: "string option"
  hs_lag_bytes :: "int option"
  hs_retained_wal :: "string option"
  hs_retained_wal_bytes :: "int option"
  hs_safe_wal_size_bytes :: "int option"
  hs_slot_active :: "bool option"
  hs_wal_status :: "string option"
  hs_inactive_since :: "string option"
  hs_worker_running :: "bool option"
  hs_last_message_at :: "string option"
  hs_apply_error_count :: "int option"
  hs_sync_error_count :: "int option"
  hs_conflicts :: "(string \<times> int) list"

definition replication_health :: "json \<Rightarrow> health_summary option" where
  "replication_health block = (case block of
      J_Obj (kv # kvs) \<Rightarrow>
        (let t = (\<lambda>k. text_field (field_of block k)); n = (\<lambda>k. int_field (field_of block k)); b = (\<lambda>k. bool_field (field_of block k))
         in Some \<lparr>hs_observed_at = t ''observedAt'', hs_lag = t ''lag'', hs_lag_bytes = n ''lagBytes'',
              hs_retained_wal = t ''retainedWal'', hs_retained_wal_bytes = n ''retainedWalBytes'',
              hs_safe_wal_size_bytes = n ''safeWalSizeBytes'', hs_slot_active = b ''slotActive'', hs_wal_status = t ''walStatus'',
              hs_inactive_since = t ''inactiveSince'', hs_worker_running = b ''workerRunning'',
              hs_last_message_at = t ''lastMessageAt'', hs_apply_error_count = n ''applyErrorCount'',
              hs_sync_error_count = n ''syncErrorCount'',
              hs_conflicts = map (\<lambda>(k, v). (k, count_field v)) (object_members (field_of block ''conflicts''))\<rparr>)
    | _ \<Rightarrow> None)"

text \<open>
  \<open>AlertingSpec.model_validate\<close>: the fields by alias or by name, of the declared types, and none beside them. A model
  that fails its own validator raises a \<open>ValueError\<close> too, and the defaults stand in.
\<close>

definition ALERTING_FIELDS :: "(string \<times> string) list" where
  "ALERTING_FIELDS = [(''maxLag'', ''max_lag''), (''maxRetainedWal'', ''max_retained_wal''), (''maxSlotInactive'', ''max_slot_inactive'')]"

definition quantity_field :: "json option \<Rightarrow> quantity \<Rightarrow> quantity option" where
  "quantity_field v preset = (case v of
      None \<Rightarrow> Some preset
    | Some (J_Int n) \<Rightarrow> Some (Q_Int n)
    | Some (J_Str s) \<Rightarrow> Some (Q_Str s)
    | _ \<Rightarrow> None)"

definition alerting_of :: "json \<Rightarrow> alerting_spec option" where
  "alerting_of j = (case (if truthy j then j else J_Obj []) of
      J_Obj kvs \<Rightarrow>
        (let pick = (\<lambda>(alias, name). case map_of kvs alias of Some v \<Rightarrow> Some v | None \<Rightarrow> map_of kvs name);
             lag = quantity_field (pick (ALERTING_FIELDS ! 0)) (al_max_lag default_alerting);
             wal = quantity_field (pick (ALERTING_FIELDS ! 1)) (al_max_retained_wal default_alerting);
             idle = (case pick (ALERTING_FIELDS ! 2) of None \<Rightarrow> Some (al_max_slot_inactive default_alerting) | Some v \<Rightarrow> text_field v)
         in if list_all (\<lambda>k. k \<in> fst ` set ALERTING_FIELDS \<or> k \<in> snd ` set ALERTING_FIELDS) (map fst kvs)
            then case (lag, wal, idle) of
                (Some l, Some w, Some i) \<Rightarrow> Some \<lparr>al_max_lag = l, al_max_retained_wal = w, al_max_slot_inactive = i\<rparr>
              | _ \<Rightarrow> None
            else None)
    | _ \<Rightarrow> None)"

definition alerting_or_default :: "json \<Rightarrow> alerting_spec" where
  "alerting_or_default j = (case alerting_of j of
      Some a \<Rightarrow> (case validate_alerting a of Inr _ \<Rightarrow> a | Inl _ \<Rightarrow> default_alerting)
    | None \<Rightarrow> default_alerting)"

fun quantity_text :: "quantity \<Rightarrow> string" where
  "quantity_text (Q_Int n) = show_int n"
| "quantity_text (Q_Str s) = s"

record thresholds =
  th_max_lag :: string
  th_max_lag_bytes :: int
  th_max_retained_wal :: string
  th_max_retained_wal_bytes :: int
  th_max_slot_inactive :: string
  th_max_slot_inactive_seconds :: int

definition thresholds_of :: "json \<Rightarrow> thresholds res" where
  "thresholds_of j =
     (let a = alerting_or_default j
      in bind_r (max_lag_bytes a) (\<lambda>lag.
         bind_r (max_retained_wal_bytes a) (\<lambda>wal.
         bind_r (max_slot_inactive_seconds a) (\<lambda>secs.
         Inr \<lparr>th_max_lag = quantity_text (al_max_lag a), th_max_lag_bytes = lag,
              th_max_retained_wal = quantity_text (al_max_retained_wal a), th_max_retained_wal_bytes = wal,
              th_max_slot_inactive = al_max_slot_inactive a, th_max_slot_inactive_seconds = secs\<rparr>))))"

record table_issue_summary =
  ti_table :: string
  ti_reason :: string
  ti_message :: string

definition issues_of :: "json \<Rightarrow> table_issue_summary list" where
  "issues_of j = map (\<lambda>e. \<lparr>ti_table = text_or_empty e ''table'', ti_reason = text_or_empty e ''reason'',
     ti_message = text_or_empty e ''message''\<rparr>) (elements j)"

record replication_detail = summary +
  rd_namespace :: string
  rd_state :: "string option"
  rd_source :: end_summary
  rd_target :: end_summary
  rd_tables :: tables_summary
  rd_health :: "health_summary option"
  rd_thresholds :: thresholds
  rd_enabled :: bool
  rd_publication :: "string option"
  rd_subscription :: "string option"
  rd_slot :: "string option"
  rd_login :: "string option"
  rd_credentials :: "resource_ref option"
  rd_generated :: "bool option"
  rd_secret_keys :: "string list"
  rd_excluded_tables :: "table_issue_summary list"
  rd_published_tables :: "string list"
  rd_subscribed_tables :: "(string \<times> string) list"
  rd_table_warnings :: "table_issue_summary list"
  rd_last_reconciled :: "string option"

text \<open>The keys of the login's Secret: those the operator writes, or those the spec names.\<close>

definition secret_keys_of :: "json \<Rightarrow> json \<Rightarrow> string list" where
  "secret_keys_of credentials provided =
     (if \<not> truthy (field_of credentials ''name'') then []
      else if truthy (field_of credentials ''generated'') then [''username'', ''password'']
      else [str_json (or_json (field_of provided ''usernameKey'') (J_Str ''username'')),
            str_json (or_json (field_of provided ''passwordKey'') (J_Str ''password''))])"

definition replication_detail_of :: "json \<Rightarrow> replication_detail res" where
  "replication_detail_of obj =
     (let spec = field_of obj ''spec''; status = field_of obj ''status'';
          namespace = str_json (field_of (field_of obj ''metadata'') ''namespace'');
          source = field_of status ''source''; target = field_of status ''target'';
          credentials = field_of status ''credentialsSecret'';
          provided = field_of (field_of spec ''source'') ''credentialsSecretRef''
      in bind_r (thresholds_of (field_of spec ''alerting'')) (\<lambda>limits.
         Inr (summary.extend (summary_of obj) (replication_detail.fields
           namespace (text_field (field_of status ''replicationState''))
           (end_of source (field_of (field_of spec ''source'') ''dbRef'') namespace)
           (end_of target (field_of (field_of spec ''target'') ''dbRef'') namespace)
           (counts_of (field_of status ''tables'')) (replication_health (field_of status ''health'')) limits
           (flag_or_true spec ''enabled'') (text_field (field_of source ''publication''))
           (text_field (field_of target ''subscription'')) (text_field (field_of source ''slot''))
           (text_field (field_of source ''login'')) (ref_of credentials) (bool_field (field_of credentials ''generated''))
           (secret_keys_of credentials provided) (issues_of (field_of status ''excludedTables''))
           (strings_of (field_of status ''publishedTables''))
           (map (\<lambda>e. (str_json (field_of e ''table''), str_json (field_of e ''state''))) (elements (field_of status ''subscribedTables'')))
           (issues_of (field_of status ''tableWarnings'')) (text_field (field_of status ''lastReconciledAt''))))))"

section \<open>Loading\<close>

text \<open>A listing of the Kubernetes API by plural and namespace; a namespace that is empty or missing means all.\<close>

type_synonym listing = "string \<Rightarrow> string option \<Rightarrow> json list res"

definition list_namespaced :: "listing \<Rightarrow> string \<Rightarrow> string option \<Rightarrow> json list res" where
  "list_namespaced api plural namespace = (if given namespace then api plural namespace else api plural None)"

definition load_instances :: "listing \<Rightarrow> instance_summary list res" where
  "load_instances api = bind_r (api PLURAL_INSTANCE None) (\<lambda>items. Inr (map instance_summary_of items))"

definition load_databases :: "listing \<Rightarrow> string option \<Rightarrow> database_summary list res" where
  "load_databases api namespace = bind_r (list_namespaced api PLURAL_DATABASE namespace) (\<lambda>items. Inr (map database_summary_of items))"

definition load_users :: "listing \<Rightarrow> string option \<Rightarrow> user_summary list res" where
  "load_users api namespace = bind_r (list_namespaced api PLURAL_USER namespace) (\<lambda>items. Inr (map user_summary_of items))"

fun collect_r :: "('a \<Rightarrow> 'b res) \<Rightarrow> 'a list \<Rightarrow> 'b list res" where
  "collect_r f [] = Inr []"
| "collect_r f (x # xs) = bind_r (f x) (\<lambda>y. bind_r (collect_r f xs) (\<lambda>ys. Inr (y # ys)))"

definition load_replications :: "listing \<Rightarrow> string option \<Rightarrow> replication_detail list res" where
  "load_replications api namespace = (case list_namespaced api PLURAL_REPLICATION namespace of
      Inl e \<Rightarrow> if is_not_found e then Inr [] else Inl e
    | Inr items \<Rightarrow> collect_r replication_detail_of items)"

text \<open>The first item of that name.\<close>

definition named :: "string \<Rightarrow> ('a summary_scheme) list \<Rightarrow> 'a summary_scheme option" where
  "named name items = find (\<lambda>item. sm_name item = name) items"

section \<open>The overview\<close>

record phase_counts =
  pc_ready :: nat
  pc_drifted :: nat
  pc_degraded :: nat
  pc_failed :: nat
  pc_unreachable :: nat
  pc_pending :: nat
  pc_paused :: nat
  pc_unknown :: nat
  pc_total :: nat

definition no_phases :: phase_counts where
  "no_phases = \<lparr>pc_ready = 0, pc_drifted = 0, pc_degraded = 0, pc_failed = 0, pc_unreachable = 0, pc_pending = 0, pc_paused = 0,
     pc_unknown = 0, pc_total = 0\<rparr>"

definition count_phase :: "phase_counts \<Rightarrow> shown_phase \<Rightarrow> phase_counts" where
  "count_phase c p =
     (let c = c\<lparr>pc_total := pc_total c + 1\<rparr>
      in case p of
          Shown Ready \<Rightarrow> c\<lparr>pc_ready := pc_ready c + 1\<rparr>
        | Shown Drifted \<Rightarrow> c\<lparr>pc_drifted := pc_drifted c + 1\<rparr>
        | Shown Degraded \<Rightarrow> c\<lparr>pc_degraded := pc_degraded c + 1\<rparr>
        | Shown Failed \<Rightarrow> c\<lparr>pc_failed := pc_failed c + 1\<rparr>
        | Shown Unreachable \<Rightarrow> c\<lparr>pc_unreachable := pc_unreachable c + 1\<rparr>
        | Shown Pending \<Rightarrow> c\<lparr>pc_pending := pc_pending c + 1\<rparr>
        | Shown Paused \<Rightarrow> c\<lparr>pc_paused := pc_paused c + 1\<rparr>
        | Unknown \<Rightarrow> c\<lparr>pc_unknown := pc_unknown c + 1\<rparr>)"

definition count_phases :: "shown_phase list \<Rightarrow> phase_counts" where
  "count_phases phases = foldl count_phase no_phases phases"

record overview =
  ov_instances :: phase_counts
  ov_databases :: phase_counts
  ov_users :: phase_counts
  ov_replications :: phase_counts
  ov_healthy :: bool
  ov_attention :: "string list"
  ov_generated_at :: string

definition calm :: "('a summary_scheme) \<Rightarrow> bool" where
  "calm item \<longleftrightarrow> sm_phase item \<in> {Shown Ready, Shown Paused}"

definition trouble :: "string \<Rightarrow> ('a summary_scheme) \<Rightarrow> string" where
  "trouble what item = what @ '' is '' @ shown_text (sm_phase item) @
     (if given (sm_message item) then '': '' @ the (sm_message item) else [])"

definition qualified_kind :: "string \<Rightarrow> string \<Rightarrow> string \<Rightarrow> string" where
  "qualified_kind kind namespace name = kind @ ''/'' @ namespace @ ''/'' @ name"

definition orphans_of :: "database_summary \<Rightarrow> string list" where
  "orphans_of db = dm_orphaned_schemas db @ dm_orphaned_extensions db"

definition database_attention :: "database_summary \<Rightarrow> string list" where
  "database_attention db =
     (let what = qualified_kind ''PostgresDB'' (om_namespace db) (sm_name db)
      in if \<not> calm db then [trouble what db]
         else if dm_orphaned_schemas db \<noteq> [] \<or> dm_orphaned_extensions db \<noteq> []
         then [what @ '' retains orphaned object(s): '' @ join_with '', '' (orphans_of db)] else [])"

definition attention_of :: "instance_summary list \<Rightarrow> database_summary list \<Rightarrow> user_summary list \<Rightarrow> replication_detail list \<Rightarrow> string list" where
  "attention_of instances databases users replications =
     concat (map (\<lambda>i. if calm i then [] else [trouble (''PostgresInstance/'' @ sm_name i) i]) instances) @
     concat (map database_attention databases) @
     concat (map (\<lambda>u. if calm u then [] else [trouble (qualified_kind ''PostgresUser'' (om_namespace u) (sm_name u)) u]) users) @
     concat (map (\<lambda>r. if calm r then [] else [trouble (qualified_kind ''PostgresReplication'' (rd_namespace r) (sm_name r)) r]) replications)"

definition overview_of ::
  "instance_summary list \<Rightarrow> database_summary list \<Rightarrow> user_summary list \<Rightarrow> replication_detail list \<Rightarrow> string \<Rightarrow> overview" where
  "overview_of instances databases users replications now =
     (let attention = attention_of instances databases users replications
      in \<lparr>ov_instances = count_phases (map sm_phase instances), ov_databases = count_phases (map sm_phase databases),
          ov_users = count_phases (map sm_phase users), ov_replications = count_phases (map sm_phase replications),
          ov_healthy = (attention = []), ov_attention = attention, ov_generated_at = now\<rparr>)"

section \<open>The health of the API\<close>

definition API_GROUP :: string where "API_GROUP = ''postgres.ourcommunity.com.au''"

definition REQUIRED_CRDS :: "string list" where
  "REQUIRED_CRDS = [PLURAL_INSTANCE, PLURAL_DATABASE, PLURAL_USER]"

definition OPTIONAL_CRDS :: "string list" where
  "OPTIONAL_CRDS = [PLURAL_REPLICATION]"

definition is_forbidden :: "err \<Rightarrow> bool" where
  "is_forbidden e \<longleftrightarrow> err_cls e = Api_Exception 403"

record api_health =
  ah_ok :: bool
  ah_kubernetes :: bool
  ah_crds :: "(string \<times> bool) list"
  ah_detail :: "string option"

text \<open>One listing of one object: what it raised, if anything.\<close>

definition check_crd :: "(string \<Rightarrow> err option) \<Rightarrow> api_health \<Rightarrow> string \<Rightarrow> api_health" where
  "check_crd probe h plural = (case probe plural of
      None \<Rightarrow> h\<lparr>ah_crds := dset (ah_crds h) plural True\<rparr>
    | Some e \<Rightarrow>
        (let h = h\<lparr>ah_crds := dset (ah_crds h) plural False\<rparr>
         in if is_not_found e then h\<lparr>ah_detail := Some (''CRD '' @ plural @ ''.'' @ API_GROUP @ '' is not installed'')\<rparr>
            else if is_forbidden e then h\<lparr>ah_detail := Some (''not permitted to list '' @ plural @ ''.'' @ API_GROUP)\<rparr>
            else h\<lparr>ah_kubernetes := False, ah_detail := Some (''Kubernetes API error listing '' @ plural @ '': '' @ err_text e)\<rparr>))"

definition api_health_of :: "(string \<Rightarrow> err option) \<Rightarrow> api_health" where
  "api_health_of probe =
     (let h = foldl (check_crd probe) \<lparr>ah_ok = True, ah_kubernetes = True, ah_crds = [], ah_detail = None\<rparr> (REQUIRED_CRDS @ OPTIONAL_CRDS)
      in h\<lparr>ah_ok := ah_kubernetes h \<and> list_all (\<lambda>p. map_of (ah_crds h) p = Some True) REQUIRED_CRDS\<rparr>)"

text \<open>\<open>/readyz\<close>: the status code with the answer; without a client the reason it could not be made.\<close>

definition readyz :: "string res \<Rightarrow> (string \<Rightarrow> err option) \<Rightarrow> nat \<times> api_health" where
  "readyz client probe = (case client of
      Inl e \<Rightarrow> (503, \<lparr>ah_ok = False, ah_kubernetes = False, ah_crds = [],
                    ah_detail = Some (''cannot reach the Kubernetes API: '' @ err_text e)\<rparr>)
    | Inr _ \<Rightarrow> (let h = api_health_of probe in (if ah_ok h then 200 else 503, h)))"

section \<open>Routes\<close>

text \<open>A query parameter that is missing or empty does not filter.\<close>

definition with_filter :: "'a option \<Rightarrow> ('a \<Rightarrow> bool) \<Rightarrow> ('a \<Rightarrow> 'b \<Rightarrow> bool) \<Rightarrow> 'b list \<Rightarrow> 'b list" where
  "with_filter query relevant keep items = (case query of
      Some q \<Rightarrow> if relevant q then filter (keep q) items else items
    | None \<Rightarrow> items)"

definition in_phase :: "string \<Rightarrow> ('a summary_scheme) \<Rightarrow> bool" where
  "in_phase phase item \<longleftrightarrow> py_lower (shown_text (sm_phase item)) = py_lower phase"

definition owned_key :: "('a owned_summary_scheme) \<Rightarrow> string \<times> string" where
  "owned_key item = (om_namespace item, sm_name item)"

definition list_instances_route :: "string option \<Rightarrow> instance_summary list \<Rightarrow> instance_summary list" where
  "list_instances_route phase items = sort_key sm_name (with_filter phase (\<lambda>q. q \<noteq> []) in_phase items)"

definition is_drifted :: "database_summary \<Rightarrow> bool" where
  "is_drifted db \<longleftrightarrow> dm_orphaned_schemas db \<noteq> [] \<or> dm_orphaned_extensions db \<noteq> []"

definition list_databases_route ::
  "string option \<Rightarrow> string option \<Rightarrow> bool option \<Rightarrow> database_summary list \<Rightarrow> database_summary list" where
  "list_databases_route inst phase orphaned items =
     sort_key owned_key
       (with_filter orphaned (\<lambda>_. True) (\<lambda>d db. is_drifted db = d)
       (with_filter phase (\<lambda>q. q \<noteq> []) in_phase
       (with_filter inst (\<lambda>q. q \<noteq> []) (\<lambda>i db. om_instance db = Some i) items)))"

definition list_users_route ::
  "string option \<Rightarrow> string option \<Rightarrow> string option \<Rightarrow> string option \<Rightarrow> user_summary list \<Rightarrow> user_summary list" where
  "list_users_route inst database access phase items =
     sort_key owned_key
       (with_filter phase (\<lambda>q. q \<noteq> []) in_phase
       (with_filter access (\<lambda>q. q \<noteq> []) (\<lambda>a u. \<exists>g \<in> set (um_grants u). gs_role g = map upper_char a)
       (with_filter database (\<lambda>q. q \<noteq> []) (\<lambda>d u. \<exists>g \<in> set (um_grants u). gs_database g = d)
       (with_filter inst (\<lambda>q. q \<noteq> []) (\<lambda>i u. om_instance u = Some i) items))))"

definition replication_key :: "replication_detail \<Rightarrow> string \<times> string" where
  "replication_key r = (rd_namespace r, sm_name r)"

definition instances_of :: "replication_detail \<Rightarrow> string option set" where
  "instances_of r = {ed_instance (rd_source r), ed_instance (rd_target r)}"

definition databases_of :: "replication_detail \<Rightarrow> string option set" where
  "databases_of r = {ed_postgres_db (rd_source r), ed_postgres_db (rd_target r)}"

definition list_replications_route ::
  "string option \<Rightarrow> string option \<Rightarrow> string option \<Rightarrow> string option \<Rightarrow> replication_detail list \<Rightarrow> replication_detail list" where
  "list_replications_route inst database phase state items =
     sort_key replication_key
       (with_filter state (\<lambda>q. q \<noteq> []) (\<lambda>s r. py_lower (or_text (rd_state r) []) = py_lower s)
       (with_filter phase (\<lambda>q. q \<noteq> []) in_phase
       (with_filter database (\<lambda>q. q \<noteq> []) (\<lambda>d r. Some d \<in> databases_of r \<union> {ed_database (rd_source r), ed_database (rd_target r)})
       (with_filter inst (\<lambda>q. q \<noteq> []) (\<lambda>i r. Some i \<in> instances_of r) items))))"

text \<open>One resource with what refers to it; \<open>None\<close> is the answer 404.\<close>

record instance_page =
  ip_instance :: instance_summary
  ip_databases :: "database_summary list"
  ip_users :: "user_summary list"
  ip_replications :: "replication_detail list"

definition instance_page_of ::
  "string \<Rightarrow> instance_summary list \<Rightarrow> database_summary list \<Rightarrow> user_summary list \<Rightarrow> replication_detail list \<Rightarrow> instance_page option" where
  "instance_page_of name instances databases users replications =
     map_option (\<lambda>i. \<lparr>ip_instance = i,
         ip_databases = sort_key owned_key (filter (\<lambda>d. om_instance d = Some name) databases),
         ip_users = sort_key owned_key (filter (\<lambda>u. om_instance u = Some name) users),
         ip_replications = sort_key replication_key (filter (\<lambda>r. Some name \<in> instances_of r) replications)\<rparr>)
       (named name instances)"

record database_page =
  dp_database :: database_summary
  dp_users :: "user_summary list"
  dp_replications :: "replication_detail list"

definition database_page_of ::
  "string \<Rightarrow> string \<Rightarrow> database_summary list \<Rightarrow> user_summary list \<Rightarrow> replication_detail list \<Rightarrow> database_page option" where
  "database_page_of namespace name databases users replications =
     (let reference = namespace @ ''/'' @ name
      in map_option (\<lambda>d. \<lparr>dp_database = d,
           dp_users = sort_key owned_key (filter (\<lambda>u. \<exists>g \<in> set (um_grants u). gs_db_ref g = reference) users),
           dp_replications = sort_key replication_key (filter (\<lambda>r. Some reference \<in> databases_of r) replications)\<rparr>)
         (named name databases))"

text \<open>The lookups of the store, over the listing of the namespace, and the routes that answer 404 with a text.\<close>

definition find_database :: "string \<Rightarrow> database_summary list \<Rightarrow> database_summary option" where
  "find_database name databases = named name databases"

definition find_user :: "string \<Rightarrow> user_summary list \<Rightarrow> user_summary option" where
  "find_user name users = named name users"

definition find_replication :: "string \<Rightarrow> replication_detail list \<Rightarrow> replication_detail option" where
  "find_replication name replications = named name replications"

definition get_user :: "string \<Rightarrow> string \<Rightarrow> user_summary list \<Rightarrow> nat \<times> string + user_summary" where
  "get_user namespace name users = (case find_user name users of
      None \<Rightarrow> Inl (404, ''PostgresUser '' @ namespace @ ''/'' @ name @ '' not found'')
    | Some u \<Rightarrow> Inr u)"

definition get_replication :: "string \<Rightarrow> string \<Rightarrow> replication_detail list \<Rightarrow> nat \<times> string + replication_detail" where
  "get_replication namespace name replications = (case find_replication name replications of
      None \<Rightarrow> Inl (404, ''PostgresReplication '' @ namespace @ ''/'' @ name @ '' not found'')
    | Some r \<Rightarrow> Inr r)"

definition healthz :: "(string \<times> string) list" where
  "healthz = [(''status'', ''ok'')]"

lemma named_found: "case named name items of None \<Rightarrow> name \<notin> sm_name ` set items | Some x \<Rightarrow> x \<in> set items \<and> sm_name x = name"
proof (cases "named name items")
  case None
  then have "\<forall>x \<in> set items. sm_name x \<noteq> name" by (simp add: named_def find_None_iff)
  then show ?thesis using None by auto
next
  case (Some x)
  then have "x \<in> set items \<and> sm_name x = name" by (auto simp: named_def find_Some_iff)
  then show ?thesis using Some by simp
qed

lemma get_user_found: "(case get_user namespace name users of
    Inl (answer, detail) \<Rightarrow> answer = 404 \<and> name \<notin> sm_name ` set users
  | Inr u \<Rightarrow> u \<in> set users \<and> sm_name u = name)"
  using named_found [of name users] by (simp add: get_user_def find_user_def split: option.split_asm)

lemma get_replication_found: "(case get_replication namespace name replications of
    Inl (answer, detail) \<Rightarrow> answer = 404 \<and> name \<notin> sm_name ` set replications
  | Inr r \<Rightarrow> r \<in> set replications \<and> sm_name r = name)"
  using named_found [of name replications] by (simp add: get_replication_def find_replication_def split: option.split_asm)

section \<open>Keys of the cache\<close>

text \<open>\<open>f"databases/{namespace or '*'}"\<close>\<close>

definition cache_key :: "string \<Rightarrow> string option \<Rightarrow> string" where
  "cache_key kind namespace = kind @ ''/'' @ or_text namespace ''*''"

text \<open>The namespace of a query is not checked, so \<open>?namespace=*\<close> finds what was cached for all namespaces, and stores
  there what the API server answers for a namespace of that name.\<close>

lemma star_namespace_shares_key: "cache_key kind (Some ''*'') = cache_key kind None"
  by (simp add: cache_key_def)

section \<open>The client\<close>

text \<open>\<open>ClientProvider\<close> (\<open>api/provider.py\<close>): the client is made at the first use that succeeds, and kept.\<close>

record 's provider =
  pr_store :: "'s option"
  pr_error :: "string option"

definition provider_store :: "'s res \<Rightarrow> 's provider \<Rightarrow> 's res \<times> 's provider" where
  "provider_store create p = (case pr_store p of
      Some s \<Rightarrow> (Inr s, p)
    | None \<Rightarrow> (case create of
        Inl e \<Rightarrow> (Inl e, p\<lparr>pr_error := Some (err_text e)\<rparr>)
      | Inr s \<Rightarrow> (Inr s, p\<lparr>pr_store := Some s, pr_error := None\<rparr>)))"

definition close_provider :: "'s provider \<Rightarrow> 's provider" where
  "close_provider p = p\<lparr>pr_store := None\<rparr>"

text \<open>\<open>get_store\<close>: the answer 503 names the reason.\<close>

definition get_store :: "'s res \<Rightarrow> 's provider \<Rightarrow> (nat \<times> string + 's) \<times> 's provider" where
  "get_store create p = (case provider_store create p of
      (Inl e, q) \<Rightarrow> (Inl (503, ''Kubernetes API unavailable: '' @ err_text e), q)
    | (Inr s, q) \<Rightarrow> (Inr s, q))"

section \<open>Thresholds\<close>

lemma default_values:
  "parse_quantity (Q_Str ''1Gi'') = Inr 1073741824" "parse_quantity (Q_Str ''10Gi'') = Inr 10737418240" "parse_duration ''10m'' = Inr 600"
  using parse_quantity_exact [of "''1''" "[]" "''Gi''" "1024 ^ 3"] parse_quantity_exact [of "''10''" "[]" "''Gi''" "1024 ^ 3"]
  by (simp_all add: is_digit_def code_def QUANTITY_SUFFIXES_def digits_value_def parse_duration_def duration_group_def
    duration_part_def at_end_def)

lemma default_thresholds: "validate_alerting default_alerting = Inr ()"
  by (simp add: validate_alerting_ok default_alerting_def max_lag_bytes_def max_retained_wal_bytes_def max_slot_inactive_seconds_def
    default_values)

text \<open>
  No replication is hidden by its own spec: whatever \<open>spec.alerting\<close> holds - nothing, an unknown field, a text that is
  no quantity, a zero - its thresholds are shown, and they are positive. A block that validation accepts is shown
  as it is.
\<close>

theorem thresholds_always_shown:
  "\<exists>t. thresholds_of j = Inr t \<and> 0 < th_max_lag_bytes t \<and> 0 < th_max_retained_wal_bytes t \<and> 0 < th_max_slot_inactive_seconds t \<and>
     (case alerting_of j of
        None \<Rightarrow> True
      | Some a \<Rightarrow> (if validate_alerting a = Inr () then max_lag_bytes a = Inr (th_max_lag_bytes t) \<and>
            max_retained_wal_bytes a = Inr (th_max_retained_wal_bytes t) \<and> max_slot_inactive_seconds a = Inr (th_max_slot_inactive_seconds t)
          else True))"
proof -
  have "validate_alerting (alerting_or_default j) = Inr ()"
    by (simp add: alerting_or_default_def default_thresholds split: option.split sum.split)
  then obtain l w i where "max_lag_bytes (alerting_or_default j) = Inr l" "max_retained_wal_bytes (alerting_or_default j) = Inr w"
      "max_slot_inactive_seconds (alerting_or_default j) = Inr i" "0 < l" "0 < w" "0 < i"
    unfolding validate_alerting_ok by blast
  moreover have "alerting_or_default j = a" if "alerting_of j = Some a" "validate_alerting a = Inr ()" for a
    using that by (simp add: alerting_or_default_def)
  ultimately show ?thesis by (auto simp: thresholds_of_def Let_def split: option.split)
qed

section \<open>The overview\<close>

lemma count_phases_snoc: "count_phases (ps @ [p]) = count_phase (count_phases ps) p"
  by (simp add: count_phases_def)

text \<open>
  The dashboard's counts are a partition: each field is the number of resources of that phase, every resource is
  counted exactly once, and the total is their number.
\<close>

theorem phase_counts_partition:
  "pc_ready (count_phases ps) = count_list ps (Shown Ready) \<and> pc_drifted (count_phases ps) = count_list ps (Shown Drifted) \<and>
   pc_degraded (count_phases ps) = count_list ps (Shown Degraded) \<and> pc_failed (count_phases ps) = count_list ps (Shown Failed) \<and>
   pc_unreachable (count_phases ps) = count_list ps (Shown Unreachable) \<and> pc_pending (count_phases ps) = count_list ps (Shown Pending) \<and>
   pc_paused (count_phases ps) = count_list ps (Shown Paused) \<and> pc_unknown (count_phases ps) = count_list ps Unknown \<and>
   pc_total (count_phases ps) = length ps \<and>
   pc_ready (count_phases ps) + pc_drifted (count_phases ps) + pc_degraded (count_phases ps) + pc_failed (count_phases ps) +
   pc_unreachable (count_phases ps) + pc_pending (count_phases ps) + pc_paused (count_phases ps) + pc_unknown (count_phases ps) = length ps"
proof (induction ps rule: rev_induct)
  case Nil
  show ?case by (simp add: count_phases_def no_phases_def)
next
  case (snoc p ps)
  show ?case
  proof (cases p)
    case (Shown q)
    then show ?thesis using snoc.IH by (cases q) (simp_all add: count_phases_snoc count_phase_def Let_def)
  next
    case Unknown
    then show ?thesis using snoc.IH by (simp add: count_phases_snoc count_phase_def Let_def)
  qed
qed


section \<open>Health\<close>

lemma distinct_crds: "distinct (REQUIRED_CRDS @ OPTIONAL_CRDS)"
  by (simp add: REQUIRED_CRDS_def OPTIONAL_CRDS_def PLURAL_INSTANCE_def PLURAL_DATABASE_def PLURAL_USER_def PLURAL_REPLICATION_def)

definition answers :: "(string \<Rightarrow> err option) \<Rightarrow> string \<Rightarrow> bool" where
  "answers probe plural = (case probe plural of None \<Rightarrow> True | Some e \<Rightarrow> is_not_found e \<or> is_forbidden e)"

lemma check_crd_fields:
  "map_of (ah_crds (check_crd probe h p)) q = (if q = p then Some (probe p = None) else map_of (ah_crds h) q)"
  "ah_kubernetes (check_crd probe h p) \<longleftrightarrow> ah_kubernetes h \<and> answers probe p"
  "ah_detail (check_crd probe h p) = None \<longleftrightarrow> ah_detail h = None \<and> probe p = None"
  by (auto simp: check_crd_def answers_def Let_def split: option.split)

lemma checked_crds:
  "map_of (ah_crds (foldl (check_crd probe) h ps)) q = (if q \<in> set ps then Some (probe q = None) else map_of (ah_crds h) q) \<and>
   (ah_kubernetes (foldl (check_crd probe) h ps) \<longleftrightarrow> ah_kubernetes h \<and> list_all (answers probe) ps) \<and>
   (ah_detail (foldl (check_crd probe) h ps) = None \<longleftrightarrow> ah_detail h = None \<and> list_all (\<lambda>p. probe p = None) ps)"
  by (induction ps arbitrary: h) (auto simp: check_crd_fields)

text \<open>
  Readiness is exact. \<open>/readyz\<close> answers 200 exactly when the client could be made, the listings of the three kinds an
  older release had succeed, and the one of replications at least got an answer: a CRD that is missing or forbidden there
  does not take the pod out of service, but it is reported, as is every failure, in the detail.
\<close>

theorem readyz_exact:
  "(fst (readyz client probe) = 200 \<longleftrightarrow>
      is_ok client \<and> list_all (\<lambda>p. probe p = None) REQUIRED_CRDS \<and> list_all (answers probe) OPTIONAL_CRDS) \<and>
   fst (readyz client probe) \<in> {200, 503} \<and>
   (ah_ok (snd (readyz client probe)) \<longleftrightarrow> fst (readyz client probe) = 200) \<and>
   (ah_detail (snd (readyz client probe)) = None \<longleftrightarrow> is_ok client \<and> list_all (\<lambda>p. probe p = None) (REQUIRED_CRDS @ OPTIONAL_CRDS))"
proof (cases client)
  case (Inl e)
  then show ?thesis by (simp add: readyz_def)
next
  case (Inr s)
  let ?h = "foldl (check_crd probe) \<lparr>ah_ok = True, ah_kubernetes = True, ah_crds = [], ah_detail = None\<rparr> (REQUIRED_CRDS @ OPTIONAL_CRDS)"
  have crds: "map_of (ah_crds ?h) q = Some (probe q = None)" if "q \<in> set (REQUIRED_CRDS @ OPTIONAL_CRDS)" for q
    using checked_crds that by metis
  have kube: "ah_kubernetes ?h \<longleftrightarrow> list_all (answers probe) (REQUIRED_CRDS @ OPTIONAL_CRDS)"
    using checked_crds by simp
  have detail: "ah_detail ?h = None \<longleftrightarrow> list_all (\<lambda>p. probe p = None) (REQUIRED_CRDS @ OPTIONAL_CRDS)"
    using checked_crds by simp
  have "answers probe q" if "probe q = None" for q using that by (simp add: answers_def)
  then have ok: "ah_ok (api_health_of probe) \<longleftrightarrow> list_all (\<lambda>p. probe p = None) REQUIRED_CRDS \<and> list_all (answers probe) OPTIONAL_CRDS"
    using crds kube by (auto simp: api_health_of_def Let_def list_all_iff)
  have "ah_detail (api_health_of probe) = ah_detail ?h" by (simp add: api_health_of_def Let_def)
  then show ?thesis using Inr ok detail by (simp add: readyz_def Let_def)
qed

end
