(* ===== verification/Config.thy ===== *)
theory Config
  imports Roles
begin

text \<open>
  \<open>config.py\<close>: the settings of the operator and of the API container, read from the environment variables, which are
  a partial function here. \<open>upper\<close> is taken on ASCII letters.
\<close>

type_synonym environ = "string \<Rightarrow> string option"

definition env_text :: "environ \<Rightarrow> string \<Rightarrow> string \<Rightarrow> string" where
  "env_text environ name preset = py_strip (case environ name of Some v \<Rightarrow> v | None \<Rightarrow> preset)"

text \<open>\<open>int\<close> refuses what is no number, and texts of more than 4300 digits.\<close>

definition env_int :: "environ \<Rightarrow> string \<Rightarrow> int \<Rightarrow> int" where
  "env_int environ name preset =
     (let raw = env_text environ name []
      in if raw = [] then preset
         else case (if 4300 < length (filter is_digit raw) then None else py_int raw) of Some n \<Rightarrow> n | None \<Rightarrow> preset)"

definition env_bool :: "environ \<Rightarrow> string \<Rightarrow> bool \<Rightarrow> bool" where
  "env_bool environ name preset =
     (let raw = py_lower (env_text environ name [])
      in if raw = [] then preset else raw \<in> {''1'', ''true'', ''yes'', ''on''})"

definition env_list :: "environ \<Rightarrow> string \<Rightarrow> string list" where
  "env_list environ name =
     (let raw = env_text environ name []
      in if raw = [] then [] else map py_strip (filter (\<lambda>item. py_strip item \<noteq> []) (split_at CHR '','' raw)))"

record settings =
  cf_watch_namespaces :: "string list"
  cf_operator_namespace :: string
  cf_reconcile_interval :: int
  cf_reconcile_idle :: int
  cf_retry_backoff :: int
  cf_reconcile_timeout :: int
  cf_replication_interval :: int
  cf_connect_timeout :: int
  cf_statement_timeout_ms :: int
  cf_pool_max_size :: int
  cf_pool_max_idle :: int
  cf_application_name :: string
  cf_default_password_length :: int
  cf_pushsecret_enabled :: bool
  cf_pushsecret_api_version :: string
  cf_log_level :: string
  cf_log_format :: string
  cf_metrics_enabled :: bool
  cf_metrics_port :: int
  cf_api_host :: string
  cf_api_port :: int
  cf_api_root_path :: string
  cf_api_cors_origins :: "string list"
  cf_api_cache_ttl :: int

text \<open>The defaults of the class.\<close>

definition default_settings :: settings where
  "default_settings = \<lparr>cf_watch_namespaces = [], cf_operator_namespace = ''pg-operator'', cf_reconcile_interval = 300,
     cf_reconcile_idle = 30, cf_retry_backoff = 30, cf_reconcile_timeout = 300, cf_replication_interval = 60, cf_connect_timeout = 10,
     cf_statement_timeout_ms = 30000, cf_pool_max_size = 4, cf_pool_max_idle = 120, cf_application_name = ''pg-operator'',
     cf_default_password_length = 32, cf_pushsecret_enabled = True, cf_pushsecret_api_version = ''external-secrets.io/v1alpha1'',
     cf_log_level = ''INFO'', cf_log_format = ''json'', cf_metrics_enabled = True, cf_metrics_port = 9090, cf_api_host = ''0.0.0.0'',
     cf_api_port = 8000, cf_api_root_path = [], cf_api_cors_origins = [], cf_api_cache_ttl = 5\<rparr>"

definition from_env :: "environ \<Rightarrow> settings" where
  "from_env environ = \<lparr>
     cf_watch_namespaces = env_list environ ''PG_OPERATOR_WATCH_NAMESPACES'',
     cf_operator_namespace = env_text environ ''PG_OPERATOR_NAMESPACE'' ''pg-operator'',
     cf_reconcile_interval = env_int environ ''PG_OPERATOR_RECONCILE_INTERVAL'' 300,
     cf_reconcile_idle = env_int environ ''PG_OPERATOR_RECONCILE_IDLE'' 30,
     cf_retry_backoff = env_int environ ''PG_OPERATOR_RETRY_BACKOFF'' 30,
     cf_reconcile_timeout = env_int environ ''PG_OPERATOR_RECONCILE_TIMEOUT'' 300,
     cf_replication_interval = env_int environ ''PG_OPERATOR_REPLICATION_INTERVAL'' 60,
     cf_connect_timeout = env_int environ ''PG_OPERATOR_CONNECT_TIMEOUT'' 10,
     cf_statement_timeout_ms = env_int environ ''PG_OPERATOR_STATEMENT_TIMEOUT_MS'' 30000,
     cf_pool_max_size = env_int environ ''PG_OPERATOR_POOL_MAX_SIZE'' 4,
     cf_pool_max_idle = env_int environ ''PG_OPERATOR_POOL_MAX_IDLE'' 120,
     cf_application_name = env_text environ ''PG_OPERATOR_APPLICATION_NAME'' ''pg-operator'',
     cf_default_password_length = env_int environ ''PG_OPERATOR_PASSWORD_LENGTH'' 32,
     cf_pushsecret_enabled = env_bool environ ''PG_OPERATOR_PUSHSECRET_ENABLED'' True,
     cf_pushsecret_api_version = env_text environ ''PG_OPERATOR_PUSHSECRET_API_VERSION'' ''external-secrets.io/v1alpha1'',
     cf_log_level = map upper_char (env_text environ ''PG_OPERATOR_LOG_LEVEL'' ''INFO''),
     cf_log_format = py_lower (env_text environ ''PG_OPERATOR_LOG_FORMAT'' ''json''),
     cf_metrics_enabled = env_bool environ ''PG_OPERATOR_METRICS_ENABLED'' True,
     cf_metrics_port = env_int environ ''PG_OPERATOR_METRICS_PORT'' 9090,
     cf_api_host = env_text environ ''PG_OPERATOR_API_HOST'' ''0.0.0.0'',
     cf_api_port = env_int environ ''PG_OPERATOR_API_PORT'' 8000,
     cf_api_root_path = env_text environ ''PG_OPERATOR_API_ROOT_PATH'' [],
     cf_api_cors_origins = env_list environ ''PG_OPERATOR_API_CORS_ORIGINS'',
     cf_api_cache_ttl = env_int environ ''PG_OPERATOR_API_CACHE_TTL'' 5\<rparr>"

section \<open>Laws\<close>

lemma strip_if_ends: "s \<noteq> [] \<Longrightarrow> \<not> p (hd s) \<Longrightarrow> \<not> p (last s) \<Longrightarrow> strip_if p s = s"
proof -
  assume s: "s \<noteq> []" "\<not> p (hd s)" "\<not> p (last s)"
  have "lstrip_if p s = s" using s(1,2) by (cases s) (simp_all add: lstrip_if_def)
  moreover obtain t z where "s = t @ [z]" using s(1) by (cases s rule: rev_cases) auto
  then have "rstrip_if p s = s" using s(3) by (simp add: rstrip_if_def)
  ultimately show "strip_if p s = s" by (simp add: strip_if_def)
qed

lemma strip_idem: "py_strip (py_strip s) = py_strip s"
proof (cases "py_strip s = []")
  case False
  then show ?thesis
    using strip_if_ends [of "py_strip s" is_space] strip_if_hd [of is_space s] strip_if_last [of is_space s] by (simp add: py_strip_def)
qed simp

definition plain_entry :: "string \<Rightarrow> bool" where
  "plain_entry x \<longleftrightarrow> x \<noteq> [] \<and> py_strip x = x \<and> CHR '','' \<notin> set x"

lemma plain_ends: "plain_entry x \<Longrightarrow> x \<noteq> [] \<and> \<not> is_space (hd x) \<and> \<not> is_space (last x)"
  using strip_if_hd [of is_space x] strip_if_last [of is_space x] by (auto simp: plain_entry_def py_strip_def)

lemma strip_padded: "plain_entry x \<Longrightarrow> list_all is_space pad \<Longrightarrow> py_strip (pad @ x) = x"
proof -
  assume x: "plain_entry x" and pad: "list_all is_space pad"
  have "dropWhile is_space (pad @ x) = x"
    using pad plain_ends [OF x] by (cases x) (auto simp: list_all_iff dropWhile_append2)
  then have "py_strip (pad @ x) = rstrip_if is_space (lstrip_if is_space x)"
    using plain_ends [OF x] by (cases x) (simp_all add: py_strip_def strip_if_def lstrip_if_def)
  then show ?thesis using x by (simp add: plain_entry_def py_strip_def strip_if_def)
qed

lemma split_at_prefix: "c \<notin> set p \<Longrightarrow> split_at c s = w # ws \<Longrightarrow> split_at c (p @ s) = (p @ w) # ws"
  by (induction p) auto

lemma split_at_plain: "c \<notin> set s \<Longrightarrow> split_at c s = [s]"
  using split_at_prefix [of c s "[]" "[]" "[]"] by simp

lemma split_join:
  assumes "c \<notin> set pad"
  shows "\<forall>x \<in> set (x # xs). c \<notin> set x \<Longrightarrow> split_at c (join_with (c # pad) (x # xs)) = x # map (\<lambda>y. pad @ y) xs"
proof (induction xs arbitrary: x)
  case Nil
  then show ?case by (simp add: split_at_plain)
next
  case (Cons y ys)
  have "split_at c (join_with (c # pad) (y # ys)) = y # map (\<lambda>y. pad @ y) ys" using Cons by simp
  from split_at_prefix [OF assms this]
  have "split_at c (c # pad @ join_with (c # pad) (y # ys)) = [] # (pad @ y) # map (\<lambda>y. pad @ y) ys" by simp
  from split_at_prefix [OF _ this, of x] Cons.prems show ?case by simp
qed

lemma join_ends:
  "join_with sep (x # xs) \<noteq> [] \<and> hd (join_with sep (x # xs)) = hd x \<and> last (join_with sep (x # xs)) = last (last (x # xs))"
  if "\<forall>y \<in> set (x # xs). y \<noteq> []"
  using that
proof (induction xs arbitrary: x)
  case (Cons y ys)
  then show ?case by auto
qed simp

text \<open>
  Lists of settings read as they are written, whatever blanks follow the commas: entries without commas that are
  neither empty nor padded, joined by a comma and blanks, read back as the entries. And nothing that is read is ever empty
  or padded, so no watched namespace is the empty name.
\<close>

theorem env_list_roundtrip:
  assumes "list_all plain_entry entries" "list_all is_space pad" "environ name = Some (join_with (CHR '','' # pad) entries)"
  shows "env_list environ name = entries \<and> list_all (\<lambda>x. x \<noteq> [] \<and> py_strip x = x) (env_list other name)"
proof
  have space: "\<not> is_space CHR '',''" by (simp add: is_space_def code_def)
  have comma: "CHR '','' \<notin> set pad" using assms(2) space by (auto simp: list_all_iff)
  show "env_list environ name = entries"
  proof (cases entries)
    case Nil
    then show ?thesis using assms(3) by (simp add: env_list_def env_text_def)
  next
    case (Cons x xs)
    let ?raw = "join_with (CHR '','' # pad) (x # xs)"
    have plain: "plain_entry y" if "y \<in> set (x # xs)" for y using assms(1) that Cons by (auto simp: list_all_iff)
    then have nonempty: "\<forall>y \<in> set (x # xs). y \<noteq> []" and nocomma: "\<forall>y \<in> set (x # xs). CHR '','' \<notin> set y"
      by (simp_all add: plain_entry_def)
    have ends: "last (x # xs) \<in> set (x # xs)" by (rule last_in_set) simp
    have "py_strip ?raw = ?raw"
      unfolding py_strip_def
      using join_ends [OF nonempty, of "CHR '','' # pad"] plain_ends [OF plain [OF ends]] plain_ends [OF plain [of x]]
      by (intro strip_if_ends) simp_all
    then have raw: "env_text environ name [] = ?raw" using assms(3) Cons by (simp add: env_text_def)
    have each: "py_strip y = y \<and> py_strip (pad @ y) = y \<and> y \<noteq> []" if "y \<in> set (x # xs)" for y
      using plain [OF that] strip_padded [OF plain [OF that] assms(2)] by (simp add: plain_entry_def)
    have padded: "map py_strip (filter (\<lambda>i. py_strip i \<noteq> []) (map (\<lambda>y. pad @ y) ys)) = ys" if "set ys \<subseteq> set (x # xs)" for ys
      using that by (induction ys) (use each in auto)
    have "?raw \<noteq> []" using join_ends [OF nonempty, of "CHR '','' # pad"] by simp
    then show ?thesis
      using split_join [OF comma nocomma] padded [of xs] each [of x] Cons by (auto simp: env_list_def Let_def raw)
  qed
  show "list_all (\<lambda>x. x \<noteq> [] \<and> py_strip x = x) (env_list other name)"
    by (auto simp: env_list_def Let_def list_all_iff strip_idem)
qed

theorem env_list_roundtrip_witness:
  "env_list (\<lambda>n. Some ''team-a,  team-b'') ''PG_OPERATOR_WATCH_NAMESPACES'' = [''team-a'', ''team-b'']"
proof -
  have "list_all plain_entry [''team-a'', ''team-b'']" "list_all is_space ''  ''"
    by (simp_all add: plain_entry_def py_strip_def strip_if_def lstrip_if_def rstrip_if_def is_space_def code_def)
  from env_list_roundtrip [OF this, of "\<lambda>n. Some ''team-a,  team-b''" "''PG_OPERATOR_WATCH_NAMESPACES''"] show ?thesis by simp
qed

text \<open>
  An environment without the operator's variables gives the defaults of the class, each of which the code states
  twice; and a number that is malformed gives its default rather than stopping the process.
\<close>

theorem unset_environment_gives_defaults:
  "from_env (\<lambda>name. None) = default_settings \<and>
   env_int (\<lambda>name. Some (show_nat n)) variable preset = (if 4300 < length (show_nat n) then preset else int n) \<and>
   env_int environ variable preset \<in> {preset, the (py_int (env_text environ variable []))} \<and>
   (if py_int (env_text environ variable []) = None then env_int environ variable preset = preset else True)"
proof -
  have plain: "py_strip ''pg-operator'' = ''pg-operator''" "py_strip ''external-secrets.io/v1alpha1'' = ''external-secrets.io/v1alpha1''"
    "py_strip ''INFO'' = ''INFO''" "py_strip ''json'' = ''json''" "py_strip ''0.0.0.0'' = ''0.0.0.0''"
    by (simp_all add: py_strip_def strip_if_def lstrip_if_def rstrip_if_def is_space_def code_def)
  have cased: "upper_char CHR ''I'' = CHR ''I''" "upper_char CHR ''N'' = CHR ''N''" "upper_char CHR ''F'' = CHR ''F''"
    "upper_char CHR ''O'' = CHR ''O''" "lower_char CHR ''j'' = CHR ''j''" "lower_char CHR ''s'' = CHR ''s''"
    "lower_char CHR ''o'' = CHR ''o''" "lower_char CHR ''n'' = CHR ''n''"
    by code_simp+
  have "from_env (\<lambda>name. None) = default_settings"
    by (simp add: from_env_def default_settings_def env_list_def env_text_def env_int_def env_bool_def plain cased py_lower_def)
  moreover have digits: "\<forall>c \<in> set (show_nat n). is_digit c" by (rule show_nat_digits)
  then have "py_strip (show_nat n) = show_nat n" by (simp add: py_strip_def strip_if_id digit_not)
  then have "env_int (\<lambda>name. Some (show_nat n)) variable preset = (if 4300 < length (show_nat n) then preset else int n)"
    using digits show_nat_nonempty [of n] by (simp add: env_int_def env_text_def)
  ultimately show ?thesis by (auto simp: env_int_def Let_def)
qed

end
