(* ===== verification/Steady.thy ===== *)
theory Steady
  imports Ordering Secrets
begin

text \<open>
  What the proofs about converged resources share: computations that always give one value, and the reads of a Secret that is
  already as wanted.
\<close>

section \<open>Computations that give one value\<close>

lemma dset_same: "map_of d k = Some v \<Longrightarrow> dset d k v = d"
  by (induction d k v rule: dset.induct) (auto split: if_splits)

lemma fetch_says: "(\<And>h. sel E h c q = Inr x) \<Longrightarrow> gives E (\<lambda>y. y = x) (fetch sel c q)"
  unfolding fetch_def gives_def by (auto simp: run_simps split: sum.splits pg_error.splits)

lemma emits_bind_eq: "emits E P m \<Longrightarrow> gives E (\<lambda>y. y = x) m \<Longrightarrow> emits E P (f x) \<Longrightarrow> emits E P (bind_m m f)"
  by (rule emits_bind_gives [where Q = "\<lambda>y. y = x"]) simp_all

lemma gives_bind_eq: "gives E (\<lambda>y. y = x) m \<Longrightarrow> gives E Q (f x) \<Longrightarrow> gives E Q (bind_m m f)"
  by (erule gives_bindI) simp

lemmas says_truth = fetch_says [where sel = says_bool]

lemma gives_asks: "Q (f E) \<Longrightarrow> gives E Q (asks f)"
  by (simp add: gives_def asks_def)

lemma gives_catch: "gives E Q m \<Longrightarrow> (\<And>e. gives E Q (h e)) \<Longrightarrow> gives E Q (catch_m cls m h)"
  unfolding gives_def by (auto simp: catch_run split: prod.splits sum.splits if_splits)

lemma fold_keeps: "R s \<Longrightarrow> (\<And>t x. R t \<Longrightarrow> x \<in> set xs \<Longrightarrow> gives E R (f t x)) \<Longrightarrow> gives E R (fold_m f s xs)"
proof (induction xs arbitrary: s)
  case (Cons x xs)
  show ?case unfolding fold_m.simps
    by (rule gives_bindI [OF Cons.prems(2) [OF Cons.prems(1)]], simp, rule Cons.IH) (auto intro: Cons.prems(2))
qed (simp add: gives_ret)

section \<open>Secrets\<close>

text \<open>The data of a Secret as the operator reads it.\<close>

definition secret_data :: "secret_obj \<Rightarrow> (string \<times> nat list) list" where
  "secret_data sec = dupdate (dupdate [] (so_data sec)) (map (\<lambda>(k, v). (k, utf8 v)) (so_string_data sec))"

lemma read_secret_run:
  "says_secret E (trace w) ns n = Inr sec \<Longrightarrow>
   read_secret ns n E w = (Inr (secret_data sec), w\<lparr>trace := trace w @ [K8s (K_Read_Secret ns n)]\<rparr>)"
  by (simp add: read_secret_def rename_not_found_def run_simps k8s_ask_def secret_data_def)

lemma reads_secret: "(\<And>h. says_secret E h ns n = Inr sec) \<Longrightarrow> gives E (\<lambda>d. d = secret_data sec) (read_secret ns n)"
  by (simp add: gives_def read_secret_run)

lemma reads_text: "utf8_decode bs = Some t \<Longrightarrow> gives E (\<lambda>x. x = t) (decode_m bs)"
  by (simp add: decode_m_def gives_ret)

lemma steady_secret:
  assumes "\<And>h. says_secret E h ns n = Inr sec" "secret_matches sec (managed_body data labels annotations)"
  shows "emits E read_only (apply_secret ns n data labels annotations)"
    "gives E (\<lambda>x. x = (False, False)) (apply_secret ns n data labels annotations)"
proof -
  have found: "gives E (\<lambda>x. x = Some sec) (if_found (k8s_ask (K_Read_Secret ns n) (\<lambda>E h. says_secret E h ns n)))"
    unfolding gives_def by (auto simp: if_found_run k8s_ask_def run_simps assms(1))
  show "emits E read_only (apply_secret ns n data labels annotations)"
    unfolding apply_secret_def Let_def
    by (rule emits_bind_gives [OF _ found]) (auto intro!: emits_rules simp: assms(2))
  show "gives E (\<lambda>x. x = (False, False)) (apply_secret ns n data labels annotations)"
    unfolding apply_secret_def Let_def
    by (rule gives_bindI [OF found]) (auto intro!: gives_ret simp: assms(2))
qed

text \<open>The Secret of the managing role, for examples.\<close>

definition operator_secret :: secret_obj where
  "operator_secret = \<lparr>so_data = [(''username'', utf8 ''admin''), (''password'', utf8 ''root'')], so_string_data = [], so_labels = [],
     so_annotations = []\<rparr>"

end
