(* ===== verification/DatabaseSteady.thy ===== *)
theory DatabaseSteady
  imports DatabaseReconcile Steady
begin

text \<open>
  The steady state of a PostgresDB. Grants and comments are declared again on every pass, but when the roles, the database, its
  parameters, its schemas and its extensions are as the spec asks for, that is all a pass does, and it reports the database in sync.
\<close>

section \<open>What is found of a converged database\<close>

record steady_database =
  yd_spec :: database_spec
  yd_name :: string
  yd_roles :: role_names

text \<open>The managing role may act as \<open>role\<close>.\<close>

definition may_act :: "env \<Rightarrow> string \<Rightarrow> bool" where
  "may_act E role \<longleftrightarrow> (\<forall>h c privilege. says_bool E h c (Q_Can role privilege) = Inr True)"

definition group_kept :: "env \<Rightarrow> string \<Rightarrow> bool" where
  "group_kept E role \<longleftrightarrow> (\<exists>st. (\<forall>h c. says_role E h c (Q_Role role) = Inr (Some st)) \<and> \<not> rs_can_login st \<and> rs_inherit st)"

definition roles_kept :: "env \<Rightarrow> steady_database \<Rightarrow> bool" where
  "roles_kept E s \<longleftrightarrow> (\<forall>role \<in> set (all_roles (yd_roles s)). group_kept E role) \<and> may_act E (rn_owner (yd_roles s)) \<and>
     (\<not> db_set_role_for_owners (yd_spec s) \<longrightarrow>
        (\<exists>members. (\<forall>h c. says_names E h c (Q_Members_Of (rn_owner (yd_roles s))) = Inr members) \<and> (\<forall>m \<in> set members. may_act E m)))"

definition database_kept :: "env \<Rightarrow> steady_database \<Rightarrow> bool" where
  "database_kept E s \<longleftrightarrow>
     (\<exists>st. (\<forall>h c. says_database E h c (Q_Database (yd_name s)) = Inr (Some st)) \<and> ds_owner st = rn_owner (yd_roles s) \<and>
        ds_connection_limit st = db_connection_limit (yd_spec s)) \<and>
     orders_sets E \<and> distinct (map fst (db_parameters (yd_spec s))) \<and>
     (\<forall>c. gives E (\<lambda>observed. map_of observed = map_of (db_parameters (yd_spec s))) (get_database_parameters c (yd_name s)))"

text \<open>Each declared schema belongs to the owner role, or to the owner of the database by default.\<close>

definition schemas_kept :: "env \<Rightarrow> steady_database \<Rightarrow> bool" where
  "schemas_kept E s \<longleftrightarrow> (\<forall>name \<in> insert ''public'' (sc_name ` set (db_schemas (yd_spec s))).
     \<exists>owner. (\<forall>h c. says_text E h c (Q_Schema_Owner name) = Inr (Some owner)) \<and> owner \<in> {rn_owner (yd_roles s), ''pg_database_owner''})"

text \<open>Each declared extension that the server offers is installed, in the version that is asked for, if any.\<close>

definition extensions_kept :: "env \<Rightarrow> steady_database \<Rightarrow> bool" where
  "extensions_kept E s \<longleftrightarrow>
     (\<exists>installed available. (\<forall>h c. says_extensions E h c Q_Extensions = Inr installed) \<and> distinct (map es_name installed) \<and>
        (\<forall>h c. says_names E h c Q_Available_Extensions = Inr available) \<and>
        (\<forall>e \<in> set (db_extensions (yd_spec s)). ex_name e \<in> set available \<longrightarrow>
           (\<exists>x \<in> set installed. es_name x = ex_name e \<and> (given (ex_version e) \<longrightarrow> es_version x = the (ex_version e)))))"

text \<open>Nothing that an earlier pass created is left over.\<close>

definition nothing_left_over :: "env \<Rightarrow> database_obj \<Rightarrow> steady_database \<Rightarrow> bool" where
  "nothing_left_over E obj s \<longleftrightarrow>
     (\<exists>live installed. (\<forall>h c. says_schemas E h c Q_Schemas = Inr live) \<and> (\<forall>h c. says_extensions E h c Q_Extensions = Inr installed) \<and>
        set (do_managed_schemas obj) \<inter> ss_name ` set live \<subseteq> insert ''public'' (sc_name ` set (db_schemas (yd_spec s))) \<and>
        set (do_managed_extensions obj) \<inter> es_name ` set installed \<subseteq> insert ''plpgsql'' (ex_name ` set (db_extensions (yd_spec s))))"

definition database_settled :: "env \<Rightarrow> database_obj \<Rightarrow> steady_database \<Rightarrow> bool" where
  "database_settled E obj s \<longleftrightarrow>
     parse_database_spec (do_spec obj) = Inr (yd_spec s) \<and>
     roles_kept E s \<and> database_kept E s \<and> schemas_kept E s \<and> extensions_kept E s \<and>
     gives E (\<lambda>i. resolve_database_name (sha_of E) (yd_spec s) (do_name obj) = Inr (yd_name s) \<and>
         resolve_role_names (sha_of E) (yd_spec s) (yd_name s) (is_role_prefix (ri_spec i)) = Inr (yd_roles s) \<and>
         (effective_retention (db_retention (yd_spec s)) (is_retention (ri_spec i)) = DROP_RESOURCES \<longrightarrow> nothing_left_over E obj s))
       (resolve_instance (db_instance (yd_spec s)) (do_namespace obj))"

text \<open>Statements that only declare privileges on objects, or comments; and what a steady pass may do.\<close>

definition restates :: "composed \<Rightarrow> bool" where
  "restates st \<longleftrightarrow> (let t = head_text st
     in starts_with ''COMMENT ON '' t \<or> starts_with ''ALTER DEFAULT PRIVILEGES '' t \<or>
        (starts_with ''GRANT '' t \<or> starts_with ''REVOKE '' t) \<and> contains_text '' ON '' t)"

definition declares :: "event \<Rightarrow> bool" where
  "declares ev \<longleftrightarrow> read_only ev \<or> (\<exists>c st ok. ev = Executed c st ok \<and> restates st)"

lemma declares_read: "emits E read_only m \<Longrightarrow> emits E declares m"
  by (erule emits_mono) (simp add: declares_def)

lemma declares_execute: "restates st \<Longrightarrow> emits E declares (execute c st)"
  by (rule emits_execute) (simp add: declares_def)

definition in_sync :: "steady_database \<Rightarrow> database_result \<Rightarrow> bool" where
  "in_sync s r \<longleftrightarrow> dr_database r = yd_name s \<and> \<not> dr_created r \<and> dr_changes r = []"

section \<open>Each step\<close>

lemma restated [simp]:
  "restates (Format ''REVOKE ALL ON DATABASE {} FROM PUBLIC'' (ident n # cs))" "restates (Format ''GRANT {} ON DATABASE {} TO {}'' (SQL p # cs))"
  "restates (Format ''REVOKE CREATE ON SCHEMA {} FROM PUBLIC'' (ident n # cs))" "restates (Format ''GRANT ALL ON SCHEMA {} TO {}'' (ident n # cs))"
  "restates (Format ''GRANT USAGE ON SCHEMA {} TO {}'' (ident n # cs))" "restates (Format ''COMMENT ON SCHEMA {} IS {}'' (ident n # cs))"
  "restates (Format ''COMMENT ON DATABASE {} IS {}'' (ident n # cs))" "restates (grant_on_all ps objects schema role)"
  "restates (default_grant creator schema ps objects role)"
  by (simp_all add: restates_def grant_on_all_def default_grant_def)

lemma kept_act: "may_act E role \<Longrightarrow> emits E read_only (ensure_self_membership c role b)"
proof -
  assume act: "may_act E role"
  have can: "gives E (\<lambda>x. x = True) (fetch says_bool c (Q_Can role p))" for p
    using act unfolding may_act_def by (intro says_truth) blast
  have asked: "emits E read_only (fetch says_bool c (Q_Can role p))" for p by (rule emits_fetch) simp
  have user: "emits E read_only (current_user c)" unfolding current_user_def by (intro emits_rules) simp
  show ?thesis
    unfolding ensure_self_membership_def then_m_def
    apply (rule emits_bind [OF user], intro emits_if emits_ret)
     apply (rule emits_bind_eq [OF asked can], rule emits_bind_eq [OF asked can], simp add: emits_ret)
    apply (rule emits_bind_eq [OF asked can], simp add: when_m_def)
    apply (intro emits_bind asked emits_ret)
    done
qed

lemma kept_group:
  assumes "group_kept E role"
  shows "emits E read_only (ensure_group_role c role)" "gives E (\<lambda>created. \<not> created) (ensure_group_role c role)"
proof -
  obtain st where st: "\<And>h c. says_role E h c (Q_Role role) = Inr (Some st)" "\<not> rs_can_login st" "rs_inherit st"
    using assms unfolding group_kept_def by blast
  have asked: "emits E read_only (get_role c role)" "gives E (\<lambda>x. x = Some st) (get_role c role)"
    unfolding get_role_def by (rule emits_fetch, simp) (rule fetch_says, rule st(1))
  have "attribute_clauses [(''login'', False), (''inherit'', True)] (observed_attributes st) = []"
    unfolding attribute_clauses_def
    by (rule clauses_from_converged) (auto simp: observed_attributes_def st(2,3) split: if_splits)
  then show "emits E read_only (ensure_group_role c role)" "gives E (\<lambda>created. \<not> created) (ensure_group_role c role)"
    unfolding ensure_group_role_def Let_def then_m_def
    by (intro emits_bind_eq [OF asked], simp add: when_m_def emits_ret, intro gives_bind_eq [OF asked(2)], simp add: when_m_def gives_ret)
qed

lemma kept_group_roles:
  assumes "\<forall>role \<in> set (all_roles roles). group_kept E role" "may_act E (rn_owner roles)"
  shows "emits E read_only (ensure_group_roles c roles r b)" "gives E (\<lambda>t. t = r) (ensure_group_roles c roles r b)"
proof -
  have each: "emits E read_only (ensure_group_role c role)" "gives E (\<lambda>created. \<not> created) (ensure_group_role c role)"
    if "role \<in> set (all_roles roles)" for role
    using kept_group assms(1) that by blast+
  show "emits E read_only (ensure_group_roles c roles r b)"
    unfolding ensure_group_roles_def
    by (intro emits_bind emits_fold emits_then each(1) kept_act [OF assms(2)] emits_ret)
  show "gives E (\<lambda>t. t = r) (ensure_group_roles c roles r b)"
    unfolding ensure_group_roles_def then_m_def
    apply (rule gives_bind_eq, rule fold_keeps, rule refl)
     apply (rule gives_bindI [OF each(2)], assumption, simp add: gives_ret)
    apply (rule gives_bindI [OF gives_True], simp add: gives_ret)
    done
qed

lemma kept_creators:
  assumes "roles_kept E s" "\<not> db_set_role_for_owners (yd_spec s)" "in_sync s r"
  shows "emits E read_only (owner_creators c (yd_roles s) r b)" "gives E (\<lambda>(creators, t). in_sync s t) (owner_creators c (yd_roles s) r b)"
proof -
  obtain members where says: "\<And>h c. says_names E h c (Q_Members_Of (rn_owner (yd_roles s))) = Inr members"
      and act: "\<forall>m \<in> set members. may_act E m"
    using assms(1,2) unfolding roles_kept_def by blast
  have asked: "emits E read_only (members_of c (rn_owner (yd_roles s)))" "gives E (\<lambda>x. x = members) (members_of c (rn_owner (yd_roles s)))"
    unfolding members_of_def by (rule emits_fetch, simp) (rule fetch_says, rule says)
  have user: "emits E read_only (current_user c)" unfolding current_user_def by (intro emits_rules) simp
  show "emits E read_only (owner_creators c (yd_roles s) r b)"
    unfolding owner_creators_def
    apply (rule emits_bind [OF user], rule emits_bind_eq [OF asked], rule emits_fold)
    apply (simp add: sorted_set_def split: prod.split)
    apply (intro allI impI emits_catch emits_then emits_ret kept_act)
    apply (use act in blast)
    done
  show "gives E (\<lambda>(creators, t). in_sync s t) (owner_creators c (yd_roles s) r b)"
    unfolding owner_creators_def
    apply (rule gives_bindI [OF gives_True], rule gives_bindI [OF gives_True], rule fold_keeps)
     apply (simp add: assms(3))
    apply (clarsimp, rule gives_catch; (simp only: then_m_def, rule gives_bindI [OF gives_True])?; rule gives_ret; simp add: in_sync_def)
    done
qed

lemma immutable_in_sync: "in_sync s r \<Longrightarrow> in_sync s (note_immutable spec st r)"
  by (simp add: note_immutable_def drift_def in_sync_def Let_def)

lemma ensured_database:
  assumes "database_kept E s" "in_sync s r"
  shows "emits E read_only (ensure_database c (yd_spec s) (yd_name s) (yd_roles s) r)"
    "gives E (in_sync s) (ensure_database c (yd_spec s) (yd_name s) (yd_roles s) r)"
proof -
  obtain st where says: "\<And>h c. says_database E h c (Q_Database (yd_name s)) = Inr (Some st)" and st: "ds_owner st = rn_owner (yd_roles s)"
      "ds_connection_limit st = db_connection_limit (yd_spec s)"
    using assms(1) unfolding database_kept_def by blast
  have asked: "emits E read_only (get_database c (yd_name s))" "gives E (\<lambda>x. x = Some st) (get_database c (yd_name s))"
    unfolding get_database_def by (rule emits_fetch, simp) (rule fetch_says, rule says)
  show "emits E read_only (ensure_database c (yd_spec s) (yd_name s) (yd_roles s) r)"
    unfolding ensure_database_def Let_def by (rule emits_bind_eq [OF asked]) (simp add: st emits_ret)
  show "gives E (in_sync s) (ensure_database c (yd_spec s) (yd_name s) (yd_roles s) r)"
    unfolding ensure_database_def Let_def by (rule gives_bind_eq [OF asked(2)]) (simp add: st gives_ret immutable_in_sync assms(2))
qed

lemma kept_privileges: "emits E declares (apply_database_privileges c spec d roles)"
  unfolding apply_database_privileges_def revoke_public_database_privileges_def grant_database_connect_def
  by (intro emits_then emits_when declares_execute) simp_all

lemma database_reads: "emits E read_only (get_database_parameters c d)" "emits E read_only (list_extensions c)"
  "emits E read_only (list_schemas c)" "emits E read_only (available_extensions c)" "emits E read_only (observe c d)"
  "emits E read_only (observed_schema_grants c roles)"
proof -
  show read: "emits E read_only (get_database_parameters c d)" "emits E read_only (list_extensions c)"
    "emits E read_only (list_schemas c)" "emits E read_only (available_extensions c)"
    unfolding get_database_parameters_def list_extensions_def list_schemas_def available_extensions_def by (intro emits_rules; simp)+
  show "emits E read_only (observe c d)" unfolding observe_def by (intro emits_rules read)
  show "emits E read_only (observed_schema_grants c roles)" unfolding observed_schema_grants_def by (intro emits_rules) simp
qed

lemma kept_database_parameters:
  assumes "map_of observed = map_of ps" "distinct (map fst ps)" "orders_sets E"
  shows "emits E read_only (apply_database_parameters c d ps observed)"
    "gives E (\<lambda>outcome. po_changes outcome = []) (apply_database_parameters c d ps observed)"
proof -
  have skip: "map_of observed k = Some v" if "(k, v) \<in> set ps" for k v
    using that assms(1,2) by simp
  have none: "gives E (\<lambda>stale. stale = []) (asks (\<lambda>E. stale_keys E observed ps))"
    by (rule gives_asks, rule stale_keys_same [OF assms(3,1)])
  show "emits E read_only (apply_database_parameters c d ps observed)"
    unfolding apply_database_parameters_def
    apply (rule emits_bind, rule emits_fold, clarsimp simp: skip emits_ret)
    apply (rule emits_bind_eq [OF emits_asks none], simp add: emits_ret)
    done
  show "gives E (\<lambda>outcome. po_changes outcome = []) (apply_database_parameters c d ps observed)"
    unfolding apply_database_parameters_def
    apply (rule gives_bind_eq, rule fold_keeps, rule refl, clarsimp simp: skip gives_ret)
    apply (rule gives_bind_eq [OF none], simp add: gives_ret)
    done
qed

lemma kept_attributes:
  assumes "database_kept E s" "in_sync s r"
  shows "emits E declares (apply_database_attributes c (yd_spec s) (yd_name s) r)"
    "gives E (in_sync s) (apply_database_attributes c (yd_spec s) (yd_name s) r)"
proof -
  have sets: "orders_sets E" "distinct (map fst (db_parameters (yd_spec s)))"
    and observed: "gives E (\<lambda>observed. map_of observed = map_of (db_parameters (yd_spec s))) (get_database_parameters c (yd_name s))"
    using assms(1) by (simp_all add: database_kept_def)
  have comment: "emits E declares (case db_comment (yd_spec s) of None \<Rightarrow> ret_m () | Some text \<Rightarrow> comment_on_database c (yd_name s) text)"
    unfolding comment_on_database_def by (simp split: option.split add: emits_ret declares_execute)
  show "emits E declares (apply_database_attributes c (yd_spec s) (yd_name s) r)"
    unfolding apply_database_attributes_def Let_def
    apply (rule emits_bind_gives [OF declares_read [OF database_reads(1)] observed])
    apply (rule emits_bind [OF declares_read [OF kept_database_parameters(1) [OF _ sets(2,1)]]], assumption)
    apply (rule emits_then [OF comment emits_ret])
    done
  show "gives E (in_sync s) (apply_database_attributes c (yd_spec s) (yd_name s) r)"
    unfolding apply_database_attributes_def Let_def then_m_def
    apply (rule gives_bindI [OF observed])
    apply (rule gives_bindI [OF kept_database_parameters(2) [OF _ sets(2,1)]], assumption)
    apply (rule gives_bindI [OF gives_True], rule gives_ret)
    apply (use assms(2) in \<open>simp add: in_sync_def\<close>)
    done
qed

lemma declared_grants: "emits E declares (apply_schema_privileges c schema roles options)"
  "emits E declares (apply_default_privileges c schema roles options creators)"
  unfolding apply_schema_privileges_def grant_existing_objects_def apply_default_privileges_def default_privileges_for_def
  by (intro emits_rules; simp add: declares_def)+

lemma kept_schema:
  assumes "schemas_kept E s" "schema \<in> set (resolve_schemas (yd_spec s))"
  shows "emits E declares (ensure_one_schema c (yd_roles s) options creators r schema)"
    "in_sync s r \<Longrightarrow> gives E (in_sync s) (ensure_one_schema c (yd_roles s) options creators r schema)"
proof -
  have "sc_name schema \<in> insert ''public'' (sc_name ` set (db_schemas (yd_spec s)))"
    using assms(2) resolve_schemas_names [of "yd_spec s"] by blast
  then obtain owner where says: "\<And>h c. says_text E h c (Q_Schema_Owner (sc_name schema)) = Inr (Some owner)"
      and owner: "owner \<in> {rn_owner (yd_roles s), ''pg_database_owner''}"
    using assms(1) unfolding schemas_kept_def by blast
  have asked: "emits E read_only (fetch says_text c (Q_Schema_Owner (sc_name schema)))"
      "gives E (\<lambda>x. x = Some owner) (fetch says_text c (Q_Schema_Owner (sc_name schema)))"
    by (rule emits_fetch, simp) (rule fetch_says, rule says)
  have kept: "emits E read_only (ensure_schema c (sc_name schema) (rn_owner (yd_roles s)))"
      "gives E (\<lambda>x. x = UNCHANGED) (ensure_schema c (sc_name schema) (rn_owner (yd_roles s)))"
    unfolding ensure_schema_def using owner
    by (intro emits_bind_eq [OF asked], simp add: emits_ret, intro gives_bind_eq [OF asked(2)], simp add: gives_ret)
  have comment: "emits E declares (case sc_comment schema of None \<Rightarrow> ret_m () | Some text \<Rightarrow> comment_on_schema c (sc_name schema) text)"
    unfolding comment_on_schema_def by (simp split: option.split add: emits_ret declares_execute)
  show "emits E declares (ensure_one_schema c (yd_roles s) options creators r schema)"
    unfolding ensure_one_schema_def Let_def
    apply (rule emits_bind_eq [OF declares_read [OF kept(1)] kept(2)])
    apply (intro emits_then declared_grants emits_ret emits_if comment)
    done
  show "gives E (in_sync s) (ensure_one_schema c (yd_roles s) options creators r schema)" if "in_sync s r"
    unfolding ensure_one_schema_def Let_def then_m_def
    apply (rule gives_bind_eq [OF kept(2)])
    apply (rule gives_bindI [OF gives_True])+
    apply (simp add: gives_ret that)
    done
qed

lemma kept_schemas:
  assumes "schemas_kept E s" "in_sync s r"
  shows "emits E declares (ensure_schemas c (resolve_schemas (yd_spec s)) (yd_roles s) options r creators)"
    "gives E (in_sync s) (ensure_schemas c (resolve_schemas (yd_spec s)) (yd_roles s) options r creators)"
proof -
  show "gives E (in_sync s) (ensure_schemas c (resolve_schemas (yd_spec s)) (yd_roles s) options r creators)"
    unfolding ensure_schemas_def by (rule fold_keeps, rule assms(2), rule kept_schema(2) [OF assms(1)])
  show "emits E declares (ensure_schemas c (resolve_schemas (yd_spec s)) (yd_roles s) options r creators)"
    unfolding ensure_schemas_def by (rule emits_fold) (rule kept_schema(1) [OF assms(1)])
qed

lemma kept_extension:
  assumes "distinct (map es_name installed)" "ex_name e \<in> set available \<longrightarrow>
      (\<exists>x \<in> set installed. es_name x = ex_name e \<and> (given (ex_version e) \<longrightarrow> es_version x = the (ex_version e)))"
  shows "emits E read_only (ensure_one_extension c installed available r e)"
    "in_sync s r \<Longrightarrow> gives E (in_sync s) (ensure_one_extension c installed available r e)"
proof -
  have found: "\<exists>x. find (\<lambda>x. es_name x = ex_name e) (rev installed) = Some x \<and> (given (ex_version e) \<longrightarrow> es_version x = the (ex_version e))"
    if offered: "ex_name e \<in> set available"
  proof -
    obtain x where x: "x \<in> set installed" "es_name x = ex_name e" "given (ex_version e) \<longrightarrow> es_version x = the (ex_version e)"
      using assms(2) offered by blast
    then obtain y where y: "find (\<lambda>x. es_name x = ex_name e) (rev installed) = Some y"
      by (metis (mono_tags, lifting) find_None_iff not_None_eq set_rev)
    then have "y \<in> set installed" "es_name y = ex_name e" by (metis find_Some_iff nth_mem set_rev) (metis (mono_tags, lifting) find_Some_iff y)
    with x have "y = x" using assms(1) by (metis distinct_map inj_on_def)
    with x y show ?thesis by blast
  qed
  show "emits E read_only (ensure_one_extension c installed available r e)"
    using found unfolding ensure_one_extension_def by (auto simp: emits_ret)
  show "gives E (in_sync s) (ensure_one_extension c installed available r e)" if "in_sync s r"
    using found that unfolding ensure_one_extension_def by (auto simp: in_sync_def drift_def intro!: gives_ret)
qed

lemma kept_extensions:
  assumes "extensions_kept E s" "in_sync s r"
  shows "emits E read_only (ensure_extensions c (yd_spec s) r)" "gives E (in_sync s) (ensure_extensions c (yd_spec s) r)"
proof -
  obtain installed available where says: "\<And>h c. says_extensions E h c Q_Extensions = Inr installed" "distinct (map es_name installed)"
      "\<And>h c. says_names E h c Q_Available_Extensions = Inr available"
    and each: "\<forall>e \<in> set (db_extensions (yd_spec s)). ex_name e \<in> set available \<longrightarrow>
        (\<exists>x \<in> set installed. es_name x = ex_name e \<and> (given (ex_version e) \<longrightarrow> es_version x = the (ex_version e)))"
    using assms(1) unfolding extensions_kept_def by blast
  have listed: "gives E (\<lambda>x. x = installed) (list_extensions c)" "gives E (\<lambda>x. x = available) (available_extensions c)"
    unfolding list_extensions_def available_extensions_def by (rule fetch_says, rule says)+
  note one = kept_extension [OF says(2) bspec [OF each]]
  show "emits E read_only (ensure_extensions c (yd_spec s) r)"
    unfolding ensure_extensions_def
    by (intro emits_if emits_ret emits_bind_eq [OF database_reads(2) listed(1)] emits_bind_eq [OF database_reads(4) listed(2)] emits_fold one(1))
  show "gives E (in_sync s) (ensure_extensions c (yd_spec s) r)"
    unfolding ensure_extensions_def
    by (rule gives_if, rule gives_ret, rule assms(2), rule gives_bind_eq [OF listed(1)], rule gives_bind_eq [OF listed(2)], rule fold_keeps,
        rule assms(2), rule one(2))
qed

lemma no_orphans:
  assumes "nothing_left_over E obj s" "in_sync s r"
  shows "emits E read_only (handle_orphans c (yd_spec s) (resolve_schemas (yd_spec s)) obj DROP_RESOURCES r)"
    "gives E (in_sync s) (handle_orphans c (yd_spec s) (resolve_schemas (yd_spec s)) obj DROP_RESOURCES r)"
proof -
  obtain live installed where kept: "(\<forall>h c. says_schemas E h c Q_Schemas = Inr live) \<and> (\<forall>h c. says_extensions E h c Q_Extensions = Inr installed) \<and>
        set (do_managed_schemas obj) \<inter> ss_name ` set live \<subseteq> insert ''public'' (sc_name ` set (db_schemas (yd_spec s))) \<and>
        set (do_managed_extensions obj) \<inter> es_name ` set installed \<subseteq> insert ''plpgsql'' (ex_name ` set (db_extensions (yd_spec s)))"
    using assms(1) unfolding nothing_left_over_def by (elim exE) (rule that)
  have says: "\<And>h c. says_schemas E h c Q_Schemas = Inr live" "\<And>h c. says_extensions E h c Q_Extensions = Inr installed"
    and schemas: "set (do_managed_schemas obj) \<inter> ss_name ` set live \<subseteq> insert ''public'' (sc_name ` set (db_schemas (yd_spec s)))"
    and extensions: "set (do_managed_extensions obj) \<inter> es_name ` set installed \<subseteq> insert ''plpgsql'' (ex_name ` set (db_extensions (yd_spec s)))"
    using kept by simp_all
  have listed: "gives E (\<lambda>x. x = live) (list_schemas c)" "gives E (\<lambda>x. x = installed) (list_extensions c)"
    unfolding list_schemas_def list_extensions_def by (rule fetch_says, rule says)+
  have "set (orphans (do_managed_schemas obj) (map sc_name (resolve_schemas (yd_spec s))) (map ss_name live)) = {}"
    using schemas by (simp only: set_eq_iff orphans_iff set_map resolve_schemas_names empty_iff) blast
  moreover have "set (orphans (do_managed_extensions obj) (map ex_name (db_extensions (yd_spec s)))
      (filter (\<lambda>e. e \<notin> set BASELINE_EXTENSIONS) (map es_name installed))) = {}"
    using extensions by (simp only: set_eq_iff orphans_iff set_map set_filter BASELINE_EXTENSIONS_def list.set empty_iff) blast
  ultimately have none: "orphans (do_managed_schemas obj) (map sc_name (resolve_schemas (yd_spec s))) (map ss_name live) = []"
      "orphans (do_managed_extensions obj) (map ex_name (db_extensions (yd_spec s)))
        (filter (\<lambda>e. e \<notin> set BASELINE_EXTENSIONS) (map es_name installed)) = []"
    by (simp_all only: set_empty)
  show "emits E read_only (handle_orphans c (yd_spec s) (resolve_schemas (yd_spec s)) obj DROP_RESOURCES r)"
    unfolding handle_orphans_def Let_def
    by (rule emits_bind_eq [OF database_reads(3) listed(1)], rule emits_bind_eq [OF database_reads(2) listed(2)])
      (simp only: none fold_m.simps bind_ret if_True simp_thms, rule emits_ret)
  show "gives E (in_sync s) (handle_orphans c (yd_spec s) (resolve_schemas (yd_spec s)) obj DROP_RESOURCES r)"
    unfolding handle_orphans_def Let_def
    by (rule gives_bind_eq [OF listed(1)], rule gives_bind_eq [OF listed(2)])
      (simp only: none fold_m.simps bind_ret if_True simp_thms, rule gives_ret, rule assms(2))
qed

lemma kept_orphans:
  assumes "retention = DROP_RESOURCES \<longrightarrow> nothing_left_over E obj s" "in_sync s r"
  shows "emits E read_only (handle_orphans c (yd_spec s) (resolve_schemas (yd_spec s)) obj retention r)"
    "gives E (in_sync s) (handle_orphans c (yd_spec s) (resolve_schemas (yd_spec s)) obj retention r)"
proof -
  have "emits E read_only (handle_orphans c (yd_spec s) (resolve_schemas (yd_spec s)) obj retention r)"
      "gives E (in_sync s) (handle_orphans c (yd_spec s) (resolve_schemas (yd_spec s)) obj retention r)" if "retention \<noteq> DROP_RESOURCES"
  proof -
    show "emits E read_only (handle_orphans c (yd_spec s) (resolve_schemas (yd_spec s)) obj retention r)"
      unfolding handle_orphans_def Let_def using that
      by (simp, intro emits_bind database_reads emits_ret)
    show "gives E (in_sync s) (handle_orphans c (yd_spec s) (resolve_schemas (yd_spec s)) obj retention r)"
      unfolding handle_orphans_def Let_def using that assms(2)
      by (simp, intro gives_bindI [OF gives_True] gives_ret) (simp add: in_sync_def)
  qed
  then show "emits E read_only (handle_orphans c (yd_spec s) (resolve_schemas (yd_spec s)) obj retention r)"
    "gives E (in_sync s) (handle_orphans c (yd_spec s) (resolve_schemas (yd_spec s)) obj retention r)"
    using no_orphans [OF _ assms(2)] assms(1) by blast+
qed

section \<open>The pass\<close>

text \<open>
  C5. A converged database is only declared again: when its roles, owner, limit, parameters, schemas and extensions are the ones
  the spec asks for and nothing is left over, a pass executes no statement but grants and revocations of privileges on objects,
  default privileges and comments - it creates, alters and drops nothing - and a pass that returns reports the database in sync.
\<close>

theorem converged_database_only_restated:
  assumes "database_settled E obj s"
  shows "emits E declares (reconcile_database obj) \<and> gives E (\<lambda>(r, i). result_message r = yd_name s @ '' in sync'') (reconcile_database obj)"
proof -
  note parts = assms [unfolded database_settled_def]
  have spec: "gives E (\<lambda>sp. sp = yd_spec s) (parse_spec obj)" using parts by (simp add: parse_spec_def gives_ret)
  have names: "gives E (\<lambda>x. x = (yd_name s, yd_roles s)) (derive_names (yd_spec s) (do_name obj) p)"
    if "resolve_database_name (sha_of E) (yd_spec s) (do_name obj) = Inr (yd_name s)"
      "resolve_role_names (sha_of E) (yd_spec s) (yd_name s) p = Inr (yd_roles s)" for p
  proof -
    have sha: "gives E (\<lambda>h. h = sha_of E) (asks sha_of)" by (rule gives_asks) simp
    show ?thesis unfolding derive_names_def by (rule gives_bind_eq [OF sha]) (simp add: that gives_ret bind_r_eq_Inr)
  qed
  have reads: "emits E read_only (parse_spec obj)" "emits E read_only (derive_names spec n p)" for spec n p
    unfolding parse_spec_def derive_names_def by (intro emits_rules)+
  have start: "in_sync s (new_result (yd_name s) (yd_roles s) ret)" for ret by (simp add: in_sync_def new_result_def)
  have roles: "\<forall>role \<in> set (all_roles (yd_roles s)). group_kept E role" "may_act E (rn_owner (yd_roles s))"
    using parts by (simp_all add: roles_kept_def)
  have creators: "emits E declares (if \<not> db_set_role_for_owners (yd_spec s) then owner_creators c (yd_roles s) t b else ret_m ([], t))"
      "gives E (\<lambda>(creators, u). in_sync s u) (if \<not> db_set_role_for_owners (yd_spec s) then owner_creators c (yd_roles s) t b else ret_m ([], t))"
    if "in_sync s t" for c t b
    using kept_creators [OF _ _ that] parts that by (auto intro: declares_read emits_ret gives_ret)
  have at: "gives E (\<lambda>i. resolve_database_name (sha_of E) (yd_spec s) (do_name obj) = Inr (yd_name s) \<and>
         resolve_role_names (sha_of E) (yd_spec s) (yd_name s) (is_role_prefix (ri_spec i)) = Inr (yd_roles s) \<and>
         (effective_retention (db_retention (yd_spec s)) (is_retention (ri_spec i)) = DROP_RESOURCES \<longrightarrow> nothing_left_over E obj s))
       (resolve_instance (db_instance (yd_spec s)) (do_namespace obj))"
    using parts by simp
  have kept: "database_kept E s" "schemas_kept E s" "extensions_kept E s" using parts by simp_all
  have emitted: "emits E declares (reconcile_database obj)"
    unfolding reconcile_database_def Let_def then_m_def
    apply (rule emits_bind_eq [OF declares_read [OF reads(1)] spec])
    apply (rule emits_bind_gives [OF declares_read [OF read_only_context(2)] at], elim conjE)
    apply (rule emits_bind_eq [OF declares_read [OF reads(2)] names], assumption+, simp only: prod.case)
    apply (rule emits_bind [OF declares_read [OF read_only_context(3)]])
    apply (rule emits_bind_eq [OF declares_read [OF kept_group_roles(1)] kept_group_roles(2)], rule roles, rule roles, rule roles, rule roles)
    apply (rule emits_bind_gives [OF declares_read [OF ensured_database(1) [OF kept(1) start]] ensured_database(2) [OF kept(1) start]])
    apply (rule emits_bind [OF kept_privileges])
    apply (rule emits_bind_gives [OF kept_attributes(1) kept_attributes(2)], rule kept, assumption, rule kept, assumption)
    apply (rule emits_bind_gives [OF creators(1) creators(2)], assumption, assumption, clarify)
    apply (rule emits_bind [OF declares_read [OF read_only_context(3)]])
    apply (rule emits_bind_gives [OF kept_schemas(1) kept_schemas(2)], rule kept, assumption, rule kept, assumption)
    apply (rule emits_bind_gives [OF declares_read [OF kept_extensions(1)] kept_extensions(2)], rule kept, assumption, rule kept, assumption)
    apply (rule emits_bind [OF declares_read [OF kept_orphans(1)]], assumption, assumption)
    apply (intro emits_bind declares_read [OF database_reads(5)] declares_read [OF database_reads(6)] emits_ret)
    done
  have final: "result_message (record_managed (yd_spec s) ds (t\<lparr>dr_observed := ob, dr_schema_grants := gs\<rparr>)) = yd_name s @ '' in sync''"
    if "in_sync s t" for t ds ob gs
    using that by (simp add: result_message_def record_managed_def in_sync_def Let_def)
  have given_back: "gives E (\<lambda>(r, i). result_message r = yd_name s @ '' in sync'') (reconcile_database obj)"
    unfolding reconcile_database_def Let_def then_m_def
    apply (rule gives_bind_eq [OF spec])
    apply (rule gives_bindI [OF at], elim conjE)
    apply (rule gives_bind_eq [OF names], assumption+, simp only: prod.case)
    apply (rule gives_bindI [OF gives_True])
    apply (rule gives_bind_eq [OF kept_group_roles(2)], rule roles, rule roles)
    apply (rule gives_bindI [OF ensured_database(2) [OF kept(1) start]])
    apply (rule gives_bindI [OF gives_True])
    apply (rule gives_bindI [OF kept_attributes(2)], rule kept, assumption)
    apply (rule gives_bindI [OF creators(2)], assumption, clarify)
    apply (rule gives_bindI [OF gives_True])
    apply (rule gives_bindI [OF kept_schemas(2)], rule kept, assumption)
    apply (rule gives_bindI [OF kept_extensions(2)], rule kept, assumption)
    apply (rule gives_bindI [OF kept_orphans(2)], assumption, assumption)
    apply (rule gives_bindI [OF gives_True], rule gives_bindI [OF gives_True], rule gives_ret)
    apply (simp add: final)
    done
  show ?thesis using emitted given_back by blast
qed

section \<open>A converged database\<close>

text \<open>With an extension, owners that keep their own name, a retention policy of DROP and a record of a schema that is gone.\<close>

definition settled_spec :: database_spec where
  "settled_spec = sample_database\<lparr>db_retention := Some DROP_RESOURCES, db_set_role_for_owners := False, db_comment := Some ''orders'',
     db_extensions := [\<lparr>ex_name = ''pgcrypto'', ex_schema = None, ex_version = Some ''1.3'', ex_cascade = False\<rparr>]\<rparr>"

definition settled_object :: database_obj where
  "settled_object = \<lparr>do_namespace = ''team-a'', do_name = ''orders'', do_generation = 1, do_spec = Inr settled_spec,
     do_managed_schemas = [''app'', ''gone''], do_managed_extensions = [''pgcrypto''], do_conditions = []\<rparr>"

definition settled_database :: steady_database where
  "settled_database = \<lparr>yd_spec = settled_spec, yd_name = ''orders'',
     yd_roles = \<lparr>rn_owner = ''orders_admin'', rn_read_write = ''orders_rw'', rn_read_only = ''orders_ro''\<rparr>\<rparr>"

definition settled_server :: server_info where
  "settled_server = \<lparr>sv_version_num = 160003, sv_version_text = ''16.3'', sv_current_user = ''admin'', sv_is_superuser = False,
     sv_can_create_db = True, sv_can_create_role = True, sv_is_rds_superuser = False\<rparr>"

definition settled_state :: database_state where
  "settled_state = \<lparr>ds_name = ''orders'', ds_owner = ''orders_admin'', ds_encoding = ''UTF8'', ds_connection_limit = -1,
     ds_collate = None, ds_ctype = None\<rparr>"

definition settled_extensions :: "extension_state list" where
  "settled_extensions = [\<lparr>es_name = ''plpgsql'', es_version = ''1.0'', es_schema = ''pg_catalog''\<rparr>,
     \<lparr>es_name = ''pgcrypto'', es_version = ''1.3'', es_schema = ''public''\<rparr>]"

definition settled_env :: env where
  "settled_env = sample_env\<lparr>
     says_instance := \<lambda>h n. Inr \<lparr>io_spec = Inr sample_instance, io_generation = 1\<rparr>, says_secret := \<lambda>h ns n. Inr operator_secret,
     says_server := \<lambda>h c q. Inr (Some settled_server), says_bool := \<lambda>h c q. Inr True,
     says_role := \<lambda>h c q. Inr (Some (sample_role\<lparr>rs_can_login := False\<rparr>)), says_database := \<lambda>h c q. Inr (Some settled_state),
     says_settings := \<lambda>h c q. Inr [[''work_mem=64MB'']],
     says_text := \<lambda>h c q. Inr (Some (case q of Q_Schema_Owner n \<Rightarrow> if n = ''public'' then ''pg_database_owner'' else ''orders_admin''
       | _ \<Rightarrow> ''admin'')),
     says_names := \<lambda>h c q. Inr (case q of Q_Available_Extensions \<Rightarrow> [''pgcrypto'', ''plpgsql''] | _ \<Rightarrow> [''alice'', ''admin'']),
     says_schemas := \<lambda>h c q. Inr [\<lparr>ss_name = ''app'', ss_owner = ''orders_admin''\<rparr>, \<lparr>ss_name = ''public'', ss_owner = ''pg_database_owner''\<rparr>],
     says_extensions := \<lambda>h c q. Inr settled_extensions\<rparr>"

lemma settled_says [simp]:
  "says_instance settled_env h n = Inr \<lparr>io_spec = Inr sample_instance, io_generation = 1\<rparr>" "says_bool settled_env h c q = Inr True"
  "says_role settled_env h c q = Inr (Some (sample_role\<lparr>rs_can_login := False\<rparr>))" "says_database settled_env h c q = Inr (Some settled_state)"
  "says_settings settled_env h c q = Inr [[''work_mem=64MB'']]" "says_extensions settled_env h c q = Inr settled_extensions"
  "says_text settled_env h c q = Inr (Some (case q of Q_Schema_Owner n \<Rightarrow> if n = ''public'' then ''pg_database_owner'' else ''orders_admin''
       | _ \<Rightarrow> ''admin''))"
  "says_names settled_env h c q = Inr (case q of Q_Available_Extensions \<Rightarrow> [''pgcrypto'', ''plpgsql''] | _ \<Rightarrow> [''alice'', ''admin''])"
  "says_schemas settled_env h c q = Inr [\<lparr>ss_name = ''app'', ss_owner = ''orders_admin''\<rparr>, \<lparr>ss_name = ''public'', ss_owner = ''pg_database_owner''\<rparr>]"
  by (simp_all add: settled_env_def)

lemma settled_sha: "sha_of settled_env = (\<lambda>t. replicate 64 CHR ''0'')"
  by (simp add: fun_eq_iff sha_of_def settled_env_def sample_env_def)

lemma settled_fields: "yd_spec settled_database = settled_spec" "yd_name settled_database = ''orders''"
  "rn_owner (yd_roles settled_database) = ''orders_admin''"
  "db_parameters settled_spec = [(''work_mem'', ''64MB'')]" "db_connection_limit settled_spec = -1"
  "sc_name ` set (db_schemas settled_spec) = {''app''}" "db_instance settled_spec = ''main''" "do_namespace settled_object = ''team-a''"
  "do_managed_schemas settled_object = [''app'', ''gone'']" "do_managed_extensions settled_object = [''pgcrypto'']"
  "db_extensions settled_spec = [\<lparr>ex_name = ''pgcrypto'', ex_schema = None, ex_version = Some ''1.3'', ex_cascade = False\<rparr>]"
  by (simp_all add: settled_database_def settled_spec_def sample_database_def settled_object_def)

lemma settled_found: "roles_kept settled_env settled_database" "database_kept settled_env settled_database"
  "schemas_kept settled_env settled_database" "extensions_kept settled_env settled_database"
  "nothing_left_over settled_env settled_object settled_database"
proof -
  have "group_kept settled_env role" "may_act settled_env role" for role
    by (simp_all add: group_kept_def may_act_def sample_role_def)
  then show "roles_kept settled_env settled_database" by (simp add: roles_kept_def)
  have observed: "gives settled_env (\<lambda>x. x = [(''work_mem'', ''64MB'')]) (get_database_parameters c n)" for c n
  proof -
    have "foldl (\<lambda>settings config. dupdate settings (parse_setconfig config)) [] [[''work_mem=64MB'']] = [(''work_mem'', ''64MB'')]" by code_simp
    moreover have "gives settled_env (\<lambda>x. x = [[''work_mem=64MB'']]) (fetch says_settings c (Q_Database_Settings n))" by (rule fetch_says) simp
    ultimately show ?thesis unfolding get_database_parameters_def by (intro gives_bind_eq) (assumption, simp add: gives_ret)
  qed
  have "orders_sets settled_env" by (simp add: orders_sets_def settled_env_def sample_env_def)
  moreover have "ds_owner settled_state = ''orders_admin''" "ds_connection_limit settled_state = -1" by (simp_all add: settled_state_def)
  ultimately show "database_kept settled_env settled_database"
    by (auto simp: database_kept_def settled_fields intro!: gives_mono [OF observed])
  show "schemas_kept settled_env settled_database" by (simp add: schemas_kept_def settled_fields)
  show "extensions_kept settled_env settled_database"
    by (simp add: extensions_kept_def settled_fields settled_extensions_def given_def)
  show "nothing_left_over settled_env settled_object settled_database"
    by (simp add: nothing_left_over_def settled_fields settled_extensions_def)
qed

lemma settled_settled: "database_settled settled_env settled_object settled_database"
proof -
  have parsed: "parse_database_spec (do_spec settled_object) = Inr settled_spec" by code_simp
  have names: "resolve_database_name (\<lambda>t. replicate 64 CHR ''0'') settled_spec (do_name settled_object) = Inr ''orders''"
      "resolve_role_names (\<lambda>t. replicate 64 CHR ''0'') settled_spec ''orders'' (is_role_prefix sample_instance) = Inr (yd_roles settled_database)"
    by code_simp+
  have load: "gives settled_env (\<lambda>(sp, g). sp = sample_instance) (load_instance_spec ''main'' ''team-a'')"
    using sample_instance_accepted
    by (simp add: gives_def load_instance_spec_def get_instance_def rename_not_found_def k8s_ask_def run_simps permits_namespace_def
        sample_instance_def)
  have at: "gives settled_env (\<lambda>i. ri_spec i = sample_instance) (resolve_instance ''main'' ''team-a'')"
    unfolding resolve_instance_def
    by (intro gives_bindI [OF load]) (auto intro!: gives_bindI [OF gives_True] gives_ret gives_raise split: option.split)
  show ?thesis
    unfolding database_settled_def settled_fields settled_sha
    using parsed names settled_found by (auto intro!: gives_mono [OF at])
qed

theorem converged_database_only_restated_witness: "emits settled_env declares (reconcile_database settled_object)"
  using converged_database_only_restated [OF settled_settled] by (rule conjunct1)

end
