(* ===== verification/Locks.thy ===== *)
theory Locks
  imports Prelude
begin

text \<open>
  \<open>ResourceLocks\<close> of \<open>reconcile/context.py\<close>: one lock object per resource, reference-counted, so that at
  most one pass works on a resource at a time. \<open>hold\<close> runs without suspension up to the acquisition of the
  lock, and from its release to the end; the state changes at those points are the steps below. A task is
  outside, waiting, or inside; cancelling a waiting task leaves through the same \<open>finally\<close>. That an
  \<open>asyncio.Lock\<close> is acquired only while it is free is the one fact taken from the library.
\<close>

type_synonym lock_key = "string \<times> string \<times> string"

record 'k lock_state =
  ls_table :: "'k \<rightharpoonup> nat \<times> nat"                    \<comment> \<open>the lock object and the number of holders\<close>
  ls_fresh :: nat                                \<comment> \<open>the next lock object to be created\<close>
  ls_locked :: "nat set"
  ls_tasks :: "nat \<rightharpoonup> 'k \<times> nat \<times> bool"              \<comment> \<open>key, lock object, inside?\<close>

definition no_locks :: "'k lock_state" where
  "no_locks = \<lparr>ls_table = Map.empty, ls_fresh = 0, ls_locked = {}, ls_tasks = Map.empty\<rparr>"

definition lock_key_of :: "string \<Rightarrow> string option \<Rightarrow> string \<Rightarrow> lock_key" where
  "lock_key_of kind namespace name = (kind, (case namespace of Some n \<Rightarrow> n | None \<Rightarrow> []), name)"

text \<open>\<open>self._locks.get(key) or (asyncio.Lock(), 0)\<close>\<close>

definition entry_for :: "'k \<Rightarrow> 'k lock_state \<Rightarrow> nat \<times> nat" where
  "entry_for key s = (case ls_table s key of Some p \<Rightarrow> p | None \<Rightarrow> (ls_fresh s, 0))"

definition enter :: "nat \<Rightarrow> 'k \<Rightarrow> 'k lock_state \<Rightarrow> 'k lock_state" where
  "enter t key s =
     (case entry_for key s of (l, holders) \<Rightarrow>
        s\<lparr>ls_table := (ls_table s)(key \<mapsto> (l, holders + 1)), ls_fresh := max (ls_fresh s) (l + 1),
          ls_tasks := (ls_tasks s)(t \<mapsto> (key, l, False))\<rparr>)"

definition acquire :: "nat \<Rightarrow> 'k lock_state \<Rightarrow> 'k lock_state" where
  "acquire t s = (case ls_tasks s t of
      Some (key, l, _) \<Rightarrow> s\<lparr>ls_locked := insert l (ls_locked s), ls_tasks := (ls_tasks s)(t \<mapsto> (key, l, True))\<rparr>
    | None \<Rightarrow> s)"

text \<open>The \<open>finally\<close> block: the entry goes with its last holder.\<close>

definition forget :: "'k \<Rightarrow> ('k \<rightharpoonup> nat \<times> nat) \<Rightarrow> ('k \<rightharpoonup> nat \<times> nat)" where
  "forget key table = (case table key of
      Some (l, holders) \<Rightarrow> if holders \<le> 1 then table(key := None) else table(key \<mapsto> (l, holders - 1))
    | None \<Rightarrow> table)"

definition leave :: "nat \<Rightarrow> 'k lock_state \<Rightarrow> 'k lock_state" where
  "leave t s = (case ls_tasks s t of
      Some (key, l, inside) \<Rightarrow>
        s\<lparr>ls_locked := (if inside then ls_locked s - {l} else ls_locked s),
          ls_table := forget key (ls_table s), ls_tasks := (ls_tasks s)(t := None)\<rparr>
    | None \<Rightarrow> s)"

definition is_held :: "'k lock_state \<Rightarrow> 'k \<Rightarrow> bool" where
  "is_held s key = (case ls_table s key of Some (l, _) \<Rightarrow> l \<in> ls_locked s | None \<Rightarrow> False)"

inductive lock_step :: "'k lock_state \<Rightarrow> 'k lock_state \<Rightarrow> bool" where
  step_enter: "ls_tasks s t = None \<Longrightarrow> lock_step s (enter t key s)"
| step_acquire: "ls_tasks s t = Some (key, l, False) \<Longrightarrow> l \<notin> ls_locked s \<Longrightarrow> lock_step s (acquire t s)"
| step_leave: "ls_tasks s t = Some (key, l, inside) \<Longrightarrow> lock_step s (leave t s)"

inductive_cases lock_stepE: "lock_step s s'"

inductive reachable_locks :: "'k lock_state \<Rightarrow> bool" where
  locks_start: "reachable_locks no_locks"
| locks_step: "reachable_locks s \<Longrightarrow> lock_step s s' \<Longrightarrow> reachable_locks s'"

section \<open>The invariant\<close>

definition present :: "'k lock_state \<Rightarrow> 'k \<Rightarrow> nat set" where
  "present s key = {t. \<exists>l i. ls_tasks s t = Some (key, l, i)}"

text \<open>The count of an entry is the number of tasks that hold or await it; no entry, no task.\<close>

definition counts_ok :: "'k lock_state \<Rightarrow> bool" where
  "counts_ok s \<longleftrightarrow> (\<forall>key. finite (present s key) \<and>
     (case ls_table s key of None \<Rightarrow> present s key = {} | Some (l, n) \<Rightarrow> n = card (present s key) \<and> n \<noteq> 0))"

text \<open>Every task uses the lock object of its key, and no two keys share one.\<close>

definition objects_ok :: "'k lock_state \<Rightarrow> bool" where
  "objects_ok s \<longleftrightarrow>
     (\<forall>t key l i. ls_tasks s t = Some (key, l, i) \<longrightarrow> (\<exists>n. ls_table s key = Some (l, n))) \<and>
     (\<forall>k l n. ls_table s k = Some (l, n) \<longrightarrow> l < ls_fresh s) \<and>
     (\<forall>k k' l n n'. ls_table s k = Some (l, n) \<longrightarrow> ls_table s k' = Some (l, n') \<longrightarrow> k = k')"

text \<open>The tasks inside, with their lock objects: these objects are the locked ones, one task each.\<close>

definition inside_tasks :: "'k lock_state \<Rightarrow> (nat \<times> nat) set" where
  "inside_tasks s = {(t, l). \<exists>key. ls_tasks s t = Some (key, l, True)}"

definition locked_ok :: "'k lock_state \<Rightarrow> bool" where
  "locked_ok s \<longleftrightarrow> ls_locked s = snd ` inside_tasks s \<and> inj_on snd (inside_tasks s)"

definition lock_inv :: "'k lock_state \<Rightarrow> bool" where
  "lock_inv s \<longleftrightarrow> counts_ok s \<and> objects_ok s \<and> locked_ok s"

lemmas lock_inv_defs = lock_inv_def counts_ok_def objects_ok_def locked_ok_def

lemma inv_start: "lock_inv no_locks"
  by (simp add: lock_inv_defs no_locks_def present_def inside_tasks_def)

lemma present_enter:
  "ls_tasks s t = None \<Longrightarrow> present (enter t key s) k = (if k = key then insert t (present s k) else present s k)"
  by (auto simp: enter_def present_def split: prod.splits)

lemma present_leave: "present (leave t s) k = present s k - {t}"
  by (auto simp: leave_def present_def split: option.splits if_splits)

lemma present_acquire: "present (acquire t s) k = present s k"
  by (auto simp: acquire_def present_def split: option.splits if_splits)

lemma objects_okI:
  "(\<And>t key l i. ls_tasks s t = Some (key, l, i) \<Longrightarrow> \<exists>n. ls_table s key = Some (l, n)) \<Longrightarrow>
   (\<And>k l n. ls_table s k = Some (l, n) \<Longrightarrow> l < ls_fresh s) \<Longrightarrow>
   (\<And>k k' l n n'. ls_table s k = Some (l, n) \<Longrightarrow> ls_table s k' = Some (l, n') \<Longrightarrow> k = k') \<Longrightarrow> objects_ok s"
  unfolding objects_ok_def by blast

lemma objects_okD:
  "objects_ok s \<Longrightarrow> ls_tasks s t = Some (key, l, i) \<Longrightarrow> \<exists>n. ls_table s key = Some (l, n)"
  "objects_ok s \<Longrightarrow> ls_table s k = Some (l, n) \<Longrightarrow> l < ls_fresh s"
  "objects_ok s \<Longrightarrow> ls_table s k = Some (l, n) \<Longrightarrow> ls_table s k' = Some (l, n') \<Longrightarrow> k = k'"
  unfolding objects_ok_def by blast+

lemma counts_okD:
  "counts_ok s \<Longrightarrow> finite (present s key)" "counts_ok s \<Longrightarrow> ls_table s key = None \<Longrightarrow> present s key = {}"
  "counts_ok s \<Longrightarrow> ls_table s key = Some (l, n) \<Longrightarrow> n = card (present s key) \<and> 0 < n"
  unfolding counts_ok_def by (auto dest: spec [of _ key])

lemma inv_enter:
  assumes inv: "lock_inv s" and t: "ls_tasks s t = None"
  shows "lock_inv (enter t key s)"
proof -
  have new: "t \<notin> present s key" using t by (simp add: present_def)
  obtain l n where e: "entry_for key s = (l, n)" by (cases "entry_for key s")
  have l: "ls_table s key = Some (l, n) \<or> (ls_table s key = None \<and> l = ls_fresh s \<and> n = 0)"
    using e by (cases "ls_table s key") (auto simp: entry_for_def)
  have own: "ls_table s k = Some (l, n') \<Longrightarrow> k = key" for k n'
    using l inv unfolding lock_inv_def objects_ok_def by (metis less_irrefl)
  have "counts_ok (enter t key s)"
    unfolding counts_ok_def present_enter [OF t]
  proof (intro allI)
    fix k
    have c: "counts_ok s" using inv by (simp add: lock_inv_def)
    note C = counts_okD [OF c]
    show "finite (if k = key then insert t (present s k) else present s k) \<and>
        (case ls_table (enter t key s) k of
          None \<Rightarrow> (if k = key then insert t (present s k) else present s k) = {}
        | Some (l, n) \<Rightarrow> n = card (if k = key then insert t (present s k) else present s k) \<and> n \<noteq> 0)"
      using C(1) [of k] C(2) [of k] C(3) [of k] l e new by (auto simp: enter_def split: option.splits)
  qed
  moreover have "objects_ok (enter t key s)"
  proof (rule objects_okI)
    have o: "objects_ok s" using inv by (simp add: lock_inv_def)
    have tab: "ls_table (enter t key s) k = (if k = key then Some (l, n + 1) else ls_table s k)" for k
      using e by (simp add: enter_def)
    have lt: "l' < ls_fresh (enter t key s)" if "l' = l \<or> l' < ls_fresh s" for l'
      using that e by (auto simp: enter_def)
    show "\<exists>m. ls_table (enter t key s) k = Some (l', m)" if "ls_tasks (enter t key s) t' = Some (k, l', i)" for t' k l' i
    proof (cases "t' = t")
      case True
      with that e show ?thesis by (simp add: enter_def)
    next
      case False
      with that e have "ls_tasks s t' = Some (k, l', i)" by (simp add: enter_def)
      from objects_okD(1) [OF o this] l show ?thesis by (auto simp: tab)
    qed
    show "l' < ls_fresh (enter t key s)" if "ls_table (enter t key s) k = Some (l', m)" for k l' m
      using that objects_okD(2) [OF o] by (intro lt) (auto simp: tab split: if_splits)
    show "k = k'" if "ls_table (enter t key s) k = Some (l', m)" "ls_table (enter t key s) k' = Some (l', m')" for k k' l' m m'
      using that own objects_okD(3) [OF o] by (auto simp: tab split: if_splits)
  qed
  moreover have "locked_ok (enter t key s)"
  proof -
    have "inside_tasks (enter t key s) = inside_tasks s"
      using t e by (auto simp: inside_tasks_def enter_def split: if_splits)
    then show ?thesis using inv e by (simp add: lock_inv_def locked_ok_def enter_def)
  qed
  ultimately show ?thesis by (simp add: lock_inv_def)
qed

lemma inv_acquire:
  assumes "lock_inv s" "ls_tasks s t = Some (key, l, False)" "l \<notin> ls_locked s"
  shows "lock_inv (acquire t s)"
proof -
  have "counts_ok (acquire t s)"
    unfolding counts_ok_def present_acquire using assms(1,2)
    by (auto simp: lock_inv_def counts_ok_def acquire_def)
  moreover have "objects_ok (acquire t s)"
  proof (rule objects_okI)
    have o: "objects_ok s" using assms(1) by (simp add: lock_inv_def)
    note O = objects_okD [OF o]
    show "\<exists>m. ls_table (acquire t s) k = Some (l', m)" if "ls_tasks (acquire t s) t' = Some (k, l', i)" for t' k l' i
      using that assms(2) O(1) [OF assms(2)] O(1) [of t' k l'] by (auto simp: acquire_def split: if_splits)
    show "l' < ls_fresh (acquire t s)" if "ls_table (acquire t s) k = Some (l', m)" for k l' m
      using that assms(2) O(2) by (simp add: acquire_def)
    show "k = k'" if "ls_table (acquire t s) k = Some (l', m)" "ls_table (acquire t s) k' = Some (l', m')" for k k' l' m m'
      using that assms(2) O(3) by (simp add: acquire_def)
  qed
  moreover have "locked_ok (acquire t s)"
  proof -
    have "inside_tasks (acquire t s) = insert (t, l) (inside_tasks s)"
      using assms(2) by (auto simp: inside_tasks_def acquire_def split: if_splits)
    then show ?thesis using assms by (auto simp: lock_inv_def locked_ok_def acquire_def inj_on_def)
  qed
  ultimately show ?thesis by (simp add: lock_inv_def)
qed

lemma inv_leave:
  assumes inv: "lock_inv s" and t: "ls_tasks s t = Some (key, l, inside)"
  shows "lock_inv (leave t s)"
proof -
  have c: "counts_ok s" using inv by (simp add: lock_inv_def)
  note C = counts_okD [OF c]
  obtain n where n: "ls_table s key = Some (l, n)"
    using inv t unfolding lock_inv_def objects_ok_def by blast
  have tin: "t \<in> present s key" using t by (auto simp: present_def)
  have nt: "t \<notin> present s k" if "k \<noteq> key" for k using t that by (auto simp: present_def)
  have tab: "ls_table (leave t s) k = (if k = key then (if n \<le> 1 then None else Some (l, n - 1)) else ls_table s k)" for k
    using t n by (simp add: leave_def forget_def)
  have counts: "counts_ok (leave t s)"
    unfolding counts_ok_def present_leave
  proof (intro allI)
    fix k
    show "finite (present s k - {t}) \<and> (case ls_table (leave t s) k of None \<Rightarrow> present s k - {t} = {}
       | Some (l, n) \<Rightarrow> n = card (present s k - {t}) \<and> n \<noteq> 0)"
    proof (cases "k = key")
      case True
      have "n = Suc (card (present s key - {t}))"
        using C(1,3) [of key] n tin by (metis card_Suc_Diff1)
      then show ?thesis using True C(1) [of key] by (auto simp: tab card_eq_0_iff)
    next
      case False
      then show ?thesis using nt [OF False] C(1) [of k] C(2) [of k] C(3) [of k] by (auto simp: tab split: option.splits)
    qed
  qed
  have others: "1 < n" if "ls_tasks s t' = Some (key, l', i)" "t' \<noteq> t" for t' l' i
  proof -
    have "t' \<in> present s key" using that by (auto simp: present_def)
    then have "{t, t'} \<subseteq> present s key" using tin by simp
    then have "card {t, t'} \<le> card (present s key)" using C(1) by (rule card_mono [rotated])
    with that C(3) [OF n] show ?thesis by simp
  qed
  have tasks: "ls_tasks (leave t s) t' = (if t' = t then None else ls_tasks s t')" for t'
    using t by (simp add: leave_def)
  have fresh: "ls_fresh (leave t s) = ls_fresh s" using t by (simp add: leave_def)
  have "objects_ok (leave t s)"
  proof (rule objects_okI)
    have o: "objects_ok s" using inv by (simp add: lock_inv_def)
    note O = objects_okD [OF o]
    show "\<exists>m. ls_table (leave t s) k = Some (l', m)" if "ls_tasks (leave t s) t' = Some (k, l', i)" for t' k l' i
    proof -
      from that have t': "t' \<noteq> t" "ls_tasks s t' = Some (k, l', i)" by (auto simp: tasks split: if_splits)
      from O(1) [OF t'(2)] show ?thesis using others [of t' l' i] t' n by (auto simp: tab)
    qed
    show "l' < ls_fresh (leave t s)" if "ls_table (leave t s) k = Some (l', m)" for k l' m
      using that n O(2) by (auto simp: tab fresh split: if_splits)
    show "k = k'" if "ls_table (leave t s) k = Some (l', m)" "ls_table (leave t s) k' = Some (l', m')" for k k' l' m m'
      using that n O(3) by (auto simp: tab split: if_splits)
  qed
  moreover have "locked_ok (leave t s)"
  proof -
    have "inside_tasks (leave t s) = {p \<in> inside_tasks s. fst p \<noteq> t}"
      using t by (auto simp: inside_tasks_def leave_def split: if_splits)
    moreover have mem: "(t, l') \<in> inside_tasks s \<longleftrightarrow> inside \<and> l' = l" for l'
      using t by (auto simp: inside_tasks_def)
    moreover have "a = t" if "(a, l) \<in> inside_tasks s" inside for a
      using inv that mem [of l] unfolding lock_inv_def locked_ok_def inj_on_def by fastforce
    ultimately show ?thesis
      using inv t by (auto simp: lock_inv_def locked_ok_def leave_def inj_on_def image_iff)
  qed
  ultimately show ?thesis using counts by (simp add: lock_inv_def)
qed

lemma reachable_inv: "reachable_locks s \<Longrightarrow> lock_inv s"
proof (induction rule: reachable_locks.induct)
  case (locks_step s s')
  from locks_step.hyps(2) locks_step.IH show ?case
    by (auto elim!: lock_stepE intro: inv_enter inv_acquire inv_leave)
qed (rule inv_start)

text \<open>
  C16. At most one pass per resource: in every reachable state two tasks inside the lock of one resource
  are the same task; the lock reads as held exactly while a task is inside; and the table has an entry for
  exactly the resources some task holds or awaits, so it does not grow.
\<close>

theorem resource_locks_exclusive:
  assumes "reachable_locks s"
  shows "(\<forall>t t' l l'. ls_tasks s t = Some (key, l, True) \<longrightarrow> ls_tasks s t' = Some (key, l', True) \<longrightarrow> t = t') \<and>
    (is_held s key \<longleftrightarrow> (\<exists>t l. ls_tasks s t = Some (key, l, True))) \<and>
    (ls_table s key \<noteq> None \<longleftrightarrow> present s key \<noteq> {})"
proof -
  have inv: "counts_ok s" "objects_ok s" "locked_ok s"
    using reachable_inv [OF assms] by (simp_all add: lock_inv_def)
  have obj: "\<exists>n. ls_table s k = Some (l, n)" if "ls_tasks s t = Some (k, l, i)" for t k l i
    using inv(2) that unfolding objects_ok_def by blast
  have uniq: "k = key" if "ls_table s k = Some (l, n)" "ls_table s key = Some (l, n')" for k l n n'
    using inv(2) that unfolding objects_ok_def by blast
  have "t = t'" if "ls_tasks s t = Some (key, l, True)" "ls_tasks s t' = Some (key, l', True)" for t t' l l'
  proof -
    have "l = l'" using obj [OF that(1)] obj [OF that(2)] by auto
    moreover have "(t, l) \<in> inside_tasks s" "(t', l') \<in> inside_tasks s" using that by (auto simp: inside_tasks_def)
    ultimately show ?thesis using inv(3) unfolding locked_ok_def inj_on_def by fastforce
  qed
  moreover have "is_held s key \<longleftrightarrow> (\<exists>t l. ls_tasks s t = Some (key, l, True))"
  proof
    assume "is_held s key"
    then obtain l n where l: "ls_table s key = Some (l, n)" "l \<in> ls_locked s"
      by (auto simp: is_held_def split: option.splits)
    then obtain t k where t: "ls_tasks s t = Some (k, l, True)"
      using inv(3) unfolding locked_ok_def inside_tasks_def by auto
    with obj [OF t] uniq l(1) show "\<exists>t l. ls_tasks s t = Some (key, l, True)" by blast
  next
    assume "\<exists>t l. ls_tasks s t = Some (key, l, True)"
    then obtain t l where t: "ls_tasks s t = Some (key, l, True)" by blast
    then have "(t, l) \<in> inside_tasks s" by (auto simp: inside_tasks_def)
    then have "l \<in> ls_locked s" using inv(3) unfolding locked_ok_def by force
    with obj [OF t] show "is_held s key" by (auto simp: is_held_def)
  qed
  moreover have "ls_table s key \<noteq> None \<longleftrightarrow> present s key \<noteq> {}"
    using counts_okD(2) [OF inv(1), of key] counts_okD(3) [OF inv(1), of key]
    by (cases "ls_table s key") auto
  ultimately show ?thesis by blast
qed

text \<open>Two tasks on one resource and one on another, the second waiting for the first.\<close>

definition sample_locks :: "string lock_state" where
  "sample_locks = enter 3 ''b'' (enter 2 ''a'' (acquire 1 (enter 1 ''a'' no_locks)))"

lemma sample_locks_reachable: "reachable_locks sample_locks"
proof -
  let ?a = "enter 1 ''a'' no_locks" let ?b = "acquire 1 ?a" let ?c = "enter 2 ''a'' ?b"
  note defs = enter_def acquire_def entry_for_def no_locks_def
  have "reachable_locks ?a"
    by (rule locks_step [OF locks_start step_enter]) (simp add: defs)
  then have "reachable_locks ?b"
    by (rule locks_step [OF _ step_acquire [where key = "''a''" and l = 0]]) (simp_all add: defs)
  then have "reachable_locks ?c"
    by (rule locks_step [OF _ step_enter]) (simp add: defs)
  then show ?thesis
    unfolding sample_locks_def by (rule locks_step [OF _ step_enter]) (simp add: defs)
qed

theorem resource_locks_exclusive_witness:
  "is_held sample_locks ''a'' \<and> present sample_locks ''a'' \<noteq> {} \<and> (\<exists>t l. ls_tasks sample_locks t = Some (''a'', l, True))"
proof -
  have "is_held sample_locks ''a''" "ls_table sample_locks ''a'' \<noteq> None"
    by (simp_all add: sample_locks_def enter_def acquire_def entry_for_def no_locks_def is_held_def)
  with resource_locks_exclusive [OF sample_locks_reachable, of "''a''"] show ?thesis by blast
qed

section \<open>No waiter is left behind\<close>

lemma acquire_held:
  assumes "reachable_locks u" "ls_tasks u t = Some (key, l, False)"
  shows "is_held (acquire t u) key"
proof -
  have "objects_ok u" using reachable_inv [OF assms(1)] by (simp add: lock_inv_def)
  from objects_okD(1) [OF this assms(2)] show ?thesis using assms(2) by (auto simp: is_held_def acquire_def)
qed

text \<open>
  C19. Progress. A task that waits for a resource can always get in: when the resource is free it may enter now, and
  when it is held, exactly one task works on it and as soon as that one leaves the waiting task may enter. So no
  waiter is stuck on a lock object that the table has already replaced, and no cycle of waiting exists.
\<close>

theorem waiting_task_progresses:
  assumes "reachable_locks s" "ls_tasks s t = Some (key, l, False)"
  shows "if is_held s key
    then \<exists>t'. t' \<noteq> t \<and> ls_tasks s t' = Some (key, l, True) \<and> lock_step s (leave t' s) \<and>
       lock_step (leave t' s) (acquire t (leave t' s)) \<and> is_held (acquire t (leave t' s)) key
    else lock_step s (acquire t s) \<and> is_held (acquire t s) key"
proof -
  have inv: "objects_ok s" "locked_ok s" using reachable_inv [OF assms(1)] by (simp_all add: lock_inv_def)
  obtain n where n: "ls_table s key = Some (l, n)" using objects_okD(1) [OF inv(1) assms(2)] by blast
  show ?thesis
  proof (cases "l \<in> ls_locked s")
    case False
    then show ?thesis using step_acquire [OF assms(2)] acquire_held [OF assms] n by (simp add: is_held_def)
  next
    case True
    then obtain t' k where t': "ls_tasks s t' = Some (k, l, True)"
      using inv(2) unfolding locked_ok_def inside_tasks_def by auto
    have "k = key" using objects_okD(1) [OF inv(1) t'] objects_okD(3) [OF inv(1) _ n] by blast
    have other: "t' \<noteq> t" using t' assms(2) by auto
    let ?u = "leave t' s"
    have step: "lock_step s ?u" by (rule step_leave [OF t'])
    have u: "ls_tasks ?u t = Some (key, l, False)" "l \<notin> ls_locked ?u"
      using t' assms(2) other by (simp_all add: leave_def)
    have "is_held s key" using True n by (simp add: is_held_def)
    then show ?thesis
      using other t' \<open>k = key\<close> step step_acquire [OF u] acquire_held [OF locks_step [OF assms(1) step] u(1)] by auto
  qed
qed

theorem waiting_task_progresses_witness:
  "\<exists>t'. t' \<noteq> 2 \<and> ls_tasks sample_locks t' = Some (''a'', 0, True) \<and>
     lock_step (leave t' sample_locks) (acquire 2 (leave t' sample_locks)) \<and> is_held (acquire 2 (leave t' sample_locks)) ''a''"
proof -
  have s: "ls_tasks sample_locks 2 = Some (''a'', 0, False)" "is_held sample_locks ''a''"
    by (simp_all add: sample_locks_def enter_def acquire_def entry_for_def no_locks_def is_held_def)
  show ?thesis using waiting_task_progresses [OF sample_locks_reachable s(1)] s(2) by auto
qed

end
