(* ===== verification/Process.thy ===== *)
theory Process
  imports Config ApiStore
begin

text \<open>
  The life of the two processes: \<open>__main__.py\<close>, \<open>logging_setup.py\<close>, \<open>handlers/startup.py\<close> and the context holder of
  \<open>reconcile/context.py\<close> for the operator, \<open>api/main.py\<close> and \<open>api/__main__.py\<close> for the API. The process is a record, each
  hook a function of it, and what may happen to it between start and stop a step relation. The lemmas say which settings
  a process runs under, when handlers have a context, what the liveness probe answers and what a stop leaves behind.
\<close>

section \<open>Logging\<close>

datatype log_format = Json_Lines | Console_Lines

record logging =
  lg_configured :: bool
  lg_handlers :: "log_format list"
  lg_root_level :: int
  lg_levels :: "(string \<times> int) list"

definition DEBUG :: int where "DEBUG = 10"
definition INFO :: int where "INFO = 20"
definition WARNING :: int where "WARNING = 30"

definition QUIET_LOGGERS :: "string list" where
  "QUIET_LOGGERS = [''kubernetes_asyncio.client.rest'', ''urllib3.connectionpool'', ''asyncio'']"

definition KOPF_INTERNAL_ATTRS :: "string list" where
  "KOPF_INTERNAL_ATTRS = [''settings'', ''k8s_ref'', ''k8s_skip'']"

text \<open>
  \<open>setLevel(getattr(logging, level.upper(), logging.INFO))\<close>. The attributes of the module in upper case are the levels, and a text and
  a table that \<open>setLevel\<close> refuses.
\<close>

definition logging_level :: "string \<Rightarrow> int res" where
  "logging_level level =
     (let name = map upper_char level
      in if name \<in> {''CRITICAL'', ''FATAL''} then Inr 50
         else if name = ''ERROR'' then Inr 40
         else if name \<in> {''WARNING'', ''WARN''} then Inr WARNING
         else if name = ''INFO'' then Inr INFO
         else if name = ''DEBUG'' then Inr DEBUG
         else if name = ''NOTSET'' then Inr 0
         else if name = ''BASIC_FORMAT'' then raise_r Value_Error (''Unknown level'')
         else if name = ''_STYLES'' then raise_r (Other_Exception ''TypeError'') (''Level not an integer or a valid string'')
         else Inr INFO)"

text \<open>The first call decides; it installs the handler before it looks at the level.\<close>

definition configure_logging :: "string \<Rightarrow> string \<Rightarrow> logging \<Rightarrow> unit res \<times> logging" where
  "configure_logging level fmt lg =
     (if lg_configured lg then (Inr (), lg)
      else let lg = lg\<lparr>lg_handlers := [if fmt = ''json'' then Json_Lines else Console_Lines]\<rparr>
           in case logging_level level of
                Inl e \<Rightarrow> (Inl e, lg)
              | Inr n \<Rightarrow> (Inr (), lg\<lparr>lg_root_level := n,
                  lg_levels := dupdate (lg_levels lg) (map (\<lambda>name. (name, WARNING)) QUIET_LOGGERS), lg_configured := True\<rparr>))"

text \<open>
  \<open>_json_default\<close>: what the library's encoder cannot turn into JSON is shown as its \<open>repr\<close>; both are parameters. And
  what \<open>JsonFormatter\<close> is made with: three attributes of a record are renamed, those of the library and of kopf left out.
\<close>

definition json_default :: "('a \<Rightarrow> json res) \<Rightarrow> ('a \<Rightarrow> string) \<Rightarrow> 'a \<Rightarrow> json" where
  "json_default encode repr_of obj = (case encode obj of Inr j \<Rightarrow> j | Inl e \<Rightarrow> J_Str (repr_of obj))"

record json_format =
  jf_format :: string
  jf_style :: string
  jf_rename_fields :: "(string \<times> string) list"
  jf_reserved_attrs :: "string list"
  jf_timestamp :: bool

definition json_formatter :: "string list \<Rightarrow> json_format" where
  "json_formatter library_reserved = \<lparr>jf_format = ''{levelname}{name}{message}'', jf_style = ''{'',
     jf_rename_fields = [(''levelname'', ''level''), (''name'', ''logger''), (''message'', ''msg'')],
     jf_reserved_attrs = library_reserved @ KOPF_INTERNAL_ATTRS, jf_timestamp = True\<rparr>"

text \<open>\<open>_log_notice\<close>: the level and the text of the line a server notice becomes.\<close>

definition log_notice :: "string option \<Rightarrow> string option \<Rightarrow> string option \<Rightarrow> (int \<times> string) option" where
  "log_notice severity_nonlocalized severity message_primary =
     (let severity = map upper_char (or_text severity_nonlocalized (or_text severity []));
          message = py_strip (or_text message_primary [])
      in if message = [] then None
         else Some (if severity \<in> {''WARNING'', ''ERROR'', ''FATAL'', ''PANIC''} then WARNING else DEBUG,
           ''postgres '' @ py_lower severity @ '': '' @ message))"

section \<open>The context\<close>

text \<open>Where the client of the Kubernetes API found its configuration.\<close>

datatype k8s_client = In_Cluster | Local_Config

datatype config_load = Loaded | No_Config | Load_Broken err

definition create_client :: "config_load \<Rightarrow> err option \<Rightarrow> k8s_client res" where
  "create_client incluster kubeconfig = (case incluster of
      Loaded \<Rightarrow> Inr In_Cluster
    | No_Config \<Rightarrow> (case kubeconfig of None \<Rightarrow> Inr Local_Config | Some e \<Rightarrow> Inl e)
    | Load_Broken e \<Rightarrow> Inl e)"

text \<open>\<open>ReconcileContext\<close>: a new one has no pools. Its locks and its cache have theories of their own.\<close>

record context_obj =
  cx_client :: k8s_client
  cx_settings :: settings
  cx_pools :: "(string \<times> string) list"

definition new_context :: "k8s_client \<Rightarrow> settings \<Rightarrow> context_obj" where
  "new_context k8s cfg = \<lparr>cx_client = k8s, cx_settings = cfg, cx_pools = []\<rparr>"

text \<open>What the startup handler sets in kopf.\<close>

record kopf_settings =
  ks_finalizer :: string
  ks_progress_prefix :: string
  ks_diffbase_prefix :: string
  ks_diffbase_key :: string
  ks_worker_limit :: int
  ks_idle_timeout :: int
  ks_batch_window :: int
  ks_max_workers :: int
  ks_connect_timeout :: int
  ks_server_timeout :: int
  ks_client_timeout :: int
  ks_posting_level :: int

definition FINALIZER :: string where
  "FINALIZER = ''postgres.ourcommunity.com.au/finalizer''"

definition operator_settings :: "settings \<Rightarrow> kopf_settings" where
  "operator_settings cfg = \<lparr>ks_finalizer = FINALIZER, ks_progress_prefix = ''postgres.ourcommunity.com.au'',
     ks_diffbase_prefix = ''postgres.ourcommunity.com.au'', ks_diffbase_key = ''last-handled-configuration'',
     ks_worker_limit = 8, ks_idle_timeout = cf_reconcile_idle cfg, ks_batch_window = 1, ks_max_workers = 8,
     ks_connect_timeout = 60, ks_server_timeout = 600, ks_client_timeout = 620, ks_posting_level = INFO\<rparr>"

section \<open>The operator process\<close>

record process =
  ps_settings :: "settings option"               \<comment> \<open>what \<open>get_settings\<close> has cached\<close>
  ps_logging :: logging
  ps_kopf :: "kopf_settings option"
  ps_context :: "context_obj option"              \<comment> \<open>the holder\<close>
  ps_metrics :: "int option"                     \<comment> \<open>the port metrics are served on\<close>
  ps_log :: "string list"

definition new_process :: process where
  "new_process = \<lparr>ps_settings = None, ps_logging = \<lparr>lg_configured = False, lg_handlers = [], lg_root_level = WARNING, lg_levels = []\<rparr>,
     ps_kopf = None, ps_context = None, ps_metrics = None, ps_log = []\<rparr>"

text \<open>\<open>get_settings\<close>: the environment is read once.\<close>

definition get_settings :: "environ \<Rightarrow> process \<Rightarrow> settings \<times> process" where
  "get_settings environ p = (case ps_settings p of
      Some cfg \<Rightarrow> (cfg, p)
    | None \<Rightarrow> (from_env environ, p\<lparr>ps_settings := Some (from_env environ)\<rparr>))"

definition holder_get :: "process \<Rightarrow> context_obj res" where
  "holder_get p = (case ps_context p of
      None \<Rightarrow> raise_r ConnectionFailure (''reconcile context is not initialised; the operator startup '' @ ''handler has not run'')
    | Some c \<Rightarrow> Inr c)"

definition holder_set :: "context_obj \<Rightarrow> process \<Rightarrow> process" where
  "holder_set c p = p\<lparr>ps_context := Some c\<rparr>"

definition holder_clear :: "process \<Rightarrow> process" where
  "holder_clear p = p\<lparr>ps_context := None\<rparr>"

definition said :: "string \<Rightarrow> process \<Rightarrow> process" where
  "said line p = p\<lparr>ps_log := ps_log p @ [line]\<rparr>"

definition ready_line :: "settings \<Rightarrow> string" where
  "ready_line cfg =
     (let scope = (if cf_watch_namespaces cfg \<noteq> [] then join_with '', '' (cf_watch_namespaces cfg) else ''all namespaces'')
      in ''pg-operator ready (scope: '' @ scope @ '', reconcile interval: '' @ show_int (cf_reconcile_interval cfg) @ ''s, PushSecret: '' @
         (if cf_pushsecret_enabled cfg then cf_pushsecret_api_version cfg else ''disabled'') @ '')'')"

text \<open>
  The startup handler. What may fail outside are the configuration of the client (\<open>incluster\<close>, \<open>kubeconfig\<close>) and the
  server of the metrics (\<open>serving\<close>); what was set before a failure stays set.
\<close>

definition configure :: "environ \<Rightarrow> config_load \<Rightarrow> err option \<Rightarrow> err option \<Rightarrow> process \<Rightarrow> unit res \<times> process" where
  "configure environ incluster kubeconfig serving p =
     (let (cfg, p) = get_settings environ p;
          (done, lg) = configure_logging (cf_log_level cfg) (cf_log_format cfg) (ps_logging p);
          p = p\<lparr>ps_logging := lg\<rparr>
      in case done of
           Inl e \<Rightarrow> (Inl e, p)
         | Inr _ \<Rightarrow>
             let p = p\<lparr>ps_kopf := Some (operator_settings cfg)\<rparr>
             in case create_client incluster kubeconfig of
                  Inl e \<Rightarrow> (Inl e, p)
                | Inr k8s \<Rightarrow>
                    let p = holder_set (new_context k8s cfg) p
                    in if cf_metrics_enabled cfg
                       then (case serving of
                           Some e \<Rightarrow> (Inl e, p)
                         | None \<Rightarrow> (Inr (), said (ready_line cfg) (said (''serving Prometheus metrics on :'' @
                             show_int (cf_metrics_port cfg) @ ''/metrics'') (p\<lparr>ps_metrics := Some (cf_metrics_port cfg)\<rparr>))))
                       else (Inr (), said (ready_line cfg) p))"

text \<open>\<open>ReconcileContext.close\<close> never fails; closing the client may.\<close>

definition close_context :: "context_obj \<Rightarrow> context_obj" where
  "close_context c = c\<lparr>cx_pools := []\<rparr>"

definition shutdown :: "err option \<Rightarrow> process \<Rightarrow> unit res \<times> process" where
  "shutdown closing p = (case holder_get p of
      Inl _ \<Rightarrow> (Inr (), p)
    | Inr c \<Rightarrow>
        let p = holder_set (close_context c) p
        in case closing of
             Some e \<Rightarrow> (Inl e, p)
           | None \<Rightarrow> (Inr (), said ''pg-operator stopped'' (holder_clear p)))"

text \<open>\<open>open_pools\<close>, sorted by instance and then by database.\<close>

definition open_pools :: "context_obj \<Rightarrow> string list" where
  "open_pools c = map (\<lambda>(inst, database). inst @ ''/'' @ database) (sort_key fst (sort_key snd (cx_pools c)))"

definition probe_pools :: "process \<Rightarrow> string list" where
  "probe_pools p = (case holder_get p of Inr c \<Rightarrow> open_pools c | Inl _ \<Rightarrow> [])"

text \<open>\<open>main\<close>: what \<open>kopf.configure\<close> and \<open>kopf.run\<close> are called with.\<close>

record kopf_run =
  kr_verbose :: bool
  kr_log_prefix :: bool
  kr_namespaces :: "string list"
  kr_clusterwide :: bool
  kr_liveness :: string

definition LIVENESS_ENDPOINT :: string where
  "LIVENESS_ENDPOINT = ''http://0.0.0.0:8080/healthz''"

definition main :: "environ \<Rightarrow> process \<Rightarrow> kopf_run res \<times> process" where
  "main environ p =
     (let (cfg, p) = get_settings environ p;
          (done, lg) = configure_logging (cf_log_level cfg) (cf_log_format cfg) (ps_logging p);
          p = p\<lparr>ps_logging := lg\<rparr>
      in case done of
           Inl e \<Rightarrow> (Inl e, p)
         | Inr _ \<Rightarrow> (Inr \<lparr>kr_verbose = (cf_log_level cfg = ''DEBUG''), kr_log_prefix = False, kr_namespaces = cf_watch_namespaces cfg,
             kr_clusterwide = (cf_watch_namespaces cfg = []), kr_liveness = LIVENESS_ENDPOINT\<rparr>, p))"

section \<open>The API process\<close>

definition VERSION :: string where "VERSION = ''0.1.0''"

record cors =
  co_origins :: "string list"
  co_credentials :: bool
  co_methods :: "string list"
  co_headers :: "string list"

datatype router = Health_Routes | Instances_Routes | Databases_Routes | Users_Routes | Replications_Routes | Overview_Routes

record api_app =
  aa_title :: string
  aa_version :: string
  aa_root_path :: string
  aa_docs :: "string list"
  aa_cors :: "cors option"
  aa_routers :: "(string \<times> router) list"

definition create_app :: "settings \<Rightarrow> api_app" where
  "create_app cfg = \<lparr>aa_title = ''pg-operator state API'', aa_version = VERSION, aa_root_path = cf_api_root_path cfg,
     aa_docs = [''/docs'', ''/redoc'', ''/openapi.json''],
     aa_cors = (if cf_api_cors_origins cfg \<noteq> []
       then Some \<lparr>co_origins = cf_api_cors_origins cfg, co_credentials = True, co_methods = [''GET'', ''OPTIONS''], co_headers = [''*'']\<rparr>
       else None),
     aa_routers = [([], Health_Routes), (''/api/v1'', Instances_Routes), (''/api/v1'', Databases_Routes), (''/api/v1'', Users_Routes),
       (''/api/v1'', Replications_Routes), (''/api/v1'', Overview_Routes)]\<rparr>"

text \<open>\<open>operator_error_handler\<close>: an error of the operator's own that a route lets through.\<close>

definition operator_error_handler :: "err \<Rightarrow> nat \<times> json" where
  "operator_error_handler e = (502, J_Obj [(''detail'', J_Str (err_text e))])"

definition root_document :: "(string \<times> string) list" where
  "root_document = [(''name'', ''pg-operator state API''), (''version'', VERSION), (''docs'', ''/docs''), (''overview'', ''/api/v1/overview'')]"

record uvicorn_run =
  uv_host :: string
  uv_port :: int
  uv_access_log :: bool
  uv_proxy_headers :: bool
  uv_forwarded_allow_ips :: string

definition api_main :: "environ \<Rightarrow> process \<Rightarrow> uvicorn_run res \<times> process" where
  "api_main environ p =
     (let (cfg, p) = get_settings environ p;
          (done, lg) = configure_logging (cf_log_level cfg) (cf_log_format cfg) (ps_logging p);
          p = p\<lparr>ps_logging := lg\<rparr>
      in case done of
           Inl e \<Rightarrow> (Inl e, p)
         | Inr _ \<Rightarrow> (Inr \<lparr>uv_host = cf_api_host cfg, uv_port = cf_api_port cfg, uv_access_log = (cf_log_level cfg = ''DEBUG''),
             uv_proxy_headers = True, uv_forwarded_allow_ips = ''*''\<rparr>, p))"

text \<open>\<open>lifespan\<close>: what the app starts with; it stops with \<open>close_provider\<close>.\<close>

definition lifespan :: "environ \<Rightarrow> process \<Rightarrow> (settings \<times> 's provider) res \<times> process" where
  "lifespan environ p =
     (let (cfg, p) = get_settings environ p;
          (done, lg) = configure_logging (cf_log_level cfg) (cf_log_format cfg) (ps_logging p);
          p = p\<lparr>ps_logging := lg\<rparr>
      in case done of
           Inl e \<Rightarrow> (Inl e, p)
         | Inr _ \<Rightarrow> (Inr (cfg, \<lparr>pr_store = None, pr_error = None\<rparr>),
             said (''state API ready (cache TTL: '' @ show_int (cf_api_cache_ttl cfg) @ ''s)'') p))"

section \<open>What may happen to the operator\<close>

text \<open>
  The hooks may run in any order, also again and after failures, with an environment that has changed meanwhile; and a handler may
  open and close pools of the context it gets.
\<close>

inductive process_step :: "process \<Rightarrow> process \<Rightarrow> bool" where
  entered: "process_step p (snd (main environ p))"
| started: "process_step p (snd (configure environ incluster kubeconfig serving p))"
| handled: "holder_get p = Inr c \<Longrightarrow> process_step p (holder_set (c\<lparr>cx_pools := ps\<rparr>) p)"
| stopped: "process_step p (snd (shutdown closing p))"

text \<open>The logging that the settings ask for, and the context they go with.\<close>

definition logs_as_set :: "settings \<Rightarrow> logging \<Rightarrow> bool" where
  "logs_as_set cfg lg \<longleftrightarrow> logging_level (cf_log_level cfg) = Inr (lg_root_level lg) \<and>
     lg_handlers lg = [if cf_log_format cfg = ''json'' then Json_Lines else Console_Lines]"

definition coherent_process :: "process \<Rightarrow> bool" where
  "coherent_process p \<longleftrightarrow> (case ps_settings p of
      None \<Rightarrow> p = new_process
    | Some cfg \<Rightarrow>
        (lg_configured (ps_logging p) \<longrightarrow> logs_as_set cfg (ps_logging p)) \<and>
        (\<forall>c. ps_context p = Some c \<longrightarrow> cx_settings c = cfg \<and> lg_configured (ps_logging p) \<and> ps_kopf p = Some (operator_settings cfg)) \<and>
        (\<forall>port. ps_metrics p = Some port \<longrightarrow> cf_metrics_enabled cfg \<and> port = cf_metrics_port cfg))"

lemma configure_logging_cases:
  assumes "configure_logging (cf_log_level cfg) (cf_log_format cfg) lg = (r, lg')"
  obtains "lg_configured lg" "r = Inr ()" "lg' = lg"
    | e where "\<not> lg_configured lg" "\<not> lg_configured lg'" "r = Inl e"
    | "\<not> lg_configured lg" "lg_configured lg'" "r = Inr ()" "logs_as_set cfg lg'"
  using assms by (auto simp: configure_logging_def Let_def logs_as_set_def split: if_splits sum.splits)

text \<open>The first call decides: another one changes nothing.\<close>

lemma configured_once: "configure_logging l f lg = (Inr (), lg') \<Longrightarrow> configure_logging l' f' lg' = (Inr (), lg')"
  by (auto simp: configure_logging_def Let_def split: if_splits sum.splits)

text \<open>What a successful or a failed look at the settings and the logging leaves.\<close>

definition prepared :: "environ \<Rightarrow> process \<Rightarrow> settings \<Rightarrow> process \<Rightarrow> bool" where
  "prepared environ p cfg q \<longleftrightarrow> ps_settings q = Some cfg \<and> (ps_settings p = Some cfg \<or> ps_settings p = None \<and> cfg = from_env environ) \<and>
     ps_context q = ps_context p \<and> ps_kopf q = ps_kopf p \<and> ps_metrics q = ps_metrics p \<and> ps_log q = ps_log p"

lemma get_settings_prepares: "get_settings environ p = (cfg, q) \<Longrightarrow> prepared environ p cfg q \<and> ps_logging q = ps_logging p"
  by (auto simp: get_settings_def prepared_def split: option.splits)

lemma coherent_prepared:
  assumes "coherent_process p" "get_settings environ p = (cfg, q)"
    "configure_logging (cf_log_level cfg) (cf_log_format cfg) (ps_logging q) = (r, lg)"
  shows "coherent_process (q\<lparr>ps_logging := lg\<rparr>)" "r = Inr () \<Longrightarrow> lg_configured lg"
proof -
  have q: "prepared environ p cfg q" "ps_logging q = ps_logging p" using get_settings_prepares [OF assms(2)] by simp_all
  have old: "(lg_configured (ps_logging p) \<longrightarrow> logs_as_set cfg (ps_logging p)) \<and>
      (\<forall>c. ps_context p = Some c \<longrightarrow> cx_settings c = cfg \<and> lg_configured (ps_logging p) \<and> ps_kopf p = Some (operator_settings cfg)) \<and>
      (\<forall>port. ps_metrics p = Some port \<longrightarrow> cf_metrics_enabled cfg \<and> port = cf_metrics_port cfg)"
    using assms(1) q(1) by (auto simp: coherent_process_def prepared_def new_process_def split: option.splits)
  show "coherent_process (q\<lparr>ps_logging := lg\<rparr>)"
    by (rule configure_logging_cases [OF assms(3)]) (use old q in \<open>auto simp: coherent_process_def prepared_def\<close>)
  show "r = Inr () \<Longrightarrow> lg_configured lg"
    by (rule configure_logging_cases [OF assms(3)]) auto
qed

lemma holder_get_Inr [simp]: "holder_get p = Inr c \<longleftrightarrow> ps_context p = Some c"
  by (auto simp: holder_get_def raise_r_def split: option.splits)

lemma shutdown_cases:
  obtains "ps_context p = None" "shutdown closing p = (Inr (), p)"
    | c e where "ps_context p = Some c" "closing = Some e" "shutdown closing p = (Inl e, holder_set (close_context c) p)"
    | c where "ps_context p = Some c" "closing = None"
        "shutdown closing p = (Inr (), said ''pg-operator stopped'' (holder_clear (holder_set (close_context c) p)))"
  by (cases "ps_context p"; cases closing) (auto simp: shutdown_def holder_get_def raise_r_def)

lemma coherent_step: "process_step p q \<Longrightarrow> coherent_process p \<Longrightarrow> coherent_process q"
proof (induction rule: process_step.induct)
  case (entered p environ)
  obtain cfg p1 where s: "get_settings environ p = (cfg, p1)" by (cases "get_settings environ p")
  obtain r lg where l: "configure_logging (cf_log_level cfg) (cf_log_format cfg) (ps_logging p1) = (r, lg)" by fastforce
  show ?case using coherent_prepared(1) [OF entered s l] by (simp add: main_def s l Let_def split: sum.split)
next
  case (started p environ incluster kubeconfig serving)
  obtain cfg p1 where s: "get_settings environ p = (cfg, p1)" by (cases "get_settings environ p")
  obtain r lg where l: "configure_logging (cf_log_level cfg) (cf_log_format cfg) (ps_logging p1) = (r, lg)" by fastforce
  have set: "ps_settings p1 = Some cfg" using get_settings_prepares [OF s] by (simp add: prepared_def)
  note ready = coherent_prepared [OF started s l]
  show ?case
    using ready set
    by (auto simp: configure_def s l Let_def coherent_process_def holder_set_def said_def new_context_def
        split: sum.split option.split)
next
  case (handled p c ps)
  then show ?case
    by (auto simp: coherent_process_def holder_set_def holder_get_def new_process_def split: option.splits)
next
  case (stopped p closing)
  then show ?case
    by (cases rule: shutdown_cases [of p closing])
      (auto simp: coherent_process_def holder_set_def holder_clear_def said_def close_context_def new_process_def split: option.splits)
qed

lemma coherent_reachable: "process_step\<^sup>*\<^sup>* new_process p \<Longrightarrow> coherent_process p"
proof (induction rule: rtranclp_induct)
  case base
  then show ?case by (simp add: coherent_process_def) (simp add: new_process_def)
qed (rule coherent_step)

text \<open>The settings a process has read are those it keeps, whatever becomes of the environment.\<close>

lemma settings_kept_step: "process_step p q \<Longrightarrow> ps_settings p = Some cfg \<Longrightarrow> ps_settings q = Some cfg"
proof (induction rule: process_step.induct)
  case (stopped p closing)
  then show ?case by (cases rule: shutdown_cases [of p closing]) (simp_all add: holder_set_def holder_clear_def said_def)
qed (auto simp: main_def configure_def get_settings_def holder_set_def said_def Let_def split: prod.split sum.split option.split)

lemma settings_kept: "process_step\<^sup>*\<^sup>* p q \<Longrightarrow> ps_settings p = Some cfg \<Longrightarrow> ps_settings q = Some cfg"
  by (induction rule: rtranclp_induct) (auto dest: settings_kept_step)

text \<open>
  A handler that gets a context in any reachable process has one with the settings the process read first, under the logging and
  the kopf settings that go with these; one that runs before the startup has made a context, or after a stop, gets a
  \<open>ConnectionFailure\<close> that says so.
\<close>

lemma handlers_get_one_context:
  assumes "process_step\<^sup>*\<^sup>* new_process p"
  shows "case holder_get p of
      Inl e \<Rightarrow> err_cls e = ConnectionFailure \<and> probe_pools p = []
    | Inr c \<Rightarrow> ps_settings p = Some (cx_settings c) \<and> logs_as_set (cx_settings c) (ps_logging p) \<and>
        ps_kopf p = Some (operator_settings (cx_settings c)) \<and> probe_pools p = open_pools c"
proof (cases "ps_context p")
  case None
  then show ?thesis by (simp add: holder_get_def raise_r_def probe_pools_def)
next
  case (Some c)
  with coherent_reachable [OF assms] show ?thesis
    by (auto simp: coherent_process_def holder_get_def probe_pools_def new_process_def split: option.splits)
qed

text \<open>A startup that succeeds leaves a fresh context; one that fails before the client is made leaves the holder as it was.\<close>

lemma started_ready:
  assumes "configure environ incluster kubeconfig serving p = (Inr (), q)"
  shows "\<exists>c cfg. ps_context q = Some c \<and> cx_settings c = cfg \<and> cx_pools c = [] \<and> ps_settings q = Some cfg \<and> last (ps_log q) = ready_line cfg \<and>
    (cf_metrics_enabled cfg \<longrightarrow> ps_metrics q = Some (cf_metrics_port cfg))"
  using assms
  by (auto simp: configure_def get_settings_def holder_set_def said_def new_context_def Let_def
      split: prod.splits sum.splits option.splits if_splits)

lemma failed_client_no_context:
  assumes "create_client incluster kubeconfig = Inl e"
  shows "ps_context (snd (configure environ incluster kubeconfig serving p)) = ps_context p"
    "fst (configure environ incluster kubeconfig serving p) \<noteq> Inr ()"
  using assms by (auto simp: configure_def get_settings_def Let_def split: prod.split sum.split option.split)

text \<open>A stop closes every pool, also when the client cannot be closed; and it frees the holder when it can.\<close>

lemma stop_closes_pools: "probe_pools (snd (shutdown closing p)) = []"
  by (cases rule: shutdown_cases [of p closing])
    (simp_all add: probe_pools_def holder_get_def raise_r_def holder_set_def holder_clear_def said_def close_context_def open_pools_def)

lemma stopped_holder_empty: "shutdown None p = (r, q) \<Longrightarrow> ps_context q = None \<and> r = Inr ()"
  by (cases rule: shutdown_cases [of p None]) (auto simp: holder_clear_def said_def)

text \<open>The liveness probe names exactly the open pools.\<close>

lemma probe_exact: "ps_context p = Some c \<Longrightarrow> set (probe_pools p) = (\<lambda>(i, d). i @ ''/'' @ d) ` set (cx_pools c)"
  by (simp add: probe_pools_def holder_get_def open_pools_def)

text \<open>A notice of the server that warns or reports an error is never lost to the debug level.\<close>

lemma warnings_logged:
  assumes "py_strip message \<noteq> []" "map upper_char severity \<in> {''WARNING'', ''ERROR'', ''FATAL'', ''PANIC''}"
  shows "\<exists>line. log_notice (Some severity) other (Some message) = Some (WARNING, line)"
proof -
  have "severity \<noteq> []" "message \<noteq> []" using assms by (auto simp: py_strip_def strip_if_def lstrip_if_def rstrip_if_def)
  then have "or_text (Some severity) x = severity" "or_text (Some message) y = message" for x y
    by (cases severity; cases message; simp add: or_text_def)+
  then show ?thesis using assms by (simp add: log_notice_def Let_def)
qed

text \<open>Settings and logging in both entry points are those of the hooks; the scope is cluster-wide exactly when no namespace is listed.\<close>

lemma main_scope: "main environ p = (Inr r, q) \<Longrightarrow> kr_clusterwide r \<longleftrightarrow> kr_namespaces r = []"
  by (auto simp: main_def Let_def split: prod.splits sum.splits)

text \<open>Every route but the probes is under the version of the API.\<close>

lemma routes_versioned: "(prefix, r) \<in> set (aa_routers (create_app cfg)) \<Longrightarrow> r \<noteq> Health_Routes \<Longrightarrow> prefix = ''/api/v1''"
  by (auto simp: create_app_def)

end
