(* ===== verification/ReplicationHandlers.thy ===== *)
theory ReplicationHandlers
  imports Handlers ReplicationStatus
begin

text \<open>
  \<open>handlers/replication.py\<close>: the handlers of PostgresReplication and the gauges they publish. A sample of a gauge is a
  \<open>Gauge\<close> event; a series with a further label is named by the gauge and that label. A pass that failed still
  records the health of the slot, and never hides its own failure.
\<close>

section \<open>Metrics\<close>

definition series :: "string \<Rightarrow> string \<Rightarrow> string" where
  "series metric label = metric @ ''{'' @ label @ ''}''"

definition REPLICATION_LAG :: string where "REPLICATION_LAG = ''pg_operator_replication_lag_bytes''"
definition REPLICATION_RETAINED_WAL :: string where "REPLICATION_RETAINED_WAL = ''pg_operator_replication_retained_wal_bytes''"
definition REPLICATION_SLOT_ACTIVE :: string where "REPLICATION_SLOT_ACTIVE = ''pg_operator_replication_slot_active''"
definition REPLICATION_WORKER_RUNNING :: string where "REPLICATION_WORKER_RUNNING = ''pg_operator_replication_worker_running''"
definition REPLICATION_TABLES :: string where "REPLICATION_TABLES = ''pg_operator_replication_tables''"
definition REPLICATION_ERRORS :: string where "REPLICATION_ERRORS = ''pg_operator_replication_errors''"
definition REPLICATION_STATE :: string where "REPLICATION_STATE = ''pg_operator_replication_state''"
definition REPLICATION_OBSERVED :: string where "REPLICATION_OBSERVED = ''pg_operator_replication_observed_timestamp_seconds''"

definition STATES :: "repl_state list" where
  "STATES = [Initializing, Streaming, Lagging, Stalled, SlotLost, Disabled]"

definition TABLE_STATES :: "string list" where
  "TABLE_STATES = [''published'', ''subscribed'', ''ready'', ''syncing'', ''excluded'']"

definition ERROR_KINDS :: "string list" where
  "ERROR_KINDS = [''apply'', ''sync'']"

definition number_of :: "bool \<Rightarrow> int" where
  "number_of b = (if b then 1 else 0)"

text \<open>The samples of one observation; a value that could not be read is left out.\<close>

definition health_samples :: "health \<Rightarrow> (string \<times> int) list" where
  "health_samples h = concat (map (\<lambda>(metric, v). case v of None \<Rightarrow> [] | Some n \<Rightarrow> [(metric, n)])
     [(REPLICATION_LAG, he_lag_bytes h), (REPLICATION_RETAINED_WAL, he_retained_bytes h),
      (REPLICATION_SLOT_ACTIVE, map_option number_of (he_slot_active h)),
      (REPLICATION_WORKER_RUNNING, map_option number_of (he_worker_running h)),
      (series REPLICATION_ERRORS ''apply'', he_apply_errors h), (series REPLICATION_ERRORS ''sync'', he_sync_errors h)])"

definition state_samples :: "repl_state \<Rightarrow> (string \<times> int) list" where
  "state_samples current = map (\<lambda>s. (series REPLICATION_STATE (state_text s), number_of (s = current))) STATES"

definition publish_metrics :: "string \<Rightarrow> string \<Rightarrow> assessment \<Rightarrow> (string \<times> nat) list \<Rightarrow> unit m" where
  "publish_metrics namespace name a tables =
     then_m (each_m (\<lambda>(metric, v). tell (Gauge metric namespace name (Some v)))
        (health_samples (as_health a) @ state_samples (as_state a) @
         map (\<lambda>(st, n). (series REPLICATION_TABLES st, int n)) tables))
       (bind_m (sample_m micros) (\<lambda>now. tell (Gauge REPLICATION_OBSERVED namespace name (Some (int now)))))"

definition all_series :: "string list" where
  "all_series =
     [REPLICATION_LAG, REPLICATION_RETAINED_WAL, REPLICATION_SLOT_ACTIVE, REPLICATION_WORKER_RUNNING, REPLICATION_OBSERVED] @
     map (\<lambda>s. series REPLICATION_STATE (state_text s)) STATES @ map (series REPLICATION_TABLES) TABLE_STATES @
     map (series REPLICATION_ERRORS) ERROR_KINDS"

definition forget_metrics :: "string \<Rightarrow> string \<Rightarrow> unit m" where
  "forget_metrics namespace name = each_m (\<lambda>metric. tell (Gauge metric namespace name None)) all_series"

definition table_counts :: "repl_result \<Rightarrow> (string \<times> nat) list" where
  "table_counts r =
     [(''published'', length (lr_published r)), (''subscribed'', length (lr_subscribed r)), (''ready'', ready_tables r),
      (''syncing'', length (lr_subscribed r) - ready_tables r), (''excluded'', excluded_count r)]"

section \<open>Handlers\<close>

definition repl_body :: "repl_obj \<Rightarrow> bool \<Rightarrow> body" where
  "repl_body obj paused = \<lparr>bo_namespace = Some (rb_namespace obj), bo_name = rb_name obj, bo_generation = rb_generation obj,
     bo_paused = paused, bo_conditions = rt_conditions (rb_status obj)\<rparr>"

definition observe_anyway :: "repl_obj \<Rightarrow> unit m" where
  "observe_anyway obj =
     catch_m Base_Exception
       (bind_m (observe_from_status obj) (\<lambda>found. case found of
          None \<Rightarrow> ret_m ()
        | Some a \<Rightarrow>
            then_m (merge_status PLURAL_REPLICATION (rb_namespace obj) (rb_name obj)
                [(''health'', health_json (as_health a)), (''replicationState'', J_Str (state_text (as_state a)))])
              (publish_metrics (rb_namespace obj) (rb_name obj) a [])))
       (\<lambda>_. ret_m ())"

definition replication_pass :: "repl_obj \<Rightarrow> (string \<times> status_patch) m" where
  "replication_pass obj =
     bind_m (catch_m Base_Exception (reconcile_replication obj) (\<lambda>e. then_m (observe_anyway obj) (throw_m e))) (\<lambda>r.
     then_m (case lr_assessment r of
         None \<Rightarrow> ret_m ()
       | Some a \<Rightarrow> publish_metrics (rb_namespace obj) (rb_name obj) a (table_counts r))
       (bind_m now_m (\<lambda>now.
        ret_m (repl_message r, build_repl_status r (rt_conditions (rb_status obj)) (rb_generation obj) (\<lambda>_. now)))))"

definition reconcile_replication_handler :: "repl_obj \<Rightarrow> bool \<Rightarrow> string m" where
  "reconcile_replication_handler obj paused =
     (let b = repl_body obj paused
      in if is_paused b then publish_paused KIND_REPLICATION PLURAL_REPLICATION b
         else run_reconcile KIND_REPLICATION PLURAL_REPLICATION b (replication_pass obj))"

definition teardown_replication_handler :: "repl_obj \<Rightarrow> bool \<Rightarrow> string m" where
  "teardown_replication_handler obj paused =
     bind_m (run_teardown KIND_REPLICATION (repl_body obj paused) (teardown_replication obj)) (\<lambda>message.
     then_m (forget_metrics (rb_namespace obj) (rb_name obj)) (ret_m message))"

end
