(* ===== verification/ReplicationLaws.thy ===== *)
theory ReplicationLaws
  imports ReplicationHandlers Ordering
begin

text \<open>
  What is true of a replication: its status, its metrics, the objects of others, the order in which objects
  come to exist and are recorded, the publication a pass converges to, and its teardown.
\<close>

section \<open>Status\<close>

lemma streaming_condition_fields [simp]:
  "type_key (streaming_condition a n g) = COND_STREAMING"
  "c_status (streaming_condition a n g) = Some (if as_streaming a then ''True'' else ''False'')"
  "c_reason (streaming_condition a n g) = Some (state_text (as_state a))"
  by (simp_all add: streaming_condition_def)

lemma repl_conditions_distinct: "distinct (map type_key (repl_conditions r g now))"
  by (simp add: repl_conditions_def split: option.split)

definition sample_names :: replication_names_t where
  "sample_names = \<lparr>rp_publication = ''pgop_a'', rp_subscription = ''pgop_a'', rp_login = ''pgop_repl_a'', rp_secret = ''pgop-repl.a''\<rparr>"

definition sample_repl_result :: repl_result where
  "sample_repl_result = new_repl_result sample_end (sample_end\<lparr>en_instance := ''other''\<rparr>) sample_names [] []"

definition sample_health :: health where
  "sample_health = health_of \<lparr>ob_slot = None, ob_subscription = None, ob_tables = []\<rparr>
     \<lparr>pr_inactive_since = None, pr_apply_errors = None, pr_sync_errors = None\<rparr> 0"


section \<open>Metrics\<close>

text \<open>The series a handler's events give a value or remove.\<close>

fun sampled :: "event list \<Rightarrow> string list" where
  "sampled [] = []"
| "sampled (Gauge metric ns name (Some v) # es) = metric # sampled es"
| "sampled (_ # es) = sampled es"

fun forgotten :: "event list \<Rightarrow> string list" where
  "forgotten [] = []"
| "forgotten (Gauge metric ns name None # es) = metric # forgotten es"
| "forgotten (_ # es) = forgotten es"

lemma sampled_append [simp]: "sampled (xs @ ys) = sampled xs @ sampled ys"
  by (induction xs rule: sampled.induct) simp_all

lemma tells_run:
  "each_m (\<lambda>x. tell (f x)) xs E w = (Inr (), w\<lparr>trace := trace w @ map f xs\<rparr>)"
  by (induction xs arbitrary: w) (simp_all add: run_simps)

lemma sampled_gauges: "sampled (map (\<lambda>(metric, v). Gauge metric ns n (Some v)) xs) = map fst xs"
  by (induction xs) auto

lemma forgotten_gauges: "forgotten (map (\<lambda>metric. Gauge metric ns n None) xs) = xs"
  by (induction xs) auto

text \<open>
  No series of a deleted replication survives: deleting it removes every gauge that any of its passes can have
  given a value, so the number of series stays bounded by the replications there are.
\<close>

theorem published_series_forgotten:
  "\<exists>es fs. snd (publish_metrics ns n a (table_counts r) E w) = w\<lparr>trace := trace w @ es\<rparr> \<and>
     snd (forget_metrics ns n E v) = v\<lparr>trace := trace v @ fs\<rparr> \<and> set (sampled es) \<subseteq> set (forgotten fs)"
proof -
  have f: "forget_metrics ns n E v = (Inr (), v\<lparr>trace := trace v @ map (\<lambda>metric. Gauge metric ns n None) all_series\<rparr>)"
    unfolding forget_metrics_def by (rule tells_run)
  let ?xs = "health_samples (as_health a) @ state_samples (as_state a) @
    map (\<lambda>(st, n). (series REPLICATION_TABLES st, int n)) (table_counts r)"
  have g: "(\<lambda>(metric, v). tell (Gauge metric ns n (Some v))) = (\<lambda>x. tell ((\<lambda>(metric, v). Gauge metric ns n (Some v)) x))"
    by (auto simp: fun_eq_iff)
  have p: "publish_metrics ns n a (table_counts r) E w = (Inr (), w\<lparr>trace := trace w @
      map (\<lambda>(metric, v). Gauge metric ns n (Some v)) ?xs @
      [Gauge REPLICATION_OBSERVED ns n (Some (int (micros E (trace w @ map (\<lambda>(metric, v). Gauge metric ns n (Some v)) ?xs))))]\<rparr>)"
    unfolding publish_metrics_def g by (simp add: run_simps tells_run)
  have "set (map fst ?xs) \<subseteq> set all_series"
    by (auto simp: health_samples_def state_samples_def table_counts_def all_series_def STATES_def TABLE_STATES_def ERROR_KINDS_def
        split: option.splits)
  then have "set (sampled (map (\<lambda>(metric, v). Gauge metric ns n (Some v)) ?xs @ [Gauge REPLICATION_OBSERVED ns n (Some t)]))
      \<subseteq> set (forgotten (map (\<lambda>metric. Gauge metric ns n None) all_series))" for t
    by (simp add: sampled_gauges forgotten_gauges del: map_append) (simp add: all_series_def)
  with f p show ?thesis by (metis snd_conv)
qed

section \<open>Steps that only read\<close>

named_theorems repl_reads \<open>steps of a replication pass that change nothing\<close>

lemma read_only_server_reads [repl_reads]:
  "emits E read_only (get_subscription c n)" "emits E read_only (get_publication c n)" "emits E read_only (subscribed_tables c oid)"
  "emits E read_only (slots c n o')" "emits E read_only (read_slot_health c n)" "emits E read_only (read_subscription_health c oid)"
  "emits E read_only (published_relations c n)" "emits E read_only (role_exists c n)" "emits E read_only (role_comment c n)"
  "emits E read_only (member_of c n g)" "emits E read_only (memberships c n)" "emits E read_only (get_role c n)"
  "emits E read_only (get_database c n)"
  unfolding get_subscription_def get_publication_def subscribed_tables_def slots_def read_slot_health_def
    read_subscription_health_def published_relations_def role_exists_def role_comment_def member_of_def memberships_def get_role_def
    get_database_def
  by (intro emits_rules; simp)+

declare read_only_logical [repl_reads]

lemma read_only_catalogs [repl_reads]:
  "emits E read_only (describe_source_tables c schemas tables login)" "emits E read_only (describe_target_tables c wanted)"
  "emits E read_only (nonempty_tables c wanted)"
proof -
  have l: "emits E read_only (leaves_of c login row)" for row
    unfolding leaves_of_def assemble_leaves_def Let_def by (intro emits_rules; simp)
  show "emits E read_only (describe_source_tables c schemas tables login)"
    unfolding describe_source_tables_def assemble_def Let_def by (intro emits_rules l; simp)
  show "emits E read_only (describe_target_tables c wanted)"
    unfolding describe_target_tables_def Let_def by (intro emits_rules; simp)
  show "emits E read_only (nonempty_tables c wanted)"
    unfolding nonempty_tables_def by (intro emits_rules; simp)
qed

lemma kubernetes_read_only: "emits E kubernetes_read m \<Longrightarrow> emits E read_only m"
  using emits_mono kubernetes_read.elims(2) by metis

lemma read_only_resolution [repl_reads]: "emits E read_only (resolve_replication obj)"
  "emits E read_only (recorded_names st ns n p)" "emits E read_only (claims_elsewhere obj target)"
proof -
  have "emits E kubernetes_read (resolve_replication obj)"
    unfolding resolve_replication_def parse_replication_def Let_def refuse_moved_ends_def refuse_moved_end_def
      require_managed_schemas_def
    by (intro emits_rules resolve_end_reads refuse_cycles_reads)
  then show "emits E read_only (resolve_replication obj)" by (rule kubernetes_read_only)
  show "emits E read_only (recorded_names st ns n p)" unfolding recorded_names_def by (intro emits_rules)
  have "emits E kubernetes_read (claims_elsewhere obj target)"
    unfolding claims_elsewhere_def claim_of_def by (intro emits_rules list_replications_reads load_instance_reads)
  then show "emits E read_only (claims_elsewhere obj target)" by (rule kubernetes_read_only)
qed

lemma read_only_checks [repl_reads]:
  "emits E read_only (require_versions i j)" "emits E read_only (require_logical_wal info e)" "emits E read_only (require_subscriber info e)"
  "emits E read_only (require_free_slot info e)" "emits E read_only (refuse_foreign_objects c spec r s marker)"
  unfolding require_versions_def require_logical_wal_def require_subscriber_def require_free_slot_def refuse_foreign_objects_def Let_def
  by (simp_all only: each_m.simps prod.case) (intro emits_rules repl_reads)+

lemma read_only_judging [repl_reads]:
  "emits E read_only (judge_tables obj src dst rd inst groups s r)" "emits E read_only (observe_health obj src dst spec r)"
  unfolding judge_tables_def observe_health_def Let_def by (intro emits_rules repl_reads)+

section \<open>The slot is recorded before a subscription can use it\<close>

fun records_slot :: "event \<Rightarrow> bool" where
  "records_slot (K8s (K_Merge_Status p ns n details)) =
     (case map_of details ''created'' of Some (J_Obj kvs) \<Rightarrow> map_of kvs ''slot'' = Some (J_Bool True) | _ \<Rightarrow> False)"
| "records_slot _ = False"

fun creates_subscription :: "composed \<Rightarrow> bool" where
  "creates_subscription (Format t xs) = (t = ''CREATE SUBSCRIPTION {} CONNECTION {} PUBLICATION {} WITH ({})'')"
| "creates_subscription _ = False"

definition subscribes :: "event \<Rightarrow> bool" where
  "subscribes ev = (case statement_of ev of None \<Rightarrow> False | Some s \<Rightarrow> creates_subscription s)"

lemma not_subscribes: "(\<lambda>ev. \<not> subscribes ev) = sends (\<lambda>s. \<not> creates_subscription s)"
  by (auto simp: fun_eq_iff subscribes_def sends_def split: option.split)

lemma not_creating [simp]:
  "\<not> creates_subscription (add_table_statement p s t cols f)" "\<not> creates_subscription (drop_table_statement p s t)"
  "\<not> creates_subscription (set_role_statement u k v)" "\<not> creates_subscription (drop_role_statement u)"
  "\<not> creates_subscription (alter_role_with u cs)" "\<not> creates_subscription (create_login_statement u pw attrs l vu)"
  "\<not> creates_subscription (create_slot_statement u)" "\<not> creates_subscription (connection_statement u i)"
  "\<not> creates_subscription (comment_role_statement u i)" "\<not> creates_subscription (self_grant u i)"
  by (simp_all add: add_table_statement_def drop_table_statement_def set_role_statement_def drop_role_statement_def self_grant_def
      alter_role_with_def create_login_statement_def Let_def create_slot_statement_def connection_statement_def comment_role_statement_def)

named_theorems repl_writes \<open>steps of a replication pass that create no subscription\<close>

lemmas reads_send = repl_reads [THEN emits_quiet] read_only_objects [THEN emits_quiet] read_only_context [THEN emits_quiet]
  read_only_connection [THEN emits_quiet]

lemma record_created_sends [repl_writes]: "emits E (sends P) (record_created obj r)"
  unfolding record_created_def merge_status_def by (intro emits_rules; simp)

abbreviation no_subscription :: "event \<Rightarrow> bool" where
  "no_subscription \<equiv> sends (\<lambda>s. \<not> creates_subscription s)"

lemma grant_sends [repl_writes]: "emits E no_subscription (grant_group c g u p r)"
  unfolding grant_group_def grant_membership_def Let_def by (intro emits_rules; simp)

lemma secret_sends [repl_writes]: "emits E (sends P) (apply_secret ns n d l a)" "emits E (sends P) (delete_secret ns n)"
  unfolding apply_secret_def delete_secret_def if_found_def Let_def by (intro emits_rules; simp)+

lemma login_sends [repl_writes]: "emits E no_subscription (ensure_login c spec info ns n marker grp prev r)"
proof -
  have a: "emits E no_subscription (adopt_provided_login c ref ns r)" for ref r
    unfolding adopt_provided_login_def Let_def by (intro emits_rules reads_send)
  have l: "emits E no_subscription (ensure_login_role c u pw attrs lim v)" for u pw attrs lim v
    unfolding ensure_login_role_def valid_until_matches_def Let_def by (intro emits_rules reads_send; simp)
  have g: "emits E no_subscription (ensure_generated_login c info ns n marker r)" for r
    unfolding ensure_generated_login_def converge_generated_login_def set_password_def generate_password_def Let_def
    by (intro emits_rules repl_writes reads_send l; simp)
  show ?thesis unfolding ensure_login_def Let_def by (intro emits_rules repl_writes a g)
qed

lemma publication_sends [repl_writes]: "emits E no_subscription (ensure_publication c spec r marker)"
  unfolding ensure_publication_def create_publication_def set_publication_options_def Let_def
  by (intro emits_rules reads_send; simp)

lemma tables_send [repl_writes]: "emits E no_subscription (converge_tables c verdicts existing r)"
proof -
  have "emits E no_subscription (shape_member c n upd cand r)" for n upd cand r
    unfolding shape_member_def add_table_def replace_table_def drop_table_def transaction_def Let_def
    by (simp split: if_split) (intro conjI impI emits_rules; simp)
  then show ?thesis
    unfolding converge_tables_def remove_member_def converge_table_def drop_table_def Let_def
    by (intro emits_rules reads_send; simp)
qed

lemma superseded_sends [repl_writes]: "emits E no_subscription (remove_superseded_login c existing p prev r)"
  unfolding remove_superseded_login_def remove_superseded_role_def remove_superseded_secret_def retire_login_def suppress_failure_def
    ensure_self_membership_def current_user_def terminate_role_sessions_def terminate_backend_def revoke_all_memberships_def
    drop_role_def revoke_membership_def grant_membership_def Let_def
  by (intro emits_rules repl_writes reads_send emits_each; simp)

lemma slot_sends [repl_writes]: "emits E no_subscription (obtain_slot src inst r)"
  unfolding obtain_slot_def with_slot_privilege_def create_slot_def slots_refused_def explain_slot_timeout_def Let_def
  by (intro emits_rules reads_send; simp)

lemma created_of_mark: "created_of (lr_created (mark_created k b r)) j = (if j = k then b else created_of (lr_created r) j)"
  by (simp add: mark_created_def created_of_def map_of_dset)

lemma changed_to_keeps [simp]: "lr_created (changed_to msg r) = lr_created r" "lr_names (changed_to msg r) = lr_names r"
  "lr_source (changed_to msg r) = lr_source r" "lr_login (changed_to msg r) = lr_login r"
  by (simp_all add: changed_to_def)

lemma obtain_slot_keeps: "gives E (\<lambda>s. lr_created s = lr_created r) (obtain_slot src inst r)"
  unfolding obtain_slot_def Let_def gives_def
  by (auto simp: run_simps split: prod.splits sum.splits list.splits if_splits)

lemma record_created_marks:
  assumes "created_of (lr_created r) ''slot''" "record_created obj r E w = (Inr x, u)" "trace u = trace w @ es"
  shows "list_ex records_slot es"
proof -
  have m: "map_of (map (\<lambda>(k, b). (k, J_Bool b)) kvs) k = map_option J_Bool (map_of kvs k)" for kvs :: "(string \<times> bool) list" and k
    by (induction kvs) auto
  have "es = [K8s (K_Merge_Status PLURAL_REPLICATION (if rb_namespace obj \<noteq> [] then Some (rb_namespace obj) else None)
      (rb_name obj) (created_status r))]"
    using assms(2,3) by (auto simp: record_created_def merge_status_def k8s_do_def run_simps split: option.splits if_splits)
  moreover have "map_of (created_status r) ''created'' = Some (created_json (lr_created r))" by (simp add: created_status_def)
  ultimately show ?thesis using assms(1) by (simp add: created_json_def created_of_def m)
qed

lemma ensure_slot_leaves: "leaves records_slot E (created_of (lr_created r) ''slot'') (ensure_slot obj src inst r)"
proof (cases "created_of (lr_created r) ''slot''")
  case False
  show ?thesis unfolding leaves_def
  proof (intro allI impI)
    fix w x u es
    assume run: "ensure_slot obj src inst r E w = (Inr x, u)" and tr: "trace u = trace w @ es"
    from run obtain s v where s: "obtain_slot src inst r E w = (Inr s, v)"
      and rest: "(if created_of (lr_created s) ''slot'' then ret_m s
        else then_m (record_created obj (mark_created ''slot'' True s)) (ret_m (mark_created ''slot'' True s))) E v = (Inr x, u)"
      unfolding ensure_slot_def Let_def by (auto simp: bind_run split: prod.splits sum.splits)
    have same: "lr_created s = lr_created r" using givesD [OF obtain_slot_keeps s] .
    have rec: "record_created obj (mark_created ''slot'' True s) E v = (Inr (), u)"
      using rest same False by (auto simp: run_simps split: prod.splits sum.splits)
    obtain es1 where es1: "trace v = trace w @ es1"
      using slot_sends [of E src inst r] s unfolding emits_def by (metis snd_conv)
    obtain es2 where es2: "trace u = trace v @ es2"
      using record_created_sends [of E "\<lambda>_. True" obj "mark_created ''slot'' True s"] rec unfolding emits_def by (metis snd_conv)
    have "list_ex records_slot es2"
      by (rule record_created_marks [OF _ rec es2]) (simp add: created_of_mark)
    then show "created_of (lr_created r) ''slot'' \<or> list_ex records_slot es" using tr es1 es2 by (auto simp: list_ex_iff)
  qed
qed (simp add: leaves_True)

lemma emits_any: "emits E (sends P) m \<Longrightarrow> emits E (\<lambda>_. True) m"
  by (rule emits_mono) simp_all

lemma quiet_orders: "emits E no_subscription m \<Longrightarrow> orders marks subscribes E b m"
  by (rule orders_quiet) (simp add: not_subscribes)

lemma ensure_slot_orders: "orders marks subscribes E b (ensure_slot obj src inst r)"
  unfolding ensure_slot_def Let_def
  by (rule quiet_orders) (intro emits_rules repl_writes slot_sends)

lemma make_subscription_any: "emits E (\<lambda>_. True) (create_subscription c n i p cd en b s k)"
  unfolding create_subscription_def by (intro emits_rules) simp_all

lemma make_subscription_orders:
  "orders records_slot subscribes E (created_of (lr_created r) ''slot'') (make_subscription obj src dst spec inst info marker r)"
  unfolding make_subscription_def Let_def
  by (rule orders_bind_marked [OF ensure_slot_orders ensure_slot_leaves])
    (intro emits_rules make_subscription_any repl_reads [THEN emits_quiet, THEN emits_any] repl_writes [THEN emits_any])

lemma converge_subscription_orders:
  "orders records_slot subscribes E (created_of (lr_created r) ''slot'')
     (converge_subscription obj src dst spec s published inst marker r)"
proof -
  have i: "emits E no_subscription (build_conninfo a b c d e f g)" for a b c d e f g
    unfolding build_conninfo_def by (intro emits_rules)
  have f: "emits E no_subscription (conninfo_fingerprint info)" for info
    unfolding conninfo_fingerprint_def by (intro emits_rules)
  have t: "emits E no_subscription (refresh_tables dst spec inst published oid r)" for r oid
    unfolding refresh_tables_def refresh_def by (intro emits_rules reads_send; simp)
  have a: "emits E no_subscription (adjust_subscription dst spec x existing info mark r)" for x existing info mark r
    unfolding adjust_subscription_def set_connection_def set_enabled_def set_options_def Let_def by (intro emits_rules; simp)
  have "orders records_slot subscribes E (created_of (lr_created r) ''slot'')
      (case s of None \<Rightarrow> make_subscription obj src dst spec inst info marker r
       | Some x \<Rightarrow> adjust_subscription dst spec x (rb_status obj) info mark r)" for info mark
    by (cases s) (simp_all add: make_subscription_orders quiet_orders a)
  then show ?thesis
    unfolding converge_subscription_def
    by (intro orders_bind quiet_orders [OF i] quiet_orders [OF f] quiet_orders [OF t])
qed

text \<open>The steps before the subscription do not touch what is recorded of the slot.\<close>

abbreviation slot_as :: "repl_result \<Rightarrow> repl_result \<Rightarrow> bool" where
  "slot_as r s \<equiv> created_of (lr_created s) ''slot'' = created_of (lr_created r) ''slot''"

lemma grant_keeps: "gives E (\<lambda>s. lr_created s = lr_created r) (grant_group c g u p r)"
  unfolding grant_group_def gives_def by (auto simp: run_simps split: prod.splits sum.splits if_splits)

lemma publication_keeps_slot: "gives E (\<lambda>(made, s). slot_as r s) (ensure_publication c spec r marker)"
  unfolding ensure_publication_def gives_def Let_def
  by (auto simp: run_simps created_of_mark split: prod.splits sum.splits option.splits if_splits)

lemma adopt_keeps_slot: "gives E (slot_as r) (adopt_provided_login c ref ns r)"
  unfolding adopt_provided_login_def gives_def Let_def
  by (auto simp: run_simps created_of_mark split: prod.splits sum.splits option.splits list.splits if_splits)

lemma generated_keeps_slot: "gives E (slot_as r) (ensure_generated_login c info ns n marker r)"
proof -
  have c: "gives E (slot_as r) (converge_generated_login c info l marker stored pw r)" for l stored pw
    unfolding converge_generated_login_def gives_def
    by (auto simp: run_simps split: prod.splits sum.splits if_splits)
  have g: "gives E (slot_as r) (grant_group c g u p s)" if "slot_as r s" for s g u p
    by (rule gives_mono [OF grant_keeps]) (simp add: that)
  show ?thesis
    unfolding ensure_generated_login_def Let_def
    by (rule gives_if, rule gives_raise, rule gives_bindI [OF gives_True], rule gives_bindI [OF gives_True],
        rule gives_bindI [OF gives_True], rule gives_bindI [OF c], rule gives_bindI [where Q = "slot_as r"])
      (auto intro!: g gives_if gives_bindI [OF gives_True] gives_ret simp: created_of_mark split: if_splits)
qed

lemma login_keeps_slot: "gives E (slot_as r) (ensure_login c spec info ns n marker grp prev r)"
proof -
  have s: "gives E (slot_as r)
      (case re_credentials spec of Some ref \<Rightarrow> adopt_provided_login c ref ns (r\<lparr>lr_granted := []\<rparr>)
       | None \<Rightarrow> ensure_generated_login c info ns n marker (r\<lparr>lr_granted := []\<rparr>))"
    using adopt_keeps_slot [of E "r\<lparr>lr_granted := []\<rparr>"] generated_keeps_slot [of E "r\<lparr>lr_granted := []\<rparr>"]
    by (simp split: option.split)
  have g: "gives E (slot_as r) (grant_group c grp l u t)" if "slot_as r t" for t l u
    by (rule gives_mono [OF grant_keeps]) (simp add: that)
  show ?thesis unfolding ensure_login_def Let_def by (rule gives_bindI [OF s], rule g) simp
qed

lemma prepare_keeps_slot: "gives E (\<lambda>(s, t). slot_as r t) (prepare obj src dst rd i j grp r)"
proof -
  have l: "gives E (slot_as r) (ensure_login c spec info ns n marker g prev t)" if "slot_as r t" for c spec info ns n marker g prev t
    by (rule gives_mono [OF login_keeps_slot]) (simp add: that)
  note skip = gives_bindI [OF gives_True]
  show ?thesis
    unfolding prepare_def Let_def then_m_def
    by (rule skip, rule skip, rule skip, rule skip, rule skip, rule skip, rule skip, rule gives_bindI [OF publication_keeps_slot],
        clarify, rule skip, rule gives_bindI [OF l], assumption, rule skip, rule gives_ret, simp)
qed

lemma shape_keeps: "gives E (\<lambda>s. lr_created s = lr_created r) (shape_member c n upd cand r)"
  unfolding shape_member_def gives_def Let_def refused_member_def
  by (auto simp: run_simps split: prod.splits sum.splits if_splits)

lemma fold_gives:
  assumes "\<And>s x. Q s \<Longrightarrow> gives E Q (f s x)" "Q s"
  shows "gives E Q (fold_m f s xs)"
  using assms(2) by (induction xs arbitrary: s) (auto intro: gives_ret gives_bindI [OF assms(1)])

lemma tables_keep_slot: "gives E (slot_as r) (converge_tables c verdicts existing r)"
proof -
  have rm: "gives E (slot_as r) (remove_member c n s t)" if "slot_as r s" for n s t
    unfolding remove_member_def gives_def using that by (auto simp: run_simps split: prod.splits sum.splits option.splits)
  have sh: "gives E (slot_as r) (shape_member c n upd cand s)" if "slot_as r s" for n upd cand s
    by (rule gives_mono [OF shape_keeps]) (simp add: that)
  have ct: "gives E (slot_as r) (converge_table c n cur recs s v)" if "slot_as r s" for n cur recs s v
    unfolding converge_table_def Let_def held_back_def
    by (intro gives_if gives_ret gives_bindI [OF gives_True]) (auto simp: that split: option.split intro!: sh gives_ret)
  show ?thesis
    unfolding converge_tables_def Let_def
    by (rule gives_bindI [OF gives_True], rule gives_bindI [OF fold_gives [where Q = "slot_as r"]], erule rm, simp,
        rule gives_bindI [OF fold_gives [where Q = "slot_as r"]], erule ct, assumption)
      (intro gives_bindI [OF gives_True] gives_ret, simp)
qed

lemma prepare_sends: "emits E no_subscription (prepare obj src dst rd i j grp r)"
  unfolding prepare_def Let_def
  by (intro emits_rules repl_writes reads_send; (intro emits_rules repl_writes)?)


section \<open>Objects of others\<close>

definition own_marker :: "repl_obj \<Rightarrow> string option" where
  "own_marker obj = Some (ownership_marker (rb_namespace obj) (rb_name obj))"

text \<open>
  Whatever publication, subscription or role the server has under the name asked for is someone else's: it does
  not carry this replication's marker, and status does not record that a pass created it.
\<close>

definition foreign_publication :: "env \<Rightarrow> repl_obj \<Rightarrow> bool" where
  "foreign_publication E obj \<longleftrightarrow> \<not> created_of (rt_created (rb_status obj)) ''publication'' \<and>
     (\<forall>h c q. \<exists>row. says_publication E h c q = Inr (Some row) \<and> pn_comment row \<noteq> own_marker obj)"

definition foreign_subscription :: "env \<Rightarrow> repl_obj \<Rightarrow> bool" where
  "foreign_subscription E obj \<longleftrightarrow> \<not> created_of (rt_created (rb_status obj)) ''subscription'' \<and>
     (\<forall>h c q. \<exists>row. says_subscription E h c q = Inr (Some row) \<and> sn_comment row \<noteq> own_marker obj)"

definition foreign_login :: "env \<Rightarrow> repl_obj \<Rightarrow> bool" where
  "foreign_login E obj \<longleftrightarrow> \<not> created_of (rt_created (rb_status obj)) ''login'' \<and>
     (\<forall>spec. parse_replication_spec (rb_spec obj) = Inr spec \<longrightarrow> re_credentials spec = None) \<and>
     (\<forall>h c q. \<exists>st. says_role E h c q = Inr (Some st)) \<and>
     (\<forall>h c q. \<exists>t. says_text E h c q = Inr t \<and> t \<noteq> own_marker obj)"

lemma resolve_gives_spec: "gives E (\<lambda>rd. parse_replication_spec (rb_spec obj) = Inr (rd_spec rd)) (resolve_replication obj)"
  unfolding gives_def resolve_replication_def parse_replication_def Let_def
  by (auto simp: run_simps split: prod.splits sum.splits if_splits)

lemma fetch_gives: "(\<And>h x. sel E h c q = Inr x \<Longrightarrow> Q x) \<Longrightarrow> gives E Q (fetch sel c q)"
  unfolding fetch_def gives_def by (auto simp: run_simps split: sum.splits pg_error.splits)

lemma subscription_found:
  assumes "foreign_subscription E obj"
  shows "gives E (\<lambda>s. \<exists>x. s = Some x \<and> su_comment x \<noteq> own_marker obj) (get_subscription c n)"
proof -
  have "\<exists>row. x = Some row \<and> sn_comment row \<noteq> own_marker obj" if "says_subscription E h c (Q_Subscription n) = Inr x" for h x
    using assms that unfolding foreign_subscription_def by (metis Inr_inject)
  then show ?thesis unfolding get_subscription_def
    by (intro gives_bindI [OF fetch_gives] gives_ret) (assumption, auto)
qed

lemma publication_found:
  assumes "foreign_publication E obj"
  shows "gives E (\<lambda>p. \<exists>s. p = Some s \<and> pu_comment s \<noteq> own_marker obj) (get_publication c n)"
proof -
  have "\<exists>row. x = Some row \<and> pn_comment row \<noteq> own_marker obj" if "says_publication E h c (Q_Publication n) = Inr x" for h x
    using assms that unfolding foreign_publication_def by (metis Inr_inject)
  then show ?thesis unfolding get_publication_def
    by (intro gives_bindI [OF fetch_gives]) (assumption, auto intro!: gives_bindI [OF gives_True] gives_ret)
qed

lemma role_found:
  assumes "foreign_login E obj"
  shows "gives E (\<lambda>b. b) (role_exists c n)" "gives E (\<lambda>t. t \<noteq> own_marker obj) (role_comment c n)"
proof -
  have r: "\<exists>st. x = Some st" if "says_role E h c (Q_Role n) = Inr x" for h x
    using assms that unfolding foreign_login_def by (metis Inr_inject)
  have t: "x \<noteq> own_marker obj" if "says_text E h c (Q_Role_Comment n) = Inr x" for h x
    using assms that unfolding foreign_login_def by (metis Inr_inject)
  show "gives E (\<lambda>b. b) (role_exists c n)"
    unfolding role_exists_def get_role_def by (intro gives_bindI [OF fetch_gives] gives_ret) (erule r, auto)
  show "gives E (\<lambda>t. t \<noteq> own_marker obj) (role_comment c n)"
    unfolding role_comment_def by (rule fetch_gives) (erule t)
qed

definition taken :: "env \<Rightarrow> repl_obj \<Rightarrow> bool" where
  "taken E obj \<longleftrightarrow> foreign_publication E obj \<or> foreign_subscription E obj \<or> foreign_login E obj"

text \<open>With a name taken, the check of the names never returns.\<close>

lemma refuses_taken:
  assumes "taken E obj" "lr_created r = rt_created (rb_status obj)" "parse_replication_spec (rb_spec obj) = Inr spec"
    "foreign_subscription E obj \<Longrightarrow> \<exists>x. s = Some x \<and> su_comment x \<noteq> own_marker obj"
  shows "gives E (\<lambda>_. False) (refuse_foreign_objects c spec r s (ownership_marker (rb_namespace obj) (rb_name obj)))"
proof -
  let ?mark = "ownership_marker (rb_namespace obj) (rb_name obj)"
  note m = own_marker_def [of obj, symmetric]
  note skip = gives_bindI [OF gives_True]
  consider "foreign_subscription E obj" | "foreign_publication E obj" | "foreign_login E obj"
    using assms(1) unfolding taken_def by blast
  then show ?thesis
  proof cases
    case 1
    then obtain x where x: "s = Some x" "su_comment x \<noteq> own_marker obj" using assms(4) by blast
    have "\<not> created_of (rt_created (rb_status obj)) ''subscription''" using 1 by (simp add: foreign_subscription_def)
    then show ?thesis unfolding refuse_foreign_objects_def m then_m_def Let_def using x
      by (auto simp: assms(2) gives_raise intro!: gives_bindI [OF gives_raise(1)])
  next
    case 2
    have n: "\<not> created_of (rt_created (rb_status obj)) ''publication''" using 2 by (simp add: foreign_publication_def)
    show ?thesis unfolding refuse_foreign_objects_def m then_m_def Let_def
      by (rule skip, rule gives_bindI [OF publication_found [OF 2]])
        (auto simp: assms(2) n gives_raise intro!: gives_bindI [OF gives_raise(1)])
  next
    case 3
    have n: "\<not> created_of (rt_created (rb_status obj)) ''login''" "re_credentials spec = None"
      using 3 assms(3) by (auto simp: foreign_login_def)
    show ?thesis unfolding refuse_foreign_objects_def m then_m_def Let_def
      by (rule skip, rule skip, rule skip)
        (auto simp: assms(2) n intro!: gives_bindI [OF role_found(1) [OF 3]] gives_bindI [OF role_found(2) [OF 3]] gives_raise)
  qed
qed

lemma prepare_refuses:
  assumes "taken E obj" "lr_created r = rt_created (rb_status obj)" "parse_replication_spec (rb_spec obj) = Inr (rd_spec rd)"
  shows "gives E (\<lambda>_. False) (prepare obj src dst rd i j grp r)" "emits E read_only (prepare obj src dst rd i j grp r)"
proof -
  note skip = gives_bindI [OF gives_True]
  have sub: "gives E (\<lambda>s. foreign_subscription E obj \<longrightarrow> (\<exists>x. s = Some x \<and> su_comment x \<noteq> own_marker obj)) (get_subscription c n)" for c n
    by (cases "foreign_subscription E obj") (simp_all add: subscription_found)
  have no: "gives E (\<lambda>_. False) (refuse_foreign_objects c (rd_spec rd) r s (ownership_marker (rb_namespace obj) (rb_name obj)))"
    if "foreign_subscription E obj \<longrightarrow> (\<exists>x. s = Some x \<and> su_comment x \<noteq> own_marker obj)" for c s
    using refuses_taken [OF assms(1,2,3)] that by blast
  show "gives E (\<lambda>_. False) (prepare obj src dst rd i j grp r)"
    unfolding prepare_def Let_def then_m_def
    by (rule skip, rule skip, rule skip, rule skip, rule gives_bindI [OF sub], rule gives_bindI [OF no], assumption, simp)
  show "emits E read_only (prepare obj src dst rd i j grp r)"
    unfolding prepare_def Let_def then_m_def
    by (rule emits_bind [OF read_only_logical], rule emits_bind [OF read_only_checks(2)], rule emits_bind [OF read_only_logical],
        rule emits_bind [OF read_only_checks(3)], rule emits_bind_gives [OF read_only_server_reads(1) sub],
        rule emits_bind_gives [OF read_only_checks(5) no], assumption, simp)
qed



section \<open>Teardown\<close>

text \<open>
  The statements a teardown may send: those that end the recorded subscription and publication, that end or
  un-grant the recorded login, and that drop slots. Objects only count when status records them as created.
\<close>

fun teardown_statement :: "repl_status \<Rightarrow> composed \<Rightarrow> bool" where
  "teardown_statement st (Format t (Ident [x] # rest)) =
     (if t \<in> set [''DROP SUBSCRIPTION {}'', ''ALTER SUBSCRIPTION {} {}'', ''ALTER SUBSCRIPTION {} SET (slot_name = NONE)'']
      then created_of (rt_created st) ''subscription'' \<and> x = rt_subscription st \<and> rest \<in> set [[], [SQL ''DISABLE'']]
      else if t = ''DROP PUBLICATION IF EXISTS {}'' then created_of (rt_created st) ''publication'' \<and> x = rt_publication st
      else if t \<in> set [''DROP ROLE IF EXISTS {}'', ''ALTER ROLE {} WITH PASSWORD {}'']
      then created_of (rt_created st) ''login'' \<and> x = rt_login st
      else if t = ''REVOKE {} FROM {}'' then x \<in> set (rt_granted st) \<and> rest = [Ident [rt_login st]]
      else t = ''GRANT {} TO {} WITH INHERIT TRUE, SET TRUE'' \<and> x = rt_login st)"
| "teardown_statement st (Format t [Format t' (Ident [x] # rest)]) =
     (t = ''{} WITH ADMIN OPTION'' \<and> t' = ''GRANT {} TO {}'' \<and> x = rt_login st)"
| "teardown_statement st (Format t [Join s gs, Ident [m]]) =
     (t = ''REVOKE {} FROM {}'' \<and> m = rt_login st \<and> created_of (rt_created st) ''login'')"
| "teardown_statement st (Format t [Lit (L_Str slot)]) = (t = ''SELECT pg_drop_replication_slot({})'')"
| "teardown_statement st s = False"

abbreviation tears :: "repl_status \<Rightarrow> event \<Rightarrow> bool" where
  "tears st \<equiv> sends (teardown_statement st)"

lemma emits_case_reached:
  "(\<And>y. x = Reached y \<Longrightarrow> emits E P (f y)) \<Longrightarrow> emits E P a \<Longrightarrow> (\<And>t. emits E P (g t)) \<Longrightarrow>
   emits E P (case x of Reached y \<Rightarrow> f y | Gone \<Rightarrow> a | Out_Of_Reach t \<Rightarrow> g t)"
  by (cases x) simp_all

lemma settle_slots_sends: "emits E (sends P) (settle_slots c slot oid n found)"
  by (induction n arbitrary: found)
    (simp_all, intro conjI impI emits_rules emits_each reads_send, auto simp: terminate_def intro!: emits_rules emits_each reads_send)

lemma self_membership_tears: "emits E (tears st) (ensure_self_membership c (rt_login st) p)"
  unfolding ensure_self_membership_def current_user_def grant_membership_def Let_def
  by (intro emits_rules) (simp_all add: self_grant_def ident_def)

lemma retire_login_tears: "created_of (rt_created st) ''login'' \<Longrightarrow> emits E (tears st) (retire_login c p (rt_login st))"
  unfolding retire_login_def suppress_failure_def terminate_role_sessions_def terminate_backend_def revoke_all_memberships_def
    drop_role_def drop_role_statement_def
  by (intro emits_rules self_membership_tears reads_send) (simp_all add: ident_def idents_def)

lemma clear_target_tears: "emits E (tears st) (clear_target st)"
  unfolding clear_target_def reach_def remove_subscription_def drop_subscription_def set_enabled_def Let_def
    drop_subscription_statement_def detach_statement_def
  by (intro emits_rules reads_send) (simp_all add: ident_def)

lemma remove_slots_tears: "emits E (tears (rb_status obj)) (remove_slots inst obj)"
proof -
  have c: "emits E (tears (rb_status obj)) (slot_credential obj inst (rt_login (rb_status obj)))"
    unfolding slot_credential_def login_password_def generate_password_def set_password_def Let_def
    by (intro emits_rules reads_send) (simp_all add: ident_def)
  have d: "emits E (tears (rb_status obj)) (drop_slots x names)" for x names
    unfolding drop_slots_def drop_slot_statement_def by (intro emits_each emits_rules) (simp add: literal_def)
  show ?thesis
    unfolding remove_slots_def released_slots_def with_slot_privilege_def slots_refused_def suppress_failure_def Let_def
    by (intro emits_rules reads_send settle_slots_sends self_membership_tears c d)
qed

lemma remove_source_tears: "emits E (tears st) (remove_source_objects inst st)"
proof -
  have l: "emits E (tears st) (remove_login c p st)" for c p
    unfolding remove_login_def revoke_membership_def Let_def
    by (intro emits_rules reads_send retire_login_tears) (auto simp: ident_def)
  show ?thesis
    unfolding remove_source_objects_def remove_publication_def drop_publication_def Let_def
    by (intro emits_rules reads_send l) (simp_all add: ident_def)
qed


fun drops_slot :: "composed \<Rightarrow> bool" where
  "drops_slot (Format t xs) = (t = ''SELECT pg_drop_replication_slot({})'')"
| "drops_slot _ = False"

abbreviation keeps_slots :: "event \<Rightarrow> bool" where
  "keeps_slots \<equiv> sends (\<lambda>s. \<not> drops_slot s)"

definition held_slots :: "env \<Rightarrow> bool" where
  "held_slots E \<longleftrightarrow> (\<forall>h c q. \<exists>found. says_slots E h c q = Inr found \<and> list_ex sl_active found)"

lemma slots_active: "held_slots E \<Longrightarrow> gives E (list_ex sl_active) (slots c n oid)"
  unfolding slots_def held_slots_def by (rule fetch_gives) (metis Inr_inject)

lemma settle_active: "held_slots E \<Longrightarrow> list_ex sl_active found \<Longrightarrow> gives E (list_ex sl_active) (settle_slots c n oid k found)"
proof (induction k arbitrary: found)
  case (Suc k)
  show ?case
    unfolding settle_slots.simps then_m_def
    by (rule gives_if, rule gives_ret, rule Suc.prems, rule gives_bindI [OF gives_True], rule gives_bindI [OF gives_True],
        rule gives_bindI [OF slots_active [OF Suc.prems(1)]], rule Suc.IH [OF Suc.prems(1)])
qed (simp add: gives_ret)

lemma released_none: "held_slots E \<Longrightarrow> list_ex sl_active found \<Longrightarrow> gives E (\<lambda>_. False) (released_slots inst c n oid login found)"
  unfolding released_slots_def then_m_def Let_def
  by (rule gives_bindI [OF gives_True], rule gives_bindI [OF settle_active], assumption, assumption)
    (auto simp: gives_raise list_ex_iff filter_empty_conv)



section \<open>The publication converges\<close>

text \<open>What a statement does to the set of published tables, and a list of events.\<close>

fun member_effect :: "composed \<Rightarrow> string list \<Rightarrow> string list" where
  "member_effect (Format t [p, Join s (Ident [schema, n] # rest)]) ms =
     (if t = ''ALTER PUBLICATION {} ADD TABLE {}'' then qualified_name schema n # ms else ms)"
| "member_effect (Format t [p, Ident [schema, n]]) ms =
     (if t = ''ALTER PUBLICATION {} DROP TABLE {}'' then removeAll (qualified_name schema n) ms else ms)"
| "member_effect s ms = ms"

fun members_after :: "event list \<Rightarrow> string list \<Rightarrow> string list" where
  "members_after [] ms = ms"
| "members_after (Executed c s True # es) ms = members_after es (member_effect s ms)"
| "members_after (e # es) ms = members_after es ms"

lemma members_after_append [simp]: "members_after (xs @ ys) ms = members_after ys (members_after xs ms)"
  by (induction xs ms rule: members_after.induct) simp_all

lemma member_effects [simp]:
  "member_effect (add_table_statement p schema n cols f) ms = qualified_name schema n # ms"
  "member_effect (drop_table_statement p schema n) ms = removeAll (qualified_name schema n) ms"
  by (simp_all add: add_table_statement_def table_spec_def drop_table_statement_def qualified_ident_def ident_def)

lemma partition_found: "d \<in> set s \<Longrightarrow> \<exists>a b. partition_at d s = (a, Some b) \<and> s = a @ d # b"
proof (induction s)
  case (Cons x s)
  show ?case
  proof (cases "x = d")
    case True then show ?thesis by auto
  next
    case False
    with Cons obtain a b where "partition_at d s = (a, Some b)" "s = a @ d # b" by auto
    with False show ?thesis by auto
  qed
qed simp

definition accepts :: "env \<Rightarrow> bool" where
  "accepts E \<longleftrightarrow> (\<forall>h c s. on_execute E h c s = None)"

lemma accepts_run: "accepts E \<Longrightarrow> execute c s E w = (Inr (), w\<lparr>trace := trace w @ [Executed c s True]\<rparr>)"
  by (simp add: accepts_def execute_def execute_as_def run_simps)

lemma remove_member_run:
  assumes "accepts E" "CHR ''.'' \<in> set t"
  shows "\<exists>r' es. remove_member c p r t E w = (Inr r', w\<lparr>trace := trace w @ es\<rparr>) \<and>
    (\<forall>ms. set (members_after es ms) = set ms - {t})"
proof -
  obtain a b where ab: "partition_at CHR ''.'' t = (a, Some b)" "t = a @ CHR ''.'' # b" using partition_found [OF assms(2)] by blast
  then have q: "qualified_name a b = t" by (simp add: qualified_name_def)
  show ?thesis
    by (auto simp: remove_member_def ab(1) drop_table_def run_simps accepts_run [OF assms(1)] q)
qed

lemma remove_members_run:
  assumes "accepts E" "\<forall>t \<in> set ts. CHR ''.'' \<in> set t"
  shows "\<exists>r' es. fold_m (remove_member c p) r ts E w = (Inr r', w\<lparr>trace := trace w @ es\<rparr>) \<and>
    (\<forall>ms. set (members_after es ms) = set ms - set ts)"
  using assms(2)
proof (induction ts arbitrary: r w)
  case Nil
  show ?case by (intro exI [of _ r] exI [of _ "[]"]) (simp add: run_simps)
next
  case (Cons t ts)
  from remove_member_run [OF assms(1), of t c p r w] Cons.prems obtain r1 e1 where
    1: "remove_member c p r t E w = (Inr r1, w\<lparr>trace := trace w @ e1\<rparr>)" "\<forall>ms. set (members_after e1 ms) = set ms - {t}"
    by auto
  from Cons.IH [of r1 "w\<lparr>trace := trace w @ e1\<rparr>"] Cons.prems obtain r2 e2 where
    2: "fold_m (remove_member c p) r1 ts E (w\<lparr>trace := trace w @ e1\<rparr>) = (Inr r2, w\<lparr>trace := trace w @ e1 @ e2\<rparr>)"
       "\<forall>ms. set (members_after e2 ms) = set ms - set ts"
    by auto
  show ?case
    by (intro exI [of _ r2] exI [of _ "e1 @ e2"]) (use 1 2 in \<open>auto simp: bind_run\<close>)
qed

text \<open>One verdict: a publishable table ends up in the publication, nothing else changes.\<close>

definition wanted_by :: "verdict \<Rightarrow> string set" where
  "wanted_by v = (if publishable v then {ca_qualified (vd_candidate v)} else {})"

lemma converge_table_run:
  assumes "accepts E"
  shows "\<exists>r' es. converge_table c p current recorded r v E w = (Inr r', w\<lparr>trace := trace w @ es\<rparr>) \<and>
    (\<forall>ms. (publishable v \<longrightarrow> map_of current (ca_qualified (vd_candidate v)) \<noteq> None \<longrightarrow> ca_qualified (vd_candidate v) \<in> set ms) \<longrightarrow>
       set (members_after es ms) = set ms \<union> wanted_by v)"
proof -
  let ?q = "ca_qualified (vd_candidate v)"
  have sh: "\<exists>r' es. shape_member c p upd (vd_candidate v) s E w = (Inr r', w\<lparr>trace := trace w @ es\<rparr>) \<and>
      (\<forall>ms. set (members_after es ms) = insert ?q (set ms))" for upd s
    by (cases upd) (auto simp: shape_member_def Let_def replace_table_def transaction_def add_table_def drop_table_def run_simps
        accepts_run [OF assms] ca_qualified_def)
  show ?thesis
  proof (cases "publishable v")
    case False
    then show ?thesis by (auto simp: converge_table_def Let_def run_simps wanted_by_def intro!: exI [of _ "[]"])
  next
    case True
    have "\<exists>r' es. (case map_of current ?q of None \<Rightarrow> shape_member c p False (vd_candidate v) s
        | Some member \<Rightarrow> if member_matches (sha_of E) (vd_candidate v) member x then ret_m s else shape_member c p True (vd_candidate v) s)
        E w = (Inr r', w\<lparr>trace := trace w @ es\<rparr>) \<and>
      (\<forall>ms. (map_of current ?q \<noteq> None \<longrightarrow> ?q \<in> set ms) \<longrightarrow> set (members_after es ms) = insert ?q (set ms))" for s x
    proof (cases "map_of current ?q")
      case None
      with sh [of False s] show ?thesis by auto
    next
      case (Some member)
      show ?thesis
      proof (cases "member_matches (sha_of E) (vd_candidate v) member x")
        case True
        with Some show ?thesis by (intro exI [of _ s] exI [of _ "[]"]) (auto simp: run_simps)
      next
        case False
        with Some sh [of True s] show ?thesis by auto
      qed
    qed
    then show ?thesis
      using True by (auto simp: converge_table_def Let_def run_simps wanted_by_def)
  qed
qed

lemma emits_at: "emits E P m \<Longrightarrow> \<exists>es. trace (snd (m E w)) = trace w @ es \<and> (\<forall>e \<in> set es. P e)"
  unfolding emits_def by blast

lemma converge_fold_run:
  assumes "accepts E"
  shows "\<exists>r' es. fold_m (converge_table c p current recorded) r vs E w = (Inr r', w\<lparr>trace := trace w @ es\<rparr>) \<and>
    (\<forall>ms. (\<forall>v \<in> set vs. publishable v \<longrightarrow> map_of current (ca_qualified (vd_candidate v)) \<noteq> None \<longrightarrow>
        ca_qualified (vd_candidate v) \<in> set ms) \<longrightarrow> set (members_after es ms) = set ms \<union> \<Union> (wanted_by ` set vs))"
proof (induction vs arbitrary: r w)
  case Nil
  show ?case by (intro exI [of _ r] exI [of _ "[]"]) (simp add: run_simps)
next
  case (Cons v vs)
  from converge_table_run [OF assms, of c p current recorded r v w] obtain r1 e1 where
    1: "converge_table c p current recorded r v E w = (Inr r1, w\<lparr>trace := trace w @ e1\<rparr>)"
       "\<And>ms. (publishable v \<Longrightarrow> map_of current (ca_qualified (vd_candidate v)) \<noteq> None \<Longrightarrow>
          ca_qualified (vd_candidate v) \<in> set ms) \<Longrightarrow> set (members_after e1 ms) = set ms \<union> wanted_by v"
    by blast
  from Cons.IH [of r1 "w\<lparr>trace := trace w @ e1\<rparr>"] obtain r2 e2 where
    2: "fold_m (converge_table c p current recorded) r1 vs E (w\<lparr>trace := trace w @ e1\<rparr>) = (Inr r2, w\<lparr>trace := trace w @ e1 @ e2\<rparr>)"
       "\<And>ms. (\<And>v. v \<in> set vs \<Longrightarrow> publishable v \<Longrightarrow> map_of current (ca_qualified (vd_candidate v)) \<noteq> None \<Longrightarrow>
          ca_qualified (vd_candidate v) \<in> set ms) \<Longrightarrow> set (members_after e2 ms) = set ms \<union> \<Union> (wanted_by ` set vs)"
    by auto
  show ?case
  proof (intro exI conjI allI impI)
    show "fold_m (converge_table c p current recorded) r (v # vs) E w = (Inr r2, w\<lparr>trace := trace w @ (e1 @ e2)\<rparr>)"
      using 1(1) 2(1) by (simp add: bind_run)
    fix ms
    assume all: "\<forall>v' \<in> set (v # vs). publishable v' \<longrightarrow> map_of current (ca_qualified (vd_candidate v')) \<noteq> None \<longrightarrow>
        ca_qualified (vd_candidate v') \<in> set ms"
    have a: "set (members_after e1 ms) = set ms \<union> wanted_by v" by (rule 1(2)) (use all in simp)
    have "set (members_after e2 (members_after e1 ms)) = set (members_after e1 ms) \<union> \<Union> (wanted_by ` set vs)"
      by (rule 2(2)) (use all a in auto)
    with a show "set (members_after (e1 @ e2) ms) = set ms \<union> \<Union> (wanted_by ` set (v # vs))" by auto
  qed
qed

lemma publication_keys_dotted: "gives E (\<lambda>p. \<forall>t \<in> set (dkeys (members_of_publication p)). CHR ''.'' \<in> set t) (get_publication c n)"
proof -
  have k: "set (dkeys (dupdate d es)) = set (dkeys d) \<union> fst ` set es" for d :: "(string \<times> published_table) list" and es
    by (induction es rule: rev_induct) (force simp: dupdate_def)+
  have "CHR ''.'' \<in> set t"
    if "t \<in> set (dkeys (dupdate [] (map (\<lambda>t. (qualified_name (mr_schema t) (mr_table t), f t)) ms)))" for t ms and f :: "member_row \<Rightarrow> published_table"
    using that unfolding k by (auto simp: qualified_name_def)
  then show ?thesis unfolding get_publication_def
    by (intro gives_bindI [OF gives_True])
      (auto simp: members_of_publication_def intro!: gives_ret gives_bindI [OF gives_True] split: option.split)
qed

lemma stays_publishable:
  assumes "distinct (map (\<lambda>v. ca_qualified (vd_candidate v)) verdicts)" "v \<in> set verdicts" "publishable v"
  shows "stays verdicts (ca_qualified (vd_candidate v))"
proof -
  have "map_of (rev (map (\<lambda>v. (ca_qualified (vd_candidate v), v)) verdicts)) (ca_qualified (vd_candidate v)) = Some v"
    by (rule map_of_is_SomeI) (use assms in \<open>auto simp: rev_map [symmetric] comp_def\<close>)
  then show ?thesis using assms(3) by (simp add: stays_def map_of_dupdate)
qed


definition sample_verdict :: verdict where
  "sample_verdict = \<lparr>vd_candidate = \<lparr>ca_schema = ''app'', ca_name = ''events'', ca_columns = [], ca_row_filter = None,
     ca_explicit = True\<rparr>, vd_issues = [], vd_warnings = []\<rparr>"

lemma converge_tables_empty_publication:
  assumes acc: "accepts E"
    and none: "\<And>n w. get_publication c n E w = (Inr None, w\<lparr>trace := trace w @ [Asked c (Q_Publication n)]\<rparr>)"
  shows "\<exists>r' u es. converge_tables c vs ex r E w = (Inr r', u) \<and>
    trace u = trace w @ Asked c (Q_Publication (rp_publication (lr_names r))) # es"
proof -
  let ?p = "rp_publication (lr_names r)"
  let ?w = "w\<lparr>trace := trace w @ [Asked c (Q_Publication ?p)]\<rparr>"
  let ?recs = "dupdate [] (map (\<lambda>e. (rf_table e, e)) (rt_row_filters ex))"
  obtain r1 e1 where f: "fold_m (converge_table c ?p [] ?recs) r vs E ?w =
      (Inr r1, ?w\<lparr>trace := (trace w @ [Asked c (Q_Publication ?p)]) @ e1\<rparr>)"
    using converge_fold_run [OF acc, of c ?p "[]" ?recs r vs ?w] by auto
  show ?thesis
    by (simp add: converge_tables_def Let_def bind_run none members_of_publication_def dkeys_def basic_run f)
qed


end
