(* ===== verification/StatusTypes.thy ===== *)
theory StatusTypes
  imports ApiDocuments
begin

text \<open>
  The status schemas of the four CustomResourceDefinitions (\<open>charts/pg-operator/crds\<close>) against what the operator writes.
  A structural schema rejects a value of another type and silently drops a field that a closed object does not
  declare, so a field the operator relies on would be lost. The laws say that every status patch fits its schema and
  that a status that fits goes on fitting, whatever is patched over it.
\<close>

section \<open>Schemas\<close>

text \<open>An object has its fields, the names among them that are required, and whether unknown fields are preserved.\<close>

datatype schema =
    S_Text
  | S_One_Of "string list"
  | S_Int
  | S_Bool
  | S_List schema
  | S_Map schema
  | S_Obj "(string \<times> schema) list" "string list" bool

text \<open>
  A document fits a schema. In a merge patch a member of an object may be null, which removes it; a list is replaced
  as a whole, so its elements have to fit as they are.
\<close>

fun fits :: "bool \<Rightarrow> schema \<Rightarrow> json \<Rightarrow> bool" where
  "fits p S_Text (J_Str s) = True"
| "fits p (S_One_Of ts) (J_Str s) = (s \<in> set ts)"
| "fits p S_Int (J_Int n) = True"
| "fits p S_Bool (J_Bool b) = True"
| "fits p (S_List s) (J_List xs) = (\<forall>x \<in> set xs. fits False s x)"
| "fits p (S_Map s) (J_Obj kvs) = (\<forall>(k, v) \<in> set kvs. (p \<and> v = J_Null) \<or> fits p s v)"
| "fits p (S_Obj fs req keep) (J_Obj kvs) =
     ((\<forall>(k, v) \<in> set kvs. (case map_of fs k of
          Some s \<Rightarrow> (p \<and> v = J_Null \<and> k \<notin> set req) \<or> fits p s v
        | None \<Rightarrow> keep \<and> k \<notin> set req)) \<and>
      set req \<subseteq> fst ` set kvs)"
| "fits p s j = False"

definition texts :: "string list \<Rightarrow> (string \<times> schema) list" where
  "texts = map (\<lambda>k. (k, S_Text))"

definition CONDITIONS_SCHEMA :: schema where
  "CONDITIONS_SCHEMA = S_List (S_Obj (texts [''type'', ''status'', ''reason'', ''message'', ''lastTransitionTime''] @
     [(''observedGeneration'', S_Int)]) [''type'', ''status''] False)"

definition NAMES_SCHEMA :: schema where
  "NAMES_SCHEMA = S_List S_Text"

definition REF_SCHEMA :: schema where
  "REF_SCHEMA = S_Obj (texts [''name'', ''namespace'']) [] False"

definition INSTANCE_STATUS :: schema where
  "INSTANCE_STATUS = S_Obj
     (texts [''phase'', ''endpoint'', ''credentialsSecret'', ''managingRole'', ''serverVersion'', ''serverVersionText'', ''privileges'',
        ''sslMode'', ''retentionPolicy'', ''lastConnectedAt''] @
      [(''observedGeneration'', S_Int), (''pushSecretsAvailable'', S_Bool), (''databases'', S_Int), (''users'', S_Int),
       (''logicalReplication'', S_Obj
          [(''walLevel'', S_Text), (''maxReplicationSlots'', S_Int), (''replicationSlotsInUse'', S_Int), (''maxWalSenders'', S_Int),
           (''maxSlotWalKeepSize'', S_Text), (''createSubscription'', S_One_Of [''Granted'', ''Assumed'', ''Unavailable'']),
           (''replicationGrant'', S_One_Of [''rds_replication'', ''attribute'', ''none'']), (''issues'', NAMES_SCHEMA)] [] False),
       (''conditions'', CONDITIONS_SCHEMA)]) [] True"

definition DATABASE_STATUS :: schema where
  "DATABASE_STATUS = S_Obj
     (texts [''phase'', ''instance'', ''endpoint'', ''databaseName'', ''retentionPolicy'', ''lastReconciledAt''] @
      [(''observedGeneration'', S_Int), (''schemaCount'', S_Int), (''extensionCount'', S_Int),
       (''roles'', S_Obj (texts [''owner'', ''readWrite'', ''readOnly'']) [] False)] @
      map (\<lambda>k. (k, NAMES_SCHEMA)) [''managedSchemas'', ''managedExtensions'', ''observedSchemas'', ''observedExtensions'', ''orphanedSchemas'',
        ''orphanedExtensions'', ''unmanagedSchemas'', ''unownedSchemas'', ''deniedParameters''] @
      [(''schemaGrants'', S_Map NAMES_SCHEMA), (''conditions'', CONDITIONS_SCHEMA)]) [] True"

definition USER_STATUS :: schema where
  "USER_STATUS = S_Obj
     (texts [''phase'', ''instance'', ''endpoint'', ''username'', ''retentionPolicy'', ''lastReconciledAt''] @
      [(''observedGeneration'', S_Int), (''grantCount'', S_Int),
       (''grants'', S_List (S_Obj (texts [''database'', ''role'', ''groupRole'', ''dbRef'']) [] False)),
       (''secretRef'', REF_SCHEMA), (''secretKeys'', NAMES_SCHEMA), (''pushSecretRef'', REF_SCHEMA),
       (''conditions'', CONDITIONS_SCHEMA)]) [] True"

definition ISSUES_SCHEMA :: schema where
  "ISSUES_SCHEMA = S_List (S_Obj (texts [''table'', ''reason'', ''message'']) [] False)"

definition HEALTH_SCHEMA :: schema where
  "HEALTH_SCHEMA = S_Obj
     (texts [''observedAt'', ''lag'', ''retainedWal'', ''walStatus'', ''inactiveSince'', ''lastMessageAt''] @
      map (\<lambda>k. (k, S_Int)) [''lagBytes'', ''retainedWalBytes'', ''safeWalSizeBytes'', ''applyErrorCount'', ''syncErrorCount''] @
      [(''slotActive'', S_Bool), (''workerRunning'', S_Bool), (''conflicts'', S_Map S_Int)]) [] False"

definition SOURCE_SCHEMA :: schema where
  "SOURCE_SCHEMA = S_Obj (texts [''instance'', ''database'', ''postgresDB'', ''display'', ''publication'', ''slot'', ''login'']) [] False"

definition TARGET_SCHEMA :: schema where
  "TARGET_SCHEMA = S_Obj (texts [''instance'', ''database'', ''postgresDB'', ''display'', ''subscription''] @
     [(''subscriptionOid'', S_Int)]) [] False"

definition TABLES_SCHEMA :: schema where
  "TABLES_SCHEMA = S_Obj (map (\<lambda>k. (k, S_Int)) [''published'', ''subscribed'', ''ready'', ''syncing'', ''excluded''] @
     [(''display'', S_Text)]) [] False"

definition CREDENTIALS_SCHEMA :: schema where
  "CREDENTIALS_SCHEMA = S_Obj (texts [''namespace'', ''name''] @ [(''generated'', S_Bool)]) [] False"

definition CREATED_SCHEMA :: schema where
  "CREATED_SCHEMA = S_Obj (map (\<lambda>k. (k, S_Bool)) [''login'', ''secret'', ''publication'', ''slot'', ''subscription'']) [] False"

definition FILTERS_SCHEMA :: schema where
  "FILTERS_SCHEMA = S_List (S_Obj (texts [''table'', ''specHash'', ''applied'']) [] False)"

definition SUBSCRIBED_SCHEMA :: schema where
  "SUBSCRIBED_SCHEMA = S_List (S_Obj (texts [''table'', ''state'']) [] False)"

definition REPLICATION_FIELDS :: "(string \<times> schema) list" where
  "REPLICATION_FIELDS =
     texts [''phase'', ''replicationState'', ''lastReconciledAt'', ''connectionFingerprint''] @
     [(''observedGeneration'', S_Int), (''source'', SOURCE_SCHEMA), (''target'', TARGET_SCHEMA), (''tables'', TABLES_SCHEMA),
      (''credentialsSecret'', CREDENTIALS_SCHEMA), (''created'', CREATED_SCHEMA), (''grantedMemberships'', NAMES_SCHEMA),
      (''publishedTables'', NAMES_SCHEMA), (''excludedTables'', ISSUES_SCHEMA), (''tableWarnings'', ISSUES_SCHEMA),
      (''rowFilters'', FILTERS_SCHEMA), (''health'', HEALTH_SCHEMA), (''subscribedTables'', SUBSCRIBED_SCHEMA),
      (''conditions'', CONDITIONS_SCHEMA)]"

definition REPLICATION_STATUS :: schema where
  "REPLICATION_STATUS = S_Obj REPLICATION_FIELDS [] True"

section \<open>A merge patch keeps the type\<close>

abbreviation merge_step :: "(string \<times> json) list \<Rightarrow> string \<times> json \<Rightarrow> (string \<times> json) list" where
  "merge_step \<equiv> \<lambda>acc (k, v). if v = J_Null then ddel acc k
     else dset acc k (merge_json (case map_of acc k of Some x \<Rightarrow> x | None \<Rightarrow> J_Null) v)"

lemma set_dset: "set (dset d k v) \<subseteq> insert (k, v) (set d)"
  by (induction d k v rule: dset.induct) auto

lemma set_ddel: "set (ddel d k) \<subseteq> set d"
  by (auto simp: ddel_def)

lemma merged_members:
  assumes "\<And>k v t. (k, v) \<in> set ps \<Longrightarrow> v \<noteq> J_Null \<Longrightarrow> t = J_Null \<or> Q k t \<Longrightarrow> Q k (merge_json t v)"
    and "\<forall>(k, v) \<in> set acc. Q k v"
  shows "\<forall>(k, v) \<in> set (foldl merge_step acc ps). Q k v"
  using assms
proof (induction ps arbitrary: acc)
  case (Cons p ps)
  obtain k v where p: "p = (k, v)" by (cases p)
  have acc: "\<forall>(k, v) \<in> set (merge_step acc p). Q k v"
  proof (cases "v = J_Null")
    case True
    then show ?thesis using Cons.prems(2) set_ddel [of acc k] by (auto simp: p)
  next
    case False
    let ?t = "case map_of acc k of Some x \<Rightarrow> x | None \<Rightarrow> J_Null"
    have "?t = J_Null \<or> Q k ?t" using Cons.prems(2) by (auto dest: map_of_SomeD split: option.split)
    then have "Q k (merge_json ?t v)" using Cons.prems(1) [of k v ?t] False p by simp
    then show ?thesis using Cons.prems(2) set_dset [of acc k "merge_json ?t v"] False by (fastforce simp: p)
  qed
  have rest: "(k, v) \<in> set ps \<Longrightarrow> v \<noteq> J_Null \<Longrightarrow> t = J_Null \<or> Q k t \<Longrightarrow> Q k (merge_json t v)" for k v t
    using Cons.prems(1) by simp
  show ?case using Cons.IH [OF rest acc] by simp
qed simp

lemma merged_keys:
  assumes "(k, J_Null) \<notin> set ps" "k \<in> fst ` set acc \<or> k \<in> fst ` set ps"
  shows "k \<in> fst ` set (foldl merge_step acc ps)"
  using assms
proof (induction ps arbitrary: acc)
  case (Cons p ps)
  obtain q v where p: "p = (q, v)" by (cases p)
  have set: "fst ` set (dset acc q x) = insert q (fst ` set acc)" for x
    using set_dkeys_dset [of acc q x] by (simp add: dkeys_def)
  have del: "fst ` set (ddel acc q) = fst ` set acc - {q}" by (auto simp: ddel_def)
  have "k \<in> fst ` set (merge_step acc p) \<or> k \<in> fst ` set ps"
    using Cons.prems by (auto simp: p set del)
  with Cons.IH [of "merge_step acc p"] Cons.prems(1) show ?case by simp
qed simp

lemma merge_obj: "merge_json t (J_Obj ps) = J_Obj (foldl merge_step (case t of J_Obj kvs \<Rightarrow> kvs | _ \<Rightarrow> []) ps)"
  by simp

lemma fits_null [simp]: "\<not> fits p s J_Null"
  by (cases s) simp_all

lemma fits_scalar:
  assumes "fits p s v" "\<forall>kvs. v \<noteq> J_Obj kvs"
  shows "fits False s (merge_json t v)"
proof (cases v)
  case (J_List xs)
  then show ?thesis using assms(1) by (cases s) simp_all
qed (use assms in \<open>cases s; simp\<close>)+

definition member_fits :: "bool \<Rightarrow> (string \<times> schema) list \<Rightarrow> string list \<Rightarrow> bool \<Rightarrow> string \<Rightarrow> json \<Rightarrow> bool" where
  "member_fits p fs req keep k v = (case map_of fs k of
      Some s \<Rightarrow> (p \<and> v = J_Null \<and> k \<notin> set req) \<or> fits p s v
    | None \<Rightarrow> keep \<and> k \<notin> set req)"

lemma fits_obj:
  "fits p (S_Obj fs req keep) (J_Obj kvs) \<longleftrightarrow> (\<forall>(k, v) \<in> set kvs. member_fits p fs req keep k v) \<and> set req \<subseteq> fst ` set kvs"
  unfolding member_fits_def by simp

lemma fits_obj_cases: "fits p (S_Obj fs req keep) t \<Longrightarrow> \<exists>kvs. t = J_Obj kvs"
  by (cases t) simp_all

lemma fits_map_cases: "fits p (S_Map e) t \<Longrightarrow> \<exists>kvs. t = J_Obj kvs"
  by (cases t) simp_all

lemma fits_merged_obj:
  assumes patch: "fits True (S_Obj fs req keep) (J_Obj ps)" and acc: "\<forall>(k, v) \<in> set acc. member_fits False fs req keep k v"
    and deep: "\<And>k v s t. (k, v) \<in> set ps \<Longrightarrow> fits True s v \<Longrightarrow> t = J_Null \<or> fits False s t \<Longrightarrow> fits False s (merge_json t v)"
  shows "fits False (S_Obj fs req keep) (J_Obj (foldl merge_step acc ps))"
proof -
  have member: "member_fits True fs req keep k v" if "(k, v) \<in> set ps" for k v
    using patch that unfolding fits_obj by auto
  have "\<forall>(k, v) \<in> set (foldl merge_step acc ps). member_fits False fs req keep k v"
  proof (rule merged_members [OF _ acc])
    show "member_fits False fs req keep k (merge_json u v)"
      if "(k, v) \<in> set ps" "v \<noteq> J_Null" "u = J_Null \<or> member_fits False fs req keep k u" for k v u
      using member [OF that(1)] deep [OF that(1)] that(2,3) by (cases "map_of fs k") (auto simp: member_fits_def)
  qed
  moreover have "k \<in> fst ` set (foldl merge_step acc ps)" if k: "k \<in> set req" for k
  proof (rule merged_keys)
    show "(k, J_Null) \<notin> set ps" using member [of k J_Null] k by (auto simp: member_fits_def split: option.splits)
    show "k \<in> fst ` set acc \<or> k \<in> fst ` set ps" using patch k unfolding fits_obj by auto
  qed
  ultimately show ?thesis unfolding fits_obj by blast
qed

lemma fits_merged_map:
  assumes patch: "fits True (S_Map e) (J_Obj ps)" and acc: "\<forall>(k, v) \<in> set acc. fits False e v"
    and deep: "\<And>k v t. (k, v) \<in> set ps \<Longrightarrow> fits True e v \<Longrightarrow> t = J_Null \<or> fits False e t \<Longrightarrow> fits False e (merge_json t v)"
  shows "fits False (S_Map e) (J_Obj (foldl merge_step acc ps))"
proof -
  have "\<forall>(k, v) \<in> set (foldl merge_step acc ps). fits False e v"
  proof (rule merged_members [OF _ acc])
    show "fits False e (merge_json u v)" if "(k, v) \<in> set ps" "v \<noteq> J_Null" "u = J_Null \<or> fits False e u" for k v u
      using deep [OF that(1)] patch that by auto
  qed
  then show ?thesis by simp
qed

lemma fits_merged: "fits True s v \<Longrightarrow> t = J_Null \<or> fits False s t \<Longrightarrow> fits False s (merge_json t v)"
proof (induction v arbitrary: s t)
  case (J_Obj ps)
  have deep: "fits True s v \<Longrightarrow> t = J_Null \<or> fits False s t \<Longrightarrow> fits False s (merge_json t v)" if "(k, v) \<in> set ps" for k v s t
    using J_Obj.IH [of "(k, v)" v s t] that by (simp add: snds.intros)
  show ?case
  proof (cases s)
    case (S_Map e)
    have "\<forall>(k, v) \<in> set (case t of J_Obj kvs \<Rightarrow> kvs | _ \<Rightarrow> []). fits False e v"
      using J_Obj.prems(2) fits_map_cases [of False e t] by (auto simp: S_Map)
    note fits_merged_map [OF J_Obj.prems(1) [unfolded S_Map] this]
    with deep show ?thesis unfolding merge_obj S_Map by blast
  next
    case (S_Obj fs req keep)
    have "\<forall>(k, v) \<in> set (case t of J_Obj kvs \<Rightarrow> kvs | _ \<Rightarrow> []). member_fits False fs req keep k v"
      using J_Obj.prems(2) fits_obj_cases [of False fs req keep t] unfolding S_Obj by (auto simp del: fits.simps simp: fits_obj)
    note fits_merged_obj [OF J_Obj.prems(1) [unfolded S_Obj] this]
    with deep show ?thesis unfolding merge_obj S_Obj by blast
  qed (use J_Obj.prems(1) in simp_all)
qed (rule fits_scalar; simp)+

section \<open>Conditions\<close>

definition typed_condition :: "condition \<Rightarrow> bool" where
  "typed_condition c \<longleftrightarrow> c_type c \<noteq> None \<and> c_status c \<noteq> None"

lemma typed_mk [simp]: "typed_condition (mk_condition now t s r m g)"
  by (simp add: typed_condition_def mk_condition_def)

lemma typed_constructors [simp]:
  "typed_condition (ready n m g)" "typed_condition (not_ready n r m g)" "typed_condition (reachable n m g)"
  "typed_condition (unreachable n r m g)" "typed_condition (synced n m g)" "typed_condition (not_synced n r m g)"
  "typed_condition (drifted n m g r)" "typed_condition (no_drift n g)"
  by (simp_all add: constructor_defs)

lemma dupdate_set: "set (dupdate d es) \<subseteq> set d \<union> set es"
proof (induction es rule: rev_induct)
  case (snoc e es)
  obtain k v where "e = (k, v)" by (cases e)
  then show ?case using snoc.IH set_dset [of "dupdate d es" k v] by (auto simp: dupdate_snoc)
qed simp

lemma typed_merge_one:
  assumes "\<forall>(k, c) \<in> set d. typed_condition c" "typed_condition u"
  shows "\<forall>(k, c) \<in> set (merge_one d u). typed_condition c"
  using assms set_dset unfolding merge_one_def by (fastforce simp: typed_condition_def split: option.splits if_splits)

lemma typed_merge:
  assumes "list_all typed_condition existing" "list_all typed_condition updates"
  shows "list_all typed_condition (merge_conditions existing updates)"
proof -
  let ?typed = "\<lambda>d. \<forall>(k, c) \<in> set d. typed_condition c"
  have "?typed (by_type existing)"
    using assms(1) dupdate_set [of "[]" "map (\<lambda>c. (type_key c, c)) existing"] by (fastforce simp: by_type_def list_all_iff)
  moreover have "?typed d \<Longrightarrow> list_all typed_condition us \<Longrightarrow> ?typed (foldl merge_one d us)" for d us
  proof (induction us arbitrary: d)
    case (Cons u us)
    then show ?case using typed_merge_one [of d u] by simp
  qed simp
  ultimately have t: "?typed (foldl merge_one (by_type existing) updates)" using assms(2) by blast
  have "typed_condition (the (map_of d t))" if "?typed d" "t \<in> set (dkeys d)" for d t
    using that by (metis (no_types, lifting) case_prodD dkeys_iff map_of_SomeD option.collapse)
  with t show ?thesis by (auto simp: merge_conditions_def ordered_values_eq list_all_iff)
qed

lemma condition_fits:
  assumes "typed_condition c"
  shows "fits False (S_Obj (texts [''type'', ''status'', ''reason'', ''message'', ''lastTransitionTime''] @
     [(''observedGeneration'', S_Int)]) [''type'', ''status''] False) (condition_json c)"
  using assms unfolding condition_json_def fits_obj
  by (auto simp: typed_condition_def member_if_def member_fits_def texts_def split: option.splits)

lemma conditions_fit:
  assumes "list_all typed_condition cs"
  shows "fits p CONDITIONS_SCHEMA (J_List (map condition_json cs))"
  using assms condition_fits unfolding CONDITIONS_SCHEMA_def by (auto simp: list_all_iff simp del: fits.simps(7))

section \<open>Status patches\<close>

lemma names_fit [simp]: "fits p NAMES_SCHEMA (J_List (map J_Str xs))" "fits p NAMES_SCHEMA (j_names xs)"
  by (simp_all add: NAMES_SCHEMA_def j_names_def)

lemma members_fit:
  assumes "map_of fs ''observedGeneration'' = Some S_Int" "map_of fs ''conditions'' = Some CONDITIONS_SCHEMA"
    "map_of fs ''phase'' = Some S_Text" "list_all typed_condition (sp_conditions p)"
    "list_all (\<lambda>(k, v). member_fits True fs [] True k v) (sp_details p)"
  shows "fits True (S_Obj fs [] True) (J_Obj (status_members p))"
  using assms conditions_fit [OF assms(4), of True] unfolding fits_obj by (auto simp: status_members_def member_fits_def list_all_iff)

lemma database_status_fits:
  assumes "list_all typed_condition existing"
  shows "fits True DATABASE_STATUS (J_Obj (status_members (build_status r inst existing g now)))"
  unfolding DATABASE_STATUS_def
proof (rule members_fit)
  show "list_all typed_condition (sp_conditions (build_status r inst existing g now))"
    by (auto simp: build_status_def Let_def reported_conditions_def drift_condition_def sync_condition_def
      intro!: typed_merge assms split: prod.split)
qed (simp_all add: texts_def build_status_def Let_def status_details_def member_fits_def case_prod_unfold)

lemma user_status_fits:
  assumes "list_all typed_condition existing"
  shows "fits True USER_STATUS (J_Obj (status_members (build_user_status r inst existing g now)))"
  unfolding USER_STATUS_def
proof (rule members_fit)
  show "list_all typed_condition (sp_conditions (build_user_status r inst existing g now))"
    by (auto simp: build_user_status_def Let_def user_conditions_def intro!: typed_merge assms)
qed (auto simp: texts_def build_user_status_def Let_def user_details_def member_fits_def grant_json_def REF_SCHEMA_def split: option.split)

lemma replication_parts_fit:
  "fits True SOURCE_SCHEMA (source_status r)" "fits True TARGET_SCHEMA (target_status r)" "fits True TABLES_SCHEMA (tables_json r)"
  "fits True CREDENTIALS_SCHEMA (credentials_json l)" "fits True HEALTH_SCHEMA (health_json h)"
  "fits True ISSUES_SCHEMA (J_List (map entry_json es))" "fits True FILTERS_SCHEMA (J_List (map filter_json fs))"
  "fits True SUBSCRIBED_SCHEMA (J_List (map (\<lambda>(t, st). J_Obj [(''table'', J_Str t), (''state'', J_Str st)]) ts))"
proof -
  show "fits True SOURCE_SCHEMA (source_status r)"
    by (simp add: SOURCE_SCHEMA_def texts_def source_status_def end_status_def)
  show "fits True TARGET_SCHEMA (target_status r)"
    by (simp add: TARGET_SCHEMA_def texts_def target_status_def end_status_def split: option.split)
  show "fits True TABLES_SCHEMA (tables_json r)" by (simp add: TABLES_SCHEMA_def tables_json_def)
  show "fits True CREDENTIALS_SCHEMA (credentials_json l)"
    by (cases l) (simp_all add: CREDENTIALS_SCHEMA_def texts_def credentials_json_def)
  have opt: "optional J_Str a = J_Null \<or> fits True S_Text (optional J_Str a)" "optional J_Int n = J_Null \<or> fits True S_Int (optional J_Int n)"
    "optional J_Bool b = J_Null \<or> fits True S_Bool (optional J_Bool b)" for a n b
    by (simp_all add: optional_def split: option.split)
  show "fits True HEALTH_SCHEMA (health_json h)"
    unfolding HEALTH_SCHEMA_def fits_obj
    by (simp add: texts_def health_json_def member_fits_def opt) (auto simp: optional_def split: option.split)
  show "fits True ISSUES_SCHEMA (J_List (map entry_json es))" by (simp add: ISSUES_SCHEMA_def texts_def entry_json_def)
  show "fits True FILTERS_SCHEMA (J_List (map filter_json fs))" by (simp add: FILTERS_SCHEMA_def texts_def filter_json_def)
  show "fits True SUBSCRIBED_SCHEMA (J_List (map (\<lambda>(t, st). J_Obj [(''table'', J_Str t), (''state'', J_Str st)]) ts))"
    by (simp add: SUBSCRIBED_SCHEMA_def texts_def case_prod_unfold)
qed

definition CREATED_KEYS :: "string set" where
  "CREATED_KEYS = {''login'', ''secret'', ''publication'', ''slot'', ''subscription''}"

lemma created_fits: "set (map fst created) \<subseteq> CREATED_KEYS \<Longrightarrow> fits True CREATED_SCHEMA (created_json created)"
  by (fastforce simp: created_json_def CREATED_SCHEMA_def CREATED_KEYS_def)

lemma replication_members:
  "map_of REPLICATION_FIELDS ''phase'' = Some S_Text" "map_of REPLICATION_FIELDS ''replicationState'' = Some S_Text"
  "map_of REPLICATION_FIELDS ''lastReconciledAt'' = Some S_Text" "map_of REPLICATION_FIELDS ''connectionFingerprint'' = Some S_Text"
  "map_of REPLICATION_FIELDS ''observedGeneration'' = Some S_Int" "map_of REPLICATION_FIELDS ''source'' = Some SOURCE_SCHEMA"
  "map_of REPLICATION_FIELDS ''target'' = Some TARGET_SCHEMA" "map_of REPLICATION_FIELDS ''tables'' = Some TABLES_SCHEMA"
  "map_of REPLICATION_FIELDS ''credentialsSecret'' = Some CREDENTIALS_SCHEMA" "map_of REPLICATION_FIELDS ''created'' = Some CREATED_SCHEMA"
  "map_of REPLICATION_FIELDS ''grantedMemberships'' = Some NAMES_SCHEMA" "map_of REPLICATION_FIELDS ''publishedTables'' = Some NAMES_SCHEMA"
  "map_of REPLICATION_FIELDS ''excludedTables'' = Some ISSUES_SCHEMA" "map_of REPLICATION_FIELDS ''tableWarnings'' = Some ISSUES_SCHEMA"
  "map_of REPLICATION_FIELDS ''rowFilters'' = Some FILTERS_SCHEMA" "map_of REPLICATION_FIELDS ''health'' = Some HEALTH_SCHEMA"
  "map_of REPLICATION_FIELDS ''subscribedTables'' = Some SUBSCRIBED_SCHEMA" "map_of REPLICATION_FIELDS ''conditions'' = Some CONDITIONS_SCHEMA"
  by (simp_all add: REPLICATION_FIELDS_def texts_def)

lemma created_status_fits:
  assumes "set (map fst (lr_created r)) \<subseteq> CREATED_KEYS"
  shows "list_all (\<lambda>(k, v). member_fits True REPLICATION_FIELDS [] True k v) (created_status r)"
  using replication_parts_fit created_fits [OF assms]
  by (simp add: created_status_def member_fits_def replication_members)

lemma replication_status_fits:
  assumes "list_all typed_condition existing" "set (map fst (lr_created r)) \<subseteq> CREATED_KEYS"
  shows "fits True REPLICATION_STATUS (J_Obj (status_members (build_repl_status r existing g now)))"
  unfolding REPLICATION_STATUS_def
proof (rule members_fit)
  show "list_all typed_condition (sp_conditions (build_repl_status r existing g now))"
    by (auto simp: build_repl_status_def Let_def repl_conditions_def streaming_condition_def intro!: typed_merge assms(1) split: option.split)
next
  have optional: "member_fits True REPLICATION_FIELDS [] True ''replicationState'' (optional (\<lambda>a. J_Str (state_text (as_state a))) x)"
    "member_fits True REPLICATION_FIELDS [] True ''health'' (optional (\<lambda>a. health_json (as_health a)) x)" for x
    by (cases x; simp add: member_fits_def optional_def replication_members replication_parts_fit)+
  show "list_all (\<lambda>(k, v). member_fits True REPLICATION_FIELDS [] True k v) (sp_details (build_repl_status r existing g now))"
    using created_status_fits [OF assms(2)] replication_parts_fit optional [of "lr_assessment r"]
    by (simp add: build_repl_status_def Let_def repl_details_def created_status_def del: map_append)
      (simp add: member_fits_def replication_members del: map_append)
qed (simp_all add: replication_members)

lemma logical_fits:
  "fits p (S_Obj
     [(''walLevel'', S_Text), (''maxReplicationSlots'', S_Int), (''replicationSlotsInUse'', S_Int), (''maxWalSenders'', S_Int),
      (''maxSlotWalKeepSize'', S_Text), (''createSubscription'', S_One_Of [''Granted'', ''Assumed'', ''Unavailable'']),
      (''replicationGrant'', S_One_Of [''rds_replication'', ''attribute'', ''none'']), (''issues'', NAMES_SCHEMA)] [] False) (logical_status i)"
  by (cases "li_create_subscription i"; cases "li_replication_grant i"; simp add: logical_status_def NAMES_SCHEMA_def)

definition typed_result :: "instance_result \<Rightarrow> bool" where
  "typed_result r \<longleftrightarrow> list_all typed_condition (ir_conditions r) \<and> fits True INSTANCE_STATUS (J_Obj (ir_status r))"

lemma unreachable_typed: "typed_result (unreachable_result obj spec credentials e now)"
  by (simp add: typed_result_def unreachable_result_def Let_def INSTANCE_STATUS_def texts_def)

lemma details_typed:
  "fits True INSTANCE_STATUS (J_Obj (instance_details spec credentials server ds us now @
     (case available of None \<Rightarrow> [] | Some b \<Rightarrow> [(''pushSecretsAvailable'', J_Bool b)]) @
     (case info of None \<Rightarrow> [] | Some i \<Rightarrow> [(''logicalReplication'', logical_status i)])))"
  using logical_fits [of True] unfolding INSTANCE_STATUS_def fits_obj
  by (auto simp: instance_details_def texts_def member_fits_def simp del: fits.simps(7) split: option.split)

lemma reached_typed: "gives E typed_result (reached_result obj spec credentials inst)"
proof -
  have "list_all typed_condition (reached_conditions s ds us g now @ [warning_condition ws g later])" for s ds us g now ws later
    by (simp add: reached_conditions_def warning_condition_def)
  then show ?thesis
    unfolding reached_result_def Let_def using details_typed
    by (intro gives_bindI [OF gives_True]) (auto intro!: gives_bindI [OF gives_True] gives_ret simp: typed_result_def)
qed

lemma reconcile_instance_typed: "gives E typed_result (reconcile_instance obj)"
  unfolding reconcile_instance_def Let_def
  by (auto simp: unreachable_typed reached_typed split: sum.split
    intro!: gives_raise gives_ret gives_bindI [OF gives_True])

lemma instance_status_fits:
  assumes "typed_result r" "list_all typed_condition existing"
  shows "fits True INSTANCE_STATUS (J_Obj (status_members (build_instance_status r existing)))"
proof -
  obtain fs where fs: "INSTANCE_STATUS = S_Obj fs [] True" "map_of fs ''observedGeneration'' = Some S_Int"
      "map_of fs ''conditions'' = Some CONDITIONS_SCHEMA" "map_of fs ''phase'' = Some S_Text"
    by (simp add: INSTANCE_STATUS_def texts_def)
  show ?thesis
    unfolding fs(1)
  proof (rule members_fit [OF fs(2-4)])
    show "list_all typed_condition (sp_conditions (build_instance_status r existing))"
      using assms by (simp add: build_instance_status_def Let_def typed_result_def typed_merge)
    have "\<forall>(k, v) \<in> set (ir_status r). member_fits True fs [] True k v"
      using assms(1) unfolding typed_result_def fs(1) fits_obj by blast
    then show "list_all (\<lambda>(k, v). member_fits True fs [] True k v) (sp_details (build_instance_status r existing))"
      by (auto simp: build_instance_status_def Let_def list_all_iff)
  qed
qed

text \<open>A failure and a pause are reported in the same way on all four kinds.\<close>

definition STATUS_SCHEMAS :: "schema list" where
  "STATUS_SCHEMAS = [INSTANCE_STATUS, DATABASE_STATUS, USER_STATUS, REPLICATION_STATUS]"

lemma common_status_fits:
  assumes "s \<in> set STATUS_SCHEMAS" "list_all typed_condition (bo_conditions b)"
  shows "fits True s (J_Obj (status_members (failure_patch b e now)))" "fits True s (J_Obj (status_members (paused_patch b now)))"
proof -
  obtain fs where fs: "s = S_Obj fs [] True" "map_of fs ''observedGeneration'' = Some S_Int" "map_of fs ''phase'' = Some S_Text"
      "map_of fs ''conditions'' = Some CONDITIONS_SCHEMA" "map_of fs ''lastReconciledAt'' \<in> {None, Some S_Text}"
    using assms(1) by (auto simp: STATUS_SCHEMAS_def INSTANCE_STATUS_def DATABASE_STATUS_def USER_STATUS_def REPLICATION_STATUS_def
      replication_members texts_def)
  show "fits True s (J_Obj (status_members (failure_patch b e now)))"
    unfolding fs(1) using assms(2) fs(5)
    by (intro members_fit fs) (auto simp: failure_patch_def failure_conditions_def Let_def member_fits_def intro!: typed_merge)
  show "fits True s (J_Obj (status_members (paused_patch b now)))"
    unfolding fs(1) using assms(2)
    by (intro members_fit fs) (auto simp: paused_patch_def Let_def intro!: typed_merge)
qed


definition typed_names :: replication_names_t where
  "typed_names = \<lparr>rp_publication = ''pgop_a'', rp_subscription = ''pgop_a'', rp_login = ''pgop_repl_a'', rp_secret = ''pgop-repl.a''\<rparr>"

definition typed_sample :: repl_result where
  "typed_sample = new_repl_result sample_end sample_end typed_names [(''slot'', True)] []"


end
