(* ===== verification/ReplicationOutcomes.thy ===== *)
theory ReplicationOutcomes
  imports ReplicationLaws StatusTypes
begin

text \<open>
  What is left of a pass over a PostgresReplication: of one that failed, its own error and the health of the slot; of one
  that ends, a status whose marks are all known to the schema of the resource.
\<close>

section \<open>A failed pass\<close>

text \<open>What the observation after a failure may do: read, publish gauges, and write two fields of this resource's status.\<close>

definition observes :: "repl_obj \<Rightarrow> event \<Rightarrow> bool" where
  "observes obj ev \<longleftrightarrow> read_only ev \<or> (\<exists>namespace details. ev = K8s (K_Merge_Status PLURAL_REPLICATION namespace (rb_name obj) details) \<and>
     map fst details = [''health'', ''replicationState''])"

lemma observes_read: "emits E read_only m \<Longrightarrow> emits E (observes obj) m"
  by (erule emits_mono) (simp add: observes_def)

lemma observation_reads:
  "emits E read_only (observe_source st)" "emits E read_only (observe_target st oid)"
proof -
  have or_none: "emits E read_only m \<Longrightarrow> emits E read_only (or_none m)" for m
    unfolding or_none_def by (intro emits_rules)
  show "emits E read_only (observe_source st)"
    unfolding observe_source_def by (intro or_none emits_rules read_only_context read_only_server_reads)
  show "emits E read_only (observe_target st oid)"
    unfolding observe_target_def by (intro or_none emits_rules read_only_context read_only_server_reads)
qed

lemma observe_from_status_reads: "emits E read_only (observe_from_status obj)"
  unfolding observe_from_status_def Let_def by (intro emits_rules observation_reads)

lemma observe_anyway_observes: "emits E (observes obj) (observe_anyway obj)"
proof -
  have "emits E (observes obj) (publish_metrics (rb_namespace obj) (rb_name obj) a tables)" for a tables
    unfolding publish_metrics_def by (intro emits_rules) (auto simp: observes_def split: prod.splits intro!: emits_tell)
  then show ?thesis
    unfolding observe_anyway_def merge_status_def
    by (intro emits_rules observes_read [OF observe_from_status_reads]) (simp_all add: observes_def)
qed

lemma observe_anyway_returns: "\<exists>u. observe_anyway obj E w = (Inr (), u)"
  unfolding observe_anyway_def catch_m_def ret_m_def by (auto simp: instance_of_def split: prod.splits sum.splits)

text \<open>
  C28. A failed pass is never masked. Whatever the observation that follows it meets - servers that are down, a spec that is
  invalid, a status that cannot be written - the pass fails with the error it failed with; and that observation only
  reads, publishes gauges and writes the health and the state of this replication, so no condition is touched by it.
\<close>

theorem failed_pass_still_observed:
  assumes "reconcile_replication obj E w = (Inl e, u)"
  shows "\<exists>v es. replication_pass obj E w = (Inl e, v) \<and> trace v = trace u @ es \<and> list_all (observes obj) es"
proof -
  obtain v where v: "observe_anyway obj E u = (Inr (), v)" using observe_anyway_returns by blast
  obtain es where "trace v = trace u @ es" "\<forall>ev \<in> set es. observes obj ev" using emits_runD [OF observe_anyway_observes v] by blast
  moreover have "replication_pass obj E w = (Inl e, v)"
    by (simp add: replication_pass_def bind_run catch_run then_run assms v basic_run instance_of_def)
  ultimately show ?thesis by (auto simp: list_all_iff)
qed

text \<open>A replication whose spec the validation refuses.\<close>

definition refused_repl :: repl_obj where
  "refused_repl = sample_repl\<lparr>rb_spec := Inl (Err Value_Error ''bad'')\<rparr>"

theorem failed_pass_still_observed_witness:
  "\<exists>e v es. replication_pass refused_repl sample_env empty_world = (Inl e, v) \<and> trace v = es \<and> list_all (observes refused_repl) es"
proof -
  have "\<exists>e. reconcile_replication refused_repl sample_env empty_world = (Inl e, empty_world)"
    by (simp add: reconcile_replication_def resolve_replication_def parse_replication_def refused_repl_def parse_replication_spec_def
      model_validate_def Let_def run_simps instance_of_def)
  then obtain e where "reconcile_replication refused_repl sample_env empty_world = (Inl e, empty_world)" by blast
  from failed_pass_still_observed [OF this] show ?thesis by (auto simp: empty_world_def)
qed

section \<open>The marks of what was created\<close>

definition known :: "repl_result \<Rightarrow> bool" where
  "known r \<longleftrightarrow> set (map fst (lr_created r)) \<subseteq> CREATED_KEYS"

lemma known_mark [simp]: "k \<in> CREATED_KEYS \<Longrightarrow> known r \<Longrightarrow> known (mark_created k b r)"
  using set_dkeys_dset [of "lr_created r" k b] by (auto simp: known_def mark_created_def dkeys_def)

lemma known_same: "lr_created s = lr_created r \<Longrightarrow> known r \<Longrightarrow> known s"
  by (simp add: known_def)

lemma known_keys [simp]:
  "''login'' \<in> CREATED_KEYS" "''secret'' \<in> CREATED_KEYS" "''publication'' \<in> CREATED_KEYS" "''slot'' \<in> CREATED_KEYS" "''subscription'' \<in> CREATED_KEYS"
  by (simp_all add: CREATED_KEYS_def)

lemma known_updates [simp]:
  "known (changed_to m r) \<longleftrightarrow> known r" "known (r\<lparr>lr_login := a\<rparr>) \<longleftrightarrow> known r" "known (r\<lparr>lr_password := a\<rparr>) \<longleftrightarrow> known r"
  "known (r\<lparr>lr_credentials := c\<rparr>) \<longleftrightarrow> known r" "known (r\<lparr>lr_granted := g\<rparr>) \<longleftrightarrow> known r" "known (r\<lparr>lr_published := g\<rparr>) \<longleftrightarrow> known r"
  "known (r\<lparr>lr_excluded := x\<rparr>) \<longleftrightarrow> known r" "known (r\<lparr>lr_kept := x\<rparr>) \<longleftrightarrow> known r" "known (r\<lparr>lr_warnings := x\<rparr>) \<longleftrightarrow> known r"
  "known (r\<lparr>lr_row_filters := f\<rparr>) \<longleftrightarrow> known r" "known (r\<lparr>lr_subscription_oid := i\<rparr>) \<longleftrightarrow> known r" "known (r\<lparr>lr_enabled := e\<rparr>) \<longleftrightarrow> known r"
  "known (r\<lparr>lr_fingerprint := a\<rparr>) \<longleftrightarrow> known r" "known (r\<lparr>lr_subscribed := t\<rparr>) \<longleftrightarrow> known r" "known (r\<lparr>lr_assessment := q\<rparr>) \<longleftrightarrow> known r"
  "known (r\<lparr>lr_source_server := a\<rparr>) \<longleftrightarrow> known r" "known (r\<lparr>lr_target_server := a\<rparr>) \<longleftrightarrow> known r"
  by (simp_all add: known_def changed_to_def)

lemma known_grant: "known r \<Longrightarrow> gives E known (grant_group c g u p r)"
  by (rule gives_mono [OF grant_keeps]) (auto intro: known_same)

lemma known_publication: "known r \<Longrightarrow> gives E (\<lambda>(made, s). known s) (ensure_publication c spec r marker)"
  unfolding ensure_publication_def gives_def Let_def
  by (auto simp: run_simps split: prod.splits sum.splits option.splits if_splits)

lemma known_adopt: "known r \<Longrightarrow> gives E known (adopt_provided_login c ref ns r)"
  unfolding adopt_provided_login_def gives_def Let_def
  by (auto simp: run_simps split: prod.splits sum.splits option.splits list.splits if_splits)

lemma known_generated:
  assumes "known r"
  shows "gives E known (ensure_generated_login c info ns n marker r)"
proof -
  have c: "gives E known (converge_generated_login c info l marker stored pw r)" for l stored pw
    unfolding converge_generated_login_def gives_def using assms
    by (auto simp: run_simps split: prod.splits sum.splits if_splits)
  show ?thesis
    unfolding ensure_generated_login_def Let_def
    by (rule gives_if, rule gives_raise, rule gives_bindI [OF gives_True], rule gives_bindI [OF gives_True],
        rule gives_bindI [OF gives_True], rule gives_bindI [OF c], rule gives_bindI [where Q = known])
      (auto intro!: known_grant gives_if gives_bindI [OF gives_True] gives_ret split: if_splits)
qed

lemma known_login:
  assumes "known r"
  shows "gives E known (ensure_login c spec info ns n marker grp prev r)"
proof -
  have s: "gives E known
      (case re_credentials spec of Some ref \<Rightarrow> adopt_provided_login c ref ns (r\<lparr>lr_granted := []\<rparr>)
       | None \<Rightarrow> ensure_generated_login c info ns n marker (r\<lparr>lr_granted := []\<rparr>))"
    using known_adopt [of "r\<lparr>lr_granted := []\<rparr>"] known_generated [of "r\<lparr>lr_granted := []\<rparr>"] assms by (simp split: option.split)
  show ?thesis unfolding ensure_login_def Let_def by (rule gives_bindI [OF s], rule known_grant) simp
qed

lemma known_prepare:
  assumes "known r"
  shows "gives E (\<lambda>(s, t). known t) (prepare obj src dst rd i j grp r)"
proof -
  note skip = gives_bindI [OF gives_True]
  show ?thesis
    unfolding prepare_def Let_def then_m_def
    by (rule skip, rule skip, rule skip, rule skip, rule skip, rule skip, rule skip, rule gives_bindI [OF known_publication [OF assms]],
        clarify, rule skip, rule gives_bindI [OF known_login], assumption, rule skip, rule gives_ret, simp)
qed

lemma known_tables:
  assumes "known r"
  shows "gives E known (converge_tables c verdicts existing r)"
proof -
  have rm: "gives E known (remove_member c n s t)" if "known s" for n s t
    unfolding remove_member_def gives_def using that by (auto simp: run_simps split: prod.splits sum.splits option.splits)
  have sh: "gives E known (shape_member c n upd cand s)" if "known s" for n upd cand s
    by (rule gives_mono [OF shape_keeps]) (auto intro: known_same that)
  have ct: "gives E known (converge_table c n cur recs s v)" if "known s" for n cur recs s v
    unfolding converge_table_def Let_def held_back_def
    by (intro gives_if gives_ret gives_bindI [OF gives_True]) (auto simp: that split: option.split intro!: sh gives_ret)
  show ?thesis
    unfolding converge_tables_def Let_def
    by (rule gives_bindI [OF gives_True], rule gives_bindI [OF fold_gives [where Q = known]], erule rm, rule assms,
        rule gives_bindI [OF fold_gives [where Q = known]], erule ct, assumption)
      (intro gives_bindI [OF gives_True] gives_ret, simp)
qed

lemma known_slot:
  assumes "known r"
  shows "gives E known (ensure_slot obj src inst r)"
proof -
  have o: "gives E known (obtain_slot src inst r)" by (rule gives_mono [OF obtain_slot_keeps]) (auto intro: known_same assms)
  show ?thesis
    unfolding ensure_slot_def then_m_def Let_def
    by (rule gives_bindI [OF o]) (auto intro!: gives_if gives_ret gives_bindI [OF gives_True])
qed

lemma known_subscription:
  assumes "known r"
  shows "gives E known (converge_subscription obj src dst spec subscription published inst marker r)"
proof -
  note skip = gives_bindI [OF gives_True]
  have make: "gives E known (make_subscription obj src dst spec inst info marker r)" for info
    unfolding make_subscription_def Let_def then_m_def
    by (rule gives_bindI [OF known_slot [OF assms]], rule skip, rule skip)
      (auto intro!: gives_raise gives_ret skip split: option.split)
  have adjust: "gives E known (adjust_subscription dst spec s st info mark r)" for s st info mark
    unfolding adjust_subscription_def Let_def then_m_def
    by (rule gives_bindI [where Q = known], (auto intro!: gives_if gives_ret skip simp: assms)[1],
        rule gives_bindI [where Q = known]) (auto intro!: gives_if gives_ret skip)
  have refresh: "gives E known (refresh_tables dst spec inst published oid s)" if "known s" for oid s
    unfolding refresh_tables_def then_m_def using that by (auto intro!: skip gives_if gives_ret)
  show ?thesis
    unfolding converge_subscription_def
    by (rule skip, rule skip, rule gives_bindI [where Q = known]) (auto intro!: make adjust refresh split: option.split)
qed

lemma known_superseded:
  assumes "known r"
  shows "gives E known (remove_superseded_login c existing per prev r)"
proof -
  have role: "gives E known (remove_superseded_role c existing per prev r)"
    unfolding remove_superseded_role_def gives_def Let_def using assms
    by (auto simp: run_simps split: prod.splits sum.splits if_splits)
  have secret: "gives E known (remove_superseded_secret existing s)" if "known s" for s
    unfolding remove_superseded_secret_def gives_def Let_def using that
    by (auto simp: run_simps split: prod.splits sum.splits if_splits option.splits)
  show ?thesis
    unfolding remove_superseded_login_def by (auto intro!: gives_if gives_ret gives_bindI [OF role] secret simp: assms)
qed

lemma known_observe: "known r \<Longrightarrow> gives E known (observe_health obj src dst spec r)"
  unfolding observe_health_def by (intro gives_bindI [OF gives_True] gives_ret) simp

text \<open>
  C12. A pass marks as created only what the schema of \<open>status.created\<close> declares, so no mark is dropped by the API server: when
  the recorded marks are such, a pass that ends returns such marks, and the status built from it fits the schema.
\<close>

theorem created_marks_survive:
  assumes "set (map fst (rt_created (rb_status obj))) \<subseteq> CREATED_KEYS" "list_all typed_condition existing"
  shows "gives E (\<lambda>l. set (map fst (lr_created l)) \<subseteq> CREATED_KEYS \<and>
    fits True REPLICATION_STATUS (J_Obj (status_members (build_repl_status l existing g now)))) (reconcile_replication obj)"
proof (rule gives_mono [where Q = known])
  note skip = gives_bindI [OF gives_True]
  have new: "known ((new_repl_result s t n (rt_created (rb_status obj)) gs)\<lparr>lr_source_server := a, lr_target_server := b\<rparr>)" for s t n gs a b
    using assms(1) by (simp add: new_repl_result_def known_def)
  show "gives E known (reconcile_replication obj)"
    unfolding reconcile_replication_def Let_def then_m_def
    by (rule skip, rule skip, rule skip, rule skip, rule skip, rule skip, rule skip, rule skip, rule skip,
        rule gives_bindI [OF known_prepare [OF new]], clarify, rule skip, rule gives_bindI [OF known_tables], assumption,
        rule skip, rule gives_bindI [OF known_subscription], assumption, rule gives_bindI [OF known_superseded], assumption,
        rule known_observe)
qed (use assms(2) replication_status_fits in \<open>auto simp: known_def\<close>)

theorem created_marks_survive_witness:
  "gives sample_env (\<lambda>l. set (map fst (lr_created l)) \<subseteq> CREATED_KEYS) (reconcile_replication sample_repl)"
proof -
  have "set (map fst (rt_created (rb_status sample_repl))) \<subseteq> CREATED_KEYS" by (simp add: sample_repl_def sample_repl_status_def CREATED_KEYS_def)
  from created_marks_survive [OF this, of "[]"] show ?thesis by (auto simp: gives_def)
qed

end
