(* ===== verification/ReplicationSteady.thy ===== *)
theory ReplicationSteady
  imports ReplicationOutcomes Steady
begin

text \<open>
  The steady state of a PostgresReplication: when both servers, the Secret and the recorded status already say what the spec
  asks for, a pass reads and changes nothing - no statement on either server, no write to Kubernetes.
\<close>

section \<open>What both sides say of a converged replication\<close>

text \<open>What the pass finds: the spec, the login with its password, and where the subscription connects to.\<close>

record steady =
  sy_spec :: replication_spec
  sy_login :: string
  sy_password :: string
  sy_host :: string
  sy_port :: int
  sy_instance :: string                        \<comment> \<open>of the source\<close>
  sy_database :: string                        \<comment> \<open>of the source\<close>
  sy_tables :: "string set"                    \<comment> \<open>carried by the subscription\<close>

definition publication_settled :: "env \<Rightarrow> steady \<Rightarrow> bool" where
  "publication_settled E s \<longleftrightarrow>
     (\<forall>h c n. \<exists>row. says_publication E h c (Q_Publication n) = Inr (Some row) \<and>
        set (operations_of row) = set (re_publish (sy_spec s)) \<and> pn_via_root row = re_via_root (sy_spec s))"

definition streaming_of_row :: "subscription_row \<Rightarrow> string" where
  "streaming_of_row row = (case map_of STREAMING (sn_substream row) of Some t \<Rightarrow> t | None \<Rightarrow> sn_substream row)"

text \<open>An option the spec leaves out may have any value.\<close>

definition asked_for :: "'a option \<Rightarrow> 'a \<Rightarrow> bool" where
  "asked_for wanted actual \<longleftrightarrow> wanted = None \<or> wanted = Some actual"

definition subscription_settled :: "env \<Rightarrow> steady \<Rightarrow> bool" where
  "subscription_settled E s \<longleftrightarrow>
     (\<forall>h c n. \<exists>row. says_subscription E h c (Q_Subscription n) = Inr (Some row) \<and> sn_enabled row = re_enabled (sy_spec s) \<and>
        asked_for (re_binary (sy_spec s)) (sn_binary row) \<and>
        asked_for (map_option streaming_text (re_streaming (sy_spec s))) (streaming_of_row row)) \<and>
     (\<forall>h c oid. \<exists>ts. says_pairs E h c (Q_Subscribed_Tables oid) = Inr ts \<and> fst ` set ts = sy_tables s) \<and>
     (\<forall>h c n. \<exists>ps. says_names E h c (Q_Published_Relations n) = Inr ps \<and> set ps = sy_tables s)"

definition role_settled :: "env \<Rightarrow> string \<Rightarrow> bool" where
  "role_settled E login \<longleftrightarrow>
     (\<exists>st. (\<forall>h c. says_role E h c (Q_Role login) = Inr (Some st)) \<and> rs_can_login st \<and> rs_inherit st \<and> rs_connection_limit st = -1 \<and>
        (rs_replication st \<or> (\<forall>h c. says_bool E h c Q_Rds_Replication_Known = Inr True \<and> says_bool E h c Q_Can_Grant_Rds_Replication = Inr True))) \<and>
     (\<forall>h c. says_bool E h c (Q_Valid_Until_Unset login) = Inr True)"

text \<open>A generated login: its Secret holds the password under the labels of this replication.\<close>

definition generated_settled :: "env \<Rightarrow> repl_obj \<Rightarrow> steady \<Rightarrow> bool" where
  "generated_settled E obj s \<longleftrightarrow>
     created_of (rt_created (rb_status obj)) ''login'' \<and> created_of (rt_created (rb_status obj)) ''secret'' \<and> role_settled E (sy_login s) \<and>
     (\<exists>loc sec bs. rt_credentials (rb_status obj) = Some loc \<and> cs_name loc \<noteq> [] \<and>
        (\<forall>h. says_secret E h (operator_namespace E) (cs_name loc) = Inr sec) \<and>
        map_of (secret_data sec) ''password'' = Some bs \<and> bs \<noteq> [] \<and> utf8_decode bs = Some (sy_password s) \<and>
        secret_matches sec (managed_body [(''username'', sy_login s), (''password'', sy_password s)]
          (managed_labels KIND_REPLICATION (rb_name obj) (rb_namespace obj) (Some (sy_instance s)) []) []))"

text \<open>A login of the user's own, named by the Secret of \<open>credentialsSecretRef\<close>.\<close>

definition provided_settled :: "env \<Rightarrow> repl_obj \<Rightarrow> steady \<Rightarrow> credentials_ref \<Rightarrow> bool" where
  "provided_settled E obj s ref \<longleftrightarrow>
     map_of (rt_created (rb_status obj)) ''login'' = Some False \<and> map_of (rt_created (rb_status obj)) ''secret'' = Some False \<and>
     (\<exists>sec user bs. (\<forall>h. says_secret E h (resolve_namespace (cr_namespace ref) (rb_namespace obj)) (cr_name ref) = Inr sec) \<and>
        map_of (secret_data sec) (cr_username_key ref) = Some user \<and> map_option py_strip (utf8_decode user) = Some (sy_login s) \<and>
        map_of (secret_data sec) (cr_password_key ref) = Some bs \<and> utf8_decode bs = Some (sy_password s))"

definition login_settled :: "env \<Rightarrow> repl_obj \<Rightarrow> steady \<Rightarrow> bool" where
  "login_settled E obj s \<longleftrightarrow>
     rt_login (rb_status obj) = sy_login s \<and> sy_login s \<noteq> [] \<and>
     (\<forall>h c g p. says_bool E h c (Q_Has_Role (sy_login s) g p) = Inr True) \<and>
     (case re_credentials (sy_spec s) of None \<Rightarrow> generated_settled E obj s | Some ref \<Rightarrow> provided_settled E obj s ref)"

text \<open>A member as the candidate wants it: its columns, and the row filter that an earlier pass recorded for the same spec.\<close>

definition as_wanted :: "(string \<Rightarrow> string) \<Rightarrow> candidate \<Rightarrow> published_table \<Rightarrow> recorded_filter option \<Rightarrow> bool" where
  "as_wanted sha c member recorded \<longleftrightarrow>
     (case pt_columns member of None \<Rightarrow> ca_columns c = [] | Some cols \<Rightarrow> ca_columns c \<noteq> [] \<and> set cols = set (ca_columns c)) \<and>
     (case ca_row_filter c of None \<Rightarrow> pt_row_filter member = None
      | Some f \<Rightarrow> recorded = Some \<lparr>rf_table = ca_qualified c, rf_spec_hash = take 16 (sha (canonical f)),
                             rf_applied = or_text (pt_row_filter member) []\<rparr>)"

text \<open>The members: every one is to stay, and every publishable table is a member of the wanted shape.\<close>

definition in_shape :: "(string \<Rightarrow> string) \<Rightarrow> repl_status \<Rightarrow> verdict list \<Rightarrow> (string \<times> published_table) list \<Rightarrow> bool" where
  "in_shape sha existing verdicts members \<longleftrightarrow>
     list_all (stays verdicts) (dkeys members) \<and>
     list_all (\<lambda>v. publishable v \<longrightarrow> (case map_of members (ca_qualified (vd_candidate v)) of None \<Rightarrow> False
        | Some member \<Rightarrow> as_wanted sha (vd_candidate v) member
            (map_of (dupdate [] (map (\<lambda>e. (rf_table e, e)) (rt_row_filters existing))) (ca_qualified (vd_candidate v))))) verdicts"

text \<open>What resolving finds: the spec, the source, where to connect, and verdicts that fit the members.\<close>

definition source_settled :: "env \<Rightarrow> repl_obj \<Rightarrow> steady \<Rightarrow> resolved_replication \<Rightarrow> bool" where
  "source_settled E obj s rd \<longleftrightarrow>
     rd_spec rd = sy_spec s \<and> en_instance (rd_source rd) = sy_instance s \<and> en_database (rd_source rd) = sy_database s \<and>
     gives E (\<lambda>i. connection_host (sy_spec s) i = sy_host s \<and> connection_port (sy_spec s) i = sy_port s)
       (resolve_instance (sy_instance s) (rb_namespace obj)) \<and>
     (\<forall>src dst i groups sub r. lr_login r = sy_login s \<longrightarrow>
        gives E (\<lambda>vs. \<forall>c n. gives E (\<lambda>p. in_shape (sha_of E) (rb_status obj) vs (members_of_publication p)) (get_publication c n))
          (judge_tables obj src dst rd i groups sub r))"

definition settled :: "env \<Rightarrow> repl_obj \<Rightarrow> steady \<Rightarrow> bool" where
  "settled E obj s \<longleftrightarrow>
     publication_settled E s \<and> subscription_settled E s \<and> login_settled E obj s \<and> gives E (source_settled E obj s) (resolve_replication obj) \<and>
     created_of (rt_created (rb_status obj)) ''publication'' \<and>
     rt_fingerprint (rb_status obj) = Some (take 16 (sha_of E (make_conninfo E (conninfo_params (sy_host s) (sy_port s) (sy_database s)
       (sy_login s) (sy_password s) (ssl_text (rc_ssl_mode (re_connection (sy_spec s)))) (rc_ssl_root_cert_path (re_connection (sy_spec s)))))))"

section \<open>Each step\<close>

lemma mark_same: "map_of (lr_created r) k = Some b \<Longrightarrow> mark_created k b r = r"
  by (simp add: mark_created_def dset_same)

lemma settled_publication:
  assumes "publication_settled E s"
  shows "gives E (\<lambda>p. \<exists>x. p = Some x \<and> set (pu_operations x) = set (re_publish (sy_spec s)) \<and> pu_via_root x = re_via_root (sy_spec s))
    (get_publication c n)"
proof -
  have row: "\<exists>row. x = Some row \<and> set (operations_of row) = set (re_publish (sy_spec s)) \<and> pn_via_root row = re_via_root (sy_spec s)"
    if "says_publication E h c (Q_Publication n) = Inr x" for h x
    using assms that unfolding publication_settled_def by (metis Inr_inject)
  show ?thesis unfolding get_publication_def
    by (intro gives_bindI [OF fetch_gives]) (erule row, auto intro!: gives_bindI [OF gives_True] gives_ret)
qed

lemma steady_publication:
  assumes "publication_settled E s" "created_of (lr_created r) ''publication''"
  shows "emits E read_only (ensure_publication c (sy_spec s) r marker)"
    "gives E (\<lambda>(made, t). \<not> made \<and> t = r) (ensure_publication c (sy_spec s) r marker)"
proof -
  have same: "mark_created ''publication'' True r = r" using assms(2) by (simp add: mark_same created_of_def)
  show "emits E read_only (ensure_publication c (sy_spec s) r marker)"
    unfolding ensure_publication_def Let_def
    by (rule emits_bind_gives [OF read_only_server_reads(2) settled_publication [OF assms(1)]]) (auto simp: emits_ret)
  show "gives E (\<lambda>(made, t). \<not> made \<and> t = r) (ensure_publication c (sy_spec s) r marker)"
    unfolding ensure_publication_def Let_def
    by (rule gives_bindI [OF settled_publication [OF assms(1)]]) (auto simp: same intro!: gives_ret)
qed

lemma steady_grant:
  assumes "\<And>h. says_bool E h c (Q_Has_Role member g p) = Inr True"
  shows "emits E read_only (grant_group c g member p r)" "gives E (\<lambda>t. t = r) (grant_group c g member p r)"
  unfolding grant_group_def
  by (rule emits_bind_gives [OF emits_fetch says_truth [OF assms]], simp, simp add: emits_ret)
    (rule gives_bindI [OF says_truth [OF assms]], simp add: gives_ret)

text \<open>The role of a generated login: asked about twice, and left alone.\<close>

lemma settled_role:
  assumes "role_settled E login" "li_replication_grant info = Grant_Attribute \<longrightarrow> (\<exists>st. (\<forall>h. says_role E h c (Q_Role login) = Inr (Some st)) \<and> rs_replication st)"
  shows "emits E read_only (ensure_login_role c login (Some pw) (generated_attributes info) (-1) None)"
    "gives E (\<lambda>created. \<not> created) (ensure_login_role c login (Some pw) (generated_attributes info) (-1) None)"
proof -
  obtain st where st: "\<And>h c. says_role E h c (Q_Role login) = Inr (Some st)" "rs_can_login st" "rs_inherit st" "rs_connection_limit st = -1"
    and valid: "\<And>h c. says_bool E h c (Q_Valid_Until_Unset login) = Inr True"
    using assms(1) unfolding role_settled_def by blast
  have rep: "li_replication_grant info = Grant_Attribute \<Longrightarrow> rs_replication st" using assms(2) st(1) by auto
  have run: "ensure_login_role c login (Some pw) (generated_attributes info) (-1) None E w =
      (Inr False, w\<lparr>trace := trace w @ [Asked c (Q_Role login), Asked c (valid_until_query login None)]\<rparr>)" for w
    by (rule converged_login_role_untouched [OF st(1)])
      (auto simp: generated_attributes_def observed_attributes_def st rep valid valid_until_query_def split: if_splits)
  show "emits E read_only (ensure_login_role c login (Some pw) (generated_attributes info) (-1) None)"
    unfolding emits_def by (simp add: run valid_until_query_def)
  show "gives E (\<lambda>created. \<not> created) (ensure_login_role c login (Some pw) (generated_attributes info) (-1) None)"
    unfolding gives_def by (simp add: run)
qed

text \<open>What a server can do, as far as the login is concerned.\<close>

definition may_stream :: "env \<Rightarrow> string \<Rightarrow> logical_info \<Rightarrow> bool" where
  "may_stream E login info \<longleftrightarrow> li_replication_grant info \<noteq> Grant_Attribute \<or> (\<exists>st. (\<forall>h c. says_role E h c (Q_Role login) = Inr (Some st)) \<and> rs_replication st)"

lemma settled_logical:
  assumes "role_settled E login"
  shows "gives E (may_stream E login) (describe_logical_replication c server)"
proof -
  consider (attribute) st where "\<forall>h c. says_role E h c (Q_Role login) = Inr (Some st)" "rs_replication st"
    | (rds) "\<And>h c. says_bool E h c Q_Rds_Replication_Known = Inr True" "\<And>h c. says_bool E h c Q_Can_Grant_Rds_Replication = Inr True"
    using assms unfolding role_settled_def by blast
  then show ?thesis
  proof cases
    case attribute
    then have "may_stream E login info" for info unfolding may_stream_def by blast
    then show ?thesis by (simp add: gives_def)
  next
    case rds
    have known: "gives E (\<lambda>b. b = True) (fetch says_bool c Q_Rds_Replication_Known)"
      "gives E (\<lambda>b. b = True) (fetch says_bool c Q_Can_Grant_Rds_Replication)"
      by (rule says_truth, rule rds)+
    have grants: "gives E (\<lambda>g. g = Grant_Rds_Replication) (replication_grant_m c server b)" for b
      unfolding replication_grant_m_def
      by (rule gives_bindI [OF known(1)]) (auto intro!: gives_bindI [OF known(2)] gives_ret)
    show ?thesis
      unfolding describe_logical_replication_def
      by (rule gives_bindI [OF gives_True], simp split: option.split, intro conjI allI impI, rule gives_raise,
          rule gives_bindI [OF gives_True], rule gives_bindI [OF grants]) (auto intro: gives_ret simp: may_stream_def)
  qed
qed

text \<open>The login of the pass: the recorded one, with nothing newly marked or granted.\<close>

definition login_kept :: "steady \<Rightarrow> repl_result \<Rightarrow> repl_result \<Rightarrow> bool" where
  "login_kept s r t \<longleftrightarrow> lr_login t = sy_login s \<and> lr_password t = sy_password s \<and> lr_created t = lr_created r \<and> lr_source t = lr_source r \<and>
     lr_names t = lr_names r"

lemma attribute_or:
  "li_replication_grant info \<noteq> Grant_Attribute \<or> (\<exists>st. (\<forall>h c. says_role E h c q = Inr (Some st)) \<and> P st) \<Longrightarrow>
   li_replication_grant info = Grant_Attribute \<longrightarrow> (\<exists>st. (\<forall>h. says_role E h c q = Inr (Some st)) \<and> P st)"
  by auto

lemma steady_generated:
  assumes "generated_settled E obj s" "lr_created r = rt_created (rb_status obj)" "rp_login (lr_names r) = sy_login s"
    "\<And>loc. rt_credentials (rb_status obj) = Some loc \<Longrightarrow> rp_secret (lr_names r) = cs_name loc"
    "en_instance (lr_source r) = sy_instance s" "may_stream E (sy_login s) info"
    "\<And>h c g p. says_bool E h c (Q_Has_Role (sy_login s) g p) = Inr True"
  shows "emits E read_only (ensure_generated_login c info (rb_namespace obj) (rb_name obj) marker r)"
    "gives E (\<lambda>t. login_kept s r t \<and> lr_granted t = lr_granted r) (ensure_generated_login c info (rb_namespace obj) (rb_name obj) marker r)"
proof -
  obtain sec bs where marks: "map_of (lr_created r) ''login'' = Some True" "map_of (lr_created r) ''secret'' = Some True"
    and role: "role_settled E (sy_login s)"
    and sec: "\<And>h. says_secret E h (operator_namespace E) (rp_secret (lr_names r)) = Inr sec"
    and bs: "map_of (secret_data sec) ''password'' = Some bs" "bs \<noteq> []" "utf8_decode bs = Some (sy_password s)"
    and same: "secret_matches sec (managed_body [(''username'', sy_login s), (''password'', sy_password s)]
          (managed_labels KIND_REPLICATION (rb_name obj) (rb_namespace obj) (Some (sy_instance s)) []) [])"
    using assms(1,2,4) unfolding generated_settled_def created_of_def by metis
  have stored: "gives E (\<lambda>x. x = Some bs)
      (catch_m ReferenceNotFound (bind_m (read_secret (operator_namespace E) (rp_secret (lr_names r))) (\<lambda>d. ret_m (map_of d ''password''))) (\<lambda>_. ret_m None))"
    by (simp add: gives_def run_simps read_secret_run [OF sec] bs)
  have asked: "gives E (\<lambda>ns. ns = operator_namespace E) (asks operator_namespace)" by (rule gives_asks) simp
  have converge: "emits E read_only (converge_generated_login c info (rp_login (lr_names r)) marker (Some bs) pw r)"
      "gives E (\<lambda>t. t = r) (converge_generated_login c info (rp_login (lr_names r)) marker (Some bs) pw r)" for pw
  proof -
    note kept = settled_role [OF role assms(6) [unfolded may_stream_def, THEN attribute_or], of c]
    show "emits E read_only (converge_generated_login c info (rp_login (lr_names r)) marker (Some bs) pw r)"
      unfolding converge_generated_login_def assms(3) by (rule emits_bind_gives [OF kept]) (simp add: emits_ret)
    show "gives E (\<lambda>t. t = r) (converge_generated_login c info (rp_login (lr_names r)) marker (Some bs) pw r)"
      unfolding converge_generated_login_def assms(3) by (rule gives_bindI [OF kept(2)]) (simp add: gives_ret)
  qed
  have grant: "emits E read_only (grant_group c ''rds_replication'' (sy_login s) ''MEMBER'' t)"
      "gives E (\<lambda>u. u = t) (grant_group c ''rds_replication'' (sy_login s) ''MEMBER'' t)" for t
    by (rule steady_grant, rule assms(7))+
  note secret = steady_secret [OF sec same]
  let ?t = "r\<lparr>lr_login := sy_login s, lr_password := sy_password s\<rparr>"
  have t: "mark_created ''login'' True r\<lparr>lr_login := sy_login s, lr_password := sy_password s\<rparr> = ?t"
    by (simp add: mark_same marks)
  have src: "en_instance (lr_source ?t) = sy_instance s" by (simp add: assms(5))
  have u: "mark_created ''secret'' True ?t = ?t" by (simp add: mark_same marks)
  have password: "gives E (\<lambda>p. p = sy_password s) (decode_m bs)" "emits E read_only (decode_m bs)"
    by (rule reads_text, rule bs) (rule read_only_objects)
  have maybe: "emits E read_only (if g then grant_group c ''rds_replication'' (sy_login s) ''MEMBER'' ?t else ret_m ?t)"
      "gives E (\<lambda>x. x = ?t) (if g then grant_group c ''rds_replication'' (sy_login s) ''MEMBER'' ?t else ret_m ?t)" for g
    using grant by (simp_all add: emits_ret gives_ret)
  show "emits E read_only (ensure_generated_login c info (rb_namespace obj) (rb_name obj) marker r)"
    unfolding ensure_generated_login_def Let_def
    apply (rule emits_if, rule emits_raise)
    apply (rule emits_bind_eq [OF emits_asks asked])
    apply (rule emits_bind_eq [OF _ stored])
     apply (intro emits_rules read_only_objects)
    apply (simp add: bs)
    apply (rule emits_bind_eq [OF password(2,1)])
    apply (rule emits_bind_eq [OF converge])
    apply (simp only: assms(3) t)
    apply (rule emits_bind_eq [OF maybe])
    apply (simp only: src)
    apply (rule emits_bind_eq [OF secret])
    apply (simp add: emits_ret)
    done
  show "gives E (\<lambda>t. login_kept s r t \<and> lr_granted t = lr_granted r) (ensure_generated_login c info (rb_namespace obj) (rb_name obj) marker r)"
    unfolding ensure_generated_login_def Let_def
    apply (rule gives_if, rule gives_raise)
    apply (rule gives_bind_eq [OF asked])
    apply (rule gives_bind_eq [OF stored])
    apply (simp add: bs)
    apply (rule gives_bind_eq [OF password(1)])
    apply (rule gives_bind_eq [OF converge(2)])
    apply (simp only: assms(3) t)
    apply (rule gives_bind_eq [OF maybe(2)])
    apply (simp only: src)
    apply (rule gives_bind_eq [OF secret(2)])
    apply (simp add: u login_kept_def gives_ret)
    done
qed

lemma adopt_reads: "emits E read_only (adopt_provided_login c ref ns r)"
  unfolding adopt_provided_login_def Let_def by (intro emits_rules repl_reads read_only_objects)

lemma steady_provided:
  assumes "provided_settled E obj s ref" "lr_created r = rt_created (rb_status obj)"
  shows "gives E (\<lambda>t. login_kept s r t \<and> lr_granted t = lr_granted r) (adopt_provided_login c ref (rb_namespace obj) r)"
proof -
  obtain sec user bs name where marks: "map_of (lr_created r) ''login'' = Some False" "map_of (lr_created r) ''secret'' = Some False"
    and sec: "\<And>h. says_secret E h (resolve_namespace (cr_namespace ref) (rb_namespace obj)) (cr_name ref) = Inr sec"
    and user: "map_of (secret_data sec) (cr_username_key ref) = Some user" "utf8_decode user = Some name" "py_strip name = sy_login s"
    and bs: "map_of (secret_data sec) (cr_password_key ref) = Some bs" "utf8_decode bs = Some (sy_password s)"
    using assms unfolding provided_settled_def by auto
  have same: "mark_created ''secret'' False (mark_created ''login'' False (r\<lparr>lr_login := l, lr_password := p, lr_credentials := q\<rparr>)) =
      r\<lparr>lr_login := l, lr_password := p, lr_credentials := q\<rparr>" for l p q
    by (simp add: mark_same marks)
  show ?thesis
    unfolding adopt_provided_login_def Let_def
    apply (rule gives_bind_eq [OF reads_secret [OF sec]])
    apply (simp only: user bs option.sel)
    apply (simp split: list.split, intro conjI allI impI gives_raise)
    apply (rule gives_bind_eq [OF reads_text [OF user(2)]])
    apply (rule gives_bindI [OF gives_True], simp split: option.split, intro conjI allI impI gives_raise)
    apply ((rule gives_bindI [OF gives_True], rule gives_if, rule gives_raise)?, rule gives_bind_eq [OF reads_text [OF bs(2)]],
        simp add: same user(3) login_kept_def gives_ret)+
    done
qed

text \<open>The names a pass uses are those that status records for what was generated.\<close>

definition names_recorded :: "repl_status \<Rightarrow> replication_names_t \<Rightarrow> bool" where
  "names_recorded st names \<longleftrightarrow>
     (created_of (rt_created st) ''login'' \<and> rt_login st \<noteq> [] \<longrightarrow> rp_login names = rt_login st) \<and>
     (\<forall>loc. created_of (rt_created st) ''secret'' \<and> rt_credentials st = Some loc \<and> cs_name loc \<noteq> [] \<longrightarrow> rp_secret names = cs_name loc)"

lemma names_come_from_status: "gives E (names_recorded st) (recorded_names st ns n prefix)"
  unfolding recorded_names_def
  by (rule gives_bindI [OF gives_True])
    (auto simp: names_recorded_def or_text_def split: sum.split list.split intro!: gives_ret gives_raise)

lemma steady_login:
  assumes "login_settled E obj s" "lr_created r = rt_created (rb_status obj)"
    "names_recorded (rb_status obj) (lr_names r)"
    "en_instance (lr_source r) = sy_instance s" "re_credentials (sy_spec s) = None \<Longrightarrow> may_stream E (sy_login s) info"
  shows "emits E read_only (ensure_login c (sy_spec s) info (rb_namespace obj) (rb_name obj) marker grp (rt_login (rb_status obj)) r)"
    "gives E (\<lambda>t. login_kept s r t \<and> set (lr_granted t) = set (lr_granted r))
      (ensure_login c (sy_spec s) info (rb_namespace obj) (rb_name obj) marker grp (rt_login (rb_status obj)) r)"
proof -
  let ?r = "r\<lparr>lr_granted := []\<rparr>"
  let ?m = "case re_credentials (sy_spec s) of Some ref \<Rightarrow> adopt_provided_login c ref (rb_namespace obj) ?r
      | None \<Rightarrow> ensure_generated_login c info (rb_namespace obj) (rb_name obj) marker ?r"
  have login: "rt_login (rb_status obj) = sy_login s" "sy_login s \<noteq> []"
    and has: "\<And>h c g p. says_bool E h c (Q_Has_Role (sy_login s) g p) = Inr True"
    using assms(1) unfolding login_settled_def by auto
  have m: "emits E read_only ?m" "gives E (\<lambda>t. login_kept s ?r t \<and> lr_granted t = []) ?m"
  proof -
    have "emits E read_only ?m \<and> gives E (\<lambda>t. login_kept s ?r t \<and> lr_granted t = []) ?m"
    proof (cases "re_credentials (sy_spec s)")
      case None
      then have set: "generated_settled E obj s" using assms(1) by (simp add: login_settled_def)
      then have "created_of (rt_created (rb_status obj)) ''login''" "created_of (rt_created (rb_status obj)) ''secret''"
        "\<exists>loc. rt_credentials (rb_status obj) = Some loc \<and> cs_name loc \<noteq> []" unfolding generated_settled_def by blast+
      with assms(3) login have "rp_login (lr_names r) = sy_login s"
        "\<And>loc. rt_credentials (rb_status obj) = Some loc \<Longrightarrow> rp_secret (lr_names r) = cs_name loc"
        by (auto simp: names_recorded_def)
      then show ?thesis
        using steady_generated [OF set, of ?r info c marker] assms(2,4) assms(5) [OF None] has None by simp
    next
      case (Some ref)
      then have set: "provided_settled E obj s ref" using assms(1) by (simp add: login_settled_def)
      show ?thesis using steady_provided [OF set, of ?r c] adopt_reads Some assms(2) by simp
    qed
    then show "emits E read_only ?m" "gives E (\<lambda>t. login_kept s ?r t \<and> lr_granted t = []) ?m" by auto
  qed
  have grant: "emits E read_only (grant_group c grp (lr_login t) ''USAGE'' t)" "gives E (\<lambda>u. u = t) (grant_group c grp (lr_login t) ''USAGE'' t)"
    if "lr_login t = sy_login s" for t
    unfolding that by (rule steady_grant, rule has)+
  show "emits E read_only (ensure_login c (sy_spec s) info (rb_namespace obj) (rb_name obj) marker grp (rt_login (rb_status obj)) r)"
    unfolding ensure_login_def Let_def
    by (rule emits_bind_gives [OF m], rule grant) (simp add: login_kept_def)
  show "gives E (\<lambda>t. login_kept s r t \<and> set (lr_granted t) = set (lr_granted r))
      (ensure_login c (sy_spec s) info (rb_namespace obj) (rb_name obj) marker grp (rt_login (rb_status obj)) r)"
    unfolding ensure_login_def Let_def
    by (rule gives_bindI [OF m(2)], rule gives_mono [OF grant(2)]) (auto simp: login_kept_def login)
qed

definition subscription_kept :: "steady \<Rightarrow> subscription_state option \<Rightarrow> bool" where
  "subscription_kept s sub \<longleftrightarrow> (\<exists>x. sub = Some x \<and> su_enabled x = re_enabled (sy_spec s) \<and>
     asked_for (re_binary (sy_spec s)) (su_binary x) \<and>
     asked_for (map_option streaming_text (re_streaming (sy_spec s))) (su_streaming x))"

lemma settled_subscription:
  assumes "subscription_settled E s"
  shows "gives E (subscription_kept s) (get_subscription c n)"
proof -
  have row: "\<exists>row. x = Some row \<and> sn_enabled row = re_enabled (sy_spec s) \<and> asked_for (re_binary (sy_spec s)) (sn_binary row) \<and>
      asked_for (map_option streaming_text (re_streaming (sy_spec s))) (streaming_of_row row)"
    if "says_subscription E h c (Q_Subscription n) = Inr x" for h x
    using assms that unfolding subscription_settled_def by (metis Inr_inject)
  show ?thesis unfolding get_subscription_def
    by (intro gives_bindI [OF fetch_gives]) (erule row, auto simp: subscription_kept_def streaming_of_row_def intro!: gives_ret)
qed

lemma steady_prepare:
  assumes "publication_settled E s" "subscription_settled E s" "login_settled E obj s"
    "created_of (rt_created (rb_status obj)) ''publication''" "rd_spec rd = sy_spec s"
    "lr_created r = rt_created (rb_status obj)"
    "names_recorded (rb_status obj) (lr_names r)"
    "en_instance (lr_source r) = sy_instance s"
  shows "emits E read_only (prepare obj src dst rd i j grp r)"
    "gives E (\<lambda>(sub, t). subscription_kept s sub \<and> login_kept s r t) (prepare obj src dst rd i j grp r)"
proof -
  let ?may = "\<lambda>info. re_credentials (sy_spec s) = None \<longrightarrow> may_stream E (sy_login s) info"
  have role: "role_settled E (sy_login s)" if "re_credentials (sy_spec s) = None"
    using assms(3) that by (simp add: login_settled_def generated_settled_def)
  have info: "gives E ?may (describe_logical_replication c sv)" for c sv
    by (cases "re_credentials (sy_spec s) = None") (auto intro: gives_mono [OF settled_logical [OF role]] simp: gives_def [of E ?may])
  have pub: "emits E read_only (ensure_publication src (sy_spec s) r m)"
      "gives E (\<lambda>(made, t). \<not> made \<and> t = r) (ensure_publication src (sy_spec s) r m)" for m
    by (rule steady_publication, rule assms(1), simp add: assms(4,6))+
  have login: "emits E read_only (ensure_login src (sy_spec s) info (rb_namespace obj) (rb_name obj) m grp (rt_login (rb_status obj)) r)"
      "gives E (\<lambda>t. login_kept s r t \<and> set (lr_granted t) = set (lr_granted r))
        (ensure_login src (sy_spec s) info (rb_namespace obj) (rb_name obj) m grp (rt_login (rb_status obj)) r)" if "?may info" for info m
    using that by (auto intro: steady_login [OF assms(3,6-8)])
  show "emits E read_only (prepare obj src dst rd i j grp r)"
    unfolding prepare_def Let_def then_m_def assms(5)
    apply (rule emits_bind_gives [OF read_only_logical info], rule emits_bind [OF read_only_checks(2)])
    apply (rule emits_bind [OF read_only_logical], rule emits_bind [OF read_only_checks(3)])
    apply (rule emits_bind_gives [OF read_only_server_reads(1) settled_subscription [OF assms(2)]])
    apply (rule emits_bind [OF read_only_checks(5)], rule emits_bind)
     apply (simp add: emits_ret read_only_checks)
    apply (rule emits_bind_gives [OF pub], clarify, simp only: when_m_def if_False bind_ret)
    apply (rule emits_bind_gives [OF login], assumption, assumption, simp add: login_kept_def emits_ret)
    done
  show "gives E (\<lambda>(sub, t). subscription_kept s sub \<and> login_kept s r t) (prepare obj src dst rd i j grp r)"
    unfolding prepare_def Let_def then_m_def assms(5)
    apply (rule gives_bindI [OF info], rule gives_bindI [OF gives_True])
    apply (rule gives_bindI [OF gives_True], rule gives_bindI [OF gives_True])
    apply (rule gives_bindI [OF settled_subscription [OF assms(2)]])
    apply (rule gives_bindI [OF gives_True], rule gives_bindI [OF gives_True])
    apply (rule gives_bindI [OF pub(2)], clarify, rule gives_bindI [OF gives_True], rule gives_bindI [OF login(2)], assumption)
    apply (rule gives_bindI [OF gives_True], simp add: gives_ret)
    done
qed

section \<open>The publication's tables\<close>

lemma wanted_matches: "as_wanted sha c member recorded \<Longrightarrow> member_matches sha c member recorded"
  by (auto simp: as_wanted_def member_matches_def same_columns_def fingerprint_def split: option.splits)

lemma in_shape_member:
  assumes "in_shape sha existing verdicts members" "v \<in> set verdicts" "publishable v"
  shows "\<exists>member. map_of members (ca_qualified (vd_candidate v)) = Some member \<and> member_matches sha (vd_candidate v) member
    (map_of (dupdate [] (map (\<lambda>e. (rf_table e, e)) (rt_row_filters existing))) (ca_qualified (vd_candidate v)))"
  using assms unfolding in_shape_def list_all_iff by (fastforce split: option.splits intro: wanted_matches)

lemma steady_table:
  assumes "in_shape (sha_of E) existing verdicts members" "v \<in> set verdicts"
  shows "emits E read_only (converge_table c n members (dupdate [] (map (\<lambda>e. (rf_table e, e)) (rt_row_filters existing))) r v)"
proof (cases "publishable v")
  case True
  then obtain member where m: "map_of members (ca_qualified (vd_candidate v)) = Some member"
    "member_matches (sha_of E) (vd_candidate v) member
      (map_of (dupdate [] (map (\<lambda>e. (rf_table e, e)) (rt_row_filters existing))) (ca_qualified (vd_candidate v)))"
    using in_shape_member [OF assms] by blast
  have sha: "gives E (\<lambda>f. f = sha_of E) (asks sha_of)" by (rule gives_asks) simp
  show ?thesis unfolding converge_table_def Let_def
    by (simp add: True, rule emits_bind_eq [OF emits_asks sha]) (simp add: m emits_ret)
qed (simp add: converge_table_def Let_def emits_ret)

lemma steady_tables:
  assumes "\<And>c n. gives E (\<lambda>p. in_shape (sha_of E) existing verdicts (members_of_publication p)) (get_publication c n)"
  shows "emits E read_only (converge_tables c verdicts existing r)"
proof -
  have none: "filter (\<lambda>t. \<not> stays verdicts t) (sort (dkeys members)) = []" if "in_shape (sha_of E) existing verdicts members" for members
    using that by (auto simp: in_shape_def list_all_iff filter_empty_conv)
  show ?thesis
    unfolding converge_tables_def Let_def
    apply (rule emits_bind_gives [OF read_only_server_reads(2) assms])
    apply (simp only: none fold_m.simps bind_ret)
    apply (rule emits_bind, rule emits_fold, erule steady_table, assumption)
    apply (intro emits_rules read_only_server_reads)
    done
qed

text \<open>What the later steps need of the result: the login and the source.\<close>

definition carries :: "steady \<Rightarrow> repl_result \<Rightarrow> bool" where
  "carries s r \<longleftrightarrow> lr_login r = sy_login s \<and> lr_password r = sy_password s \<and> en_database (lr_source r) = sy_database s"

lemma carries_updates [simp]:
  "carries s (changed_to m r) \<longleftrightarrow> carries s r" "carries s (mark_created k b r) \<longleftrightarrow> carries s r"
  "carries s (r\<lparr>lr_excluded := x\<rparr>) \<longleftrightarrow> carries s r" "carries s (r\<lparr>lr_kept := x\<rparr>) \<longleftrightarrow> carries s r"
  "carries s (r\<lparr>lr_warnings := x\<rparr>) \<longleftrightarrow> carries s r" "carries s (r\<lparr>lr_published := p\<rparr>) \<longleftrightarrow> carries s r"
  "carries s (r\<lparr>lr_row_filters := f\<rparr>) \<longleftrightarrow> carries s r" "carries s (r\<lparr>lr_subscription_oid := i\<rparr>) \<longleftrightarrow> carries s r"
  "carries s (r\<lparr>lr_fingerprint := a\<rparr>) \<longleftrightarrow> carries s r" "carries s (r\<lparr>lr_enabled := e\<rparr>) \<longleftrightarrow> carries s r"
  "carries s (r\<lparr>lr_subscribed := t\<rparr>) \<longleftrightarrow> carries s r"
  by (simp_all add: carries_def changed_to_def mark_created_def)

lemma tables_carry:
  assumes "carries s r"
  shows "gives E (carries s) (converge_tables c verdicts existing r)"
proof -
  have rm: "gives E (carries s) (remove_member c n t u)" if "carries s t" for n t u
    unfolding remove_member_def gives_def using that by (auto simp: run_simps split: prod.splits sum.splits option.splits)
  have sh: "gives E (carries s) (shape_member c n upd cand t)" if "carries s t" for n upd cand t
    unfolding shape_member_def gives_def Let_def refused_member_def using that
    by (auto simp: run_simps split: prod.splits sum.splits if_splits)
  have ct: "gives E (carries s) (converge_table c n cur recs t v)" if "carries s t" for n cur recs t v
    unfolding converge_table_def Let_def held_back_def
    by (intro gives_if gives_ret gives_bindI [OF gives_True]) (auto simp: that split: option.split intro!: sh gives_ret)
  show ?thesis
    unfolding converge_tables_def Let_def
    by (rule gives_bindI [OF gives_True], rule gives_bindI [OF fold_gives [where Q = "carries s"]], erule rm, rule assms,
        rule gives_bindI [OF fold_gives [where Q = "carries s"]], erule ct, assumption)
      (intro gives_bindI [OF gives_True] gives_ret, simp)
qed

section \<open>The subscription\<close>

lemma settled_tables:
  assumes "subscription_settled E s"
  shows "gives E (\<lambda>ts. set (dkeys ts) = sy_tables s) (subscribed_tables c oid)"
    "gives E (\<lambda>ps. set ps = sy_tables s) (published_relations c n)"
proof -
  have k: "set (dkeys (dupdate d es)) = set (dkeys d) \<union> fst ` set es" for d es :: "(string \<times> string) list"
    by (induction es rule: rev_induct) (force simp: dupdate_def)+
  have "fst ` set x = sy_tables s" if "says_pairs E h c (Q_Subscribed_Tables oid) = Inr x" for h x
    using assms that unfolding subscription_settled_def by (metis Inr_inject)
  then show "gives E (\<lambda>ts. set (dkeys ts) = sy_tables s) (subscribed_tables c oid)"
    unfolding subscribed_tables_def by (intro gives_bindI [OF fetch_gives] gives_ret) (assumption, simp add: k)
  have "set x = sy_tables s" if "says_names E h c (Q_Published_Relations n) = Inr x" for h x
    using assms that unfolding subscription_settled_def by (metis Inr_inject)
  then show "gives E (\<lambda>ps. set ps = sy_tables s) (published_relations c n)"
    unfolding published_relations_def by (rule fetch_gives)
qed

lemma not_differing: "asked_for wanted actual \<Longrightarrow> differing wanted actual = None"
  by (auto simp: asked_for_def differing_def)

lemma steady_subscription:
  assumes "subscription_settled E s" "subscription_kept s sub" "carries s r" "set published = sy_tables s"
    "connection_host (sy_spec s) i = sy_host s" "connection_port (sy_spec s) i = sy_port s"
    "rt_fingerprint (rb_status obj) = Some (take 16 (sha_of E (make_conninfo E (conninfo_params (sy_host s) (sy_port s) (sy_database s)
       (sy_login s) (sy_password s) (ssl_text (rc_ssl_mode (re_connection (sy_spec s)))) (rc_ssl_root_cert_path (re_connection (sy_spec s)))))))"
  shows "emits E read_only (converge_subscription obj src dst (sy_spec s) sub published i marker r)"
    "gives E (carries s) (converge_subscription obj src dst (sy_spec s) sub published i marker r)"
proof -
  obtain x where sub: "sub = Some x" and x: "su_enabled x = re_enabled (sy_spec s)" "differing (re_binary (sy_spec s)) (su_binary x) = None"
      "differing (map_option streaming_text (re_streaming (sy_spec s))) (su_streaming x) = None"
    using assms(2) unfolding subscription_kept_def by (auto simp: not_differing)
  define info where "info = make_conninfo E (conninfo_params (sy_host s) (sy_port s) (sy_database s)
       (sy_login s) (sy_password s) (ssl_text (rc_ssl_mode (re_connection (sy_spec s)))) (rc_ssl_root_cert_path (re_connection (sy_spec s))))"
  have built: "gives E (\<lambda>y. y = info) (build_conninfo (connection_host (sy_spec s) i) (connection_port (sy_spec s) i)
      (en_database (lr_source r)) (lr_login r) (lr_password r) (ssl_text (rc_ssl_mode (re_connection (sy_spec s))))
      (rc_ssl_root_cert_path (re_connection (sy_spec s))))"
    using assms(3,5,6) unfolding build_conninfo_def by (intro gives_asks) (simp add: info_def carries_def)
  have marked: "gives E (\<lambda>y. y = take 16 (sha_of E info)) (conninfo_fingerprint info)"
    unfolding conninfo_fingerprint_def by (rule gives_asks) simp
  have read: "emits E read_only (build_conninfo a b c d e f g)" "emits E read_only (conninfo_fingerprint t)" for a b c d e f g t
    unfolding build_conninfo_def conninfo_fingerprint_def by (intro emits_rules)+
  let ?r = "(mark_created ''subscription'' True r)\<lparr>lr_subscription_oid := Some (su_oid x)\<rparr>"
  have adjusted: "adjust_subscription dst (sy_spec s) x (rb_status obj) info (take 16 (sha_of E info)) r = ret_m ?r"
    using x assms(7) by (simp add: adjust_subscription_def Let_def info_def)
  have refreshed: "emits E read_only (refresh_tables dst (sy_spec s) i published oid t)" for oid t
    unfolding refresh_tables_def
    by (rule emits_bind_gives [OF read_only_server_reads(3) settled_tables(1) [OF assms(1)]]) (simp add: assms(4) emits_ret)
  have refresh: "gives E (carries s) (refresh_tables dst (sy_spec s) i published oid t)" if "carries s t" for oid t
    unfolding refresh_tables_def
    by (rule gives_bindI [OF settled_tables(1) [OF assms(1)]]) (simp add: assms(4) gives_ret that)
  show "emits E read_only (converge_subscription obj src dst (sy_spec s) sub published i marker r)"
    unfolding converge_subscription_def
    by (rule emits_bind_eq [OF read(1) built], rule emits_bind_eq [OF read(2) marked]) (simp add: sub adjusted refreshed)
  show "gives E (carries s) (converge_subscription obj src dst (sy_spec s) sub published i marker r)"
    unfolding converge_subscription_def
    by (rule gives_bind_eq [OF built], rule gives_bind_eq [OF marked]) (simp add: sub adjusted refresh assms(3))
qed

section \<open>The pass\<close>

lemma spec_of_source: "source_settled E obj s rd \<Longrightarrow> rd_spec rd = sy_spec s"
  by (simp add: source_settled_def)


section \<open>A converged replication\<close>

text \<open>
  Two servers with one replicated table, one replication of its inserts with a column list and a row filter, and a status
  as earlier passes left it. Every question is answered the same way at any time.
\<close>

definition steady_spec :: replication_spec where
  "steady_spec = sample_replication\<lparr>re_publish := [Insert]\<rparr>"

definition steady_status :: repl_status where
  "steady_status = sample_repl_status\<lparr>rt_source_instance := ''main'', rt_source_database := ''orders'', rt_publication := ''pgop_copy'',
     rt_login := ''pgop_repl_copy'', rt_target_instance := ''other'', rt_target_database := ''reports'', rt_subscription := ''pgop_copy'',
     rt_subscription_oid := Some 7,
     rt_created := [(''publication'', True), (''login'', True), (''secret'', True), (''slot'', True), (''subscription'', True)],
     rt_granted := [''rds_replication'', ''orders_ro''],
     rt_credentials := Some \<lparr>cs_namespace = ''pg-operator'', cs_name = ''pgop-repl.copy'', cs_generated = True\<rparr>,
     rt_fingerprint := Some (replicate 16 CHR ''0''),
     rt_row_filters := [\<lparr>rf_table = ''app.events'', rf_spec_hash = replicate 16 CHR ''0'', rf_applied = ''(region = eu)''\<rparr>]\<rparr>"

definition steady_repl :: repl_obj where
  "steady_repl = sample_repl\<lparr>rb_spec := Inr steady_spec, rb_status := steady_status\<rparr>"

definition admin_secret :: secret_obj where
  "admin_secret = \<lparr>so_data = [(''username'', utf8 ''admin''), (''password'', utf8 ''root'')], so_string_data = [], so_labels = [],
     so_annotations = []\<rparr>"

definition login_secret :: secret_obj where
  "login_secret = \<lparr>so_data = [(''username'', utf8 ''pgop_repl_copy''), (''password'', utf8 ''s3cret'')], so_string_data = [],
     so_labels = managed_labels KIND_REPLICATION ''copy'' ''team-a'' (Some ''main'') [], so_annotations = []\<rparr>"

definition steady_instance :: "string \<Rightarrow> instance_obj" where
  "steady_instance name = \<lparr>io_spec = Inr (sample_instance\<lparr>is_host := name @ ''.example''\<rparr>), io_generation = 1\<rparr>"

definition steady_database :: "string \<Rightarrow> string \<Rightarrow> database_obj" where
  "steady_database namespace name = \<lparr>do_namespace = namespace, do_name = name, do_generation = 1,
     do_spec = Inr (sample_database\<lparr>db_instance := (if name = ''orders'' then ''main'' else ''other''), db_name := Some name\<rparr>),
     do_managed_schemas = [], do_managed_extensions = [], do_conditions = []\<rparr>"

definition steady_server :: server_info where
  "steady_server = \<lparr>sv_version_num = 170000, sv_version_text = ''17.0'', sv_current_user = ''admin'', sv_is_superuser = True,
     sv_can_create_db = True, sv_can_create_role = True, sv_is_rds_superuser = False\<rparr>"

definition steady_logical :: logical_settings where
  "steady_logical = \<lparr>ls_wal_level = ''logical'', ls_max_slots = 10, ls_max_senders = 10, ls_keep_size = ''-1'', ls_is_rds = False,
     ls_slots_in_use = 1, ls_has_replication = True\<rparr>"

definition steady_columns :: "column_row list" where
  "steady_columns = map (\<lambda>n. \<lparr>cl_relation = 1, cl_name = n, cl_type = ''text'', cl_generated = False, cl_not_null = False,
     cl_supplied = False\<rparr>) [''id'', ''region'']"

definition steady_relation :: relation_row where
  "steady_relation = \<lparr>rel_oid = 1, rel_schema = ''app'', rel_name = ''events'', rel_kind = ''r'', rel_persistent = True,
     rel_is_partition = False, rel_owner = ''orders_admin'', rel_owner_usable = True, rel_row_security = False,
     rel_replica_identity = ''d'', rel_readable = True\<rparr>"

definition steady_target :: target_row where
  "steady_target = \<lparr>tr_oid = 1, tr_schema = ''app'', tr_name = ''events'', tr_kind = ''r'', tr_owner = ''admin'',
     tr_owner_settable = True, tr_replica_identity = ''d''\<rparr>"

definition steady_member :: member_row where
  "steady_member = \<lparr>mr_schema = ''app'', mr_table = ''events'', mr_filter = Some ''(region = eu)'', mr_columns = Some [''region'', ''id'']\<rparr>"

definition steady_publication :: publication_row where
  "steady_publication = \<lparr>pn_oid = 3, pn_owner = ''admin'', pn_comment = None, pn_insert = True, pn_update = False,
     pn_delete = False, pn_truncate = False, pn_via_root = False\<rparr>"

definition steady_subscription_row :: subscription_row where
  "steady_subscription_row = \<lparr>sn_oid = 7, sn_owner = ''admin'', sn_comment = None, sn_enabled = True, sn_binary = False,
     sn_substream = ''f'', sn_slot_name = Some ''pgop_copy'', sn_publications = [''pgop_copy'']\<rparr>"

definition steady_env :: env where
  "steady_env = sample_env\<lparr>
     says_instance := \<lambda>h n. Inr (steady_instance n), says_database_obj := \<lambda>h ns n. Inr (steady_database ns n),
     says_secret := \<lambda>h ns n. Inr (if n = ''admin'' then admin_secret else login_secret),
     says_server := \<lambda>h c q. Inr (Some steady_server), says_logical := \<lambda>h c q. Inr (Some steady_logical),
     says_bool := \<lambda>h c q. Inr (case q of Q_Table_Has_Rows a b \<Rightarrow> False | _ \<Rightarrow> True),
     says_role := \<lambda>h c q. Inr (Some (sample_role\<lparr>rs_connection_limit := -1\<rparr>)),
     says_publication := \<lambda>h c q. Inr (Some steady_publication), says_members := \<lambda>h c q. Inr [steady_member],
     says_subscription := \<lambda>h c q. Inr (Some steady_subscription_row),
     says_pairs := \<lambda>h c q. Inr [(''app.events'', ''r'')], says_names := \<lambda>h c q. Inr [''app.events''],
     says_relations := \<lambda>h c q. Inr [steady_relation], says_columns := \<lambda>h c q. Inr steady_columns,
     says_identity := \<lambda>h c q. Inr [(1, ''id'')], says_targets := \<lambda>h c q. Inr [steady_target],
     says_target_identity := \<lambda>h c q. Inr [(1, True, False, ''id'')]\<rparr>"

lemma steady_says [simp]:
  "says_instance steady_env h n = Inr (steady_instance n)" "says_database_obj steady_env h ns n = Inr (steady_database ns n)"
  "says_replications steady_env h = Inr []" "says_role steady_env h c q = Inr (Some (sample_role\<lparr>rs_connection_limit := -1\<rparr>))"
  "says_secret steady_env h ns n = Inr (if n = ''admin'' then admin_secret else login_secret)"
  "says_bool steady_env h c q = Inr (case q of Q_Table_Has_Rows a b \<Rightarrow> False | _ \<Rightarrow> True)"
  "says_pairs steady_env h c q = Inr [(''app.events'', ''r'')]" "says_names steady_env h c q = Inr [''app.events'']"
  "says_columns steady_env h c q = Inr steady_columns" "says_identity steady_env h c q = Inr [(1, ''id'')]"
  "says_publication steady_env h c q = Inr (Some steady_publication)" "says_members steady_env h c q = Inr [steady_member]"
  "says_subscription steady_env h c q = Inr (Some steady_subscription_row)" "says_relations steady_env h c q = Inr [steady_relation]"
  "says_targets steady_env h c q = Inr [steady_target]"
  "says_target_identity steady_env h c q = Inr [(1, True, False, ''id'')]" "operator_namespace steady_env = ''pg-operator''"
  by (simp_all add: steady_env_def sample_env_def)

lemma steady_sha [simp]: "sha_of steady_env = (\<lambda>t. replicate 64 CHR ''0'')"
  by (simp add: fun_eq_iff sha_of_def steady_env_def sample_env_def)

definition steady_end :: "string \<Rightarrow> string \<Rightarrow> string \<Rightarrow> replication_end" where
  "steady_end namespace name inst = \<lparr>en_namespace = namespace, en_name = name, en_instance = inst, en_database = name,
     en_host = inst @ ''.example'', en_port = 5432\<rparr>"

definition reports_database :: database_spec where
  "reports_database = sample_database\<lparr>db_instance := ''other'', db_name := Some ''reports''\<rparr>"

definition main_instance :: instance_spec where
  "main_instance = sample_instance\<lparr>is_host := ''main.example''\<rparr>"

definition other_instance :: instance_spec where
  "other_instance = sample_instance\<lparr>is_host := ''other.example''\<rparr>"

text \<open>The spec of a database with its name, as the code reads both.\<close>

definition read_database :: "database_obj \<Rightarrow> (database_spec \<times> string) res" where
  "read_database obj = bind_r (parse_database_spec (do_spec obj)) (\<lambda>ds.
     bind_r (resolve_database_name (\<lambda>t. replicate 64 CHR ''0'') ds (do_name obj)) (\<lambda>database. Inr (ds, database)))"

definition steady_resolved :: resolved_replication where
  "steady_resolved = \<lparr>rd_spec = steady_spec, rd_source = steady_end ''team-a'' ''orders'' ''main'',
     rd_target = steady_end ''bi'' ''reports'' ''other'', rd_source_db = sample_database,
     rd_source_instance = main_instance\<rparr>"

lemma steady_valid: "parse_replication_spec (Inr steady_spec) = Inr steady_spec"
  "read_database (steady_database ''team-a'' ''orders'') = Inr (sample_database, ''orders'')"
  "read_database (steady_database ''bi'' ''reports'') = Inr (reports_database, ''reports'')"
  "parse_instance_spec (io_spec (steady_instance ''main'')) = Inr main_instance"
  "parse_instance_spec (io_spec (steady_instance ''other'')) = Inr other_instance"
  by code_simp+

lemma steady_load:
  assumes "parse_instance_spec (io_spec (steady_instance n)) = Inr spec" "permits_namespace spec ''team-a''"
  shows "gives steady_env (\<lambda>(sp, g). sp = spec) (load_instance_spec n ''team-a'')"
  using assms by (simp add: gives_def load_instance_spec_def get_instance_def rename_not_found_def k8s_ask_def run_simps)

lemma steady_object: "gives steady_env (\<lambda>o'. o' = steady_database ns n) (get_database_object ns n)"
  by (simp add: gives_def get_database_object_def rename_not_found_def k8s_ask_def run_simps)

lemma steady_permits: "permits_namespace main_instance ''team-a''" "permits_namespace other_instance ''team-a''"
  by (simp_all add: permits_namespace_def sample_instance_def main_instance_def other_instance_def)

lemma steady_ends:
  "gives steady_env (\<lambda>(e, db, i). e = steady_end ''team-a'' ''orders'' ''main'' \<and> db = sample_database \<and> i = main_instance)
     (resolve_end (re_source_db steady_spec) ''team-a'' ''source'' ''team-a'')"
  "gives steady_env (\<lambda>(e, db, i). e = steady_end ''bi'' ''reports'' ''other'')
     (resolve_end (re_target_db steady_spec) ''team-a'' ''target'' ''team-a'')"
proof -
  have object: "gives steady_env (\<lambda>o'. o' = steady_database ns n) (catch_m ReferenceNotFound (get_database_object ns n) (\<lambda>e. throw_m (f e)))" for ns n f
    by (rule gives_catch [OF steady_object]) (rule gives_raise)
  have sha: "gives steady_env (\<lambda>f. f = (\<lambda>t. replicate 64 CHR ''0'')) (asks sha_of)" by (rule gives_asks) simp
  have names: "or_name (re_source_db steady_spec) = ''orders''" "resolve_namespace (or_namespace (re_source_db steady_spec)) ''team-a'' = ''team-a''"
    "or_name (re_target_db steady_spec) = ''reports''" "resolve_namespace (or_namespace (re_target_db steady_spec)) ''team-a'' = ''bi''"
    "db_instance sample_database = ''main''" "db_instance reports_database = ''other''"
    "is_host main_instance = ''main.example''" "is_port main_instance = 5432" "is_host other_instance = ''other.example''" "is_port other_instance = 5432"
    by code_simp+
  show "gives steady_env (\<lambda>(e, db, i). e = steady_end ''team-a'' ''orders'' ''main'' \<and> db = sample_database \<and> i = main_instance)
     (resolve_end (re_source_db steady_spec) ''team-a'' ''source'' ''team-a'')"
    unfolding resolve_end_def Let_def names
    apply (rule gives_bind_eq [OF object], rule gives_bind_eq [OF sha])
    apply (simp only: read_database_def [symmetric] steady_valid sum.case prod.case names)
    apply (rule gives_bindI [OF steady_load [OF steady_valid(4) steady_permits(1)]])
    apply (auto intro!: gives_ret simp: steady_end_def names)
    done
  show "gives steady_env (\<lambda>(e, db, i). e = steady_end ''bi'' ''reports'' ''other'')
     (resolve_end (re_target_db steady_spec) ''team-a'' ''target'' ''team-a'')"
    unfolding resolve_end_def Let_def names
    apply (rule gives_bind_eq [OF object], rule gives_bind_eq [OF sha])
    apply (simp only: read_database_def [symmetric] steady_valid sum.case prod.case names)
    apply (rule gives_bindI [OF steady_load [OF steady_valid(5) steady_permits(2)]])
    apply (auto intro!: gives_ret simp: steady_end_def names)
    done
qed

lemma steady_resolution: "gives steady_env (\<lambda>rd. rd = steady_resolved) (resolve_replication steady_repl)"
proof -
  have obj: "rb_namespace steady_repl = ''team-a''" "rb_spec steady_repl = Inr steady_spec"
    by (simp_all add: steady_repl_def sample_repl_def)
  have parsed: "gives steady_env (\<lambda>sp. sp = steady_spec) (parse_replication steady_repl)"
    by (simp add: parse_replication_def obj steady_valid gives_ret)
  show ?thesis
    unfolding resolve_replication_def Let_def obj then_m_def
    apply (rule gives_bind_eq [OF parsed])
    apply (rule gives_bindI [OF steady_ends(1)], clarify)
    apply (rule gives_bindI [OF steady_ends(2)], clarify)
    apply (rule gives_bindI [OF gives_True])+
    apply (rule gives_ret, simp add: steady_resolved_def)
    done
qed

definition steady_catalog :: "(string \<times> source_table) list" where
  "steady_catalog = [(''app.events'', \<lparr>st_relation = source_relation steady_relation steady_columns [''id''], st_leaves = []\<rparr>)]"

definition steady_targets :: "(string \<times> target_table) list" where
  "steady_targets = [(''app.events'', target_relation steady_target steady_columns [(1, True, False, ''id'')])]"

lemma steady_rows: "by_oid [steady_relation, steady_relation] = [(1, steady_relation)]"
  "columns_by_relation steady_columns 1 = steady_columns" "names_of [(1, ''id'')] 1 = [''id'']"
  "rel_kind steady_relation = ''r''" "rel_oid steady_relation = 1" "tr_oid steady_target = 1"
  "rl_qualified (source_relation steady_relation steady_columns [''id'']) = ''app.events''"
  "tt_qualified (target_relation steady_target steady_columns [(1, True, False, ''id'')]) = ''app.events''"
  by code_simp+

lemma steady_answers:
  "gives steady_env (\<lambda>x. x = [steady_relation]) (fetch says_relations c q)" "gives steady_env (\<lambda>x. x = steady_columns) (fetch says_columns c q)"
  "gives steady_env (\<lambda>x. x = [(1, ''id'')]) (fetch says_identity c q)" "gives steady_env (\<lambda>x. x = [steady_target]) (fetch says_targets c q)"
  "gives steady_env (\<lambda>x. x = [(1, True, False, ''id'')]) (fetch says_target_identity c q)"
  by (rule fetch_says, simp)+

lemma steady_catalogs:
  "gives steady_env (\<lambda>x. x = steady_catalog) (describe_source_tables c schemas (t # ts) login)"
  "gives steady_env (\<lambda>x. x = steady_targets) (describe_target_tables c (w # ws))"
proof -
  have leaves: "leaves_of c login steady_relation = ret_m []" by (simp add: leaves_of_def steady_rows)
  have assembled: "gives steady_env (\<lambda>x. x = map snd steady_catalog) (assemble c [steady_relation, steady_relation] login)"
    unfolding assemble_def Let_def
    apply (simp add: steady_rows)
    apply (rule gives_bind_eq [OF steady_answers(2)], rule gives_bind_eq [OF steady_answers(3)])
    apply (simp add: leaves steady_rows steady_catalog_def gives_ret)
    done
  show "gives steady_env (\<lambda>x. x = steady_catalog) (describe_source_tables c schemas (t # ts) login)"
    unfolding describe_source_tables_def Let_def
    apply (rule gives_bind_eq [OF steady_answers(1)], simp, rule gives_bind_eq [OF steady_answers(1)])
    apply (rule gives_bind_eq [OF assembled])
    apply (simp add: steady_catalog_def steady_rows gives_ret dupdate_def)
    done
  show "gives steady_env (\<lambda>x. x = steady_targets) (describe_target_tables c (w # ws))"
    unfolding describe_target_tables_def Let_def
    apply (simp, rule gives_bind_eq [OF steady_answers(4)])
    apply (rule gives_bind_eq [OF steady_answers(2)], rule gives_bind_eq [OF steady_answers(5)])
    apply (simp add: steady_targets_def steady_rows gives_ret dupdate_def)
    done
qed

definition steady_candidate :: candidate where
  "steady_candidate = \<lparr>ca_schema = ''app'', ca_name = ''events'', ca_columns = [''id'', ''region''], ca_row_filter = Some sample_filter,
     ca_explicit = True\<rparr>"

definition steady_source :: source_table where
  "steady_source = \<lparr>st_relation = source_relation steady_relation steady_columns [''id''], st_leaves = []\<rparr>"

definition steady_state :: publication_state where
  "steady_state = \<lparr>pu_name = [], pu_owner = ''admin'', pu_comment = None, pu_operations = [Insert], pu_via_root = False,
     pu_tables = [(''app.events'', \<lparr>pt_columns = Some [''region'', ''id''], pt_row_filter = Some ''(region = eu)''\<rparr>)]\<rparr>"

lemma steady_selection:
  "candidates steady_spec (map snd steady_catalog) = [steady_candidate]"
  "wanted_targets steady_spec steady_catalog [steady_candidate] = [(''app'', ''events'')]"
  "map (\<lambda>t. (ts_schema t, ts_name t)) (re_tables steady_spec) = [(''app'', ''events'')]"
  "ca_qualified steady_candidate = ''app.events''" "map_of steady_catalog ''app.events'' = Some steady_source"
  "publishes_keyed_changes steady_spec = False" "re_via_root steady_spec = False"
  by code_simp+

lemma steady_verdict:
  assumes "ja_keyed a = False" "ja_via_root a = False" "ja_nonempty a = []" "ja_claimed_by a = None"
  shows "publishable (judge steady_candidate (Some steady_source) steady_targets a)"
    "vd_candidate (judge steady_candidate (Some steady_source) steady_targets a) = steady_candidate"
proof -
  let ?t = "target_relation steady_target steady_columns [(1, True, False, ''id'')]"
  have src: "\<not> rl_is_partition (st_relation steady_source) \<and> rl_publishable (st_relation steady_source) \<and> st_leaves steady_source = [] \<and>
      set (ca_columns steady_candidate @ filter_reads steady_candidate) \<subseteq> set (dkeys (rl_columns (st_relation steady_source))) \<and>
      rl_kind (st_relation steady_source) = ''r'' \<and> rl_owner_usable (st_relation steady_source) \<and>
      rl_readable (st_relation steady_source) \<and> \<not> rl_row_security (st_relation steady_source)"
    by code_simp
  have tgt: "map_of steady_targets (rl_qualified (st_relation steady_source)) = Some ?t \<and> kind_publishable (tt_kind ?t) \<and> tt_owner_settable ?t \<and>
      set (published_columns steady_candidate steady_source) \<subseteq> set (dkeys (tt_columns ?t)) \<and>
      set (tt_required ?t) \<subseteq> set (published_columns steady_candidate steady_source)"
    by code_simp
  have "source_fit steady_candidate steady_source a" using src assms by (simp add: source_fit_def)
  moreover have "target_fit steady_candidate steady_source steady_targets a"
    using src tgt assms by (simp add: target_fit_def target_relations_def receives_def)
  ultimately show "publishable (judge steady_candidate (Some steady_source) steady_targets a)"
    using assms(4) by (simp add: judge_exact)
  show "vd_candidate (judge steady_candidate (Some steady_source) steady_targets a) = steady_candidate"
    by (simp add: judge_def)
qed

lemma steady_shape:
  assumes "publishable v" "vd_candidate v = steady_candidate"
  shows "in_shape (sha_of steady_env) (rb_status steady_repl) [v] (pu_tables steady_state)"
proof -
  have "stays [v] ''app.events''" using assms by (simp add: stays_def dupdate_def steady_selection)
  moreover have "as_wanted (\<lambda>t. replicate 64 CHR ''0'') steady_candidate \<lparr>pt_columns = Some [''region'', ''id''], pt_row_filter = Some ''(region = eu)''\<rparr>
      (map_of (dupdate [] (map (\<lambda>e. (rf_table e, e)) (rt_row_filters (rb_status steady_repl)))) ''app.events'')"
    by code_simp
  ultimately show ?thesis using assms(2) by (simp add: in_shape_def steady_state_def dkeys_def steady_selection)
qed

lemma steady_judged:
  assumes "lr_login r = ''pgop_repl_copy''"
  shows "gives steady_env (\<lambda>vs. \<exists>v. vs = [v] \<and> publishable v \<and> vd_candidate v = steady_candidate)
    (judge_tables steady_repl src dst steady_resolved i groups sub r)"
proof -
  have empty: "gives steady_env (\<lambda>x. x = []) (nonempty_tables c ts)" for c ts
    unfolding nonempty_tables_def
    by (rule fold_gives) (auto intro!: gives_bindI [OF says_truth] gives_ret)
  have maybe: "gives steady_env (\<lambda>x. x = []) (if b then nonempty_tables c ts else ret_m [])" for b c ts
    using empty by (simp add: gives_ret)
  have listed: "gives steady_env (\<lambda>x. x = []) list_replications"
    by (simp add: list_replications_def gives_def k8s_ask_def run_simps)
  have claims: "gives steady_env (\<lambda>x. x = []) (claims_elsewhere steady_repl t)" for t
    unfolding claims_elsewhere_def by (rule gives_bind_eq [OF listed]) (simp add: gives_ret)
  have sp: "rd_spec steady_resolved = steady_spec" by (simp add: steady_resolved_def)
  show ?thesis
    unfolding judge_tables_def Let_def sp steady_selection
    apply (rule gives_bind_eq [OF steady_catalogs(1)])
    apply (simp only: steady_selection)
    apply (rule gives_bind_eq [OF steady_catalogs(2)])
    apply (rule gives_bindI [OF gives_True], rule gives_bind_eq [OF maybe], rule gives_bind_eq [OF claims])
    apply (rule gives_ret, simp add: steady_selection steady_verdict)
    done
qed

definition steady_found :: steady where
  "steady_found = \<lparr>sy_spec = steady_spec, sy_login = ''pgop_repl_copy'', sy_password = ''s3cret'', sy_host = ''main.example'', sy_port = 5432,
     sy_instance = ''main'', sy_database = ''orders'', sy_tables = {''app.events''}\<rparr>"

lemma steady_fields:
  "sy_spec steady_found = steady_spec" "sy_login steady_found = ''pgop_repl_copy''" "sy_password steady_found = ''s3cret''"
  "sy_host steady_found = ''main.example''" "sy_port steady_found = 5432" "sy_instance steady_found = ''main''"
  "sy_database steady_found = ''orders''" "sy_tables steady_found = {''app.events''}"
  by (simp_all add: steady_found_def)

lemma steady_member_read: "gives steady_env (\<lambda>p. members_of_publication p = pu_tables steady_state) (get_publication c n)"
proof -
  have row: "gives steady_env (\<lambda>x. x = Some steady_publication) (fetch says_publication c q)" for q by (rule fetch_says) simp
  have members: "gives steady_env (\<lambda>x. x = [steady_member]) (fetch says_members c q)" for q by (rule fetch_says) simp
  have tables: "dupdate [] (map (\<lambda>t. (qualified_name (mr_schema t) (mr_table t), \<lparr>pt_columns = mr_columns t, pt_row_filter = mr_filter t\<rparr>)) [steady_member]) =
      pu_tables steady_state"
    by code_simp
  show ?thesis
    unfolding get_publication_def
    by (rule gives_bind_eq [OF row], simp only: option.case, rule gives_bind_eq [OF members], rule gives_ret)
      (simp add: members_of_publication_def tables del: list.map)
qed

lemma steady_host: "gives steady_env (\<lambda>i. connection_host steady_spec i = ''main.example'' \<and> connection_port steady_spec i = 5432)
    (resolve_instance ''main'' ''team-a'')"
proof -
  have "rc_host (re_connection steady_spec) = None" "rc_port (re_connection steady_spec) = None"
    "is_host main_instance = ''main.example''" "is_port main_instance = 5432"
    by code_simp+
  then have "connection_host steady_spec i = ''main.example'' \<and> connection_port steady_spec i = 5432" if "ri_spec i = main_instance" for i
    using that by (simp add: connection_host_def connection_port_def or_text_def)
  then show ?thesis
    unfolding resolve_instance_def
    by (intro gives_bindI [OF steady_load [OF steady_valid(4) steady_permits(1)]])
      (auto intro!: gives_bindI [OF gives_True] gives_ret gives_raise split: option.split)
qed

lemma steady_settled: "settled steady_env steady_repl steady_found"
proof -
  have obj: "rb_namespace steady_repl = ''team-a''" "rb_name steady_repl = ''copy''" "rb_status steady_repl = steady_status"
    by (simp_all add: steady_repl_def sample_repl_def)
  have pub: "publication_settled steady_env steady_found"
    by (simp add: publication_settled_def steady_fields steady_publication_def operations_of_def steady_spec_def sample_replication_def)
  have row: "sn_enabled steady_subscription_row = re_enabled steady_spec \<and> asked_for (re_binary steady_spec) (sn_binary steady_subscription_row) \<and>
      asked_for (map_option streaming_text (re_streaming steady_spec)) (streaming_of_row steady_subscription_row)"
    by code_simp
  have sub: "subscription_settled steady_env steady_found"
    using row by (simp add: subscription_settled_def steady_fields)
  have role: "rs_can_login (sample_role\<lparr>rs_connection_limit := -1\<rparr>) \<and> rs_inherit (sample_role\<lparr>rs_connection_limit := -1\<rparr>)" by code_simp
  define bs where "bs = the (map_of (secret_data login_secret) ''password'')"
  have "map_of (secret_data login_secret) ''password'' \<noteq> None" by code_simp
  then have password: "map_of (secret_data login_secret) ''password'' = Some bs" by (auto simp: bs_def)
  have bytes: "bs \<noteq> []" "utf8_decode bs = Some ''s3cret''" unfolding bs_def by code_simp+
  have       "secret_matches login_secret (managed_body [(''username'', ''pgop_repl_copy''), (''password'', ''s3cret'')]
        (managed_labels KIND_REPLICATION ''copy'' ''team-a'' (Some ''main'') []) [])"
      "created_of (rt_created steady_status) ''login'' \<and> created_of (rt_created steady_status) ''secret''"
      "rt_credentials steady_status = Some \<lparr>cs_namespace = ''pg-operator'', cs_name = ''pgop-repl.copy'', cs_generated = True\<rparr>"
      "rt_login steady_status = ''pgop_repl_copy''" "re_credentials steady_spec = None"
    by code_simp+
  note parts = this
  have "role_settled steady_env ''pgop_repl_copy''" using role by (simp add: role_settled_def)
  then have "generated_settled steady_env steady_repl steady_found"
    using parts bytes password by (simp add: generated_settled_def obj steady_fields)
  then have login: "login_settled steady_env steady_repl steady_found"
    using parts by (simp add: login_settled_def obj steady_fields)
  have shaped: "gives steady_env (\<lambda>vs. \<forall>c n. gives steady_env (\<lambda>p. in_shape (sha_of steady_env) (rb_status steady_repl) vs (members_of_publication p))
      (get_publication c n)) (judge_tables steady_repl src dst steady_resolved i groups x r)" if "lr_login r = ''pgop_repl_copy''" for src dst i groups x r
    by (rule gives_mono [OF steady_judged [OF that]]) (auto intro!: gives_mono [OF steady_member_read] steady_shape simp del: steady_sha)
  have found: "rd_spec steady_resolved = steady_spec" "en_instance (rd_source steady_resolved) = ''main''"
      "en_database (rd_source steady_resolved) = ''orders''"
    by (simp_all add: steady_resolved_def steady_end_def)
  have source: "gives steady_env (source_settled steady_env steady_repl steady_found) (resolve_replication steady_repl)"
    by (rule gives_mono [OF steady_resolution]) (use shaped steady_host in \<open>simp add: source_settled_def steady_fields found obj del: steady_sha\<close>)
  have made: "created_of (rt_created (rb_status steady_repl)) ''publication''" by code_simp
  have mark: "rt_fingerprint (rb_status steady_repl) = Some (replicate 16 CHR ''0'')" by code_simp
  show ?thesis unfolding settled_def using pub sub login source made mark by simp
qed


end
