(* ===== verification/UserSteady.thy ===== *)
theory UserSteady
  imports UserReconcile Steady
begin

text \<open>
  The steady state of a PostgresUser: when the role, its memberships, its settings, its password, its Secret and its PushSecret
  are what the spec asks for, a pass changes nothing. And the one user for whom no pass is ever the last: with a
  password of the user's own and a server that hides its verifiers, every pass sends the password again.
\<close>

section \<open>What is found of a converged user\<close>

record steady_user =
  yu_spec :: user_spec
  yu_username :: string
  yu_password :: string
  yu_source :: password_source
  yu_grants :: "user_grant list"
  yu_secret :: string                           \<comment> \<open>the name of the Secret\<close>

text \<open>The role has the attributes, the connection limit and the expiry of the spec, and its own parameters only.\<close>

definition role_kept :: "env \<Rightarrow> steady_user \<Rightarrow> bool" where
  "role_kept E s \<longleftrightarrow>
     (\<exists>st. (\<forall>h c. says_role E h c (Q_Role (yu_username s)) = Inr (Some st)) \<and>
        (\<forall>a b. map_of (login_attributes (yu_spec s)) a = Some b \<longrightarrow> map_of (observed_attributes st) a = Some b) \<and>
        rs_connection_limit st = us_connection_limit (yu_spec s)) \<and>
     (\<forall>h c. says_bool E h c (valid_until_query (yu_username s) (us_valid_until (yu_spec s))) = Inr True) \<and>
     (\<forall>c. gives E (\<lambda>observed. map_of observed = map_of (us_parameters (yu_spec s))) (get_role_parameters c (yu_username s) None))"

text \<open>The login holds every group it is granted, and none that an earlier pass granted and that is not wanted any more.\<close>

definition groups_kept :: "env \<Rightarrow> user_obj \<Rightarrow> steady_user \<Rightarrow> bool" where
  "groups_kept E obj s \<longleftrightarrow>
     (\<exists>held. (\<forall>h c. says_names E h c (Q_Memberships (yu_username s)) = Inr held) \<and>
        ug_group_role ` set (yu_grants s) \<subseteq> set held \<and>
        rg_group_role ` set (uo_grants obj) \<inter> set held \<subseteq> insert [] (ug_group_role ` set (yu_grants s)))"

text \<open>Where the user owns a database its sessions start in the owner group; where it no longer does, nothing is left of that.\<close>

definition owns :: "steady_user \<Rightarrow> string \<Rightarrow> string \<Rightarrow> bool" where
  "owns s database group_role \<longleftrightarrow> (\<exists>g \<in> set (yu_grants s). ug_level g = ''OWNER'' \<and> ug_set_role_for_owners g \<and>
     ug_database g = database \<and> ug_group_role g = group_role)"

definition defaults_kept :: "env \<Rightarrow> user_obj \<Rightarrow> steady_user \<Rightarrow> bool" where
  "defaults_kept E obj s \<longleftrightarrow>
     (\<forall>c database group_role. owns s database group_role \<longrightarrow>
        gives E (\<lambda>observed. map_of observed ''role'' = Some group_role) (get_role_parameters c (yu_username s) (Some database))) \<and>
     (\<forall>c. \<forall>e \<in> set (uo_grants obj). rg_role e = ''OWNER'' \<longrightarrow> (\<nexists>group_role. owns s (rg_database e) group_role) \<longrightarrow>
        gives E (\<lambda>observed. map_of observed ''role'' = None) (get_role_parameters c (yu_username s) (Some (rg_database e))))"

text \<open>The password: the server confirms it, or it cannot be checked but is the one already published.\<close>

definition password_kept :: "env \<Rightarrow> steady_user \<Rightarrow> bool" where
  "password_kept E s \<longleftrightarrow>
     (\<forall>c. gives E (\<lambda>m. m = Some True \<or> m = None \<and> yu_source s = Existing) (password_matches c (yu_username s) (yu_password s)))"

definition kept_result :: "steady_user \<Rightarrow> user_result" where
  "kept_result s = (new_user_result (yu_username s) RETAIN)\<lparr>ur_grants := yu_grants s\<rparr>"

text \<open>The Secret holds the data, labels and annotations of the pass; so does the PushSecret, when one is asked for.\<close>

definition secret_kept :: "env \<Rightarrow> user_obj \<Rightarrow> steady_user \<Rightarrow> resolved_instance \<Rightarrow> bool" where
  "secret_kept E obj s i \<longleftrightarrow>
     (\<exists>sec. (\<forall>h. says_secret E h (resolve_secret_namespace (yu_spec s) (uo_namespace obj)) (yu_secret s) = Inr sec) \<and>
        secret_matches sec (managed_body (credential_data (yu_spec s) i (kept_result s) (yu_password s))
          (managed_labels KIND_USER (uo_name obj) (uo_namespace obj) (Some (ri_name i)) (gs_labels (us_generated_secret (yu_spec s))))
          (gs_annotations (us_generated_secret (yu_spec s)))))"

definition push_kept :: "env \<Rightarrow> user_obj \<Rightarrow> steady_user \<Rightarrow> resolved_instance \<Rightarrow> bool" where
  "push_kept E obj s i \<longleftrightarrow> (case effective_push_secret (yu_spec s) i of
      None \<Rightarrow> True
    | Some p \<Rightarrow> ps_enabled p \<and> pushsecret_enabled E \<longrightarrow>
        (let namespace = resolve_secret_namespace (yu_spec s) (uo_namespace obj);
             body = build_push_secret p (pushsecret_api_version E) (secret_name (sha_of E) (uo_name obj) ''pg-push'') namespace (yu_secret s)
               (sort (map fst (credential_data (yu_spec s) i (kept_result s) (yu_password s))))
               (render_remote_key (or_text (ps_remote_ref_key p) (uo_namespace obj @ ''/'' @ uo_name obj)) (uo_namespace obj) (uo_name obj)
                 (yu_username s))
               (managed_labels KIND_USER (uo_name obj) (uo_namespace obj) (Some (ri_name i)) [])
         in \<exists>existing. (\<forall>h gv. says_push_secret E h gv namespace (pb_name body) = Inr existing) \<and>
              same_json (po_spec existing) (J_Obj (pb_spec body)) \<and> metadata_matches existing body))"

definition user_settled :: "env \<Rightarrow> user_obj \<Rightarrow> steady_user \<Rightarrow> bool" where
  "user_settled E obj s \<longleftrightarrow>
     parse_user_spec (uo_spec obj) = Inr (yu_spec s) \<and> resolve_username (sha_of E) (yu_spec s) (uo_name obj) = Inr (yu_username s) \<and>
     yu_secret s = resolve_secret_name (sha_of E) (yu_spec s) (uo_name obj) \<and>
     orders_sets E \<and> distinct (map fst (us_parameters (yu_spec s))) \<and> role_kept E s \<and> groups_kept E obj s \<and> defaults_kept E obj s \<and> password_kept E s \<and>
     gives E (\<lambda>(password, source). password = yu_password s \<and> source = yu_source s)
       (resolve_password (yu_spec s) (uo_namespace obj) (resolve_secret_namespace (yu_spec s) (uo_namespace obj)) (yu_secret s)) \<and>
     gives E (\<lambda>i. gives E (\<lambda>gs. gs = yu_grants s) (resolve_grants (yu_spec s) i (uo_namespace obj)) \<and>
         secret_kept E obj s i \<and> push_kept E obj s i)
       (resolve_instance (us_instance (yu_spec s)) (uo_namespace obj))"

text \<open>What such a pass may do: read, and ask once more for the deletion of a PushSecret that is not wanted.\<close>

definition at_rest :: "event \<Rightarrow> bool" where
  "at_rest ev \<longleftrightarrow> read_only ev \<or> (\<exists>gv namespace name. ev = K8s (K_Delete_Push_Secret gv namespace name))"

lemma rest_read: "emits E read_only m \<Longrightarrow> emits E at_rest m"
  by (erule emits_mono) (simp add: at_rest_def)

section \<open>Each step\<close>

lemma kept_role:
  assumes "role_kept E s"
  shows "emits E read_only (ensure_login_role c (yu_username s) (Some pw) (login_attributes (yu_spec s)) (us_connection_limit (yu_spec s))
      (us_valid_until (yu_spec s)))"
    "gives E (\<lambda>created. \<not> created) (ensure_login_role c (yu_username s) (Some pw) (login_attributes (yu_spec s))
      (us_connection_limit (yu_spec s)) (us_valid_until (yu_spec s)))"
proof -
  obtain st where st: "\<And>h c. says_role E h c (Q_Role (yu_username s)) = Inr (Some st)"
      "\<forall>a b. map_of (login_attributes (yu_spec s)) a = Some b \<longrightarrow> map_of (observed_attributes st) a = Some b"
      "rs_connection_limit st = us_connection_limit (yu_spec s)"
    and valid: "\<And>h c. says_bool E h c (valid_until_query (yu_username s) (us_valid_until (yu_spec s))) = Inr True"
    using assms unfolding role_kept_def by blast
  note run = converged_login_role_untouched [OF st valid]
  show "emits E read_only (ensure_login_role c (yu_username s) (Some pw) (login_attributes (yu_spec s)) (us_connection_limit (yu_spec s))
      (us_valid_until (yu_spec s)))"
    unfolding emits_def by (simp add: run) (simp add: valid_until_query_def split: option.split)
  show "gives E (\<lambda>created. \<not> created) (ensure_login_role c (yu_username s) (Some pw) (login_attributes (yu_spec s))
      (us_connection_limit (yu_spec s)) (us_valid_until (yu_spec s)))"
    unfolding gives_def by (simp add: run)
qed

lemma user_reads:
  "emits E read_only (password_matches c u p)" "emits E read_only (memberships c u)" "emits E read_only (get_role_parameters c u d)"
  "emits E read_only (get_database c db)" "emits E read_only (resolve_password spec ns sns sn)" "emits E read_only (resolve_grants spec i ns)"
proof -
  show "emits E read_only (password_matches c u p)"
    unfolding password_matches_def stored_verifier_def by (intro emits_rules) simp_all
  show "emits E read_only (memberships c u)" "emits E read_only (get_role_parameters c u d)" "emits E read_only (get_database c db)"
    unfolding memberships_def get_role_parameters_def get_database_def by (intro emits_rules; simp)+
  show "emits E read_only (resolve_password spec ns sns sn)"
    unfolding resolve_password_def generate_password_def Let_def by (intro emits_rules read_only_objects)
  show "emits E read_only (resolve_grants spec i ns)"
    unfolding resolve_grants_def resolve_grant_def Let_def by (intro emits_rules read_only_objects)
qed

lemma kept_password:
  assumes "password_kept E s"
  shows "emits E read_only (ensure_password c (yu_username s) (yu_password s) (yu_source s) r)"
    "gives E (\<lambda>t. t = r) (ensure_password c (yu_username s) (yu_password s) (yu_source s) r)"
  unfolding ensure_password_def
  by (rule emits_bind_gives [OF user_reads(1) assms [unfolded password_kept_def, rule_format]], auto simp: emits_ret)
    (rule gives_bindI [OF assms [unfolded password_kept_def, rule_format]], auto simp: gives_ret)

lemma kept_groups:
  assumes "groups_kept E obj s" "ur_grants r = yu_grants s"
  shows "emits E read_only (apply_memberships c (yu_username s) r (uo_grants obj))"
    "gives E (\<lambda>t. t = r) (apply_memberships c (yu_username s) r (uo_grants obj))"
proof -
  obtain held_groups where says: "\<And>h c. says_names E h c (Q_Memberships (yu_username s)) = Inr held_groups"
    and all: "ug_group_role ` set (yu_grants s) \<subseteq> set held_groups"
    and no_more: "rg_group_role ` set (uo_grants obj) \<inter> set held_groups \<subseteq> insert [] (ug_group_role ` set (yu_grants s))"
    using assms(1) unfolding groups_kept_def by blast
  have asked: "gives E (\<lambda>x. x = held_groups) (memberships c (yu_username s))"
    unfolding memberships_def by (rule fetch_says, rule says)
  have "filter (\<lambda>g. g \<notin> set held_groups) (desired_roles r) = []"
    using all assms(2) by (auto simp: desired_roles_def filter_empty_conv)
  moreover have "filter (\<lambda>g. g \<notin> set (desired_roles r) \<and> g \<in> set held_groups) (previously_granted (uo_grants obj)) = []"
    using no_more assms(2) by (auto simp: desired_roles_def previously_granted_def from_status_def filter_empty_conv)
  ultimately have no_group: "sorted_set (filter (\<lambda>g. g \<notin> set held_groups) (desired_roles r)) = []"
      "sorted_set (filter (\<lambda>g. g \<notin> set (desired_roles r) \<and> g \<in> set held_groups) (previously_granted (uo_grants obj))) = []"
    by (simp_all add: sorted_set_def)
  show "emits E read_only (apply_memberships c (yu_username s) r (uo_grants obj))"
    unfolding apply_memberships_def Let_def by (rule emits_bind_eq [OF user_reads(2) asked], simp only: no_group fold_m.simps bind_ret, rule emits_ret)
  show "gives E (\<lambda>t. t = r) (apply_memberships c (yu_username s) r (uo_grants obj))"
    unfolding apply_memberships_def Let_def by (rule gives_bind_eq [OF asked], simp only: no_group fold_m.simps bind_ret, rule gives_ret, rule refl)
qed

text \<open>A pass may report more warnings, and nothing else.\<close>

definition only_warned :: "user_result \<Rightarrow> user_result \<Rightarrow> bool" where
  "only_warned r t \<longleftrightarrow> (\<exists>ws. t = r\<lparr>ur_warnings := ws\<rparr>)"

lemma only_warned_rules: "only_warned r r" "only_warned r t \<Longrightarrow> only_warned r (warned msg t)"
  unfolding only_warned_def warned_def by (rule exI [of _ "ur_warnings r"], simp) auto

lemma only_warned_same: "only_warned r t \<Longrightarrow> ur_username t = ur_username r \<and> ur_grants t = ur_grants r \<and> ur_changes t = ur_changes r \<and>
    ur_secret_namespace t = ur_secret_namespace r \<and> ur_secret_name t = ur_secret_name r"
  by (auto simp: only_warned_def)

lemma owner_grant_owned:
  assumes "(db, g) \<in> set (owner_grants r)" "ur_grants r = yu_grants s"
  shows "owns s db g"
proof -
  let ?es = "map (\<lambda>g. (ug_database g, ug_group_role g)) (filter (\<lambda>g. ug_level g = ''OWNER'' \<and> ug_set_role_for_owners g) (ur_grants r))"
  have "distinct (map fst (owner_grants r))"
    using distinct_dupdate [of "[]" ?es] by (simp add: owner_grants_def dkeys_def)
  then have "map_of (rev ?es) db = Some g"
    using assms(1) map_of_is_SomeI by (fastforce simp: owner_grants_def map_of_dupdate)
  then have "(db, g) \<in> set ?es" using map_of_SomeD by fastforce
  then show ?thesis using assms(2) by (auto simp: owns_def)
qed

lemma previous_owner: "db \<in> set (previous_owner_dbs rec) \<Longrightarrow> \<exists>e \<in> set rec. rg_role e = ''OWNER'' \<and> rg_database e = db"
  by (auto simp: previous_owner_dbs_def from_status_def)

lemma owned_listed:
  assumes "owns s db g" "ur_grants r = yu_grants s"
  shows "db \<in> set (dkeys (owner_grants r))"
proof -
  obtain x where "x \<in> set (ur_grants r)" "ug_level x = ''OWNER''" "ug_set_role_for_owners x" "ug_database x = db"
    using assms unfolding owns_def by auto
  then have "db \<in> (\<lambda>g. ug_database g) ` {g \<in> set (ur_grants r). ug_level g = ''OWNER'' \<and> ug_set_role_for_owners g}" by blast
  then have "db \<in> dom (map_of (owner_grants r))"
    by (simp add: owner_grants_def map_of_dupdate dom_map_of_conv_image_fst image_image)
  then show ?thesis by (simp add: dkeys_def dom_map_of_conv_image_fst)
qed

lemma kept_defaults:
  assumes "defaults_kept E obj s" "ur_grants r = yu_grants s"
  shows "emits E read_only (apply_default_roles c (yu_username s) r (uo_grants obj))"
    "gives E (only_warned r) (apply_default_roles c (yu_username s) r (uo_grants obj))"
proof -
  have owned: "gives E (\<lambda>observed. map_of observed ''role'' = Some g) (get_role_parameters c (yu_username s) (Some db))"
    if "(db, g) \<in> set (owner_grants r)" for db g
    using assms(1) owner_grant_owned [OF that assms(2)] unfolding defaults_kept_def by blast
  have cleared: "gives E (\<lambda>observed. map_of observed ''role'' = None) (get_role_parameters c (yu_username s) (Some db))"
    if "db \<in> set (sorted_set (filter (\<lambda>d. d \<notin> set (dkeys (owner_grants r))) (previous_owner_dbs (uo_grants obj))))" for db
  proof -
    have "db \<notin> set (dkeys (owner_grants r))" "db \<in> set (previous_owner_dbs (uo_grants obj))"
      using that by (simp_all add: sorted_set_def)
    then obtain e where "e \<in> set (uo_grants obj)" "rg_role e = ''OWNER''" "rg_database e = db" "\<nexists>g. owns s db g"
      using previous_owner owned_listed [OF _ assms(2)] by blast
    then show ?thesis using assms(1) unfolding defaults_kept_def by blast
  qed
  show "emits E read_only (apply_default_roles c (yu_username s) r (uo_grants obj))"
    unfolding apply_default_roles_def Let_def
    apply (rule emits_bind; rule emits_fold)
     apply (clarsimp simp only: set_sort)
     apply (rule emits_bind [OF user_reads(4)], rule emits_if, rule emits_ret)
     apply (rule emits_bind_gives [OF user_reads(3) owned], assumption, simp add: emits_ret)
    apply (rule emits_bind_gives [OF user_reads(3) cleared], assumption, simp add: emits_ret)
    done
  show "gives E (only_warned r) (apply_default_roles c (yu_username s) r (uo_grants obj))"
    unfolding apply_default_roles_def Let_def
    apply (rule gives_bindI [where Q = "only_warned r"]; rule fold_keeps)
       apply (rule only_warned_rules)
      apply (clarsimp simp only: set_sort)
      apply (rule gives_bindI [OF gives_True], rule gives_if, rule gives_ret, erule only_warned_rules)
      apply (rule gives_bindI [OF owned], assumption, simp add: gives_ret)
     apply assumption
    apply (rule gives_bindI [OF cleared], assumption, simp add: gives_ret)
    done
qed

lemma kept_parameters:
  assumes "map_of observed = map_of ps" "distinct (map fst ps)" "orders_sets E"
  shows "emits E read_only (set_role_parameters c u ps observed)" "gives E (\<lambda>changes. changes = []) (set_role_parameters c u ps observed)"
proof -
  have skip: "map_of observed k = Some v" if "(k, v) \<in> set ps" for k v
    using that assms(1,2) by simp
  have none: "gives E (\<lambda>stale. stale = []) (asks (\<lambda>E. stale_keys E observed ps))"
    by (rule gives_asks, rule stale_keys_same [OF assms(3,1)])
  show "emits E read_only (set_role_parameters c u ps observed)"
    unfolding set_role_parameters_def
    apply (rule emits_bind, rule emits_fold, clarsimp simp: skip emits_ret)
    apply (rule emits_bind_eq [OF emits_asks none], simp add: emits_ret)
    done
  show "gives E (\<lambda>changes. changes = []) (set_role_parameters c u ps observed)"
    unfolding set_role_parameters_def
    apply (rule gives_bind_eq, rule fold_keeps, rule refl, clarsimp simp: skip gives_ret)
    apply (rule gives_bind_eq [OF none], simp add: gives_ret)
    done
qed

text \<open>The result of a pass that has found everything in place: what was resolved, and nothing done.\<close>

definition found_in_place :: "user_obj \<Rightarrow> steady_user \<Rightarrow> user_result \<Rightarrow> bool" where
  "found_in_place obj s r \<longleftrightarrow> ur_username r = yu_username s \<and> ur_grants r = yu_grants s \<and>
     ur_secret_namespace r = resolve_secret_namespace (yu_spec s) (uo_namespace obj) \<and> ur_secret_name r = yu_secret s"

lemma found_in_place_warned: "found_in_place obj s r \<Longrightarrow> only_warned r t \<Longrightarrow> found_in_place obj s t"
  by (auto simp: found_in_place_def only_warned_def)

lemma credentials_in_place: "found_in_place obj s r \<Longrightarrow> credential_data spec i r pw = credential_data spec i (kept_result s) pw"
  by (simp add: found_in_place_def credential_data_def kept_result_def new_user_result_def Let_def)

definition published_keys :: "steady_user \<Rightarrow> resolved_instance \<Rightarrow> string list" where
  "published_keys s i = sort (map fst (credential_data (yu_spec s) i (kept_result s) (yu_password s)))"

lemma kept_secret:
  assumes "secret_kept E obj s i" "found_in_place obj s r"
  shows "emits E read_only (write_credentials (yu_spec s) i (uo_namespace obj) (uo_name obj) r (yu_password s))"
    "gives E (\<lambda>t. t = r\<lparr>ur_secret_keys := published_keys s i\<rparr>)
       (write_credentials (yu_spec s) i (uo_namespace obj) (uo_name obj) r (yu_password s))"
proof -
  obtain sec where says: "\<And>h. says_secret E h (resolve_secret_namespace (yu_spec s) (uo_namespace obj)) (yu_secret s) = Inr sec"
    and same: "secret_matches sec (managed_body (credential_data (yu_spec s) i (kept_result s) (yu_password s))
          (managed_labels KIND_USER (uo_name obj) (uo_namespace obj) (Some (ri_name i)) (gs_labels (us_generated_secret (yu_spec s))))
          (gs_annotations (us_generated_secret (yu_spec s))))"
    using assms(1) unfolding secret_kept_def by blast
  have at: "ur_secret_namespace r = resolve_secret_namespace (yu_spec s) (uo_namespace obj)" "ur_secret_name r = yu_secret s"
    using assms(2) by (simp_all add: found_in_place_def)
  note untouched = steady_secret [OF says same]
  show "emits E read_only (write_credentials (yu_spec s) i (uo_namespace obj) (uo_name obj) r (yu_password s))"
    unfolding write_credentials_def Let_def credentials_in_place [OF assms(2)]
    by (simp add: at) (rule emits_bind_eq [OF untouched], simp add: emits_ret)
  show "gives E (\<lambda>t. t = r\<lparr>ur_secret_keys := published_keys s i\<rparr>)
       (write_credentials (yu_spec s) i (uo_namespace obj) (uo_name obj) r (yu_password s))"
    unfolding write_credentials_def Let_def credentials_in_place [OF assms(2)]
    by (simp add: at) (rule gives_bind_eq [OF untouched(2)], simp add: gives_ret published_keys_def)
qed

lemma kept_push_object:
  assumes "\<And>h gv. says_push_secret E h gv (pb_namespace body) (pb_name body) = Inr existing"
    "same_json (po_spec existing) (J_Obj (pb_spec body)) \<and> metadata_matches existing body"
  shows "emits E read_only (apply_push_secret body)" "gives E (\<lambda>x. x = (False, False)) (apply_push_secret body)"
proof -
  have found: "gives E (\<lambda>x. x = Some existing)
      (if_found (k8s_ask (K_Get_Push_Secret gv (pb_namespace body) (pb_name body)) (\<lambda>E h. says_push_secret E h gv (pb_namespace body) (pb_name body))))"
    for gv unfolding gives_def by (auto simp: if_found_run k8s_ask_def run_simps assms(1))
  show "emits E read_only (apply_push_secret body)"
    unfolding apply_push_secret_def Let_def
    by (rule emits_bind [OF emits_lift], rule emits_bind_eq [OF _ found]) (auto intro!: emits_rules simp: assms(2))
  show "gives E (\<lambda>x. x = (False, False)) (apply_push_secret body)"
    unfolding apply_push_secret_def Let_def
    by (rule gives_bindI [OF gives_True], rule gives_bind_eq [OF found]) (simp add: assms(2) gives_ret)
qed

lemma push_removal: "emits E at_rest (delete_push_secret av ns n)"
  unfolding delete_push_secret_def by (intro emits_rules) (simp add: at_rest_def)

lemma push_health: "emits E at_rest (check_push_secret_health r n)"
  unfolding check_push_secret_health_def push_secret_status_def by (rule rest_read, intro emits_rules) simp_all

lemma kept_push:
  assumes "push_kept E obj s i" "found_in_place obj s r" "ur_secret_keys r = published_keys s i"
  shows "emits E at_rest (sync_push_secret (yu_spec s) i (uo_namespace obj) (uo_name obj) r)"
proof -
  have at: "ur_secret_namespace r = resolve_secret_namespace (yu_spec s) (uo_namespace obj)" "ur_secret_name r = yu_secret s"
      "ur_username r = yu_username s"
    using assms(2) by (simp_all add: found_in_place_def)
  have asked: "gives E (\<lambda>x. x = (secret_name (sha_of E) (uo_name obj) ''pg-push'', pushsecret_enabled E, pushsecret_api_version E))
      (asks (\<lambda>E. (secret_name (sha_of E) (uo_name obj) ''pg-push'', pushsecret_enabled E, pushsecret_api_version E)))"
    by (rule gives_asks) simp
  have removed: "emits E at_rest (bind_m (delete_push_secret av ns n) (\<lambda>removed. ret_m (f removed)))" for av ns n f
    by (rule emits_bind [OF push_removal emits_ret])
  have kept_fields: "ur_secret_namespace (r\<lparr>ur_push_secret_namespace := x\<rparr>) = ur_secret_namespace r"
      "ur_secret_name (r\<lparr>ur_push_secret_namespace := x\<rparr>) = ur_secret_name r" "ur_secret_keys (r\<lparr>ur_push_secret_namespace := x\<rparr>) = ur_secret_keys r"
      "ur_username (r\<lparr>ur_push_secret_namespace := x\<rparr>) = ur_username r" for x
    by simp_all
  show ?thesis
  proof (cases "\<exists>p. effective_push_secret (yu_spec s) i = Some p \<and> ps_enabled p \<and> pushsecret_enabled E")
    case True
    then obtain p where p: "effective_push_secret (yu_spec s) i = Some p" "ps_enabled p" "pushsecret_enabled E" by blast
    let ?body = "build_push_secret p (pushsecret_api_version E) (secret_name (sha_of E) (uo_name obj) ''pg-push'')
        (resolve_secret_namespace (yu_spec s) (uo_namespace obj)) (yu_secret s) (published_keys s i)
        (render_remote_key (or_text (ps_remote_ref_key p) (uo_namespace obj @ ''/'' @ uo_name obj)) (uo_namespace obj) (uo_name obj) (yu_username s))
        (managed_labels KIND_USER (uo_name obj) (uo_namespace obj) (Some (ri_name i)) [])"
    obtain existing where "\<And>h gv. says_push_secret E h gv (resolve_secret_namespace (yu_spec s) (uo_namespace obj)) (pb_name ?body) = Inr existing"
      "same_json (po_spec existing) (J_Obj (pb_spec ?body)) \<and> metadata_matches existing ?body"
      using assms(1) p unfolding push_kept_def published_keys_def Let_def by auto
    moreover have "pb_namespace ?body = resolve_secret_namespace (yu_spec s) (uo_namespace obj)"
      by (simp add: build_push_secret_def Let_def)
    ultimately have kept: "emits E read_only (apply_push_secret ?body)" "gives E (\<lambda>x. x = (False, False)) (apply_push_secret ?body)"
      by (metis kept_push_object)+
    show ?thesis
      unfolding sync_push_secret_def Let_def
      apply (rule emits_bind_eq [OF emits_asks asked])
      apply (simp only: prod.case p option.case if_True simp_thms kept_fields at assms(3))
      apply (rule emits_bind_eq [OF rest_read [OF kept(1)] kept(2)])
      apply (simp add: push_health)
      done
  next
    case False
    show ?thesis
      unfolding sync_push_secret_def Let_def
      apply (rule emits_bind_eq [OF emits_asks asked])
      apply (cases "effective_push_secret (yu_spec s) i")
       apply (simp only: prod.case option.case, rule removed)
      apply (simp only: prod.case option.case, rule emits_if)
       apply (use False in blast)
      apply (rule removed)
      done
  qed
qed

section \<open>The pass\<close>

lemma kept_converge:
  assumes "orders_sets E" "distinct (map fst (us_parameters (yu_spec s)))" "role_kept E s" "groups_kept E obj s" "defaults_kept E obj s"
    "password_kept E s" "found_in_place obj s r"
  shows "emits E read_only (converge_role c (yu_spec s) obj (yu_username s) (yu_password s) (yu_source s) r)"
    "gives E (found_in_place obj s) (converge_role c (yu_spec s) obj (yu_username s) (yu_password s) (yu_source s) r)"
proof -
  have grants: "ur_grants r = yu_grants s" using assms(7) by (simp add: found_in_place_def)
  note groups = kept_groups [OF assms(4) grants] and defaults = kept_defaults [OF assms(5) grants] and role = kept_role [OF assms(3)]
  have observed: "gives E (\<lambda>observed. map_of observed = map_of (us_parameters (yu_spec s))) (get_role_parameters c (yu_username s) None)"
    using assms(3) by (simp add: role_kept_def)
  have changed_nothing: "found_in_place obj s (t\<lparr>ur_changes := cs\<rparr>)" if "only_warned r t" for t cs
    using found_in_place_warned [OF assms(7) that] by (simp add: found_in_place_def)
  show "emits E read_only (converge_role c (yu_spec s) obj (yu_username s) (yu_password s) (yu_source s) r)"
    unfolding converge_role_def
    apply (rule emits_bind_gives [OF role], simp only: if_False)
    apply (rule emits_bind_eq [OF kept_password [OF assms(6)]])
    apply (rule emits_bind_eq [OF groups])
    apply (rule emits_bind [OF defaults(1)])
    apply (rule emits_bind_gives [OF user_reads(3) observed])
    apply (rule emits_bind_eq [OF kept_parameters [OF _ assms(2,1)]], assumption+)
    apply (rule emits_ret)
    done
  show "gives E (found_in_place obj s) (converge_role c (yu_spec s) obj (yu_username s) (yu_password s) (yu_source s) r)"
    unfolding converge_role_def
    apply (rule gives_bindI [OF role(2)], simp only: if_False)
    apply (rule gives_bind_eq [OF kept_password(2) [OF assms(6)]])
    apply (rule gives_bind_eq [OF groups(2)])
    apply (rule gives_bindI [OF defaults(2)])
    apply (rule gives_bindI [OF gives_True], rule gives_bindI [OF gives_True])
    apply (rule gives_ret, erule changed_nothing)
    done
qed


section \<open>A converged user\<close>

text \<open>A login that may read one database and owns another, whose verifier the server does not show.\<close>

definition kept_spec :: user_spec where
  "kept_spec = sample_user\<lparr>us_connection_limit := 10, us_parameters := [(''work_mem'', ''64MB'')]\<rparr>"

definition kept_object :: user_obj where
  "kept_object = sample_user_object\<lparr>uo_spec := Inr kept_spec,
     uo_grants := sample_recorded @ [\<lparr>rg_database = ''legacy'', rg_role = ''OWNER'', rg_group_role = ''legacy_owner'', rg_db_ref = ''shop/legacy''\<rparr>]\<rparr>"

definition kept_grants :: "user_grant list" where
  "kept_grants =
     [\<lparr>ug_database = ''orders'', ug_level = ''RO'', ug_group_role = ''orders_ro'', ug_db_resource = ''team-a/orders'', ug_set_role_for_owners = True\<rparr>,
      \<lparr>ug_database = ''shop'', ug_level = ''OWNER'', ug_group_role = ''orders_admin'', ug_db_resource = ''shop/orders'', ug_set_role_for_owners = True\<rparr>]"

definition kept_user :: steady_user where
  "kept_user = \<lparr>yu_spec = kept_spec, yu_username = ''app'', yu_password = ''s3cret'', yu_source = Existing, yu_grants = kept_grants,
     yu_secret = ''app-pg-credentials''\<rparr>"

definition kept_database_spec :: "string \<Rightarrow> database_spec" where
  "kept_database_spec ns = sample_database\<lparr>db_name := Some (if ns = ''shop'' then ''shop'' else ''orders'')\<rparr>"

definition kept_database :: "string \<Rightarrow> string \<Rightarrow> database_obj" where
  "kept_database ns n = \<lparr>do_namespace = ns, do_name = n, do_generation = 1, do_spec = Inr (kept_database_spec ns),
     do_managed_schemas = [], do_managed_extensions = [], do_conditions = []\<rparr>"

definition kept_credentials :: secret_obj where
  "kept_credentials = \<lparr>so_data = map (\<lambda>(k, v). (k, utf8 v)) (credential_data kept_spec sample_inst (kept_result kept_user) ''s3cret''),
     so_string_data = [], so_labels = managed_labels KIND_USER ''app'' ''team-a'' (Some ''main'') [], so_annotations = []\<rparr>"

definition kept_env :: env where
  "kept_env = sample_env\<lparr>
     says_instance := \<lambda>h n. Inr \<lparr>io_spec = Inr sample_instance, io_generation = 1\<rparr>, says_database_obj := \<lambda>h ns n. Inr (kept_database ns n),
     says_secret := \<lambda>h ns n. Inr (if n = ''admin'' then operator_secret else kept_credentials),
     says_server := \<lambda>h c q. Inr (Some (ri_server sample_inst)), says_bool := \<lambda>h c q. Inr True,
     says_role := \<lambda>h c q. Inr (Some sample_role), says_names := \<lambda>h c q. Inr [''dba'', ''orders_ro'', ''orders_admin''],
     says_settings := \<lambda>h c q. Inr (case q of Q_Role_Settings u db \<Rightarrow> if db = [] then [[''work_mem=64MB'']] else
         if db = ''shop'' then [[''role=orders_admin'']] else [] | _ \<Rightarrow> [])\<rparr>"

lemma kept_says [simp]:
  "says_instance kept_env h n = Inr \<lparr>io_spec = Inr sample_instance, io_generation = 1\<rparr>"
  "says_database_obj kept_env h ns n = Inr (kept_database ns n)"
  "says_secret kept_env h ns n = Inr (if n = ''admin'' then operator_secret else kept_credentials)"
  "says_bool kept_env h c q = Inr True" "says_role kept_env h c q = Inr (Some sample_role)"
  "says_names kept_env h c q = Inr [''dba'', ''orders_ro'', ''orders_admin'']" "says_text kept_env h c q = Inr None"
  "says_settings kept_env h c q = Inr (case q of Q_Role_Settings u db \<Rightarrow> if db = [] then [[''work_mem=64MB'']] else
         if db = ''shop'' then [[''role=orders_admin'']] else [] | _ \<Rightarrow> [])"
  by (simp_all add: kept_env_def sample_env_def)

lemma kept_sha: "sha_of kept_env = (\<lambda>t. replicate 64 CHR ''0'')"
  by (simp add: fun_eq_iff sha_of_def kept_env_def sample_env_def)

text \<open>The spec, the name and the roles of a database, as the code reads them.\<close>

definition read_roles :: "string \<Rightarrow> (database_spec \<times> string \<times> role_names) res" where
  "read_roles ns = bind_r (parse_database_spec (do_spec (kept_database ns ''orders''))) (\<lambda>ds.
     bind_r (resolve_database_name (\<lambda>t. replicate 64 CHR ''0'') ds (do_name (kept_database ns ''orders''))) (\<lambda>database.
     bind_r (resolve_role_names (\<lambda>t. replicate 64 CHR ''0'') ds database (is_role_prefix sample_instance)) (\<lambda>roles.
     Inr (ds, database, roles))))"

lemma kept_rows:
  "read_roles ''team-a'' = Inr (kept_database_spec ''team-a'', ''orders'',
     \<lparr>rn_owner = ''orders_admin'', rn_read_write = ''orders_rw'', rn_read_only = ''orders_ro''\<rparr>)"
  "read_roles ''shop'' = Inr (kept_database_spec ''shop'', ''shop'',
     \<lparr>rn_owner = ''orders_admin'', rn_read_write = ''shop_rw'', rn_read_only = ''shop_ro''\<rparr>)"
  "db_instance (kept_database_spec ns) = us_instance kept_spec" "db_set_role_for_owners (kept_database_spec ns)"
  by (code_simp, code_simp) (simp_all add: kept_database_spec_def sample_database_def kept_spec_def sample_user_def)

lemma kept_grant:
  assumes "read_roles ns = Inr (kept_database_spec ns, database, roles)" "ri_spec i = sample_instance" "or_name (ac_db_ref a) = ''orders''"
  shows "gives kept_env (\<lambda>g. g = \<lparr>ug_database = database, ug_level = level_text (ac_role a), ug_group_role = role_for roles (ac_role a),
      ug_db_resource = ns @ ''/orders'', ug_set_role_for_owners = True\<rparr>) (resolve_grant kept_spec i ns a)"
proof -
  have obj: "gives kept_env (\<lambda>x. x = kept_database ns ''orders'') (get_database_object ns ''orders'')"
    by (simp add: gives_def get_database_object_def rename_not_found_def k8s_ask_def run_simps)
  have sha: "gives kept_env (\<lambda>h. h = (\<lambda>t. replicate 64 CHR ''0'')) (asks sha_of)" by (rule gives_asks) (rule kept_sha)
  show ?thesis
    unfolding resolve_grant_def Let_def assms(2,3)
    apply (rule gives_bind_eq [OF obj], rule gives_bind_eq [OF sha])
    apply (fold read_roles_def, simp only: assms(1) sum.case prod.case)
    apply (simp add: kept_rows gives_ret)
    done
qed

lemma kept_access: "us_access kept_spec = [\<lparr>ac_db_ref = \<lparr>or_name = ''orders'', or_namespace = None\<rparr>, ac_role = RO\<rparr>,
    \<lparr>ac_db_ref = \<lparr>or_name = ''orders'', or_namespace = Some ''shop''\<rparr>, ac_role = OWNER\<rparr>]"
  by (simp add: kept_spec_def sample_user_def)

lemma kept_resolved_grants:
  assumes "ri_spec i = sample_instance"
  shows "gives kept_env (\<lambda>gs. gs = kept_grants) (resolve_grants kept_spec i ''team-a'')"
proof -
  have ns: "resolve_namespace None ''team-a'' = ''team-a''" "resolve_namespace (Some ''shop'') ''team-a'' = ''shop''" by code_simp+
  show ?thesis
    unfolding resolve_grants_def kept_access Let_def
    apply (simp add: ns bind_assoc_m)
    apply (rule gives_bind_eq [OF kept_grant [OF kept_rows(1) assms]], simp)
    apply (simp add: ns bind_assoc_m)
    apply (rule gives_bind_eq [OF kept_grant [OF kept_rows(2) assms]], simp)
    apply (simp add: gives_ret kept_grants_def role_for_def)
    done
qed

lemma kept_fields:
  "yu_spec kept_user = kept_spec" "yu_username kept_user = ''app''" "yu_password kept_user = ''s3cret''" "yu_source kept_user = Existing"
  "yu_grants kept_user = kept_grants" "yu_secret kept_user = ''app-pg-credentials''"
  "uo_namespace kept_object = ''team-a''" "uo_name kept_object = ''app''" "us_instance kept_spec = ''main''"
  "us_connection_limit kept_spec = 10" "us_parameters kept_spec = [(''work_mem'', ''64MB'')]" "us_valid_until kept_spec = None"
  by (simp_all add: kept_user_def kept_object_def sample_user_object_def kept_spec_def sample_user_def)

lemma kept_settings:
  "gives kept_env (\<lambda>x. x = [(''work_mem'', ''64MB'')]) (get_role_parameters c u None)"
  "gives kept_env (\<lambda>x. x = [(''role'', ''orders_admin'')]) (get_role_parameters c u (Some ''shop''))"
  "gives kept_env (\<lambda>x. x = []) (get_role_parameters c u (Some ''legacy''))"
proof -
  have rows: "gives kept_env (\<lambda>x. x = (if db = [] then [[''work_mem=64MB'']] else if db = ''shop'' then [[''role=orders_admin'']] else []))
      (fetch says_settings c (Q_Role_Settings u db))" for db
    by (rule fetch_says) simp
  have read: "merge_settings [[''work_mem=64MB'']] = [(''work_mem'', ''64MB'')]" "merge_settings [[''role=orders_admin'']] = [(''role'', ''orders_admin'')]"
      "merge_settings [] = []"
    by code_simp+
  show "gives kept_env (\<lambda>x. x = [(''work_mem'', ''64MB'')]) (get_role_parameters c u None)"
    "gives kept_env (\<lambda>x. x = [(''role'', ''orders_admin'')]) (get_role_parameters c u (Some ''shop''))"
    "gives kept_env (\<lambda>x. x = []) (get_role_parameters c u (Some ''legacy''))"
    unfolding get_role_parameters_def by (rule gives_bind_eq [OF rows], simp add: or_text_def read gives_ret)+
qed

lemma kept_owned: "owns kept_user db g \<longleftrightarrow> db = ''shop'' \<and> g = ''orders_admin''"
  by (auto simp: owns_def kept_fields kept_grants_def)

lemma kept_server: "role_kept kept_env kept_user" "groups_kept kept_env kept_object kept_user" "defaults_kept kept_env kept_object kept_user"
  "password_kept kept_env kept_user"
proof -
  have attributes: "\<forall>a b. map_of (login_attributes kept_spec) a = Some b \<longrightarrow> map_of (observed_attributes sample_role) a = Some b"
    by (simp add: login_attributes_def as_mapping_def observed_attributes_def sample_role_def kept_spec_def sample_user_def)
  have "rs_connection_limit sample_role = 10" by (simp add: sample_role_def)
  with attributes show "role_kept kept_env kept_user"
    by (auto simp: role_kept_def kept_fields intro!: gives_mono [OF kept_settings(1)])
  have recorded: "rg_group_role ` set (uo_grants kept_object) = {''old'', ''legacy_owner''}"
    by (simp add: kept_object_def sample_recorded_def)
  show "groups_kept kept_env kept_object kept_user"
    unfolding groups_kept_def recorded by (rule exI [of _ "[''dba'', ''orders_ro'', ''orders_admin'']"]) (simp add: kept_fields kept_grants_def)
  have owner: "rg_database e = ''legacy''" if "e \<in> set (uo_grants kept_object)" "rg_role e = ''OWNER''" for e
    using that by (auto simp: kept_object_def sample_recorded_def)
  show "defaults_kept kept_env kept_object kept_user"
    unfolding defaults_kept_def kept_owned kept_fields
    by (auto dest!: owner intro!: gives_mono [OF kept_settings(2)] gives_mono [OF kept_settings(3)])
  have hidden: "gives kept_env (\<lambda>v. v = None) (stored_verifier c u)" for c u
    unfolding stored_verifier_def by (rule gives_catch, rule fetch_says) (simp_all add: gives_ret)
  show "password_kept kept_env kept_user"
    unfolding password_kept_def password_matches_def kept_fields
    by (intro allI gives_bind_eq [OF hidden]) (simp add: gives_ret)
qed

lemma kept_instance: "gives kept_env (\<lambda>i. ri_name i = ''main'' \<and> ri_spec i = sample_instance \<and> ep_host (ri_endpoint i) = ''db.example'' \<and>
    ep_port (ri_endpoint i) = 5432) (resolve_instance ''main'' ''team-a'')"
proof -
  have load: "gives kept_env (\<lambda>(sp, g). sp = sample_instance) (load_instance_spec ''main'' ''team-a'')"
    using sample_instance_accepted
    by (simp add: gives_def load_instance_spec_def get_instance_def rename_not_found_def k8s_ask_def run_simps permits_namespace_def
        sample_instance_def)
  have at: "gives kept_env (\<lambda>ep. ep_host ep = is_host sample_instance \<and> ep_port ep = is_port sample_instance) (build_endpoint ''main'' sample_instance)"
    unfolding build_endpoint_def Let_def by (intro gives_bindI [OF gives_True] gives_ret) simp
  have fields: "is_host sample_instance = ''db.example''" "is_port sample_instance = 5432" "is_min_server_version sample_instance = None"
    by (simp_all add: sample_instance_def)
  show ?thesis
    unfolding resolve_instance_def
    apply (rule gives_bindI [OF load], clarify)
    apply (rule gives_bindI [OF at], rule gives_bindI [OF gives_True])
    apply (simp add: fields gives_ret)
    done
qed

lemma own_data_matches:
  assumes "distinct (map fst d)"
  shows "all_match (current_data \<lparr>so_data = map (\<lambda>(k, v). (k, utf8 v)) d, so_string_data = sd, so_labels = l, so_annotations = a\<rparr>)
    (map (\<lambda>(k, v). (k, b64_text v)) d)"
proof -
  have "map (\<lambda>(k, v). (k, b64encode v)) (map (\<lambda>(k, v). (k, utf8 v)) d) = map (\<lambda>(k, v). (k, b64_text v)) d"
    by (simp add: b64_text_def case_prod_unfold)
  moreover have "distinct (map fst (map (\<lambda>(k, v). (k, b64_text v)) d))"
    using assms by (simp add: case_prod_unfold comp_def)
  ultimately show ?thesis
    unfolding all_match_def current_data_def list_all_iff by (auto simp del: map_map simp: map_of_eq_Some_iff)
qed

lemma own_data_read:
  assumes "distinct (map fst d)" "map_of d k = Some v"
  shows "map_of (secret_data \<lparr>so_data = map (\<lambda>(k, v). (k, utf8 v)) d, so_string_data = [], so_labels = l, so_annotations = a\<rparr>) k = Some (utf8 v)"
proof -
  have "distinct (map fst (map (\<lambda>(k, v). (k, utf8 v)) d))"
    using assms(1) by (simp add: case_prod_unfold comp_def)
  moreover have "(k, utf8 v) \<in> set (map (\<lambda>(k, v). (k, utf8 v)) d)" using map_of_SomeD [OF assms(2)] by force
  ultimately show ?thesis by (simp add: secret_data_def map_of_dupdate_wanted del: map_map)
qed

lemma kept_published:
  assumes "ri_name i = ''main'' \<and> ri_spec i = sample_instance \<and> ep_host (ri_endpoint i) = ''db.example'' \<and> ep_port (ri_endpoint i) = 5432"
  shows "secret_kept kept_env kept_object kept_user i" "push_kept kept_env kept_object kept_user i"
proof -
  have labels: "all_match (managed_labels KIND_USER ''app'' ''team-a'' (Some ''main'') []) (managed_labels KIND_USER ''app'' ''team-a'' (Some ''main'') [])"
    by code_simp
  have gs: "gs_labels (us_generated_secret kept_spec) = []" "gs_annotations (us_generated_secret kept_spec) = []"
    by (simp_all add: kept_spec_def sample_user_def)
  have same: "secret_matches kept_credentials (managed_body (credential_data kept_spec sample_inst (kept_result kept_user) ''s3cret'')
      (managed_labels KIND_USER ''app'' ''team-a'' (Some ''main'') (gs_labels (us_generated_secret kept_spec)))
      (gs_annotations (us_generated_secret kept_spec)))"
    unfolding gs by (simp add: secret_matches_def managed_body_def kept_credentials_def own_data_matches [OF credential_distinct] labels)
      (simp add: all_match_def)
  have "credential_data kept_spec i (kept_result kept_user) ''s3cret'' = credential_data kept_spec sample_inst (kept_result kept_user) ''s3cret''"
    using assms by (simp add: credential_data_def sample_inst_def sample_endpoint_def split: list.split)
  then show "secret_kept kept_env kept_object kept_user i"
    unfolding secret_kept_def kept_fields using same assms by (intro exI [of _ kept_credentials]) simp
  have "us_push_secret kept_spec = None" "is_push_secret sample_instance = None"
    by (simp_all add: kept_spec_def sample_user_def sample_instance_def)
  then show "push_kept kept_env kept_object kept_user i"
    using assms by (simp add: push_kept_def effective_push_secret_def kept_fields)
qed

lemma kept_settled: "user_settled kept_env kept_object kept_user"
proof -
  have spec: "parse_user_spec (uo_spec kept_object) = Inr kept_spec"
    "resolve_username (\<lambda>t. replicate 64 CHR ''0'') kept_spec ''app'' = Inr ''app''"
    "resolve_secret_name (\<lambda>t. replicate 64 CHR ''0'') kept_spec ''app'' = ''app-pg-credentials''"
    by code_simp+
  have keys: "distinct (map (secret_key kept_spec) LOGICAL_KEYS)" by code_simp
  have plain: "utf8 ''s3cret'' = [115, 51, 99, 114, 101, 116]" "utf8_decode [115, 51, 99, 114, 101, 116] = Some ''s3cret''" by code_simp+
  have "map_of (secret_data kept_credentials) (secret_key kept_spec ''password'') = Some (utf8 ''s3cret'')"
    unfolding kept_credentials_def by (rule own_data_read [OF credential_distinct credential_password [OF keys]])
  with plain have bytes: "map_of (secret_data kept_credentials) (secret_key kept_spec ''password'') = Some [115, 51, 99, 114, 101, 116]"
      "utf8_decode [115, 51, 99, 114, 101, 116] = Some ''s3cret''"
    by simp_all
  have none: "us_password_secret kept_spec = None" by (simp add: kept_spec_def sample_user_def)
  have found: "gives kept_env (\<lambda>d. d = secret_data kept_credentials)
      (catch_m ReferenceNotFound (read_secret ns ''app-pg-credentials'') (\<lambda>_. ret_m []))" for ns
    by (simp add: gives_def run_simps read_secret_run)
  have password: "gives kept_env (\<lambda>(password, source). password = ''s3cret'' \<and> source = Existing)
      (resolve_password kept_spec ns sns ''app-pg-credentials'')" for ns sns
    unfolding resolve_password_def none
    by (simp only: option.case, rule gives_bind_eq [OF found], simp add: bytes, rule gives_bind_eq [OF reads_text [OF bytes(2)]])
      (simp add: gives_ret)
  have instance_kept: "gives kept_env (\<lambda>i. gives kept_env (\<lambda>gs. gs = kept_grants) (resolve_grants kept_spec i ''team-a'') \<and>
      secret_kept kept_env kept_object kept_user i \<and> push_kept kept_env kept_object kept_user i) (resolve_instance ''main'' ''team-a'')"
    by (rule gives_mono [OF kept_instance]) (use kept_resolved_grants kept_published in blast)
  have sets: "orders_sets kept_env" by (simp add: orders_sets_def kept_env_def sample_env_def)
  show ?thesis
    unfolding user_settled_def kept_fields kept_sha
    using spec kept_server password instance_kept sets by simp
qed


section \<open>The user for whom no pass is the last\<close>

text \<open>
  With a password of the user's own and a verifier that cannot be read - the usual case on a managed server - the password is sent
  on every pass, whatever the server already holds.
\<close>

lemma own_password_sent_every_pass:
  assumes "says_text E (trace w) c (Q_Verifier u) = Inr None \<or> (\<exists>e. says_text E (trace w) c (Q_Verifier u) = Inl e)"
  shows "\<exists>ok. Executed c (Format ''ALTER ROLE {} WITH PASSWORD {}'' [ident u, literal p]) ok \<in>
    set (trace (snd (ensure_password c u p Byo r E w)))"
proof -
  have anything: "instance_of x Base_Exception" for x by (simp add: instance_of_def)
  have "fst (password_matches c u p E w) = Inr None"
  proof (cases "says_text E (trace w) c (Q_Verifier u)")
    case (Inl e)
    then show ?thesis by (cases e) (simp add: password_matches_def stored_verifier_def fetch_def run_simps anything)
  next
    case (Inr x)
    with assms show ?thesis by (simp add: password_matches_def stored_verifier_def fetch_def run_simps anything)
  qed
  then obtain v where "password_matches c u p E w = (Inr None, v)" by (cases "password_matches c u p E w") auto
  then show ?thesis
    by (auto simp: ensure_password_def write_password_def set_password_def run_simps execute_def execute_as_def split: option.splits)
qed

end
