(* ===== verification/Spec2Isabelle.thy ===== *)
theory Spec2Isabelle
  imports ApiCache ApiDocuments ApiStore Base64 Clock Config Connection Context DatabaseReconcile DatabaseStatus DatabaseSteady Effects Eligibility Errors Filters Handlers
    Health Instances Locks Logical Models Naming Ordering Parameters PgDatabase Prelude Privileges Process Publications PushSecret
    ReplicationHandlers ReplicationLaws ReplicationLogin ReplicationOutcomes ReplicationReconcile ReplicationStatus ReplicationSteady ReplicationTeardown
    Reports Roles Secrets Settings Status StatusTypes Steady Subscriptions Topology Units UserReconcile UserStatus
    UserSteady
begin

text \<open>
  A verification library for \<open>pg-operator\<close>, a Kubernetes operator that manages databases, roles and logical
  replications on existing PostgreSQL servers (Python, \<open>src/src/pg_operator\<close>). Four custom resources describe
  the wanted state: PostgresInstance (a server and its credentials), PostgresDB, PostgresUser and
  PostgresReplication. For each the operator runs passes that read the spec, resolve the instance, compare the
  server with the spec, execute statements until they agree, and write a status.

  How the program is modelled. Pure functions are functions with the source's names. Code that raises
  returns a sum of the modelled exception classes (\<open>Errors\<close>) and a value. Code that talks to PostgreSQL or to
  the Kubernetes API is a function of an environment and a world (\<open>Effects\<close>): the environment answers each
  request from the whole history of requests before it, so it stands for any server, with any concurrent
  activity and any pattern of failures; the world holds that history and the operator's own state (connection
  pools, server-information cache). SQL statements stay the trees of \<open>psycopg.sql\<close> calls the code builds. What
  is not in the repository is a parameter: hash functions, how psycopg renders a statement, the clock, the
  order in which Python iterates a set. Characters range over code points below 256.

  The theories and the files they model (under \<open>src/src/pg_operator\<close>):
  \<^item> \<open>Prelude\<close>: Python's strings, dictionaries and sorting, used everywhere; \<open>Errors\<close>: \<open>errors.py\<close>.
  \<^item> \<open>Naming\<close>: \<open>naming.py\<close>; \<open>Units\<close>: \<open>units.py\<close>; \<open>Status\<close>: \<open>status.py\<close>, with the contract of a condition table as
    a locale; \<open>Reports\<close>: what a reader of merged conditions sees; \<open>Models\<close>: \<open>models.py\<close>.
  \<^item> \<open>Effects\<close>: \<open>postgres/sql.py\<close> and the environment; \<open>Settings\<close>, \<open>Filters\<close>, \<open>Privileges\<close>: \<open>postgres/settings.py\<close>,
    \<open>filters.py\<close>, \<open>privileges.py\<close>; \<open>Parameters\<close>: the contract of statements that set and reset parameters, which
    \<open>Roles\<close> (\<open>roles.py\<close>) and \<open>PgDatabase\<close> (\<open>database.py\<close>, \<open>server.py\<close>) interpret; \<open>Base64\<close>: the standard codec.
  \<^item> \<open>Connection\<close>: \<open>postgres/connection.py\<close> and the reads of \<open>k8s/\<close>; \<open>Context\<close>: \<open>reconcile/context.py\<close>; \<open>Locks\<close>: its
    per-resource locks as a step relation over interleaved tasks.
  \<^item> \<open>DatabaseReconcile\<close>, \<open>DatabaseStatus\<close>, \<open>DatabaseSteady\<close>: \<open>reconcile/database.py\<close>, the pass, the teardown, the status and
    the steady state.
  \<^item> \<open>Secrets\<close>: \<open>k8s/secrets.py\<close>; \<open>PushSecret\<close>: \<open>k8s/pushsecret.py\<close>; \<open>UserReconcile\<close>, \<open>UserStatus\<close>: \<open>reconcile/user.py\<close>,
    \<open>UserSteady\<close>: its steady state; \<open>Handlers\<close>: \<open>handlers/common.py\<close> with the handlers of databases and users.
  \<^item> \<open>Eligibility\<close>: \<open>reconcile/eligibility.py\<close>, over the catalog facts that \<open>Publications\<close> (\<open>postgres/publication.py\<close>)
    assembles; \<open>Logical\<close>, \<open>Subscriptions\<close>: \<open>postgres/replication.py\<close> and \<open>subscription.py\<close>; \<open>Health\<close>:
    \<open>reconcile/health.py\<close>; \<open>Clock\<close>: the calendar of \<open>datetime\<close>.
  \<^item> \<open>Instances\<close>: \<open>reconcile/instance.py\<close> and \<open>handlers/instance.py\<close>.
  \<^item> \<open>ApiDocuments\<close>, \<open>ApiStore\<close>, \<open>ApiCache\<close>: the read-only API, \<open>api/schemas.py\<close>, \<open>api/store.py\<close>, \<open>api/provider.py\<close> and
    \<open>api/routers\<close>; its cache is a step relation over interleaved requests. \<open>Config\<close>: \<open>config.py\<close>.
  \<^item> \<open>Process\<close>: \<open>handlers/startup.py\<close>, \<open>logging_setup.py\<close>, the entry points and \<open>api/main.py\<close>: the life of a process as a
    step relation over its hooks.
  \<^item> \<open>StatusTypes\<close>: the status schemas of \<open>charts/pg-operator/crds\<close>, which every status written has to fit.
  \<^item> \<open>Topology\<close>, \<open>ReplicationLogin\<close>, \<open>ReplicationReconcile\<close>, \<open>ReplicationTeardown\<close>, \<open>ReplicationStatus\<close>:
    \<open>reconcile/replication.py\<close>, from resolving both ends to the status; \<open>ReplicationHandlers\<close>:
    \<open>handlers/replication.py\<close> and its gauges; \<open>Ordering\<close>: rules for what a computation does before what, and
    \<open>ReplicationLaws\<close>, \<open>ReplicationOutcomes\<close>, \<open>ReplicationSteady\<close>: the properties of the passes over a PostgresReplication;
    \<open>Steady\<close>: what the proofs of a steady state share.

  What the properties show. Names: derived identifiers are usable and bounded, and names of different resources are
  different as long as digests are. Specs: what validation guarantees to the passes. Statements: a row filter carries
  no SQL of the spec's own, and equal statements mean equal filters; settings read back from the catalog are those
  that were set. Roles and privileges: attributes and parameters converge, a converged role is not touched, an error
  text says nothing of a password, read-only roles never receive a right to write, and a pass that succeeds has
  granted the whole matrix. Databases: under RETAIN nothing is ever dropped, under DROP only what the operator itself
  recorded; a converged database is only declared again; a database is not left closed by a failed drop; deleting
  waits for replications. Replications: a table is published exactly when both servers can carry it; the search for
  cycles is exact and admitted replications stay acyclic; nothing of someone else is taken over; a slot is recorded
  before anything depends on it; the publication converges to the judged tables; a converged replication is left
  alone; deleting removes what status records and nothing else, and never a slot that is in use. Users: a pass touches
  nothing but its own role and Secrets, memberships and passwords converge, a converged user is left alone, a deleted
  user is kept or dropped as its policy says. Handlers: failures reach the status, and a finalizer is released exactly
  when the teardown is done. Instances: a server is never changed for the sake of its own resource, and a changed one
  is never judged from memory. Status: the conditions say what the pass found, every document fits its schema, and the
  API shows it as it was written. Locks: one pass per resource, and no waiter is left behind. The API's cache: one
  load at a time, fresh answers, a bounded number of loads. The process: handlers share one context, made from the
  settings read first, and a stop closes every pool.

  Bounds. No recursion here needs fuel: loops of the code run over finite lists, the two counting loops of the
  calendar and \<open>format_bytes\<close> and the queue of the search for a cycle have measures, and the loop that waits for a
  slot to be released counts down the 20 rounds the code itself allows.

  Not modelled: the text of log lines (but for those of the startup and of server notices), counters and histograms,
  which are output; kopf, uvicorn and FastAPI beyond what they are called with; the web page, the chart (but for its status
  schemas) and the scripts.
\<close>

end
